(* ===== verification/Prelude.thy ===== *)
theory Prelude
  imports Complex_Main "HOL-Library.Char_ord" "HOL-Library.List_Lexorder" "HOL-Library.Code_Target_Nat"
begin

text \<open>
  Shared vocabulary of the development.

  \<^item> JavaScript strings are \<^typ>\<open>string\<close>: lists of code units below 256 (Latin-1), on which
    \<open>length\<close>, \<open>slice\<close>, \<open>trim\<close>, \<open>toLowerCase\<close> and the UTF-8 byte length are exact.
  \<^item> A thrown value is a \<open>js_error\<close>; an \<open>async\<close> method is a computation
    \<open>'s \<Rightarrow> (js_error + 'a) \<times> 's\<close>, so that a state written before a throw is visible
    in the model, and a transaction that rolls it back is a definition of its own.
  \<^item> \<open>preserves\<close> is the invariant calculus of these computations; its rules are collected in
    \<open>preserves_rules\<close> and used by every invariant proof of the components.
\<close>

named_theorems preserves_rules "composition rules for state invariants of computations"
named_theorems comp_simps "evaluation of the computation combinators"

subsection \<open>Errors (src/errors.ts has the operations on them)\<close>

datatype op_code =
    CRABBOX_UNCONFIGURED
  | DEPLOYMENT_TARGET_UNAVAILABLE
  | CRABBOX_UNREACHABLE
  | CRABBOX_CREATE_HTTP
  | CRABBOX_CREATE_STATE
  | CRABBOX_INSPECT_HTTP
  | CRABBOX_DELETE_HTTP
  | CRABBOX_IDENTITY_MISMATCH
  | CRABBOX_WORKSPACE_FAILED
  | CLAWROUTER_UNCONFIGURED
  | CLAWROUTER_UNREACHABLE
  | CLAWROUTER_REJECTED
  | CLAWROUTER_STATUS_INVALID
  | CHILD_CONTROL_FAILED
  | CHILD_COMMAND_MISSING
  | CHILD_IDENTITY_MISMATCH
  | CHILD_STATUS_INVALID
  | CHILD_HEALTH_INVALID
  | CHILD_DRAIN_INVALID
  | CHILD_POLICY_CAS_CONFLICT
  | SLACK_CREDENTIALS_UNRESOLVED
  | CHILD_INGRESS_DISABLE_FAILED
  | CHILD_PROVISION_FAILED
  | CHILD_RECONCILE_FAILED
  | CHILD_REMOVAL_FAILED

datatype js_error =
    RequestError string              \<comment> \<open>\<open>CrabhelmRequestError\<close>\<close>
  | OperationalError op_code string  \<comment> \<open>\<open>CrabhelmOperationalError\<close>\<close>
  | WriteConflict                    \<comment> \<open>\<open>RegistryWriteConflictError\<close>\<close>
  | PlainError string                \<comment> \<open>\<open>Error\<close>\<close>
  | SyntaxErr string                 \<comment> \<open>\<open>SyntaxError\<close>, from \<open>JSON.parse\<close>\<close>

subsection \<open>Results\<close>

type_synonym 'a result = "js_error + 'a"

definition bindR :: "'a result \<Rightarrow> ('a \<Rightarrow> 'b result) \<Rightarrow> 'b result" where
  "bindR m f = (case m of Inl e \<Rightarrow> Inl e | Inr a \<Rightarrow> f a)"

lemma bindR_simps [simp]:
  "bindR (Inl e) f = Inl e"
  "bindR (Inr a) f = f a"
  by (simp_all add: bindR_def)

lemma bindR_eq_Inr [simp]: "bindR m f = Inr b \<longleftrightarrow> (\<exists>a. m = Inr a \<and> f a = Inr b)"
  by (cases m) auto

lemma bindR_split:
  "P (bindR m f) \<longleftrightarrow> (\<forall>e. m = Inl e \<longrightarrow> P (Inl e)) \<and> (\<forall>a. m = Inr a \<longrightarrow> P (f a))"
  by (cases m) auto

lemma bindR_cong [fundef_cong]:
  "m = m' \<Longrightarrow> (\<And>a. m' = Inr a \<Longrightarrow> f a = f' a) \<Longrightarrow> bindR m f = bindR m' f'"
  by (cases m') auto

text \<open>\<open>if (bad) throw e; ...\<close>\<close>

definition refuse_if :: "bool \<Rightarrow> js_error \<Rightarrow> unit result" where
  "refuse_if bad e = (if bad then Inl e else Inr ())"

lemma refuse_if_Inr [simp]: "refuse_if bad e = Inr u \<longleftrightarrow> \<not> bad"
  by (simp add: refuse_if_def)

text \<open>\<open>values.map(f)\<close> with a callback that may throw: the first throw wins.\<close>

fun mapR :: "('a \<Rightarrow> 'b result) \<Rightarrow> 'a list \<Rightarrow> 'b list result" where
  "mapR f [] = Inr []"
| "mapR f (x # xs) = bindR (f x) (\<lambda>y. bindR (mapR f xs) (\<lambda>ys. Inr (y # ys)))"

lemma mapR_length: "mapR f xs = Inr ys \<Longrightarrow> length ys = length xs"
  by (induction xs arbitrary: ys) auto

lemma mapR_nth: "mapR f xs = Inr ys \<Longrightarrow> i < length xs \<Longrightarrow> f (xs ! i) = Inr (ys ! i)"
  by (induction xs arbitrary: ys i) (auto simp: less_Suc_eq_0_disj)

lemma mapR_set: "mapR f xs = Inr ys \<Longrightarrow> y \<in> set ys \<Longrightarrow> \<exists>x\<in>set xs. f x = Inr y"
  by (induction xs arbitrary: ys) auto

subsection \<open>Computations with state\<close>

type_synonym ('s, 'a) comp = "'s \<Rightarrow> 'a result \<times> 's"

definition retC :: "'a \<Rightarrow> ('s, 'a) comp" where
  "retC a = (\<lambda>s. (Inr a, s))"

definition throwC :: "js_error \<Rightarrow> ('s, 'a) comp" where
  "throwC e = (\<lambda>s. (Inl e, s))"

definition bindC :: "('s, 'a) comp \<Rightarrow> ('a \<Rightarrow> ('s, 'b) comp) \<Rightarrow> ('s, 'b) comp" where
  "bindC m f = (\<lambda>s. case m s of (Inl e, s') \<Rightarrow> (Inl e, s') | (Inr a, s') \<Rightarrow> f a s')"

definition thenC :: "('s, 'a) comp \<Rightarrow> ('s, 'b) comp \<Rightarrow> ('s, 'b) comp" where
  "thenC m k = bindC m (\<lambda>_. k)"

definition getC :: "('s \<Rightarrow> 'a) \<Rightarrow> ('s, 'a) comp" where
  "getC f = (\<lambda>s. (Inr (f s), s))"

definition modC :: "('s \<Rightarrow> 's) \<Rightarrow> ('s, unit) comp" where
  "modC f = (\<lambda>s. (Inr (), f s))"

definition liftR :: "'a result \<Rightarrow> ('s, 'a) comp" where
  "liftR r = (\<lambda>s. (r, s))"

definition refuseC :: "bool \<Rightarrow> js_error \<Rightarrow> ('s, unit) comp" where
  "refuseC bad e = (if bad then throwC e else retC ())"

text \<open>\<open>try { m } catch (e) { h(e) }\<close>: what \<open>m\<close> wrote before it threw stays.\<close>

definition catchC :: "('s, 'a) comp \<Rightarrow> (js_error \<Rightarrow> ('s, 'a) comp) \<Rightarrow> ('s, 'a) comp" where
  "catchC m h = (\<lambda>s. case m s of (Inl e, s') \<Rightarrow> h e s' | (Inr a, s') \<Rightarrow> (Inr a, s'))"

text \<open>\<open>for (const x of xs) await f(x)\<close>.\<close>

fun forC :: "('a \<Rightarrow> ('s, 'b) comp) \<Rightarrow> 'a list \<Rightarrow> ('s, unit) comp" where
  "forC f [] = retC ()"
| "forC f (x # xs) = thenC (f x) (forC f xs)"

text \<open>\<open>Promise.all(xs.map(f))\<close> for callbacks that do not interfere: left to right.\<close>

fun mapC :: "('a \<Rightarrow> ('s, 'b) comp) \<Rightarrow> 'a list \<Rightarrow> ('s, 'b list) comp" where
  "mapC f [] = retC []"
| "mapC f (x # xs) = bindC (f x) (\<lambda>y. bindC (mapC f xs) (\<lambda>ys. retC (y # ys)))"

lemma comp_eval [simp, comp_simps]:
  "retC a s = (Inr a, s)"
  "throwC e s = (Inl e, s)"
  "getC f s = (Inr (f s), s)"
  "modC g s = (Inr (), g s)"
  "liftR r s = (r, s)"
  by (simp_all add: retC_def throwC_def getC_def modC_def liftR_def)

lemma refuseC_eval [simp, comp_simps]:
  "refuseC bad e s = (if bad then (Inl e, s) else (Inr (), s))"
  by (simp add: refuseC_def)

lemma bindC_eval [comp_simps]:
  "bindC m f s = (case m s of (Inl e, s') \<Rightarrow> (Inl e, s') | (Inr a, s') \<Rightarrow> f a s')"
  by (simp add: bindC_def)

lemma thenC_eval [comp_simps]:
  "thenC m k s = (case m s of (Inl e, s') \<Rightarrow> (Inl e, s') | (Inr a, s') \<Rightarrow> k s')"
  by (simp add: thenC_def bindC_def)

lemma catchC_eval [comp_simps]:
  "catchC m h s = (case m s of (Inl e, s') \<Rightarrow> h e s' | (Inr a, s') \<Rightarrow> (Inr a, s'))"
  by (simp add: catchC_def)

lemma bindC_ok:
  "bindC m f s = (Inr b, t) \<longleftrightarrow> (\<exists>a s'. m s = (Inr a, s') \<and> f a s' = (Inr b, t))"
  by (auto simp: bindC_def split: prod.splits sum.splits)

lemma thenC_ok:
  "thenC m k s = (Inr b, t) \<longleftrightarrow> (\<exists>a s'. m s = (Inr a, s') \<and> k s' = (Inr b, t))"
  by (simp add: thenC_def bindC_ok)

lemmas comp_ok = bindC_ok thenC_ok

subsection \<open>Invariants of computations\<close>

definition preserves :: "('s \<Rightarrow> bool) \<Rightarrow> ('s, 'a) comp \<Rightarrow> bool" where
  "preserves P m \<longleftrightarrow> (\<forall>s. P s \<longrightarrow> P (snd (m s)))"

lemma preservesI: "(\<And>s. P s \<Longrightarrow> P (snd (m s))) \<Longrightarrow> preserves P m"
  by (simp add: preserves_def)

lemma preservesD: "preserves P m \<Longrightarrow> P s \<Longrightarrow> m s = (r, t) \<Longrightarrow> P t"
  by (metis preserves_def snd_conv)

lemma preserves_basic [preserves_rules]:
  "preserves P (retC a)"
  "preserves P (throwC e)"
  "preserves P (getC f)"
  "preserves P (liftR r)"
  "preserves P (refuseC bad e)"
  by (simp_all add: preserves_def)

lemma preserves_modC: "(\<And>s. P s \<Longrightarrow> P (f s)) \<Longrightarrow> preserves P (modC f)"
  by (simp add: preserves_def)

lemma preserves_bindC [preserves_rules]:
  "preserves P m \<Longrightarrow> (\<And>a. preserves P (f a)) \<Longrightarrow> preserves P (bindC m f)"
  unfolding preserves_def bindC_def
  by (fastforce split: prod.splits sum.splits)

lemma preserves_thenC [preserves_rules]:
  "preserves P m \<Longrightarrow> preserves P k \<Longrightarrow> preserves P (thenC m k)"
  unfolding thenC_def by (intro preserves_bindC)

lemma preserves_catchC [preserves_rules]:
  "preserves P m \<Longrightarrow> (\<And>e. preserves P (h e)) \<Longrightarrow> preserves P (catchC m h)"
  unfolding preserves_def catchC_def
  by (fastforce split: prod.splits sum.splits)

lemma preserves_if [preserves_rules]:
  "(b \<Longrightarrow> preserves P m) \<Longrightarrow> (\<not> b \<Longrightarrow> preserves P k) \<Longrightarrow> preserves P (if b then m else k)"
  by simp

lemma preserves_option [preserves_rules]:
  "preserves P m \<Longrightarrow> (\<And>a. x = Some a \<Longrightarrow> preserves P (f a)) \<Longrightarrow>
    preserves P (case x of None \<Rightarrow> m | Some a \<Rightarrow> f a)"
  by (cases x) auto

lemma preserves_forC [preserves_rules]:
  "(\<And>x. x \<in> set xs \<Longrightarrow> preserves P (f x)) \<Longrightarrow> preserves P (forC f xs)"
  by (induction xs) (auto intro!: preserves_rules)

lemma preserves_mapC [preserves_rules]:
  "(\<And>x. x \<in> set xs \<Longrightarrow> preserves P (f x)) \<Longrightarrow> preserves P (mapC f xs)"
  by (induction xs) (auto intro!: preserves_rules)

end
