(* ===== verification/JsString.thy ===== *)
theory JsString
  imports Prelude "HOL-Library.Product_Lexorder"
begin

text \<open>
  The string operations of the language that the source uses (\<open>trim\<close>, \<open>toLowerCase\<close>,
  \<open>slice\<close>, \<open>split\<close>, byte length, decimal printing), the character classes of its regular
  expressions, and \<open>slugify\<close> of src/domain.ts with the shape of its result.
\<close>

subsection \<open>Characters\<close>

abbreviation code_unit :: "char \<Rightarrow> nat" where
  "code_unit \<equiv> of_char"

definition is_lower :: "char \<Rightarrow> bool" where
  "is_lower c \<longleftrightarrow> 97 \<le> code_unit c \<and> code_unit c \<le> 122"

definition is_upper :: "char \<Rightarrow> bool" where
  "is_upper c \<longleftrightarrow> 65 \<le> code_unit c \<and> code_unit c \<le> 90"

definition is_digit :: "char \<Rightarrow> bool" where
  "is_digit c \<longleftrightarrow> 48 \<le> code_unit c \<and> code_unit c \<le> 57"

definition is_alnum :: "char \<Rightarrow> bool" where
  "is_alnum c \<longleftrightarrow> is_lower c \<or> is_upper c \<or> is_digit c"

definition is_lower_alnum :: "char \<Rightarrow> bool" where
  "is_lower_alnum c \<longleftrightarrow> is_lower c \<or> is_digit c"

definition is_hex :: "char \<Rightarrow> bool" where
  "is_hex c \<longleftrightarrow> is_digit c \<or> (97 \<le> code_unit c \<and> code_unit c \<le> 102)"

text \<open>White space that \<open>String.prototype.trim\<close> removes, among the code units below 256.\<close>

definition is_space :: "char \<Rightarrow> bool" where
  "is_space c \<longleftrightarrow> code_unit c \<in> {9, 10, 11, 12, 13, 32, 160}"

lemmas char_class_defs = is_lower_def is_upper_def is_digit_def is_alnum_def
  is_lower_alnum_def is_hex_def is_space_def

text \<open>\<open>toLowerCase\<close> of one code unit below 256 (no such unit changes its length).\<close>

definition lower_char :: "char \<Rightarrow> char" where
  "lower_char c =
     (let n = code_unit c in
      if (65 \<le> n \<and> n \<le> 90) \<or> (192 \<le> n \<and> n \<le> 222 \<and> n \<noteq> 215) then char_of (n + 32) else c)"

definition to_lower :: "string \<Rightarrow> string" where
  "to_lower s = map lower_char s"

lemma code_unit_less [simp]: "code_unit c < 256"
  using of_char_mod_256 [of c] by (metis mod_less_divisor zero_less_numeral)

lemma is_upper_lower_char [simp]: "\<not> is_upper (lower_char c)"
proof (cases "(65 \<le> code_unit c \<and> code_unit c \<le> 90) \<or>
    (192 \<le> code_unit c \<and> code_unit c \<le> 222 \<and> code_unit c \<noteq> 215)")
  case True
  then have "code_unit (lower_char c) = code_unit c + 32"
    by (auto simp: lower_char_def Let_def of_char_of)
  with True show ?thesis by (auto simp: is_upper_def)
next
  case False
  then show ?thesis by (auto simp: lower_char_def Let_def is_upper_def)
qed

subsection \<open>The order of \<open>localeCompare\<close>\<close>

text \<open>The root collation on ASCII: punctuation, then digits, then letters without regard to case; strings
  that agree so far are told apart by case, lower case first. (Letters above ASCII are ordered by code
  unit after \<open>z\<close>.) Two strings have the same key only when they are equal.\<close>

definition primary_weight :: "char \<Rightarrow> nat" where
  "primary_weight c =
     (let n = code_unit c in
      if is_upper c then 2032 + n else if is_lower c then 2000 + n
      else if is_digit c then 1000 + n else if n < 128 then n else 3000 + n)"

definition case_weight :: "char \<Rightarrow> nat" where
  "case_weight c = (if is_upper c then 1 else 0)"

definition locale_key :: "string \<Rightarrow> nat list \<times> nat list" where
  "locale_key s = (map primary_weight s, map case_weight s)"

definition locale_less :: "string \<Rightarrow> string \<Rightarrow> bool" where
  \<comment> \<open>\<open>a.localeCompare(b) < 0\<close>\<close>
  "locale_less a b \<longleftrightarrow> locale_key a < locale_key b"

lemma char_eqI: "code_unit c = code_unit d \<Longrightarrow> c = d"
  by (metis char_of_char)

lemma weights_inj: "primary_weight c = primary_weight d \<Longrightarrow> case_weight c = case_weight d \<Longrightarrow> c = d"
  using code_unit_less [of c] code_unit_less [of d]
  by (intro char_eqI) (auto simp: primary_weight_def case_weight_def Let_def char_class_defs split: if_splits)

lemma locale_key_inj: "locale_key a = locale_key b \<Longrightarrow> a = b"
proof (induction a arbitrary: b)
  case (Cons c a)
  then obtain d b' where b: "b = d # b'" by (cases b) (auto simp: locale_key_def)
  then show ?case using Cons weights_inj by (auto simp: locale_key_def)
qed (simp add: locale_key_def)

subsection \<open>Trimming, slicing, splitting\<close>

definition trim_start :: "string \<Rightarrow> string" where
  "trim_start s = dropWhile is_space s"

definition trim :: "string \<Rightarrow> string" where
  "trim s = rev (dropWhile is_space (rev (trim_start s)))"

definition slice :: "nat \<Rightarrow> string \<Rightarrow> string" where
  "slice n s = take n s"

text \<open>\<open>Buffer.byteLength(s, "utf8")\<close> on code units below 256.\<close>

definition utf8_length :: "string \<Rightarrow> nat" where
  "utf8_length s = (\<Sum>c\<leftarrow>s. if code_unit c < 128 then 1 else 2)"

text \<open>\<open>s.replace(/^c+|c+$/g, "")\<close> for one character class.\<close>

definition strip_class :: "(char \<Rightarrow> bool) \<Rightarrow> string \<Rightarrow> string" where
  "strip_class p s = rev (dropWhile p (rev (dropWhile p s)))"

lemma trim_eq_strip: "trim s = strip_class is_space s"
  by (simp add: trim_def trim_start_def strip_class_def)

lemma strip_class_Nil [simp]: "strip_class p [] = []"
  by (simp add: strip_class_def)

lemma set_dropWhile_subset: "set (dropWhile p xs) \<subseteq> set xs"
  by (meson set_dropWhileD subsetI)

lemma set_strip_class: "set (strip_class p s) \<subseteq> set s"
proof
  fix x assume "x \<in> set (strip_class p s)"
  then have "x \<in> set (dropWhile p (rev (dropWhile p s)))" by (simp only: strip_class_def set_rev)
  then have "x \<in> set (rev (dropWhile p s))" by (rule set_dropWhileD)
  then have "x \<in> set (dropWhile p s)" by (simp only: set_rev)
  then show "x \<in> set s" by (rule set_dropWhileD)
qed

lemma length_strip_class: "length (strip_class p s) \<le> length s"
  unfolding strip_class_def length_rev
  by (rule order_trans [OF length_dropWhile_le]) (simp only: length_rev length_dropWhile_le)

lemma last_rev_dropWhile: "rev (dropWhile p (rev xs)) \<noteq> [] \<Longrightarrow> \<not> p (last (rev (dropWhile p (rev xs))))"
  using hd_dropWhile [of p "rev xs"] by (simp add: last_rev)

lemma hd_rev_dropWhile_rev:
  assumes "xs \<noteq> []" and "\<not> p (hd xs)"
  shows "rev (dropWhile p (rev xs)) \<noteq> [] \<and> hd (rev (dropWhile p (rev xs))) = hd xs"
proof -
  obtain x ys where xs: "xs = x # ys" using assms(1) by (cases xs) auto
  with assms(2) have nx: "\<not> p x" by simp
  have "dropWhile p (rev ys @ [x]) = dropWhile p (rev ys) @ [x]"
    using nx by (simp add: dropWhile_append dropWhile_eq_Nil_conv)
  then show ?thesis using xs by simp
qed

lemma strip_class_hd: "strip_class p s \<noteq> [] \<Longrightarrow> \<not> p (hd (strip_class p s))"
proof -
  assume ne: "strip_class p s \<noteq> []"
  then have d: "dropWhile p s \<noteq> []"
    unfolding strip_class_def by (metis dropWhile.simps(1) rev.simps(1))
  then have "\<not> p (hd (dropWhile p s))" by (rule hd_dropWhile)
  with d show ?thesis using hd_rev_dropWhile_rev [of "dropWhile p s" p]
    by (simp add: strip_class_def)
qed

lemma strip_class_last: "strip_class p s \<noteq> [] \<Longrightarrow> \<not> p (last (strip_class p s))"
  unfolding strip_class_def by (rule last_rev_dropWhile)

lemma strip_class_id:
  "s = [] \<or> (\<not> p (hd s) \<and> \<not> p (last s)) \<Longrightarrow> strip_class p s = s"
proof (cases s rule: rev_cases)
  case (snoc ys y)
  assume "s = [] \<or> (\<not> p (hd s) \<and> \<not> p (last s))"
  with snoc have "\<not> p (hd s)" "\<not> p y" by auto
  then have "dropWhile p s = s" using snoc by (metis dropWhile.simps(2) list.exhaust_sel snoc_eq_iff_butlast)
  with snoc \<open>\<not> p y\<close> show ?thesis by (simp add: strip_class_def)
qed simp

lemma strip_class_idem [simp]: "strip_class p (strip_class p s) = strip_class p s"
  by (rule strip_class_id) (use strip_class_hd [of p s] strip_class_last [of p s] in blast)

lemma trim_idem [simp]: "trim (trim s) = trim s"
  by (simp add: trim_eq_strip)

lemma utf8_length_simps [simp]:
  "utf8_length [] = 0"
  "utf8_length (c # s) = (if code_unit c < 128 then 1 else 2) + utf8_length s"
  by (simp_all add: utf8_length_def)

lemma length_le_utf8_length: "length s \<le> utf8_length s"
  by (induction s) auto

fun split_on :: "char \<Rightarrow> string \<Rightarrow> string list" where
  "split_on d [] = [[]]"
| "split_on d (c # s) =
     (if c = d then [] # split_on d s
      else (case split_on d s of [] \<Rightarrow> [[c]] | w # ws \<Rightarrow> (c # w) # ws))"

fun join_with :: "string \<Rightarrow> string list \<Rightarrow> string" where
  "join_with sep [] = []"
| "join_with sep [w] = w"
| "join_with sep (w # v # ws) = w @ sep @ join_with sep (v # ws)"

definition prefix_of :: "string \<Rightarrow> string \<Rightarrow> bool" where
  "prefix_of p s \<longleftrightarrow> take (length p) s = p"

subsection \<open>Printing integers\<close>

definition digit_char :: "nat \<Rightarrow> char" where
  "digit_char d = char_of (48 + d mod 10)"

fun nat_str :: "nat \<Rightarrow> string" where
  "nat_str n = (if n < 10 then [digit_char n] else nat_str (n div 10) @ [digit_char n])"

declare nat_str.simps [simp del]

definition int_str :: "int \<Rightarrow> string" where
  "int_str i = (if i < 0 then ''-'' @ nat_str (nat (- i)) else nat_str (nat i))"

lemma code_unit_digit_char [simp]: "code_unit (digit_char d) = 48 + d mod 10"
  by (simp add: digit_char_def of_char_of)

lemma digit_char_is_digit [simp]: "is_digit (digit_char d)"
  by (simp add: is_digit_def)

lemma nat_str_not_Nil [simp]: "nat_str n \<noteq> []"
  by (subst nat_str.simps) simp

lemma nat_str_digits: "\<forall>c\<in>set (nat_str n). is_digit c"
proof (induction n rule: nat_str.induct)
  case (1 n)
  then show ?case by (subst nat_str.simps) auto
qed

definition digits_value :: "string \<Rightarrow> nat" where
  "digits_value s = foldl (\<lambda>a c. 10 * a + (code_unit c - 48)) 0 s"

lemma digits_value_nat_str [simp]: "digits_value (nat_str n) = n"
proof (induction n rule: nat_str.induct)
  case (1 n)
  show ?case
  proof (cases "n < 10")
    case True
    then show ?thesis by (simp add: nat_str.simps [of n] digits_value_def)
  next
    case False
    with 1 have "digits_value (nat_str (n div 10)) = n div 10" by simp
    with False show ?thesis by (simp add: nat_str.simps [of n] digits_value_def)
  qed
qed

lemma nat_str_inj: "nat_str m = nat_str n \<Longrightarrow> m = n"
  by (metis digits_value_nat_str)

subsection \<open>Regular expressions of the source, as predicates\<close>

text \<open>\<open>[...]{lo,hi}\<close> over one class, anchored on both sides.\<close>

definition class_range :: "(char \<Rightarrow> bool) \<Rightarrow> nat \<Rightarrow> nat \<Rightarrow> string \<Rightarrow> bool" where
  "class_range p lo hi s \<longleftrightarrow> lo \<le> length s \<and> length s \<le> hi \<and> list_all p s"

text \<open>\<open>[first][rest]{0,n}\<close>, anchored on both sides.\<close>

definition head_tail :: "(char \<Rightarrow> bool) \<Rightarrow> (char \<Rightarrow> bool) \<Rightarrow> nat \<Rightarrow> string \<Rightarrow> bool" where
  "head_tail p q n s = (case s of [] \<Rightarrow> False | c # cs \<Rightarrow> p c \<and> length cs \<le> n \<and> list_all q cs)"

definition slug_char :: "char \<Rightarrow> bool" where
  "slug_char c \<longleftrightarrow> is_lower_alnum c \<or> c = CHR ''-''"

definition slugPattern :: "string \<Rightarrow> bool" where
  \<comment> \<open>\<open>/^[a-z0-9](?:[a-z0-9-]{0,61}[a-z0-9])?$/\<close>\<close>
  "slugPattern s \<longleftrightarrow> s \<noteq> [] \<and> length s \<le> 63 \<and> is_lower_alnum (hd s) \<and> is_lower_alnum (last s) \<and>
     list_all slug_char s"

definition subjectPattern :: "string \<Rightarrow> bool" where
  \<comment> \<open>\<open>/^[a-zA-Z0-9][a-zA-Z0-9_.:@/+\-]{0,199}$/\<close>\<close>
  "subjectPattern s = head_tail is_alnum (\<lambda>c. is_alnum c \<or> c \<in> set ''_.:@/+-'') 199 s"

definition sha256Pattern :: "string \<Rightarrow> bool" where
  \<comment> \<open>\<open>/^[0-9a-f]{64}$/\<close>\<close>
  "sha256Pattern s = class_range is_hex 64 64 s"

definition model_part :: "string \<Rightarrow> bool" where
  \<comment> \<open>\<open>[a-zA-Z0-9][a-zA-Z0-9_.:\-]{0,199}\<close>\<close>
  "model_part s = head_tail is_alnum (\<lambda>c. is_alnum c \<or> c \<in> set ''_.:-'') 199 s"

definition directModelPattern :: "string \<Rightarrow> bool" where
  \<comment> \<open>\<open>/^[a-z0-9][a-z0-9_.-]*(?:\/[a-zA-Z0-9][a-zA-Z0-9_.:\-]{0,199})+$/\<close>\<close>
  "directModelPattern s =
     (case split_on (CHR ''/'') s of
        p # q # qs \<Rightarrow>
          head_tail is_lower_alnum (\<lambda>c. is_lower_alnum c \<or> c \<in> set ''_.-'') (length s) p \<and>
          list_all model_part (q # qs)
      | _ \<Rightarrow> False)"

definition clawRouterModelPattern :: "string \<Rightarrow> bool" where
  \<comment> \<open>\<open>/^clawrouter\/[a-z0-9][a-z0-9-]{0,63}\/ident{1,200}(?:\/ident{1,200})*$/\<close>\<close>
  "clawRouterModelPattern s =
     (case split_on (CHR ''/'') s of
        r # p # q # qs \<Rightarrow>
          r = ''clawrouter'' \<and> head_tail is_lower_alnum slug_char 63 p \<and> list_all model_part (q # qs)
      | _ \<Rightarrow> False)"

definition serviceNamePattern :: "string \<Rightarrow> bool" where
  \<comment> \<open>\<open>/^[A-Za-z0-9][A-Za-z0-9._-]{0,119}$/u\<close>\<close>
  "serviceNamePattern s = head_tail is_alnum (\<lambda>c. is_alnum c \<or> c \<in> set ''._-'') 119 s"

definition namespacePattern :: "string \<Rightarrow> bool" where
  \<comment> \<open>\<open>/^[a-z0-9][a-z0-9_.-]{0,63}$/\<close>\<close>
  "namespacePattern s = head_tail is_lower_alnum (\<lambda>c. is_lower_alnum c \<or> c \<in> set ''_.-'') 63 s"

subsection \<open>slugify\<close>

text \<open>\<open>s.replace(/[^a-z0-9]+/g, "-")\<close>: each maximal run becomes one dash.\<close>

fun dash_runs :: "bool \<Rightarrow> string \<Rightarrow> string" where
  "dash_runs in_run [] = []"
| "dash_runs in_run (c # s) =
     (if is_lower_alnum c then c # dash_runs False s
      else if in_run then dash_runs True s
      else CHR ''-'' # dash_runs True s)"

definition is_dash :: "char \<Rightarrow> bool" where
  "is_dash c \<longleftrightarrow> c = CHR ''-''"

definition slugify :: "string \<Rightarrow> string" where
  "slugify value =
     (let clean = dash_runs False (to_lower (trim value));
          stripped = strip_class is_dash clean
      in rev (dropWhile is_dash (rev (slice 63 stripped))))"

lemma dash_runs_chars: "\<forall>c\<in>set (dash_runs b s). slug_char c"
  by (induction b s rule: dash_runs.induct) (auto simp: slug_char_def)

lemma slug_char_not_dash: "slug_char c \<Longrightarrow> \<not> is_dash c \<Longrightarrow> is_lower_alnum c"
  by (simp add: slug_char_def is_dash_def)

lemma slugify_shape:
  assumes ne: "slugify value \<noteq> []"
  shows "slugPattern (slugify value)"
proof -
  let ?clean = "dash_runs False (to_lower (trim value))"
  let ?st = "strip_class is_dash ?clean"
  let ?cut = "slice 63 ?st"
  let ?out = "rev (dropWhile is_dash (rev ?cut))"
  have out: "slugify value = ?out" by (simp add: slugify_def Let_def)
  have sub: "set ?out \<subseteq> set ?st"
  proof
    fix x assume "x \<in> set ?out"
    then have "x \<in> set (dropWhile is_dash (rev ?cut))" by (simp only: set_rev)
    then have "x \<in> set (rev ?cut)" by (rule set_dropWhileD)
    then show "x \<in> set ?st" unfolding slice_def set_rev by (rule in_set_takeD)
  qed
  have chars: "\<forall>c\<in>set ?out. slug_char c"
    using sub set_strip_class [of is_dash ?clean] dash_runs_chars [of False "to_lower (trim value)"]
    by blast
  have cut_ne: "?cut \<noteq> []" using ne out by auto
  then have st_ne: "?st \<noteq> []" by (auto simp: slice_def)
  have hd_cut: "hd ?cut = hd ?st" using st_ne by (simp add: slice_def hd_take)
  have "\<not> is_dash (hd ?cut)" using strip_class_hd [OF st_ne] hd_cut by simp
  then have hd_out: "hd ?out = hd ?cut" using hd_rev_dropWhile_rev [OF cut_ne] by simp
  have "\<not> is_dash (hd ?out)" "\<not> is_dash (last ?out)"
    using hd_out \<open>\<not> is_dash (hd ?cut)\<close> last_rev_dropWhile [of is_dash ?cut] ne out by auto
  moreover have "slug_char (hd ?out)" "slug_char (last ?out)"
    using chars ne [unfolded out] hd_in_set last_in_set by metis+
  moreover have "length ?out \<le> 63"
    using length_dropWhile_le [of is_dash "rev ?cut"] by (simp add: slice_def)
  ultimately show ?thesis
    using ne chars out by (simp add: slugPattern_def list_all_iff slug_char_not_dash)
qed

end
