(* ===== verification/StateStore.thy ===== *)
theory StateStore
  imports JsString
begin

text \<open>
  The key-value stores behind every registry: the in-memory store and the SQLite store of
  src/state.ts, and the Durable Object store of worker/state.ts with its paged capacity scan.
  A store is the list of the entries of one namespace. The contract the registries rely on is
  the locale \<open>state_store\<close>, with the capacity laws in \<open>bounded_store\<close>; the three stores are its
  interpretations.
\<close>

record 'v entry =
  e_key :: string
  e_value :: 'v
  e_created :: int

definition mk_entry :: "string \<Rightarrow> 'v \<Rightarrow> int \<Rightarrow> 'v entry" where
  "mk_entry k v now = \<lparr>e_key = k, e_value = v, e_created = now\<rparr>"

lemma mk_entry_simps [simp]:
  "e_key (mk_entry k v now) = k"
  "e_value (mk_entry k v now) = v"
  "e_created (mk_entry k v now) = now"
  by (simp_all add: mk_entry_def)

definition find_entry :: "string \<Rightarrow> 'v entry list \<Rightarrow> 'v entry option" where
  "find_entry k t = find (\<lambda>e. e_key e = k) t"

definition keys_of :: "'v entry list \<Rightarrow> string list" where
  "keys_of t = map e_key t"

text \<open>Write an entry over the one with its key, or at the end.\<close>

fun upsert :: "'v entry \<Rightarrow> 'v entry list \<Rightarrow> 'v entry list" where
  "upsert e [] = [e]"
| "upsert e (x # xs) = (if e_key x = e_key e then e # xs else x # upsert e xs)"

definition drop_key :: "string \<Rightarrow> 'v entry list \<Rightarrow> 'v entry list" where
  "drop_key k t = filter (\<lambda>e. e_key e \<noteq> k) t"

lemma find_entry_simps [simp]:
  "find_entry k [] = None"
  "find_entry k (e # t) = (if e_key e = k then Some e else find_entry k t)"
  by (simp_all add: find_entry_def)

lemma keys_of_simps [simp]:
  "keys_of [] = []"
  "keys_of (e # t) = e_key e # keys_of t"
  by (simp_all add: keys_of_def)

lemma find_entry_None: "find_entry k t = None \<longleftrightarrow> k \<notin> set (keys_of t)"
  by (induction t) auto

lemma find_entry_Some:
  "distinct (keys_of t) \<Longrightarrow> find_entry k t = Some e \<longleftrightarrow> e \<in> set t \<and> e_key e = k"
  by (induction t) (auto simp: keys_of_def rev_image_eqI)

lemma find_entry_SomeD: "find_entry k t = Some e \<Longrightarrow> e \<in> set t \<and> e_key e = k"
  by (induction t) (auto split: if_splits)

lemma find_entry_upsert [simp]:
  "find_entry k (upsert e t) = (if e_key e = k then Some e else find_entry k t)"
  by (induction t) auto

lemma keys_upsert: "keys_of (upsert e t) = (if e_key e \<in> set (keys_of t) then keys_of t else keys_of t @ [e_key e])"
  by (induction t) auto

lemma set_upsert: "distinct (keys_of t) \<Longrightarrow> set (upsert e t) = insert e {x \<in> set t. e_key x \<noteq> e_key e}"
  by (induction t) (auto simp: keys_of_def image_iff)

lemma length_upsert: "length (upsert e t) = (if e_key e \<in> set (keys_of t) then length t else Suc (length t))"
  by (induction t) auto

lemma distinct_keys_upsert: "distinct (keys_of t) \<Longrightarrow> distinct (keys_of (upsert e t))"
  by (simp add: keys_upsert)

lemma drop_key_simps [simp]:
  "drop_key k [] = []"
  "drop_key k (e # t) = (if e_key e = k then drop_key k t else e # drop_key k t)"
  by (simp_all add: drop_key_def)

lemma find_entry_drop_key [simp]: "find_entry k' (drop_key k t) = (if k' = k then None else find_entry k' t)"
  by (induction t) auto

lemma set_drop_key: "set (drop_key k t) = {e \<in> set t. e_key e \<noteq> k}"
  by (auto simp: drop_key_def)

lemma distinct_keys_drop_key: "distinct (keys_of t) \<Longrightarrow> distinct (keys_of (drop_key k t))"
  by (induction t) (auto simp: keys_of_def set_drop_key)

lemma length_drop_key:
  "distinct (keys_of t) \<Longrightarrow> k \<in> set (keys_of t) \<Longrightarrow> Suc (length (drop_key k t)) = length t"
proof (induction t)
  case (Cons e t)
  have "k \<notin> set (keys_of t) \<Longrightarrow> drop_key k t = t"
    by (auto simp: drop_key_def keys_of_def filter_id_conv)
  with Cons show ?case by auto
qed simp

subsection \<open>The contract\<close>

locale state_store =
  fixes register :: "string \<Rightarrow> 'v \<Rightarrow> int \<Rightarrow> 't \<Rightarrow> 't result"
    and find :: "string \<Rightarrow> 't \<Rightarrow> 'v option"
    and remove :: "string \<Rightarrow> 't \<Rightarrow> 't"
    and entries :: "'t \<Rightarrow> 'v entry list"
    and wf :: "'t \<Rightarrow> bool"
  assumes register_wf: "wf t \<Longrightarrow> register k v now t = Inr t' \<Longrightarrow> wf t'"
    and register_same: "wf t \<Longrightarrow> register k v now t = Inr t' \<Longrightarrow> find k t' = Some v"
    and register_other: "wf t \<Longrightarrow> register k v now t = Inr t' \<Longrightarrow> k' \<noteq> k \<Longrightarrow>
      find k' t' = find k' t \<or> find k' t' = None"
    and register_over: "wf t \<Longrightarrow> register k v now t = Inr t' \<Longrightarrow> find k t \<noteq> None \<Longrightarrow> k' \<noteq> k \<Longrightarrow>
      find k' t' = find k' t"
    and remove_wf: "wf t \<Longrightarrow> wf (remove k t)"
    and find_remove: "wf t \<Longrightarrow> find k' (remove k t) = (if k' = k then None else find k' t)"
    and find_entries: "wf t \<Longrightarrow> find k t = Some v \<longleftrightarrow> (\<exists>e\<in>set (entries t). e_key e = k \<and> e_value e = v)"
    and entries_keys: "wf t \<Longrightarrow> distinct (keys_of (entries t))"
begin

text \<open>Every value a successful write leaves behind is the one written or one already there.\<close>

lemma register_values:
  assumes "wf t" "register k v now t = Inr t'" "e \<in> set (entries t')"
  shows "(e_key e = k \<and> e_value e = v) \<or> (\<exists>e'\<in>set (entries t). e_key e' = e_key e \<and> e_value e' = e_value e)"
proof -
  have f: "find (e_key e) t' = Some (e_value e)"
    using assms register_wf find_entries by blast
  show ?thesis
  proof (cases "e_key e = k")
    case True
    with f register_same [OF assms(1,2)] show ?thesis by simp
  next
    case False
    then have "find (e_key e) t = Some (e_value e)"
      using register_other [OF assms(1,2) False] f by auto
    then show ?thesis using find_entries [OF assms(1)] by blast
  qed
qed

definition all_values :: "(string \<Rightarrow> 'v \<Rightarrow> bool) \<Rightarrow> 't \<Rightarrow> bool" where
  "all_values P t \<longleftrightarrow> (\<forall>k v. find k t = Some v \<longrightarrow> P k v)"

lemma all_values_register:
  "wf t \<Longrightarrow> all_values P t \<Longrightarrow> register k v now t = Inr t' \<Longrightarrow> P k v \<Longrightarrow> all_values P t'"
  unfolding all_values_def by (metis option.distinct(1) option.inject register_other register_same)

lemma all_values_remove: "wf t \<Longrightarrow> all_values P t \<Longrightarrow> all_values P (remove k t)"
  by (simp add: all_values_def find_remove)

lemma remove_register:
  "wf t \<Longrightarrow> register k v now t = Inr t' \<Longrightarrow> find k (remove k t') = None"
  by (simp add: find_remove register_wf)

end

text \<open>A store with a capacity: it never exceeds it, and a full one that may not evict refuses.\<close>

locale bounded_store = state_store +
  fixes cap :: nat and evicts :: bool
  assumes register_bound: "wf t \<Longrightarrow> 1 \<le> cap \<Longrightarrow> length (entries t) \<le> cap \<Longrightarrow> register k v now t = Inr t' \<Longrightarrow>
      length (entries t') \<le> cap"
    and register_full: "wf t \<Longrightarrow> \<not> evicts \<Longrightarrow> find k t = None \<Longrightarrow> cap \<le> length (entries t) \<Longrightarrow>
      \<exists>e. register k v now t = Inl e"
    and register_room: "wf t \<Longrightarrow> register k v now t = Inr t' \<Longrightarrow> length (entries t) < cap \<Longrightarrow> k' \<noteq> k \<Longrightarrow>
      find k' t' = find k' t"
begin

text \<open>Without eviction a write never loses another key.\<close>

lemma register_no_loss:
  assumes "wf t" "\<not> evicts" "register k v now t = Inr t'" "k' \<noteq> k"
  shows "find k' t' = find k' t"
proof (cases "find k t = None")
  case True
  have "length (entries t) < cap"
    using register_full [OF assms(1,2) True, of v now] assms(3) by fastforce
  with assms show ?thesis by (intro register_room)
next
  case False
  with assms show ?thesis by (intro register_over)
qed

end

subsection \<open>src/state.ts: the in-memory store\<close>

definition mem_register :: "string \<Rightarrow> 'v \<Rightarrow> int \<Rightarrow> 'v entry list \<Rightarrow> 'v entry list result" where
  "mem_register k v now t = Inr (upsert (mk_entry k v now) t)"

definition mem_lookup :: "string \<Rightarrow> 'v entry list \<Rightarrow> 'v option" where
  "mem_lookup k t = map_option e_value (find_entry k t)"

definition mem_delete :: "string \<Rightarrow> 'v entry list \<Rightarrow> bool \<times> 'v entry list" where
  "mem_delete k t = (find_entry k t \<noteq> None, drop_key k t)"

definition mem_entries :: "'v entry list \<Rightarrow> 'v entry list" where
  "mem_entries t = t"

definition table_wf :: "'v entry list \<Rightarrow> bool" where
  "table_wf t \<longleftrightarrow> distinct (keys_of t)"

lemma mem_find_iff:
  "table_wf t \<Longrightarrow> mem_lookup k t = Some v \<longleftrightarrow> (\<exists>e\<in>set t. e_key e = k \<and> e_value e = v)"
  by (auto simp: mem_lookup_def table_wf_def find_entry_Some)

interpretation mem: state_store mem_register mem_lookup "\<lambda>k t. snd (mem_delete k t)" mem_entries table_wf
proof
  fix t :: "'a entry list" and k k' v
  show "table_wf t \<Longrightarrow> (mem_lookup k t = Some v) = (\<exists>e\<in>set (mem_entries t). e_key e = k \<and> e_value e = v)"
    by (simp add: mem_find_iff mem_entries_def)
qed (auto simp: mem_register_def mem_lookup_def mem_delete_def mem_entries_def table_wf_def
      distinct_keys_upsert distinct_keys_drop_key)

subsection \<open>src/state.ts: the SQLite store\<close>

record store_options =
  max_entries :: nat
  evict_oldest :: bool

definition requireKey :: "string \<Rightarrow> unit result" where
  "requireKey k = refuse_if (k = [] \<or> length k > 500) (PlainError ''state key is invalid'')"

definition store_created :: "string \<Rightarrow> int \<Rightarrow> unit result" where
  "store_created namespace maxEntries =
     bindR (refuse_if (\<not> namespacePattern namespace) (PlainError ''state namespace is invalid'')) (\<lambda>_.
       refuse_if (maxEntries < 1) (PlainError ''state store maxEntries must be a positive integer''))"

text \<open>\<open>ORDER BY created_at, "key"\<close>.\<close>

definition selectAll :: "'v entry list \<Rightarrow> 'v entry list" where
  "selectAll t = sort_key (\<lambda>e. (e_created e, e_key e)) t"

definition removeOldest :: "'v entry list \<Rightarrow> 'v entry list" where
  "removeOldest t = (case selectAll t of [] \<Rightarrow> t | e # _ \<Rightarrow> drop_key (e_key e) t)"

definition limit_error :: "nat \<Rightarrow> js_error" where
  "limit_error n = PlainError (''state store entry limit exceeded ('' @ nat_str n @ '')'')"

definition sql_register :: "store_options \<Rightarrow> string \<Rightarrow> 'v \<Rightarrow> int \<Rightarrow> 'v entry list \<Rightarrow> 'v entry list result" where
  "sql_register opts k v now t =
     bindR (requireKey k) (\<lambda>_.
       bindR (if find_entry k t = None \<and> max_entries opts \<le> length t
              then (if evict_oldest opts then Inr (removeOldest t)
                    else Inl (limit_error (max_entries opts)))
              else Inr t) (\<lambda>t'.
         Inr (upsert (mk_entry k v now) t')))"

definition sql_lookup :: "string \<Rightarrow> 'v entry list \<Rightarrow> 'v option result" where
  "sql_lookup k t = bindR (requireKey k) (\<lambda>_. Inr (map_option e_value (find_entry k t)))"

definition sql_delete :: "string \<Rightarrow> 'v entry list \<Rightarrow> (bool \<times> 'v entry list) result" where
  "sql_delete k t = bindR (requireKey k) (\<lambda>_. Inr (find_entry k t \<noteq> None, drop_key k t))"

definition sql_entries :: "'v entry list \<Rightarrow> 'v entry list" where
  "sql_entries t = selectAll t"

lemma set_selectAll [simp]: "set (selectAll t) = set t"
  by (simp add: selectAll_def)

lemma length_selectAll [simp]: "length (selectAll t) = length t"
  by (simp add: selectAll_def)

lemma distinct_keys_selectAll: "distinct (keys_of t) \<Longrightarrow> distinct (keys_of (selectAll t))"
  by (simp add: keys_of_def selectAll_def distinct_map)

lemma removeOldest_cases:
  obtains "t = []" "removeOldest t = []" | e where "e \<in> set t" "removeOldest t = drop_key (e_key e) t"
    "\<forall>x\<in>set t. (e_created e, e_key e) \<le> (e_created x, e_key x)"
proof (cases "selectAll t")
  case Nil
  then have "t = []" by (metis length_0_conv length_selectAll)
  with Nil that(1) show ?thesis by (simp add: removeOldest_def)
next
  case (Cons e es)
  then have "e \<in> set t" by (metis list.set_intros(1) set_selectAll)
  moreover have "sorted (map (\<lambda>e. (e_created e, e_key e)) (e # es))"
    using sorted_sort_key [of "\<lambda>e. (e_created e, e_key e)" t] Cons by (simp only: selectAll_def)
  then have "\<forall>x\<in>set (e # es). (e_created e, e_key e) \<le> (e_created x, e_key x)"
    by (simp only: list.map sorted_simps) auto
  ultimately show ?thesis using Cons that(2) by (metis (mono_tags, lifting) list.simps(5) removeOldest_def set_selectAll)
qed

lemma removeOldest_wf: "distinct (keys_of t) \<Longrightarrow> distinct (keys_of (removeOldest t))"
  by (cases t rule: removeOldest_cases) (auto simp: distinct_keys_drop_key)

lemma removeOldest_find:
  "find_entry k (removeOldest t) = find_entry k t \<or> find_entry k (removeOldest t) = None"
  by (cases t rule: removeOldest_cases) auto

lemma removeOldest_length:
  "distinct (keys_of t) \<Longrightarrow> t \<noteq> [] \<Longrightarrow> Suc (length (removeOldest t)) = length t"
  by (cases t rule: removeOldest_cases) (auto simp: length_drop_key keys_of_def)

lemma removeOldest_subset: "set (removeOldest t) \<subseteq> set t"
  by (cases t rule: removeOldest_cases) (auto simp: set_drop_key)

text \<open>What a successful SQLite write did.\<close>

lemma sql_register_ok:
  assumes "sql_register opts k v now t = Inr t'"
  obtains u where "t' = upsert (mk_entry k v now) u"
    "u = t \<or> (find_entry k t = None \<and> max_entries opts \<le> length t \<and> evict_oldest opts \<and> u = removeOldest t)"
    "find_entry k t = None \<and> max_entries opts \<le> length t \<longrightarrow> u = removeOldest t"
  using assms that by (auto simp: sql_register_def split: if_splits)

lemma sql_register_errors:
  "sql_register opts k v now t = Inl e \<longleftrightarrow>
     (requireKey k = Inl e) \<or>
     (requireKey k = Inr () \<and> find_entry k t = None \<and> max_entries opts \<le> length t \<and> \<not> evict_oldest opts \<and>
       e = limit_error (max_entries opts))"
  by (cases "requireKey k") (auto simp: sql_register_def)

lemma keys_find_entry: "k \<in> set (keys_of t) \<longleftrightarrow> find_entry k t \<noteq> None"
  by (simp add: find_entry_None)

lemma sql_register_length:
  assumes "table_wf t" "1 \<le> max_entries opts" "length t \<le> max_entries opts"
    "sql_register opts k v now t = Inr t'"
  shows "length t' \<le> max_entries opts"
proof -
  obtain u where u: "t' = upsert (mk_entry k v now) u"
    "u = t \<or> (find_entry k t = None \<and> max_entries opts \<le> length t \<and> evict_oldest opts \<and> u = removeOldest t)"
    "find_entry k t = None \<and> max_entries opts \<le> length t \<longrightarrow> u = removeOldest t"
    using assms(4) by (rule sql_register_ok)
  show ?thesis
  proof (cases "find_entry k t = None \<and> max_entries opts \<le> length t")
    case True
    then have "t \<noteq> []" using assms(2) by auto
    then have "Suc (length u) = length t"
      using True u(3) removeOldest_length assms(1) by (auto simp: table_wf_def)
    with assms(3) show ?thesis by (simp add: u(1) length_upsert)
  next
    case False
    then have "u = t" using u(2) by auto
    with False assms(3) show ?thesis by (auto simp: u(1) length_upsert keys_find_entry)
  qed
qed

lemma sql_register_wf: "table_wf t \<Longrightarrow> sql_register opts k v now t = Inr t' \<Longrightarrow> table_wf t'"
  by (erule sql_register_ok) (auto simp: table_wf_def distinct_keys_upsert removeOldest_wf)

lemma sql_register_same: "sql_register opts k v now t = Inr t' \<Longrightarrow> mem_lookup k t' = Some v"
  by (erule sql_register_ok) (auto simp: mem_lookup_def)

lemma mem_lookup_removeOldest:
  "mem_lookup k (removeOldest t) = mem_lookup k t \<or> mem_lookup k (removeOldest t) = None"
  using removeOldest_find [of k t] by (auto simp: mem_lookup_def)

lemma mem_lookup_upsert [simp]:
  "mem_lookup k (upsert e t) = (if e_key e = k then Some (e_value e) else mem_lookup k t)"
  by (simp add: mem_lookup_def)

lemma mem_lookup_drop_key [simp]:
  "mem_lookup k' (drop_key k t) = (if k' = k then None else mem_lookup k' t)"
  by (simp add: mem_lookup_def)

lemma sql_register_other:
  "sql_register opts k v now t = Inr t' \<Longrightarrow> k' \<noteq> k \<Longrightarrow>
    mem_lookup k' t' = mem_lookup k' t \<or> mem_lookup k' t' = None"
  by (erule sql_register_ok) (use mem_lookup_removeOldest [of k' t] in auto)

lemma sql_register_over:
  "sql_register opts k v now t = Inr t' \<Longrightarrow> find_entry k t \<noteq> None \<or> length t < max_entries opts \<Longrightarrow>
    k' \<noteq> k \<Longrightarrow> mem_lookup k' t' = mem_lookup k' t"
  by (erule sql_register_ok) (auto simp: mem_lookup_def)

lemma mem_lookup_None: "mem_lookup k t = None \<longleftrightarrow> find_entry k t = None"
  by (simp add: mem_lookup_def)

lemma table_wf_drop_key: "table_wf t \<Longrightarrow> table_wf (drop_key k t)"
  by (simp add: table_wf_def distinct_keys_drop_key)

lemma table_wf_keys: "table_wf t \<Longrightarrow> distinct (keys_of (selectAll t))"
  by (simp add: table_wf_def distinct_keys_selectAll)

lemma sql_register_full:
  assumes "\<not> evict_oldest opts" "find_entry k t = None" "max_entries opts \<le> length t"
  shows "\<exists>e. sql_register opts k v now t = Inl e"
  using assms by (cases "requireKey k") (auto simp: sql_register_errors)

interpretation sql: bounded_store "sql_register opts" mem_lookup drop_key sql_entries table_wf
    "max_entries opts" "evict_oldest opts" for opts
proof (unfold_locales, goal_cases)
  case (3 t k v now t' k')
  then show ?case by (intro sql_register_other)
next
  case (7 t k v)
  then show ?case by (simp add: mem_find_iff sql_entries_def)
next
  case (10 t k v now)
  then show ?case by (auto simp: sql_entries_def mem_lookup_None intro: sql_register_full)
qed (auto simp: sql_entries_def mem_lookup_None sql_register_wf sql_register_same
      sql_register_over sql_register_length table_wf_drop_key table_wf_keys)

subsection \<open>worker/state.ts: the Durable Object store\<close>

text \<open>\<open>encodeURIComponent\<close> on code units below 256: the unreserved characters stand for themselves,
  every other one is the percent-encoding of its UTF-8 bytes.\<close>

definition uri_unreserved :: "char \<Rightarrow> bool" where
  "uri_unreserved c \<longleftrightarrow> is_alnum c \<or> c \<in> set [CHR ''-'', CHR ''_'', CHR ''.'', CHR ''!'', CHR ''~'',
     CHR ''*'', CHR 0x27, CHR ''('', CHR '')'']"

definition hex_digit :: "nat \<Rightarrow> char" where
  "hex_digit d = char_of (if d < 10 then 48 + d else 55 + d)"

definition percent_byte :: "nat \<Rightarrow> string" where
  "percent_byte b = [CHR ''%'', hex_digit (b div 16), hex_digit (b mod 16)]"

definition encode_char :: "char \<Rightarrow> string" where
  "encode_char c =
     (if uri_unreserved c then [c]
      else if code_unit c < 128 then percent_byte (code_unit c)
      else percent_byte (192 + code_unit c div 64) @ percent_byte (128 + code_unit c mod 64))"

definition encodeURIComponent :: "string \<Rightarrow> string" where
  "encodeURIComponent s = concat (map encode_char s)"

type_synonym 'v do_storage = "(string \<times> 'v entry) list"

definition storage_key :: "string \<Rightarrow> string \<Rightarrow> string" where
  "storage_key namespace k = ''state:'' @ namespace @ '':'' @ encodeURIComponent k"

text \<open>\<open>storage.put\<close> keeps the key-value pairs of the object sorted by storage key.\<close>

fun do_put :: "string \<Rightarrow> 'v entry \<Rightarrow> 'v do_storage \<Rightarrow> 'v do_storage" where
  "do_put sk e [] = [(sk, e)]"
| "do_put sk e ((sk', e') # st) =
     (if sk = sk' then (sk, e) # st
      else if sk < sk' then (sk, e) # (sk', e') # st
      else (sk', e') # do_put sk e st)"

definition do_remove :: "string \<Rightarrow> 'v do_storage \<Rightarrow> 'v do_storage" where
  "do_remove sk st = filter (\<lambda>p. fst p \<noteq> sk) st"

definition page_limit :: nat where
  "page_limit = 128"

text \<open>\<open>storage.list({ prefix, startAfter, limit: 128, noCache: true })\<close>.\<close>

definition do_list :: "string option \<Rightarrow> 'v do_storage \<Rightarrow> 'v do_storage" where
  "do_list startAfter st =
     take page_limit (filter (\<lambda>p. case startAfter of None \<Rightarrow> True | Some k \<Rightarrow> k < fst p) st)"

text \<open>One entry of a page against the oldest seen; \<open>collate\<close> is \<open>localeCompare(...) < 0\<close>.\<close>

definition older :: "(string \<Rightarrow> string \<Rightarrow> bool) \<Rightarrow> (string \<times> int) option \<Rightarrow> string \<times> 'v entry \<Rightarrow> (string \<times> int) option" where
  "older collate oldest p =
     (case oldest of
        None \<Rightarrow> Some (fst p, e_created (snd p))
      | Some (k, made) \<Rightarrow>
          if e_created (snd p) < made \<or> (e_created (snd p) = made \<and> collate (fst p) k)
          then Some (fst p, e_created (snd p)) else oldest)"

lemma page_shrinks:
  assumes "p \<in> set (filter Q st)" "\<And>x. R x \<Longrightarrow> Q x" "\<not> R p"
  shows "length (filter R st) < length (filter Q st)"
  using assms(1)
proof (induction st)
  case (Cons a st)
  have le: "length (filter R st) \<le> length (filter Q st)"
    by (induction st) (auto dest: assms(2))
  show ?case using Cons le assms(2) [of a] assms(3) by (auto split: if_splits)
qed simp

function (sequential) do_scan ::
    "(string \<Rightarrow> string \<Rightarrow> bool) \<Rightarrow> store_options \<Rightarrow> 'v do_storage \<Rightarrow> string option \<Rightarrow> nat \<Rightarrow>
      (string \<times> int) option \<Rightarrow> (nat \<times> (string \<times> int) option) result" where
  "do_scan collate opts st startAfter count oldest =
     (let page = do_list startAfter st;
          count' = count + length page;
          oldest' = foldl (older collate) oldest page;
          startAfter' = (if page = [] then startAfter else Some (fst (last page)))
      in if max_entries opts \<le> count' \<and> \<not> evict_oldest opts then Inl (limit_error (max_entries opts))
         else if length page < page_limit then Inr (count', oldest')
         else do_scan collate opts st startAfter' count' oldest')"
  by pat_completeness auto
termination
proof (relation "measure (\<lambda>(collate, opts, st, after, count, oldest).
    length (filter (\<lambda>p. case after of None \<Rightarrow> True | Some k \<Rightarrow> k < fst p) st))", goal_cases)
  case (2 collate opts st after count oldest page)
  let ?Q = "\<lambda>p. case after of None \<Rightarrow> True | Some k \<Rightarrow> k < fst p"
  have ne: "page \<noteq> []" using 2 by (auto simp: page_limit_def)
  then have "last page \<in> set page" by simp
  then have in_Q: "last page \<in> set (filter ?Q st)"
    unfolding 2(1) do_list_def by (rule in_set_takeD)
  have "length (filter (\<lambda>p. fst (last page) < fst p) st) < length (filter ?Q st)"
    using in_Q by (intro page_shrinks [OF in_Q]) (auto split: option.splits)
  then show ?case using ne 2(4) by simp
qed simp

declare do_scan.simps [simp del]

definition do_register ::
    "(string \<Rightarrow> string \<Rightarrow> bool) \<Rightarrow> string \<Rightarrow> store_options \<Rightarrow> string \<Rightarrow> 'v \<Rightarrow> int \<Rightarrow> 'v do_storage \<Rightarrow>
      'v do_storage result" where
  "do_register collate namespace opts k v now st =
     bindR (requireKey k) (\<lambda>_.
       let sk = storage_key namespace k in
       bindR (if map_of st sk = None
              then bindR (do_scan collate opts st None 0 None) (\<lambda>(count, oldest).
                     Inr (case oldest of
                            Some (ok, _) \<Rightarrow> if max_entries opts \<le> count then do_remove ok st else st
                          | None \<Rightarrow> st))
              else Inr st) (\<lambda>st'.
         Inr (do_put sk (mk_entry k v now) st')))"

definition do_lookup :: "string \<Rightarrow> string \<Rightarrow> 'v do_storage \<Rightarrow> 'v option result" where
  "do_lookup namespace k st =
     bindR (requireKey k) (\<lambda>_. Inr (map_option e_value (map_of st (storage_key namespace k))))"

definition do_delete :: "string \<Rightarrow> string \<Rightarrow> 'v do_storage \<Rightarrow> (bool \<times> 'v do_storage) result" where
  "do_delete namespace k st =
     bindR (requireKey k) (\<lambda>_.
       let sk = storage_key namespace k in Inr (map_of st sk \<noteq> None, do_remove sk st))"

definition do_entries :: "'v do_storage \<Rightarrow> 'v entry list" where
  "do_entries st = map snd st"

subsection \<open>Storage keys never collide\<close>

lemma hex_digit_inj: "a < 16 \<Longrightarrow> b < 16 \<Longrightarrow> hex_digit a = hex_digit b \<Longrightarrow> a = b"
  by (auto simp: hex_digit_def of_char_of dest!: arg_cong [where f = "code_unit"] split: if_splits)

lemma percent_byte_inj: "a < 256 \<Longrightarrow> b < 256 \<Longrightarrow> percent_byte a = percent_byte b \<Longrightarrow> a = b"
proof -
  assume "a < 256" "b < 256" "percent_byte a = percent_byte b"
  then have "a div 16 = b div 16" "a mod 16 = b mod 16"
    by (auto simp: percent_byte_def intro!: hex_digit_inj)
  then show "a = b" by (metis div_mult_mod_eq)
qed

lemma length_percent_byte [simp]: "length (percent_byte b) = 3"
  by (simp add: percent_byte_def)

lemma percent_byte_hd [simp]: "hd (percent_byte b) = CHR ''%''" "percent_byte b \<noteq> []"
  by (simp_all add: percent_byte_def)

lemma percent_reserved [simp]: "\<not> uri_unreserved (CHR ''%'')"
  by (simp add: uri_unreserved_def char_class_defs)

text \<open>\<open>encode_char\<close> is a prefix code.\<close>

lemma encode_char_prefix:
  assumes "encode_char c @ x = encode_char d @ y"
  shows "c = d \<and> x = y"
proof -
  have hd_eq: "hd (encode_char c) = hd (encode_char d)"
    using assms by (metis encode_char_def hd_append2 list.distinct(1) percent_byte_hd(2) append_is_Nil_conv)
  have unres: "uri_unreserved c \<longleftrightarrow> uri_unreserved d"
    using hd_eq by (auto simp: encode_char_def hd_append split: if_splits)
  show ?thesis
  proof (cases "uri_unreserved c")
    case True
    with assms unres show ?thesis by (simp add: encode_char_def)
  next
    case False
    let ?b = "\<lambda>c. if code_unit c < 128 then code_unit c else 192 + code_unit c div 64"
    have pc: "take 3 (encode_char e @ z) = percent_byte (?b e)" if "\<not> uri_unreserved e" for e z
      using that by (simp add: encode_char_def)
    have lt: "?b e < 256" for e using code_unit_less [of e] by (auto simp del: code_unit_less)
    have "percent_byte (?b c) = percent_byte (?b d)"
      using pc [OF False, of x] pc [of d y] assms False unres by simp
    then have "?b c = ?b d" by (rule percent_byte_inj [OF lt lt])
    show ?thesis
    proof (cases "code_unit c < 128")
      case True
      with \<open>?b c = ?b d\<close> have "code_unit d = code_unit c" by (auto split: if_splits)
      then have "d = c" by (metis char_of_char)
      with assms show ?thesis by simp
    next
      case big: False
      with \<open>?b c = ?b d\<close> have d: "\<not> code_unit d < 128" "code_unit c div 64 = code_unit d div 64"
        by (auto split: if_splits)
      have "percent_byte (128 + code_unit c mod 64) @ x = percent_byte (128 + code_unit d mod 64) @ y"
        using assms False unres big d by (simp add: encode_char_def)
      then have "percent_byte (128 + code_unit c mod 64) = percent_byte (128 + code_unit d mod 64)"
        by (metis append_eq_append_conv length_percent_byte)
      then have "128 + code_unit c mod 64 = 128 + code_unit d mod 64"
        by (rule percent_byte_inj [rotated 2]) auto
      with d(2) have "code_unit d = code_unit c" by (metis add_left_cancel div_mult_mod_eq)
      then have "d = c" by (metis char_of_char)
      with assms show ?thesis by simp
    qed
  qed
qed

lemma encode_char_not_Nil [simp]: "encode_char c \<noteq> []"
  by (simp add: encode_char_def)

lemma encodeURIComponent_simps [simp]:
  "encodeURIComponent [] = []"
  "encodeURIComponent (c # s) = encode_char c @ encodeURIComponent s"
  by (simp_all add: encodeURIComponent_def)

lemma encodeURIComponent_inj: "encodeURIComponent a = encodeURIComponent b \<Longrightarrow> a = b"
proof (induction a arbitrary: b)
  case Nil
  then show ?case by (cases b) auto
next
  case (Cons c a)
  then obtain d b' where b: "b = d # b'" by (cases b) auto
  with Cons.prems have "c = d \<and> encodeURIComponent a = encodeURIComponent b'"
    by (simp only: encodeURIComponent_simps) (rule encode_char_prefix)
  with Cons.IH b show ?case by simp
qed

lemma storage_key_inj [simp]: "storage_key ns a = storage_key ns b \<longleftrightarrow> a = b"
  by (auto simp: storage_key_def dest: encodeURIComponent_inj)

subsection \<open>The paged scan computes the size and the oldest entry of the whole namespace\<close>

definition do_sorted :: "'v do_storage \<Rightarrow> bool" where
  "do_sorted st \<longleftrightarrow> sorted_wrt (<) (map fst st)"

lemma foldl_older_take: "foldl f (foldl f a (take n xs)) (drop n xs) = foldl f a xs"
  by (metis append_take_drop_id foldl_append)

lemma do_list_split:
  assumes "do_sorted (pre @ post)"
  shows "do_list (if pre = [] then None else Some (fst (last pre))) (pre @ post) = take page_limit post"
proof (cases "pre = []")
  case True
  then show ?thesis by (simp add: do_list_def)
next
  case False
  have srt: "sorted_wrt (<) (map fst pre @ map fst post)" using assms by (simp add: do_sorted_def)
  have "\<forall>p\<in>set post. fst (last pre) < fst p"
    using srt False by (auto simp: sorted_wrt_append)
  moreover have "\<forall>p\<in>set pre. \<not> fst (last pre) < fst p"
  proof
    fix p assume p: "p \<in> set pre"
    have "sorted_wrt (<) (map fst (butlast pre @ [last pre]))"
      using srt False by (simp add: sorted_wrt_append)
    then have "\<forall>q\<in>set (butlast pre). fst q < fst (last pre)" by (auto simp: sorted_wrt_append)
    moreover have "p \<in> set (butlast pre) \<or> p = last pre"
      using p False by (metis append_butlast_last_id in_set_conv_decomp rotate1.simps(2) set_ConsD set_rotate1)
    ultimately show "\<not> fst (last pre) < fst p" by (metis order_less_asym order_less_irrefl)
  qed
  ultimately have "filter (\<lambda>p. fst (last pre) < fst p) (pre @ post) = post"
    by (simp add: filter_empty_conv filter_id_conv)
  with False show ?thesis by (simp add: do_list_def)
qed

lemma do_scan_from:
  assumes "do_sorted (pre @ post)"
  shows "do_scan collate opts (pre @ post) (if pre = [] then None else Some (fst (last pre))) count oldest =
    (if max_entries opts \<le> count + length post \<and> \<not> evict_oldest opts
     then Inl (limit_error (max_entries opts))
     else Inr (count + length post, foldl (older collate) oldest post))"
  using assms
proof (induction "length post" arbitrary: pre post count oldest rule: less_induct)
  case less
  let ?after = "if pre = [] then None else Some (fst (last pre))"
  let ?page = "take page_limit post"
  have page: "do_list ?after (pre @ post) = ?page" by (rule do_list_split [OF less.prems])
  show ?case
  proof (cases "length post < page_limit")
    case True
    then show ?thesis by (subst do_scan.simps) (simp add: page Let_def)
  next
    case False
    then have len: "length ?page = page_limit" by simp
    have ne: "?page \<noteq> []" using False by (auto simp: page_limit_def)
    have eq: "pre @ post = (pre @ ?page) @ drop page_limit post" by simp
    have step: "do_scan collate opts (pre @ post) (Some (fst (last ?page))) (count + page_limit)
        (foldl (older collate) oldest ?page) =
      (if max_entries opts \<le> count + length post \<and> \<not> evict_oldest opts
       then Inl (limit_error (max_entries opts))
       else Inr (count + length post, foldl (older collate) oldest post))"
      using less.hyps [of "drop page_limit post" "pre @ ?page" "count + page_limit"
          "foldl (older collate) oldest ?page"] less.prems ne False
      by (simp add: page_limit_def foldl_older_take)
    show ?thesis
      using False ne step by (subst do_scan.simps) (simp add: page Let_def len page_limit_def)
  qed
qed

lemma do_scan_whole:
  "do_sorted st \<Longrightarrow> do_scan collate opts st None 0 None =
    (if max_entries opts \<le> length st \<and> \<not> evict_oldest opts then Inl (limit_error (max_entries opts))
     else Inr (length st, foldl (older collate) None st))"
  using do_scan_from [of "[]" st collate opts 0 None] by simp

subsection \<open>The Durable Object store meets the contract and refines the SQLite store\<close>

definition do_wf :: "string \<Rightarrow> 'v do_storage \<Rightarrow> bool" where
  "do_wf ns st \<longleftrightarrow> do_sorted st \<and> (\<forall>p\<in>set st. fst p = storage_key ns (e_key (snd p)))"

definition do_find :: "string \<Rightarrow> string \<Rightarrow> 'v do_storage \<Rightarrow> 'v option" where
  "do_find ns k st = map_option e_value (map_of st (storage_key ns k))"

lemma do_sorted_distinct: "do_sorted st \<Longrightarrow> distinct (map fst st)"
  unfolding do_sorted_def by (induction st) (auto simp: image_iff)

lemma do_sorted_Cons: "do_sorted ((sk, e) # st) \<longleftrightarrow> (\<forall>p\<in>set st. sk < fst p) \<and> do_sorted st"
  by (auto simp: do_sorted_def)

lemma do_sorted_fresh:
  assumes "do_sorted ((sk', e') # st)" "sk < sk'"
  shows "map_of st sk = None"
proof -
  have "\<forall>p\<in>set st. sk' < fst p" using assms(1) by (simp add: do_sorted_Cons)
  then have "sk \<notin> fst ` set st" using assms(2) by (metis imageE order_less_asym)
  then show ?thesis by (simp add: map_of_eq_None_iff)
qed

lemma map_of_do_put [simp]: "do_sorted st \<Longrightarrow> map_of (do_put sk e st) k = (if k = sk then Some e else map_of st k)"
proof (induction sk e st rule: do_put.induct)
  case (2 sk e sk' e' st)
  then show ?case by (auto simp: do_sorted_Cons)
qed simp

lemma fst_do_put: "fst ` set (do_put sk e st) = insert sk (fst ` set st)"
  by (induction sk e st rule: do_put.induct) auto

lemma do_sorted_put: "do_sorted st \<Longrightarrow> do_sorted (do_put sk e st)"
proof (induction sk e st rule: do_put.induct)
  case (2 sk e sk' e' st)
  show ?case
  proof (cases "sk < sk'")
    case True
    then show ?thesis using 2 by (auto simp: do_sorted_def)
  next
    case False
    show ?thesis
    proof (cases "sk = sk'")
      case True
      then show ?thesis using 2 by (auto simp: do_sorted_def)
    next
      case ne: False
      with False have lt: "sk' < sk" by auto
      have "do_sorted (do_put sk e st)" using 2 False ne by (auto simp: do_sorted_def)
      moreover have "\<forall>k\<in>fst ` set (do_put sk e st). sk' < k"
        using 2 lt by (auto simp: fst_do_put do_sorted_def)
      ultimately show ?thesis using False ne by (auto simp: do_sorted_def)
    qed
  qed
qed (simp add: do_sorted_def)

lemma set_do_put: "do_sorted st \<Longrightarrow> set (do_put sk e st) = insert (sk, e) {p \<in> set st. fst p \<noteq> sk}"
proof (induction sk e st rule: do_put.induct)
  case (2 sk e sk' e' st)
  have above: "\<forall>p\<in>set st. sk' < fst p" and srt: "do_sorted st" using 2(2) by (simp_all add: do_sorted_Cons)
  consider "sk = sk'" | "sk < sk'" | "sk' < sk" by fastforce
  then show ?case
  proof cases
    case 1
    then show ?thesis using above by fastforce
  next
    case 2
    then have "\<forall>p\<in>set st. sk < fst p" using above by (metis order_less_trans)
    then have "{p \<in> set ((sk', e') # st). fst p \<noteq> sk} = set ((sk', e') # st)"
      using \<open>sk < sk'\<close> by auto
    moreover have "sk \<noteq> sk'" using \<open>sk < sk'\<close> by auto
    ultimately show ?thesis using \<open>sk < sk'\<close> by simp
  next
    case 3
    then have "sk \<noteq> sk'" "\<not> sk < sk'" by auto
    with "2.IH" srt show ?thesis by auto
  qed
qed simp

lemma length_do_put:
  "do_sorted st \<Longrightarrow> length (do_put sk e st) = (if map_of st sk = None then Suc (length st) else length st)"
proof (induction sk e st rule: do_put.induct)
  case (2 sk e sk' e' st)
  then show ?case using do_sorted_fresh [of sk' e' st sk] by (auto simp: do_sorted_Cons)
qed simp

lemma do_sorted_remove: "do_sorted st \<Longrightarrow> do_sorted (do_remove sk st)"
  unfolding do_sorted_def do_remove_def
  by (induction st) auto

lemma map_of_do_remove [simp]: "map_of (do_remove sk st) k = (if k = sk then None else map_of st k)"
  by (induction st) (auto simp: do_remove_def)

lemma set_do_remove: "set (do_remove sk st) = {p \<in> set st. fst p \<noteq> sk}"
  by (auto simp: do_remove_def)

lemma length_filter_neq: "distinct xs \<Longrightarrow> x \<in> set xs \<Longrightarrow> Suc (length (filter (\<lambda>k. k \<noteq> x) xs)) = length xs"
proof (induction xs)
  case (Cons a xs)
  have "x \<notin> set xs \<Longrightarrow> filter (\<lambda>k. k \<noteq> x) xs = xs" by (rule filter_True) auto
  with Cons show ?case by auto
qed simp

lemma length_do_remove:
  assumes "do_sorted st" "sk \<in> fst ` set st"
  shows "Suc (length (do_remove sk st)) = length st"
proof -
  have "length (do_remove sk st) = length (filter (\<lambda>k. k \<noteq> sk) (map fst st))"
    by (simp add: do_remove_def filter_map comp_def)
  with length_filter_neq [OF do_sorted_distinct [OF assms(1)], of sk] assms(2) show ?thesis by simp
qed

lemma do_wf_put: "do_wf ns st \<Longrightarrow> do_wf ns (do_put (storage_key ns k) (mk_entry k v now) st)"
  by (auto simp: do_wf_def do_sorted_put set_do_put)

lemma do_wf_remove: "do_wf ns st \<Longrightarrow> do_wf ns (do_remove sk st)"
  by (auto simp: do_wf_def do_sorted_remove set_do_remove)

lemma do_find_put [simp]:
  "do_wf ns st \<Longrightarrow> do_find ns k' (do_put (storage_key ns k) (mk_entry k v now) st) =
    (if k' = k then Some v else do_find ns k' st)"
  by (simp add: do_wf_def do_find_def)

lemma do_find_entries:
  assumes wf: "do_wf ns st"
  shows "do_find ns k st = Some v \<longleftrightarrow> (\<exists>e\<in>set (do_entries st). e_key e = k \<and> e_value e = v)"
proof -
  have d: "distinct (map fst st)" and keys: "\<forall>p\<in>set st. fst p = storage_key ns (e_key (snd p))"
    using wf by (simp_all add: do_wf_def do_sorted_distinct)
  have "do_find ns k st = Some v \<longleftrightarrow> (\<exists>e. (storage_key ns k, e) \<in> set st \<and> e_value e = v)"
    using map_of_eq_Some_iff [OF d] by (auto simp: do_find_def)
  also have "\<dots> \<longleftrightarrow> (\<exists>p\<in>set st. e_key (snd p) = k \<and> e_value (snd p) = v)"
    using keys by (metis fst_conv prod.collapse snd_conv storage_key_inj)
  finally show ?thesis by (simp add: do_entries_def)
qed

lemma do_entries_keys: "do_wf ns st \<Longrightarrow> distinct (keys_of (do_entries st))"
proof -
  assume wf: "do_wf ns st"
  then have "map fst st = map (storage_key ns) (keys_of (do_entries st))"
    by (simp add: do_wf_def do_entries_def keys_of_def)
  with wf show ?thesis by (metis do_sorted_distinct do_wf_def distinct_map)
qed

text \<open>The victim of an eviction.\<close>

definition victim :: "(string \<Rightarrow> string \<Rightarrow> bool) \<Rightarrow> 'v do_storage \<Rightarrow> (string \<times> int) option" where
  "victim collate st = foldl (older collate) None st"

lemma foldl_older_Some: "\<exists>k c. foldl (older collate) (Some x) st = Some (k, c)"
  by (induction st arbitrary: x) (auto simp: older_def split: prod.split)

lemma foldl_older_member:
  "foldl (older collate) old st = Some (k, c) \<Longrightarrow> old = Some (k, c) \<or> (\<exists>e. (k, e) \<in> set st \<and> e_created e = c)"
proof (induction st arbitrary: old)
  case (Cons p st)
  then have "older collate old p = Some (k, c) \<or> (\<exists>e. (k, e) \<in> set st \<and> e_created e = c)" by simp
  then show ?case
    by (cases p) (fastforce simp: older_def split: option.splits if_splits)
qed simp

lemma victim_None: "victim collate st = None \<longleftrightarrow> st = []"
proof (cases st)
  case (Cons p st')
  obtain k c where "foldl (older collate) (Some (fst p, e_created (snd p))) st' = Some (k, c)"
    using foldl_older_Some by blast
  then show ?thesis by (simp add: victim_def Cons older_def)
qed (simp add: victim_def)

lemma victim_member: "victim collate st = Some (k, c) \<Longrightarrow> \<exists>e. (k, e) \<in> set st \<and> e_created e = c"
  unfolding victim_def by (drule foldl_older_member) simp

text \<open>What a Durable Object write is, once the paged scan is known to be the whole namespace.\<close>

lemma do_register_eq:
  assumes wf: "do_wf ns st" and ok: "requireKey k = Inr ()"
  shows "do_register collate ns opts k v now st =
    (if do_find ns k st = None \<and> max_entries opts \<le> length st
     then (if evict_oldest opts
           then Inr (do_put (storage_key ns k) (mk_entry k v now)
                  (case victim collate st of Some (ok, _) \<Rightarrow> do_remove ok st | None \<Rightarrow> st))
           else Inl (limit_error (max_entries opts)))
     else Inr (do_put (storage_key ns k) (mk_entry k v now) st))"
proof -
  have "do_sorted st" using wf by (simp add: do_wf_def)
  then show ?thesis
    by (auto simp: do_register_def Let_def ok do_scan_whole do_find_def victim_def split: option.splits prod.splits)
qed

lemma do_register_key: "requireKey k = Inl e \<Longrightarrow> do_register collate ns opts k v now st = Inl e"
  by (simp add: do_register_def)

lemma do_register_ok:
  assumes "do_wf ns st" "do_register collate ns opts k v now st = Inr st'"
  obtains u where "st' = do_put (storage_key ns k) (mk_entry k v now) u" "do_wf ns u"
    "u = st \<or> (do_find ns k st = None \<and> max_entries opts \<le> length st \<and> evict_oldest opts \<and>
      (\<exists>ok c. victim collate st = Some (ok, c) \<and> u = do_remove ok st))"
    "do_find ns k st = None \<and> max_entries opts \<le> length st \<and> st \<noteq> [] \<longrightarrow> u \<noteq> st"
proof -
  have ok: "requireKey k = Inr ()"
  proof (cases "requireKey k")
    case (Inl e)
    then show ?thesis using assms(2) by (simp add: do_register_key)
  qed simp
  show ?thesis
  proof (cases "do_find ns k st = None \<and> max_entries opts \<le> length st \<and> st \<noteq> []")
    case True
    then obtain sk c where v: "victim collate st = Some (sk, c)"
      using victim_None [of collate st] by (cases "victim collate st") auto
    then have "sk \<in> fst ` set st" using victim_member by force
    then have "Suc (length (do_remove sk st)) = length st"
      using assms(1) by (simp add: length_do_remove do_wf_def)
    then have "do_remove sk st \<noteq> st" by (metis n_not_Suc_n)
    then show ?thesis
      using True v assms that [of "do_remove sk st"]
      by (auto simp: do_register_eq ok do_wf_remove split: if_splits)
  next
    case False
    then show ?thesis using assms that [of st] victim_None [of collate st]
      by (auto simp: do_register_eq ok split: if_splits option.splits)
  qed
qed

lemma do_find_remove: "do_find ns k' (do_remove (storage_key ns k) st) = (if k' = k then None else do_find ns k' st)"
  by (simp add: do_find_def)

lemma do_find_remove_weak: "do_find ns k (do_remove sk st) = do_find ns k st \<or> do_find ns k (do_remove sk st) = None"
  by (simp add: do_find_def)

lemma do_register_wf: "do_wf ns st \<Longrightarrow> do_register collate ns opts k v now st = Inr st' \<Longrightarrow> do_wf ns st'"
  by (erule (1) do_register_ok) (auto simp: do_wf_put)

lemma do_register_same: "do_wf ns st \<Longrightarrow> do_register collate ns opts k v now st = Inr st' \<Longrightarrow> do_find ns k st' = Some v"
  by (erule (1) do_register_ok) auto

lemma do_register_other:
  assumes "do_wf ns st" "do_register collate ns opts k v now st = Inr st'" "k' \<noteq> k"
  shows "do_find ns k' st' = do_find ns k' st \<or> do_find ns k' st' = None"
proof (rule do_register_ok [OF assms(1,2)])
  fix u
  assume u: "st' = do_put (storage_key ns k) (mk_entry k v now) u" "do_wf ns u"
    "u = st \<or> (do_find ns k st = None \<and> max_entries opts \<le> length st \<and> evict_oldest opts \<and>
      (\<exists>ok c. victim collate st = Some (ok, c) \<and> u = do_remove ok st))"
  then obtain ok where "u = st \<or> u = do_remove ok st" by blast
  then have "do_find ns k' u = do_find ns k' st \<or> do_find ns k' u = None"
    using do_find_remove_weak [of ns k' ok st] by auto
  with u(1,2) assms(3) show ?thesis by simp
qed

lemma do_register_over:
  assumes "do_wf ns st" "do_register collate ns opts k v now st = Inr st'"
    "do_find ns k st \<noteq> None \<or> length st < max_entries opts" "k' \<noteq> k"
  shows "do_find ns k' st' = do_find ns k' st"
  using assms(1,2) by (rule do_register_ok) (use assms(3,4) in auto)

lemma do_register_bound:
  assumes "do_wf ns st" "1 \<le> max_entries opts" "length st \<le> max_entries opts"
    "do_register collate ns opts k v now st = Inr st'"
  shows "length st' \<le> max_entries opts"
proof -
  obtain u where u: "st' = do_put (storage_key ns k) (mk_entry k v now) u" "do_wf ns u"
    "u = st \<or> (do_find ns k st = None \<and> max_entries opts \<le> length st \<and> evict_oldest opts \<and>
      (\<exists>ok c. victim collate st = Some (ok, c) \<and> u = do_remove ok st))"
    "do_find ns k st = None \<and> max_entries opts \<le> length st \<and> st \<noteq> [] \<longrightarrow> u \<noteq> st"
    using assms(1,4) by (rule do_register_ok)
  have len: "length st' = (if do_find ns k u = None then Suc (length u) else length u)"
    using u(2) by (simp add: u(1) length_do_put do_wf_def do_find_def)
  show ?thesis
  proof (cases "u = st")
    case True
    then show ?thesis using u(4) len assms(2,3) by (cases st) auto
  next
    case False
    then obtain sk c where v: "victim collate st = Some (sk, c)" "u = do_remove sk st" using u(3) by blast
    then have "sk \<in> fst ` set st" using victim_member by force
    then have "Suc (length u) = length st"
      using assms(1) by (simp add: v(2) length_do_remove do_wf_def)
    with len assms(3) show ?thesis by auto
  qed
qed

lemma do_register_full:
  "do_wf ns st \<Longrightarrow> \<not> evict_oldest opts \<Longrightarrow> do_find ns k st = None \<Longrightarrow> max_entries opts \<le> length st \<Longrightarrow>
    \<exists>e. do_register collate ns opts k v now st = Inl e"
  by (cases "requireKey k") (auto simp: do_register_key do_register_eq)

interpretation durable: bounded_store "do_register collate ns opts" "do_find ns"
    "\<lambda>k. do_remove (storage_key ns k)" do_entries "do_wf ns" "max_entries opts" "evict_oldest opts"
  for collate ns opts
proof (unfold_locales, goal_cases)
  case (3 t k v now t' k')
  then show ?case by (rule do_register_other)
next
  case (10 t k v now)
  then show ?case by (auto simp: do_entries_def intro: do_register_full)
qed (auto simp: do_register_wf do_register_same do_register_over do_register_bound do_wf_remove
      do_find_remove do_find_entries do_entries_keys, auto simp: do_entries_def do_register_over do_register_bound)

text \<open>Where the collation orders the storage keys as the keys themselves, both stores evict the
  same entry, so the Durable Object store refines the SQLite store.\<close>

definition collates :: "(string \<Rightarrow> string \<Rightarrow> bool) \<Rightarrow> string \<Rightarrow> string set \<Rightarrow> bool" where
  "collates collate ns K \<longleftrightarrow>
     (\<forall>a\<in>K. \<forall>b\<in>K. collate (storage_key ns a) (storage_key ns b) \<longleftrightarrow> a < b)"

definition age_of :: "'v entry \<Rightarrow> int \<times> string" where
  "age_of e = (e_created e, e_key e)"

definition store_rel :: "string \<Rightarrow> 'v do_storage \<Rightarrow> 'v entry list \<Rightarrow> bool" where
  "store_rel ns st t \<longleftrightarrow> do_wf ns st \<and> table_wf t \<and> set (do_entries st) = set t"

lemma victim_oldest:
  assumes "\<forall>p\<in>set st. fst p = storage_key ns (e_key (snd p))" "collates collate ns (e_key ` snd ` set st)" "st \<noteq> []"
  shows "\<exists>e\<in>set (do_entries st). victim collate st = Some (storage_key ns (e_key e), e_created e) \<and>
    (\<forall>x\<in>set (do_entries st). age_of e \<le> age_of x)"
  using assms
proof (induction st rule: rev_induct)
  case (snoc p st)
  have key: "fst p = storage_key ns (e_key (snd p))" using snoc.prems(1) by simp
  have step: "victim collate (st @ [p]) = older collate (victim collate st) p" by (simp add: victim_def)
  show ?case
  proof (cases "st = []")
    case True
    then show ?thesis using key by (simp add: victim_def older_def do_entries_def)
  next
    case False
    have "collates collate ns (e_key ` snd ` set st)" using snoc.prems(2) by (auto simp: collates_def)
    then obtain e where e: "e \<in> set (do_entries st)"
      "victim collate st = Some (storage_key ns (e_key e), e_created e)"
      "\<forall>x\<in>set (do_entries st). age_of e \<le> age_of x"
      using snoc False by auto
    have "e_key e \<in> e_key ` snd ` set (st @ [p])" using e(1) by (auto simp: do_entries_def)
    moreover have "e_key (snd p) \<in> e_key ` snd ` set (st @ [p])" by simp
    ultimately have c: "collate (fst p) (storage_key ns (e_key e)) \<longleftrightarrow> e_key (snd p) < e_key e"
      using snoc.prems(2) unfolding key collates_def by blast
    have cmp: "older collate (victim collate st) p =
        (if age_of (snd p) < age_of e then Some (storage_key ns (e_key (snd p)), e_created (snd p)) else victim collate st)"
      using c key by (auto simp: older_def e(2) age_of_def)
    show ?thesis
    proof (cases "age_of (snd p) < age_of e")
      case True
      then have "\<forall>x\<in>set (do_entries (st @ [p])). age_of (snd p) \<le> age_of x"
        using e(3) by (auto simp: do_entries_def)
      then show ?thesis using True step cmp by (intro bexI [of _ "snd p"]) (auto simp: do_entries_def)
    next
      case nl: False
      then have "\<forall>x\<in>set (do_entries (st @ [p])). age_of e \<le> age_of x"
        using e(3) by (auto simp: do_entries_def)
      then show ?thesis using nl step cmp e(1,2) by (intro bexI [of _ e]) (auto simp: do_entries_def)
    qed
  qed
qed simp

lemma store_rel_length: "store_rel ns st t \<Longrightarrow> length st = length t"
proof -
  assume r: "store_rel ns st t"
  then have "distinct (keys_of (do_entries st))" "distinct (keys_of t)"
    by (auto simp: store_rel_def do_entries_keys table_wf_def)
  then have "distinct (do_entries st)" "distinct t" by (auto simp: keys_of_def distinct_map)
  with r have "length (do_entries st) = length t" by (metis distinct_card store_rel_def)
  then show ?thesis by (simp add: do_entries_def)
qed

lemma store_rel_find: "store_rel ns st t \<Longrightarrow> do_find ns k st = mem_lookup k t"
proof -
  assume r: "store_rel ns st t"
  then have "do_find ns k st = Some v \<longleftrightarrow> mem_lookup k t = Some v" for v
    by (simp add: store_rel_def do_find_entries mem_find_iff)
  then show ?thesis by (metis option.exhaust)
qed

lemma store_rel_put:
  assumes "store_rel ns st t"
  shows "store_rel ns (do_put (storage_key ns k) (mk_entry k v now) st) (upsert (mk_entry k v now) t)"
proof -
  have wf: "do_wf ns st" "table_wf t" "set (do_entries st) = set t" using assms by (auto simp: store_rel_def)
  have "\<forall>p\<in>set st. fst p \<noteq> storage_key ns k \<longleftrightarrow> e_key (snd p) \<noteq> k"
    using wf(1) by (simp add: do_wf_def)
  then have "snd ` {p \<in> set st. fst p \<noteq> storage_key ns k} = {e \<in> set t. e_key e \<noteq> k}"
    using wf(3) by (force simp: do_entries_def)
  then have "set (do_entries (do_put (storage_key ns k) (mk_entry k v now) st)) = set (upsert (mk_entry k v now) t)"
    using wf by (simp add: do_entries_def do_wf_def set_do_put table_wf_def set_upsert)
  with wf show ?thesis by (simp add: store_rel_def do_wf_put table_wf_def distinct_keys_upsert)
qed

lemma store_rel_remove:
  assumes "store_rel ns st t"
  shows "store_rel ns (do_remove (storage_key ns k) st) (drop_key k t)"
proof -
  have wf: "do_wf ns st" "table_wf t" "set (do_entries st) = set t" using assms by (auto simp: store_rel_def)
  have "\<forall>p\<in>set st. fst p \<noteq> storage_key ns k \<longleftrightarrow> e_key (snd p) \<noteq> k"
    using wf(1) by (simp add: do_wf_def)
  then have "snd ` {p \<in> set st. fst p \<noteq> storage_key ns k} = {e \<in> set t. e_key e \<noteq> k}"
    using wf(3) by (force simp: do_entries_def)
  then show ?thesis
    using wf by (simp add: store_rel_def do_wf_remove table_wf_drop_key set_drop_key do_entries_def set_do_remove)
qed

lemma store_rel_evict:
  assumes r: "store_rel ns st t" and c: "collates collate ns (set (keys_of t))" and ne: "t \<noteq> []"
  obtains k c where "victim collate st = Some (storage_key ns k, c)" "removeOldest t = drop_key k t"
proof -
  have wf: "do_wf ns st" "table_wf t" "set (do_entries st) = set t" using r by (auto simp: store_rel_def)
  have ks: "e_key ` snd ` set st = set (keys_of t)"
    using wf(3) by (simp add: keys_of_def do_entries_def)
  have "st \<noteq> []" using store_rel_length [OF r] ne by auto
  then obtain e where e: "e \<in> set t" "victim collate st = Some (storage_key ns (e_key e), e_created e)"
    "\<forall>x\<in>set t. age_of e \<le> age_of x"
    using victim_oldest [of st ns collate] wf c by (auto simp: do_wf_def ks)
  obtain e' where e': "e' \<in> set t" "removeOldest t = drop_key (e_key e') t"
    "\<forall>x\<in>set t. age_of e' \<le> age_of x"
    using ne by (cases t rule: removeOldest_cases) (auto simp: age_of_def)
  have "age_of e = age_of e'" using e e' by (meson order_antisym)
  then show ?thesis using that e(2) e'(2) by (auto simp: age_of_def)
qed

text \<open>
  The collation that the Durable Object store uses is \<open>localeCompare\<close> of the storage keys. On keys of lower-case
  letters, digits and hyphens (all identifiers that the control plane draws are UUIDs) it is the order of
  the code units: a hyphen comes before the digits and the digits before the letters in both.
\<close>

definition plain_char :: "char \<Rightarrow> bool" where
  "plain_char c \<longleftrightarrow> is_lower c \<or> is_digit c \<or> c = CHR ''-''"

definition plain_key :: "string \<Rightarrow> bool" where
  "plain_key k \<longleftrightarrow> list_all plain_char k"

lemma plain_encoded: "plain_key k \<Longrightarrow> encodeURIComponent k = k"
  by (induction k) (auto simp: encodeURIComponent_def plain_key_def encode_char_def plain_char_def uri_unreserved_def char_class_defs)

lemma plain_primary: "plain_char c \<Longrightarrow> plain_char d \<Longrightarrow> primary_weight c < primary_weight d \<longleftrightarrow> c < d"
  by (auto simp: plain_char_def primary_weight_def Let_def less_char_def char_class_defs)

lemma plain_primary_eq: "plain_char c \<Longrightarrow> plain_char d \<Longrightarrow> primary_weight c = primary_weight d \<longleftrightarrow> c = d"
  using plain_primary [of c d] plain_primary [of d c] by (metis less_irrefl linorder_neqE)

lemma plain_primaries: "plain_key a \<Longrightarrow> plain_key b \<Longrightarrow> map primary_weight a < map primary_weight b \<longleftrightarrow> a < b"
proof (induction a arbitrary: b)
  case Nil
  then show ?case by (cases b) simp_all
next
  case (Cons c a)
  then show ?case by (cases b) (auto simp: plain_key_def plain_primary plain_primary_eq)
qed

lemma plain_key_eq: "plain_key a \<Longrightarrow> plain_key b \<Longrightarrow> map primary_weight a = map primary_weight b \<longleftrightarrow> a = b"
  using plain_primaries [of a b] plain_primaries [of b a] by (metis less_irrefl linorder_neqE)

lemma same_prefix: "p @ a < p @ b \<longleftrightarrow> a < (b :: nat list)" "p @ a \<le> p @ b \<longleftrightarrow> a \<le> (b :: nat list)"
  by (induction p) simp_all

lemma plain_locale: "plain_key a \<Longrightarrow> plain_key b \<Longrightarrow> locale_less (p @ a) (p @ b) \<longleftrightarrow> a < b"
  using plain_primaries [of a b] plain_key_eq [of a b]
  by (auto simp: locale_less_def locale_key_def less_prod_def same_prefix le_less)

lemma plain_collates: "list_all plain_key (keys_of t) \<Longrightarrow> collates locale_less ns (set (keys_of t))"
  using plain_locale [of _ _ "''state:'' @ ns @ '':''"] by (auto simp: collates_def list_all_iff storage_key_def plain_encoded)

text \<open>On other keys the two stores can evict different entries of the same age.\<close>

lemma ties_evict_differently:
  "victim locale_less [(storage_key ''s'' ''B'', mk_entry ''B'' 1 7), (storage_key ''s'' ''a'', mk_entry ''a'' (2 :: nat) 7)] =
     Some (storage_key ''s'' ''a'', 7) \<and>
   removeOldest [mk_entry ''B'' 1 7, mk_entry ''a'' (2 :: nat) 7] = [mk_entry ''a'' 2 7]"
  by code_simp

text \<open>
  C8. The Durable Object store refines the SQLite store on tables whose keys are lower-case letters, digits and
  hyphens (such as UUIDs): from related stores, a write of any key fails on both with the same error or succeeds
  on both with related stores (the same entries), evictions included; both evict the oldest entry, and of
  entries of the same time the one with the least key. (On other keys they can differ:
  \<open>ties_evict_differently\<close>.)
\<close>

theorem durable_refines_sqlite:
  assumes "store_rel ns st t" and "list_all plain_key (keys_of t)" and "1 \<le> max_entries opts"
  shows "(\<exists>e. do_register locale_less ns opts k v now st = Inl e \<and> sql_register opts k v now t = Inl e) \<or>
    (\<exists>st' t'. do_register locale_less ns opts k v now st = Inr st' \<and> sql_register opts k v now t = Inr t' \<and>
      store_rel ns st' t')"
proof (cases "requireKey k")
  case (Inl e)
  then show ?thesis by (simp add: do_register_key sql_register_def)
next
  case (Inr u)
  have wf: "do_wf ns st" using assms(1) by (simp add: store_rel_def)
  have ok: "requireKey k = Inr ()" using Inr by simp
  have full: "do_find ns k st = None \<and> max_entries opts \<le> length st \<longleftrightarrow>
      find_entry k t = None \<and> max_entries opts \<le> length t"
    using store_rel_find [OF assms(1)] store_rel_length [OF assms(1)] by (simp add: mem_lookup_None)
  show ?thesis
  proof (cases "find_entry k t = None \<and> max_entries opts \<le> length t")
    case True
    then have "t \<noteq> []" using assms(3) by auto
    then obtain vk c where v: "victim locale_less st = Some (storage_key ns vk, c)" "removeOldest t = drop_key vk t"
      using store_rel_evict [OF assms(1) plain_collates [OF assms(2)]] by metis
    then show ?thesis
      using True full store_rel_put [OF store_rel_remove [OF assms(1)]] v
      by (simp add: do_register_eq [OF wf ok] sql_register_def ok)
  next
    case False
    then show ?thesis
      using full store_rel_put [OF assms(1)] by (auto simp: do_register_eq [OF wf ok] sql_register_def ok)
  qed
qed

definition aged_entries :: "nat entry list" where
  "aged_entries = [mk_entry ''b2'' 7 3, mk_entry ''a-1'' 8 3, mk_entry ''a0'' 9 3]"

definition aged_storage :: "nat do_storage" where
  "aged_storage = map (\<lambda>e. (storage_key ''claws'' (e_key e), e)) [mk_entry ''a-1'' 8 3, mk_entry ''a0'' 9 3, mk_entry ''b2'' 7 3]"

theorem durable_refines_sqlite_witness:
  "\<exists>st'. do_register locale_less ''claws'' \<lparr>max_entries = 3, evict_oldest = True\<rparr> ''c'' 5 4 aged_storage = Inr st' \<and>
     store_rel ''claws'' st' [mk_entry ''b2'' 7 3, mk_entry ''a0'' 9 3, mk_entry ''c'' 5 4]"
proof -
  let ?opts = "\<lparr>max_entries = 3, evict_oldest = True\<rparr>"
  have "encodeURIComponent ''b2'' = ''b2''" "encodeURIComponent ''a-1'' = ''a-1''" "encodeURIComponent ''a0'' = ''a0''" by code_simp+
  then have "store_rel ''claws'' aged_storage aged_entries"
    by (auto simp: store_rel_def do_wf_def do_sorted_def table_wf_def do_entries_def aged_storage_def aged_entries_def keys_of_def
        storage_key_def less_char_def)
  moreover have "list_all plain_key (keys_of aged_entries)" by code_simp
  moreover have "sql_register ?opts ''c'' 5 4 aged_entries = Inr [mk_entry ''b2'' 7 3, mk_entry ''a0'' 9 3, mk_entry ''c'' 5 4]"
    by code_simp
  ultimately show ?thesis
    using durable_refines_sqlite [of "''claws''" aged_storage aged_entries ?opts "''c''" 5 4] by simp
qed

end
