(* ===== verification/Json.thy ===== *)
theory Json
  imports JsString
begin

text \<open>
  Values of the language as they come out of \<open>JSON.parse\<close> or are built by object literals, with
  the operations the source uses on them (property access, \<open>??\<close>, truthiness, object spread), and
  \<open>canonicalJson\<close> (src/governance.ts, src/domain.ts and src/registry.ts have the same text) with the
  proof that it determines the value it prints.
\<close>

datatype jsnum = Fin rat | PosInf | NegInf | NaN

datatype jsval =
    JUndef
  | JNull
  | JBool bool
  | JNum jsnum
  | JStr string
  | JArr "jsval list"
  | JObj "(string \<times> jsval) list"

definition get :: "jsval \<Rightarrow> string \<Rightarrow> jsval" where
  \<comment> \<open>\<open>v?.k\<close>\<close>
  "get v k = (case v of JObj kvs \<Rightarrow> (case map_of kvs k of Some x \<Rightarrow> x | None \<Rightarrow> JUndef) | _ \<Rightarrow> JUndef)"

definition nullish :: "jsval \<Rightarrow> bool" where
  "nullish v \<longleftrightarrow> v = JUndef \<or> v = JNull"

definition coalesce :: "jsval \<Rightarrow> jsval \<Rightarrow> jsval" where
  \<comment> \<open>\<open>a ?? b\<close>\<close>
  "coalesce a b = (if nullish a then b else a)"

fun truthy :: "jsval \<Rightarrow> bool" where
  "truthy JUndef = False"
| "truthy JNull = False"
| "truthy (JBool b) = b"
| "truthy (JNum n) = (n \<noteq> NaN \<and> n \<noteq> Fin 0)"
| "truthy (JStr s) = (s \<noteq> [])"
| "truthy (JArr _) = True"
| "truthy (JObj _) = True"

definition is_string :: "jsval \<Rightarrow> bool" where
  "is_string v = (case v of JStr _ \<Rightarrow> True | _ \<Rightarrow> False)"

definition is_integer :: "rat \<Rightarrow> bool" where
  "is_integer r \<longleftrightarrow> of_int \<lfloor>r\<rfloor> = r"

text \<open>\<open>Number.isInteger(v)\<close>, with the integer.\<close>

definition js_integer :: "jsval \<Rightarrow> int option" where
  "js_integer v = (case v of JNum (Fin r) \<Rightarrow> if is_integer r then Some \<lfloor>r\<rfloor> else None | _ \<Rightarrow> None)"

definition js_finite :: "jsval \<Rightarrow> rat option" where
  "js_finite v = (case v of JNum (Fin r) \<Rightarrow> Some r | _ \<Rightarrow> None)"

definition jint :: "int \<Rightarrow> jsval" where
  "jint i = JNum (Fin (of_int i))"

lemma is_integer_of_int [simp]: "is_integer (of_int i)"
  by (simp add: is_integer_def)

lemma js_integer_jint [simp]: "js_integer (jint i) = Some i"
  by (simp add: js_integer_def jint_def)

text \<open>\<open>{ ...a, ...b }\<close>: the keys of \<open>b\<close> replace those of \<open>a\<close> in place, new keys come last.\<close>

fun set_key :: "string \<Rightarrow> jsval \<Rightarrow> (string \<times> jsval) list \<Rightarrow> (string \<times> jsval) list" where
  "set_key k v [] = [(k, v)]"
| "set_key k v ((k', v') # kvs) = (if k' = k then (k, v) # kvs else (k', v') # set_key k v kvs)"

definition fields :: "jsval \<Rightarrow> (string \<times> jsval) list" where
  "fields v = (case v of JObj kvs \<Rightarrow> kvs | _ \<Rightarrow> [])"

definition spread :: "jsval \<Rightarrow> jsval \<Rightarrow> jsval" where
  "spread a b = JObj (foldl (\<lambda>acc (k, v). set_key k v acc) (fields a) (fields b))"

lemma map_of_set_key [simp]: "map_of (set_key k v kvs) k' = (if k' = k then Some v else map_of kvs k')"
  by (induction kvs) auto

lemma map_of_foldl_set_key:
  "map_of (foldl (\<lambda>acc (k, v). set_key k v acc) a b) k = (case map_of (rev b) k of Some v \<Rightarrow> Some v | None \<Rightarrow> map_of a k)"
proof (induction b arbitrary: a)
  case (Cons p b)
  then show ?case
    by (cases p) (auto simp: map_add_def split: option.splits)
qed simp

lemma get_spread:
  "distinct (map fst (fields b)) \<Longrightarrow>
    get (spread a b) k = (case map_of (fields b) k of Some v \<Rightarrow> v | None \<Rightarrow> get (JObj (fields a)) k)"
proof -
  assume "distinct (map fst (fields b))"
  then have "map_of (rev (fields b)) = map_of (fields b)"
    by (metis distinct_rev map_of_inject_set rev_map set_rev)
  then show ?thesis
    by (auto simp: get_def spread_def map_of_foldl_set_key split: option.splits)
qed

lemma get_JObj_fields [simp]: "get (JObj (fields a)) k = get a k"
  by (cases a) (auto simp: get_def fields_def)

subsection \<open>Printing\<close>

definition escape_char :: "char \<Rightarrow> string" where
  \<comment> \<open>one character inside \<open>JSON.stringify\<close> of a string\<close>
  "escape_char c =
     (let n = code_unit c in
      if n = 34 then [CHR 0x5C, CHR 0x22]
      else if n = 92 then [CHR 0x5C, CHR 0x5C]
      else if n = 8 then [CHR 0x5C, CHR ''b'']
      else if n = 12 then [CHR 0x5C, CHR ''f'']
      else if n = 10 then [CHR 0x5C, CHR ''n'']
      else if n = 13 then [CHR 0x5C, CHR ''r'']
      else if n = 9 then [CHR 0x5C, CHR ''t'']
      else if n < 32 then
        [CHR 0x5C, CHR ''u'', CHR ''0'', CHR ''0'', digit_char (n div 16),
         (if n mod 16 < 10 then digit_char (n mod 16) else char_of (87 + n mod 16))]
      else [c])"

definition json_quote :: "string \<Rightarrow> string" where
  "json_quote s = [CHR 0x22] @ concat (map escape_char s) @ [CHR 0x22]"

text \<open>A decimal expansion: exact for a number with at most \<open>fuel\<close> decimals.\<close>

fun frac_digits :: "nat \<Rightarrow> rat \<Rightarrow> string" where
  "frac_digits 0 r = []"
| "frac_digits (Suc fuel) r =
     (if r = 0 then [] else digit_char (nat \<lfloor>10 * r\<rfloor>) # frac_digits fuel (10 * r - of_int \<lfloor>10 * r\<rfloor>))"

definition num_str :: "rat \<Rightarrow> string" where
  "num_str r =
     (let a = \<bar>r\<bar>; w = \<lfloor>a\<rfloor>; f = a - of_int w
      in (if r < 0 then ''-'' else []) @ nat_str (nat w) @ (if f = 0 then [] else ''.'' @ frac_digits 20 f))"

definition jsnum_str :: "jsnum \<Rightarrow> string" where
  "jsnum_str n = (case n of Fin r \<Rightarrow> num_str r | _ \<Rightarrow> ''null'')"

fun print_json :: "jsval \<Rightarrow> string" where
  "print_json JUndef = ''undefined''"
| "print_json JNull = ''null''"
| "print_json (JBool b) = (if b then ''true'' else ''false'')"
| "print_json (JNum n) = jsnum_str n"
| "print_json (JStr s) = json_quote s"
| "print_json (JArr vs) =
     ''['' @ join_with '','' (map (\<lambda>v. if v = JUndef then [] else print_json v) vs) @ '']''"
| "print_json (JObj kvs) =
     ''{'' @ join_with '','' (map (\<lambda>p. json_quote (fst p) @ '':'' @ print_json (snd p)) kvs) @ ''}''"

text \<open>The entries of every object in the order of \<open>localeCompare\<close>.\<close>

fun sort_keys :: "jsval \<Rightarrow> jsval" where
  "sort_keys (JArr vs) = JArr (map sort_keys vs)"
| "sort_keys (JObj kvs) = JObj (sort_key (\<lambda>p. locale_key (fst p)) (map (\<lambda>p. (fst p, sort_keys (snd p))) kvs))"
| "sort_keys v = v"

definition canonicalJson :: "jsval \<Rightarrow> string" where
  "canonicalJson v = print_json (sort_keys v)"

text \<open>\<open>JSON.stringify\<close> keeps the insertion order.\<close>

definition stringify :: "jsval \<Rightarrow> string" where
  "stringify v = print_json v"

subsection \<open>A printed value determines the value\<close>

text \<open>A finite number of at most 20 decimals: what \<open>num_str\<close> prints exactly. (The language switches to an
  exponent below 1e-6 and from 1e21 on; the values of the program are not that small or large.)\<close>

definition decimal :: "rat \<Rightarrow> bool" where
  "decimal r \<longleftrightarrow> is_integer (r * 10 ^ 20)"

text \<open>Values with decimal numbers and no \<open>undefined\<close> element in an array.\<close>

fun plain_json :: "jsval \<Rightarrow> bool" where
  "plain_json JUndef = True"
| "plain_json JNull = True"
| "plain_json (JBool b) = True"
| "plain_json (JNum n) = (case n of Fin r \<Rightarrow> decimal r | _ \<Rightarrow> False)"
| "plain_json (JStr s) = True"
| "plain_json (JArr vs) = (\<forall>v\<in>set vs. v \<noteq> JUndef \<and> plain_json v)"
| "plain_json (JObj kvs) = (\<forall>p\<in>set kvs. plain_json (snd p))"

definition ends_value :: "string \<Rightarrow> bool" where
  "ends_value x \<longleftrightarrow> (case x of [] \<Rightarrow> True | c # _ \<Rightarrow> c \<in> {CHR '','', CHR '']'', CHR ''}''})"

text \<open>Reading one escaped character back.\<close>

definition hex_value :: "char \<Rightarrow> nat" where
  "hex_value c = (if is_digit c then code_unit c - 48 else code_unit c - 87)"

definition unescape_letter :: "char \<Rightarrow> char" where
  "unescape_letter e =
     (if e = CHR ''b'' then CHR 0x08 else if e = CHR ''f'' then CHR 0x0C else if e = CHR ''n'' then CHR 0x0A
      else if e = CHR ''r'' then CHR 0x0D else if e = CHR ''t'' then CHR 0x09 else e)"

definition unescape :: "string \<Rightarrow> (char \<times> string) option" where
  "unescape s =
     (case s of [] \<Rightarrow> None
      | c # r \<Rightarrow>
          if c \<noteq> CHR 0x5C then Some (c, r)
          else (case r of [] \<Rightarrow> None
                | e # t \<Rightarrow>
                    if e = CHR ''u''
                    then Some (char_of (16 * hex_value (t ! 2) + hex_value (t ! 3)), drop 4 t)
                    else Some (unescape_letter e, t)))"

lemma escaped_units:
  "code_unit c = 34 \<Longrightarrow> c = CHR 0x22"
  "code_unit c = 92 \<Longrightarrow> c = CHR 0x5C"
  "code_unit c = 8 \<Longrightarrow> c = CHR 0x08"
  "code_unit c = 12 \<Longrightarrow> c = CHR 0x0C"
  "code_unit c = 10 \<Longrightarrow> c = CHR 0x0A"
  "code_unit c = 13 \<Longrightarrow> c = CHR 0x0D"
  "code_unit c = 9 \<Longrightarrow> c = CHR 0x09"
  by (rule char_eqI, simp)+

lemma unescape_plain: "c \<noteq> CHR 0x5C \<Longrightarrow> unescape (c # x) = Some (c, x)"
  by (simp add: unescape_def)

lemma unescape_escape: "unescape (escape_char c @ x) = Some (c, x)"
proof -
  let ?n = "code_unit c"
  consider "?n = 34" | "?n = 92" | "?n = 8" | "?n = 12" | "?n = 10" | "?n = 13" | "?n = 9"
    | "?n < 32 \<and> ?n \<notin> {8, 9, 10, 12, 13}" | "32 \<le> ?n \<and> ?n \<noteq> 34 \<and> ?n \<noteq> 92"
    by fastforce
  then show ?thesis
  proof cases
    case 8
    let ?l = "if ?n mod 16 < 10 then digit_char (?n mod 16) else char_of (87 + ?n mod 16) :: char"
    have h: "hex_value (digit_char (?n div 16)) = ?n div 16" using 8 by (auto simp: hex_value_def)
    have l: "hex_value ?l = ?n mod 16"
      by (auto simp: hex_value_def of_char_of is_digit_def)
    have "unescape (escape_char c @ x) = Some (char_of (16 * hex_value (digit_char (?n div 16)) + hex_value ?l), x)"
      using 8 by (simp add: escape_char_def Let_def unescape_def)
    then show ?thesis by (simp add: h l)
  next
    case 9
    then have "c \<noteq> CHR 0x5C" by auto
    with 9 show ?thesis by (simp add: escape_char_def Let_def unescape_plain)
  qed (auto simp: escape_char_def Let_def unescape_def unescape_letter_def dest!: escaped_units)
qed

lemma escape_prefix: "escape_char c @ x = escape_char d @ y \<Longrightarrow> c = d \<and> x = y"
  by (metis option.inject prod.inject unescape_escape)

lemma escape_no_quote: "hd (escape_char c @ x) \<noteq> CHR 0x22 \<and> escape_char c \<noteq> []"
  by (auto simp: escape_char_def Let_def)

lemma quote_body_prefix:
  "concat (map escape_char a) @ [CHR 0x22] @ x = concat (map escape_char b) @ [CHR 0x22] @ y \<Longrightarrow> a = b \<and> x = y"
proof (induction a arbitrary: b)
  case Nil
  show ?case
  proof (cases b)
    case (Cons d b')
    have "escape_char d @ concat (map escape_char b') @ [CHR 0x22] @ y = [CHR 0x22] @ x"
      using Nil Cons by simp
    then have "hd (escape_char d @ concat (map escape_char b') @ [CHR 0x22] @ y) = CHR 0x22" by simp
    then show ?thesis using escape_no_quote by blast
  qed (use Nil in simp)
next
  case (Cons c a)
  show ?case
  proof (cases b)
    case Nil
    have "hd (escape_char c @ concat (map escape_char a) @ [CHR 0x22] @ x) = CHR 0x22"
      using Cons.prems Nil by simp
    then show ?thesis using escape_no_quote by blast
  next
    case (Cons d b')
    with Cons.prems have "escape_char c @ (concat (map escape_char a) @ [CHR 0x22] @ x) =
        escape_char d @ (concat (map escape_char b') @ [CHR 0x22] @ y)" by simp
    from escape_prefix [OF this] Cons.IH Cons show ?thesis by blast
  qed
qed

lemma json_quote_prefix: "json_quote a @ x = json_quote b @ y \<Longrightarrow> a = b \<and> x = y"
  using quote_body_prefix [of a x b y] by (simp add: json_quote_def)

lemma json_quote_hd: "json_quote s = CHR 0x22 # concat (map escape_char s) @ [CHR 0x22]"
  by (simp add: json_quote_def)

text \<open>Numbers end where the digits end.\<close>

lemma num_str_integer: "num_str (of_int i) = int_str i"
proof -
  have "\<lfloor>\<bar>of_int i :: rat\<bar>\<rfloor> = \<bar>i\<bar>" by (metis floor_of_int of_int_abs)
  moreover have "\<bar>of_int i :: rat\<bar> - of_int \<bar>i\<bar> = 0" by (simp add: of_int_abs)
  ultimately show ?thesis by (simp add: num_str_def Let_def int_str_def)
qed

lemma is_integer_iff: "is_integer r \<longleftrightarrow> (\<exists>i. r = of_int i)"
  by (metis is_integer_def is_integer_of_int)

lemma decimal_of_int [simp]: "decimal (of_int i)"
proof -
  have "of_int i * 10 ^ 20 = (of_int (i * 10 ^ 20) :: rat)" by simp
  then show ?thesis unfolding decimal_def is_integer_iff by blast
qed

definition fraction_value :: "string \<Rightarrow> rat" where
  "fraction_value ds = of_nat (digits_value ds) / 10 ^ length ds"

lemma digits_value_acc: "foldl (\<lambda>a c. 10 * a + (code_unit c - 48)) k ds = k * 10 ^ length ds + digits_value ds"
proof (induction ds arbitrary: k)
  case (Cons d ds)
  show ?case using Cons [of "10 * k + (code_unit d - 48)"] Cons [of "code_unit d - 48"]
    by (simp add: digits_value_def algebra_simps)
qed (simp add: digits_value_def)

lemma fraction_value_simps:
  "fraction_value [] = 0"
  "fraction_value (d # ds) = (of_nat (code_unit d - 48) + fraction_value ds) / 10"
proof -
  have "digits_value (d # ds) = (code_unit d - 48) * 10 ^ length ds + digits_value ds"
    using digits_value_acc [of "code_unit d - 48" ds] by (simp add: digits_value_def)
  then show "fraction_value (d # ds) = (of_nat (code_unit d - 48) + fraction_value ds) / 10"
    by (simp add: fraction_value_def field_simps)
qed (simp add: fraction_value_def digits_value_def)

text \<open>The digits after the point determine the fraction.\<close>

lemma frac_digits_value:
  assumes "0 \<le> f" "f < 1" "is_integer (f * 10 ^ n)"
  shows "fraction_value (frac_digits n f) = f \<and> (\<forall>c\<in>set (frac_digits n f). is_digit c)"
  using assms
proof (induction n arbitrary: f)
  case 0
  then have "f = 0" by (auto simp: is_integer_iff)
  then show ?case by (simp add: fraction_value_simps)
next
  case (Suc n)
  show ?case
  proof (cases "f = 0")
    case False
    let ?d = "\<lfloor>10 * f\<rfloor>"
    let ?g = "10 * f - of_int ?d"
    have d: "0 \<le> ?d" "?d < 10" using Suc.prems by (simp_all add: le_floor_iff floor_less_iff)
    obtain i where i: "f * 10 ^ Suc n = of_int i" using Suc.prems(3) unfolding is_integer_iff by blast
    have "?g * 10 ^ n = of_int (i - ?d * 10 ^ n)" using i by (simp add: algebra_simps)
    then have "is_integer (?g * 10 ^ n)" unfolding is_integer_iff by blast
    moreover have "0 \<le> ?g" "?g < 1" by linarith+
    ultimately have ih: "fraction_value (frac_digits n ?g) = ?g" "\<forall>c\<in>set (frac_digits n ?g). is_digit c"
      using Suc.IH by blast+
    have nd: "nat ?d mod 10 = nat ?d" using d by (simp add: nat_less_iff)
    have "of_nat (code_unit (digit_char (nat ?d)) - 48) = (of_int ?d :: rat)"
      using d(1) nd by (metis add_diff_cancel_left' code_unit_digit_char of_int_of_nat_eq nat_0_le)
    then have "fraction_value (frac_digits (Suc n) f) = f"
      using False ih(1) by (simp add: fraction_value_simps)
    then show ?thesis using ih(2) False by simp
  qed (simp add: fraction_value_simps)
qed

definition number_char :: "char \<Rightarrow> bool" where
  "number_char c \<longleftrightarrow> is_digit c \<or> c = CHR ''-'' \<or> c = CHR ''.''"

lemma stop_at_end:
  assumes "\<forall>c\<in>set w. p c" "ends_value z" "\<not> p (CHR '','')" "\<not> p (CHR '']'')" "\<not> p (CHR ''}'')"
  shows "takeWhile p (w @ z) = w"
  using assms by (cases z) (auto simp: takeWhile_append ends_value_def)

text \<open>Sign, whole part and fraction of a decimal, as its text shows them.\<close>

lemma decimal_parts:
  assumes "decimal r"
  obtains w ds where "num_str r = (if r < 0 then ''-'' else []) @ nat_str w @ (if ds = [] then [] else CHR ''.'' # ds)"
    and "\<forall>c\<in>set ds. is_digit c" and "\<bar>r\<bar> = of_nat w + fraction_value ds"
proof -
  let ?a = "\<bar>r\<bar>" let ?w = "\<lfloor>\<bar>r\<bar>\<rfloor>" let ?f = "\<bar>r\<bar> - of_int \<lfloor>\<bar>r\<bar>\<rfloor>"
  obtain i where i: "r * 10 ^ 20 = of_int i" using assms unfolding decimal_def is_integer_iff by blast
  have "?a * 10 ^ 20 = of_int \<bar>i\<bar>" using i by (metis abs_mult abs_numeral of_int_abs power_abs)
  then have "?f * 10 ^ 20 = of_int (\<bar>i\<bar> - ?w * 10 ^ 20)" by (simp add: algebra_simps)
  then have "is_integer (?f * 10 ^ 20)" unfolding is_integer_iff by blast
  moreover have f: "0 \<le> ?f" "?f < 1" by linarith+
  ultimately have v: "fraction_value (frac_digits 20 ?f) = ?f" "\<forall>c\<in>set (frac_digits 20 ?f). is_digit c"
    using frac_digits_value by blast+
  have w: "(of_nat (nat ?w) :: rat) = of_int ?w" by simp
  show thesis
  proof (rule that [where w = "nat ?w" and ds = "if ?f = 0 then [] else frac_digits 20 ?f"])
    have "frac_digits 20 ?f \<noteq> []" if "?f \<noteq> 0"
      using that by (metis fraction_value_simps(1) v(1))
    then show "num_str r = (if r < 0 then ''-'' else []) @ nat_str (nat ?w) @
      (if (if ?f = 0 then [] else frac_digits 20 ?f) = [] then [] else CHR ''.'' # (if ?f = 0 then [] else frac_digits 20 ?f))"
      by (simp add: num_str_def Let_def)
    show "\<bar>r\<bar> = of_nat (nat ?w) + fraction_value (if ?f = 0 then [] else frac_digits 20 ?f)"
      using v(1) w by (simp add: fraction_value_simps)
  qed (use v(2) in auto)
qed

lemma nat_str_no_dash: "hd (nat_str n) \<noteq> CHR ''-''"
proof -
  have "is_digit (hd (nat_str n))" using nat_str_digits [of n] by simp
  then show ?thesis by (auto simp: is_digit_def)
qed

lemma num_str_inj:
  assumes "decimal r" "decimal s" "num_str r = num_str s"
  shows "r = s"
proof -
  obtain w ds where r: "num_str r = (if r < 0 then ''-'' else []) @ nat_str w @ (if ds = [] then [] else CHR ''.'' # ds)"
    "\<bar>r\<bar> = of_nat w + fraction_value ds" by (rule decimal_parts [OF assms(1)])
  obtain v es where s: "num_str s = (if s < 0 then ''-'' else []) @ nat_str v @ (if es = [] then [] else CHR ''.'' # es)"
    "\<bar>s\<bar> = of_nat v + fraction_value es" by (rule decimal_parts [OF assms(2)])
  have sign: "r < 0 \<longleftrightarrow> s < 0"
    using assms(3) r(1) s(1) nat_str_no_dash [of w] nat_str_no_dash [of v]
    by (auto simp: hd_append dest!: arg_cong [where f = hd] split: if_splits)
  then have eq: "nat_str w @ (if ds = [] then [] else CHR ''.'' # ds) = nat_str v @ (if es = [] then [] else CHR ''.'' # es)"
    using assms(3) r(1) s(1) by (auto split: if_splits)
  have t: "takeWhile is_digit (nat_str n @ (if cs = [] then [] else CHR ''.'' # cs)) = nat_str n" for n cs
    using nat_str_digits [of n] by (simp add: takeWhile_append is_digit_def)
  have "nat_str w = nat_str v" using t [of w ds] t [of v es] eq by simp
  then have "w = v" "ds = es" using nat_str_inj eq by (auto split: if_splits)
  then have "\<bar>r\<bar> = \<bar>s\<bar>" using r(2) s(2) by simp
  then show ?thesis using sign by linarith
qed

lemma num_str_chars: "decimal r \<Longrightarrow> c \<in> set (num_str r) \<Longrightarrow> number_char c"
  using nat_str_digits by (elim decimal_parts) (auto simp: number_char_def split: if_splits)

lemma num_str_prefix:
  assumes "num_str r @ x = num_str s @ y" "decimal r" "decimal s" "ends_value x" "ends_value y"
  shows "r = s \<and> x = y"
proof -
  have t: "takeWhile number_char (num_str q @ z) = num_str q" if "decimal q" "ends_value z" for q z
    using num_str_chars that by (intro stop_at_end) (auto simp: number_char_def is_digit_def)
  have "num_str r = num_str s" using t [of r x] t [of s y] assms by simp
  then show ?thesis using assms num_str_inj by auto
qed

text \<open>Comma-separated parts, each a prefix code, are one.\<close>

lemma join_with_Cons:
  "join_with sep (w # ws) = w @ concat (map (\<lambda>v. sep @ v) ws)"
  by (induction ws arbitrary: w) auto

definition opens_value :: "string \<Rightarrow> bool" where
  "opens_value w \<longleftrightarrow> w \<noteq> [] \<and> hd w \<notin> {CHR '','', CHR '']'', CHR ''}''}"

lemma parts_prefix:
  assumes "\<And>a b u v. a \<in> set xs \<Longrightarrow> Q b \<Longrightarrow> ends_value u \<Longrightarrow> ends_value v \<Longrightarrow> P a @ u = P b @ v \<Longrightarrow> a = b \<and> u = v"
    and "\<forall>b\<in>set ys. Q b" and "cl \<in> {CHR '']'', CHR ''}''}"
    and "concat (map (\<lambda>a. CHR '','' # P a) xs) @ cl # x = concat (map (\<lambda>a. CHR '','' # P a) ys) @ cl # y"
  shows "xs = ys \<and> x = y"
  using assms
proof (induction xs arbitrary: ys)
  case Nil
  then show ?case by (cases ys) auto
next
  case (Cons a xs)
  have comma: "cl \<noteq> CHR '',''" using Cons.prems(3) by auto
  obtain b ys' where ys: "ys = b # ys'" using Cons.prems(4) comma by (cases ys) auto
  let ?u = "concat (map (\<lambda>a. CHR '','' # P a) xs) @ cl # x"
  let ?v = "concat (map (\<lambda>a. CHR '','' # P a) ys') @ cl # y"
  have "P a @ ?u = P b @ ?v" using Cons.prems(4) ys by simp
  moreover have "ends_value ?u" "ends_value ?v"
    using Cons.prems(3) by (cases xs; cases ys'; auto simp: ends_value_def)+
  moreover have "Q b" using Cons.prems(2) ys by simp
  ultimately have "a = b \<and> ?u = ?v" using Cons.prems(1) [of a b ?u ?v] by simp
  moreover have "xs = ys' \<and> x = y"
    using Cons.prems(1,2,3) ys calculation by (intro Cons.IH) auto
  ultimately show ?case using ys by simp
qed

lemma join_prefix:
  assumes "\<And>a b u v. a \<in> set xs \<Longrightarrow> Q b \<Longrightarrow> ends_value u \<Longrightarrow> ends_value v \<Longrightarrow> P a @ u = P b @ v \<Longrightarrow> a = b \<and> u = v"
    and "\<forall>a\<in>set xs. opens_value (P a)" "\<forall>b\<in>set ys. Q b \<and> opens_value (P b)"
    and "cl \<in> {CHR '']'', CHR ''}''}"
    and "join_with '','' (map P xs) @ cl # x = join_with '','' (map P ys) @ cl # y"
  shows "xs = ys \<and> x = y"
proof (cases xs)
  case Nil
  show ?thesis
  proof (cases ys)
    case (Cons b ys')
    then have "hd (P b) = cl" "P b \<noteq> []"
      using Nil assms(3,5) by (auto simp: join_with_Cons opens_value_def hd_append dest!: arg_cong [where f = hd])
    then show ?thesis using assms(3,4) Cons by (auto simp: opens_value_def)
  qed (use Nil assms(5) in simp)
next
  case xs: (Cons a xs')
  show ?thesis
  proof (cases ys)
    case Nil
    then have "hd (P a) = cl" "P a \<noteq> []"
      using xs assms(2,5) by (auto simp: join_with_Cons opens_value_def hd_append dest!: arg_cong [where f = hd])
    then show ?thesis using assms(2,4) xs by (auto simp: opens_value_def)
  next
    case (Cons b ys')
    let ?c = "\<lambda>zs. concat (map (\<lambda>a. CHR '','' # P a) zs)"
    have "\<forall>b\<in>set (b # ys'). Q b" "?c (a # xs') @ cl # x = ?c (b # ys') @ cl # y"
      using assms(3,5) xs Cons by (auto simp: join_with_Cons comp_def)
    then show ?thesis using parts_prefix [of "a # xs'" Q P "b # ys'" cl x y] assms(1,4) xs Cons by blast
  qed
qed

lemma num_str_hd: "num_str r \<noteq> [] \<and> (hd (num_str r) = CHR ''-'' \<or> is_digit (hd (num_str r)))"
  using nat_str_digits [of "nat \<lfloor>\<bar>r\<bar>\<rfloor>"] by (auto simp: num_str_def Let_def hd_append)

lemma print_json_opens: "opens_value (print_json v)"
proof (cases v)
  case (JNum n)
  then show ?thesis
  proof (cases n)
    case (Fin r)
    have "is_digit c \<Longrightarrow> c \<notin> {CHR '','', CHR '']'', CHR ''}''}" for c by (auto simp: is_digit_def)
    then show ?thesis using num_str_hd [of r] JNum Fin by (auto simp: jsnum_str_def opens_value_def)
  qed (auto simp: jsnum_str_def opens_value_def)
qed (auto simp: opens_value_def json_quote_def)

lemma plain_number:
  assumes "plain_json (JNum n)"
  obtains r where "n = Fin r" "decimal r"
  using assms that by (cases n) auto

text \<open>The first character tells the constructor.\<close>

fun lead :: "jsval \<Rightarrow> nat" where
  "lead JUndef = 117"
| "lead JNull = 110"
| "lead (JBool b) = (if b then 116 else 102)"
| "lead (JNum n) = 0"
| "lead (JStr s) = 34"
| "lead (JArr vs) = 91"
| "lead (JObj kvs) = 123"

definition lead_of :: "char \<Rightarrow> nat" where
  "lead_of c = (if c = CHR ''-'' \<or> is_digit c then 0 else code_unit c)"

lemma lead_print: "plain_json v \<Longrightarrow> lead_of (hd (print_json v @ x)) = lead v"
proof (cases v)
  case (JNum n)
  assume "plain_json v"
  then obtain r where "n = Fin r" using JNum plain_number by blast
  then have "print_json v = num_str r" using JNum by (simp add: jsnum_str_def)
  then have "hd (print_json v @ x) = hd (num_str r)" using num_str_hd [of r] by simp
  then show ?thesis using num_str_hd [of r] JNum by (auto simp: lead_of_def)
qed (auto simp: lead_of_def json_quote_def is_digit_def)

lemma lead_same: "plain_json v \<Longrightarrow> plain_json w \<Longrightarrow> print_json v @ x = print_json w @ y \<Longrightarrow> lead v = lead w"
  by (metis lead_print)

lemma print_json_prefix:
  "plain_json v \<Longrightarrow> plain_json w \<Longrightarrow> ends_value x \<Longrightarrow> ends_value y \<Longrightarrow>
    print_json v @ x = print_json w @ y \<Longrightarrow> v = w \<and> x = y"
proof (induction v arbitrary: w x y rule: print_json.induct)
  case 1
  note same = lead_same [OF "1.prems"(1,2,5)]
  then have "w = JUndef" by (cases w) (auto split: if_splits)
  with 1(5) show ?case by simp
next
  case 2
  note same = lead_same [OF "2.prems"(1,2,5)]
  then have "w = JNull" by (cases w) (auto split: if_splits)
  with 2(5) show ?case by simp
next
  case (3 b)
  note same = lead_same [OF "3.prems"(1,2,5)]
  then have "w = JBool b" by (cases w) (auto split: if_splits)
  with 3(5) show ?case by simp
next
  case (4 n)
  note same = lead_same [OF "4.prems"(1,2,5)]
  then obtain m where w: "w = JNum m" by (cases w) (auto split: if_splits)
  obtain i where i: "n = Fin i" "decimal i" using 4(1) by (rule plain_number)
  obtain j where j: "m = Fin j" "decimal j" using 4(2) w plain_number by blast
  have "num_str i @ x = num_str j @ y" using 4(5) i j w by (simp add: jsnum_str_def)
  then have "i = j \<and> x = y" using i(2) j(2) 4(3,4) by (rule num_str_prefix)
  then show ?case using i j w by simp
next
  case (5 s)
  note same = lead_same [OF "5.prems"(1,2,5)]
  then obtain t where w: "w = JStr t" by (cases w) (auto split: if_splits)
  then show ?case using 5(5) json_quote_prefix [of s x t y] by simp
next
  case (6 vs)
  note same = lead_same [OF "6.prems"(1,2,5)]
  then obtain ws where w: "w = JArr ws" by (cases w) (auto split: if_splits)
  have nu: "\<forall>v\<in>set vs. v \<noteq> JUndef" "\<forall>v\<in>set ws. v \<noteq> JUndef" using "6.prems"(1,2) w by auto
  then have m: "map (\<lambda>v. if v = JUndef then [] else print_json v) us = map print_json us" if "us \<in> {vs, ws}" for us
    using that by auto
  have "vs = ws \<and> x = y"
  proof (rule join_prefix [where P = print_json and Q = "\<lambda>v. v \<noteq> JUndef \<and> plain_json v" and cl = "CHR '']''"])
    show "join_with '','' (map print_json vs) @ CHR '']'' # x = join_with '','' (map print_json ws) @ CHR '']'' # y"
      using "6.prems"(5) w m [of vs] m [of ws] by simp
  qed (use 6 nu w print_json_opens in auto)
  then show ?case using w by simp
next
  case (7 kvs)
  note same = lead_same [OF "7.prems"(1,2,5)]
  then obtain kws where w: "w = JObj kws" by (cases w) (auto split: if_splits)
  let ?P = "\<lambda>p. json_quote (fst p) @ '':'' @ print_json (snd p)"
  have "kvs = kws \<and> x = y"
  proof (rule join_prefix [where P = ?P and Q = "\<lambda>p. plain_json (snd p)" and cl = "CHR ''}''"])
    show "join_with '','' (map ?P kvs) @ CHR ''}'' # x = join_with '','' (map ?P kws) @ CHR ''}'' # y"
      using "7.prems"(5) w by simp
  next
    fix a b u v
    assume a: "a \<in> set kvs" and b: "plain_json (snd b)" and e: "ends_value u" "ends_value v"
      and eq: "?P a @ u = ?P b @ v"
    have "fst a = fst b \<and> CHR '':'' # print_json (snd a) @ u = CHR '':'' # print_json (snd b) @ v"
      using eq by (intro json_quote_prefix) simp
    moreover have "plain_json (snd a)" using "7.prems"(1) a by auto
    ultimately show "a = b \<and> u = v" using "7.IH" [OF a _ b e] by (metis list.inject prod.expand)
  qed (use 7 w in \<open>auto simp: opens_value_def json_quote_def\<close>)
  then show ?case using w by simp
qed

lemma print_json_inj: "plain_json v \<Longrightarrow> plain_json w \<Longrightarrow> print_json v = print_json w \<Longrightarrow> v = w"
  using print_json_prefix [of v w "[]" "[]"] by (simp add: ends_value_def)

lemma sort_keys_undef [simp]: "sort_keys v = JUndef \<longleftrightarrow> v = JUndef"
  by (cases v) auto

lemma plain_json_sort_keys: "plain_json v \<Longrightarrow> plain_json (sort_keys v)"
  by (induction v rule: sort_keys.induct) auto

lemma canonicalJson_inj:
  "plain_json v \<Longrightarrow> plain_json w \<Longrightarrow> canonicalJson v = canonicalJson w \<Longrightarrow> sort_keys v = sort_keys w"
  unfolding canonicalJson_def by (rule print_json_inj [OF plain_json_sort_keys plain_json_sort_keys])

text \<open>For objects of scalars, sorting only reorders: the maps are equal.\<close>

definition scalar :: "jsval \<Rightarrow> bool" where
  "scalar v \<longleftrightarrow> (case v of JArr _ \<Rightarrow> False | JObj _ \<Rightarrow> False | JUndef \<Rightarrow> False | _ \<Rightarrow> True)"

lemma sort_keys_scalar: "scalar v \<Longrightarrow> sort_keys v = v"
  by (cases v) (auto simp: scalar_def)

lemma map_of_sort_key: "distinct (map fst kvs) \<Longrightarrow> map_of (sort_key f kvs) = map_of kvs"
  by (subst map_of_inject_set) (simp_all add: distinct_map)

lemma sort_keys_scalars:
  assumes "\<forall>p\<in>set kvs. scalar (snd p)"
  shows "sort_keys (JObj kvs) = JObj (sort_key (\<lambda>p. locale_key (fst p)) kvs)"
proof -
  have "map (\<lambda>p. (fst p, sort_keys (snd p))) kvs = kvs"
    using assms by (intro map_idI) (auto simp: sort_keys_scalar)
  then show ?thesis by simp
qed

end
