(* ===== verification/Json_Parse.thy ===== *)
theory Json_Parse
  imports Json
begin

text \<open>
  \<open>JSON.parse\<close> of the standard library on the strings of the model, and its round trip with the
  printer. Numbers are read as exact rationals; an escape above \<open>\u00FF\<close> has no character in the
  model's strings and is refused. The fuel is an upper bound of the nesting of calls: two for each
  character of the text.
\<close>

definition json_space :: "char \<Rightarrow> bool" where
  "json_space c \<longleftrightarrow> c \<in> {CHR 0x20, CHR 0x09, CHR 0x0A, CHR 0x0D}"

definition skip_space :: "string \<Rightarrow> string" where
  "skip_space s = dropWhile json_space s"

definition any_hex :: "char \<Rightarrow> bool" where
  "any_hex c \<longleftrightarrow> is_hex (lower_char c)"

definition read_hex4 :: "string \<Rightarrow> (char \<times> string) option" where
  "read_hex4 s =
     (case s of a # b # c # d # r \<Rightarrow>
        if a = CHR ''0'' \<and> b = CHR ''0'' \<and> any_hex c \<and> any_hex d
        then Some (char_of (16 * hex_value (lower_char c) + hex_value (lower_char d)), r) else None
      | _ \<Rightarrow> None)"

text \<open>One character of a string literal.\<close>

definition read_char :: "string \<Rightarrow> (char \<times> string) option" where
  "read_char s =
     (case s of [] \<Rightarrow> None
      | c # r \<Rightarrow>
          if c = CHR 0x5C then
            (case r of [] \<Rightarrow> None
             | e # t \<Rightarrow>
                 if e = CHR ''u'' then read_hex4 t
                 else if e \<in> {CHR 0x22, CHR 0x5C, CHR ''/'', CHR ''b'', CHR ''f'', CHR ''n'', CHR ''r'', CHR ''t''}
                 then Some (unescape_letter e, t) else None)
          else if code_unit c < 32 \<or> c = CHR 0x22 then None else Some (c, r))"

lemma read_char_shorter: "read_char s = Some (c, r) \<Longrightarrow> length r < length s"
  by (auto simp: read_char_def read_hex4_def split: list.splits if_splits)

text \<open>The rest of a string literal, after the opening quote.\<close>

function (sequential) read_string :: "string \<Rightarrow> (string \<times> string) option" where
  "read_string [] = None"
| "read_string (c # s) =
     (if c = CHR 0x22 then Some ([], s)
      else (case read_char (c # s) of None \<Rightarrow> None
            | Some (d, r) \<Rightarrow> map_option (\<lambda>p. (d # fst p, snd p)) (read_string r)))"
  by pat_completeness auto
termination by (relation "measure length") (auto dest!: read_char_shorter)

text \<open>\<open>-?(0|[1-9][0-9]*)(\.[0-9]+)?([eE][+-]?[0-9]+)?\<close>\<close>

definition read_digits :: "string \<Rightarrow> string \<times> string" where
  "read_digits s = (takeWhile is_digit s, dropWhile is_digit s)"

definition read_fraction :: "string \<Rightarrow> (rat \<times> string) option" where
  "read_fraction s =
     (if s \<noteq> [] \<and> hd s = CHR ''.'' then
        (let (ds, r) = read_digits (tl s) in if ds = [] then None else Some (fraction_value ds, r))
      else Some (0, s))"

definition read_exponent :: "string \<Rightarrow> (rat \<times> string) option" where
  "read_exponent s =
     (if s \<noteq> [] \<and> hd s \<in> {CHR ''e'', CHR ''E''} then
        (let t = tl s; negative = (t \<noteq> [] \<and> hd t = CHR ''-'');
             u = (if t \<noteq> [] \<and> hd t \<in> {CHR ''-'', CHR ''+''} then tl t else t);
             (ds, r) = read_digits u
         in if ds = [] then None
            else Some (if negative then 1 / 10 ^ digits_value ds else 10 ^ digits_value ds, r))
      else Some (1, s))"

definition read_number :: "string \<Rightarrow> (jsval \<times> string) option" where
  "read_number s =
     (let negative = (s \<noteq> [] \<and> hd s = CHR ''-''); t = (if negative then tl s else s);
          (ds, r) = read_digits t
      in if ds = [] \<or> (hd ds = CHR ''0'' \<and> 1 < length ds) then None
         else (case read_fraction r of None \<Rightarrow> None
               | Some (f, u) \<Rightarrow>
                   (case read_exponent u of None \<Rightarrow> None
                    | Some (e, w) \<Rightarrow>
                        let m = (of_nat (digits_value ds) + f) * e in
                        Some (JNum (Fin (if negative then - m else m)), w))))"

definition read_word :: "string \<Rightarrow> jsval \<Rightarrow> string \<Rightarrow> (jsval \<times> string) option" where
  "read_word w v s = (if prefix_of w s then Some (v, drop (length w) s) else None)"

fun read_value :: "nat \<Rightarrow> string \<Rightarrow> (jsval \<times> string) option"
  and read_elements :: "nat \<Rightarrow> string \<Rightarrow> (jsval list \<times> string) option"
  and read_members :: "nat \<Rightarrow> string \<Rightarrow> ((string \<times> jsval) list \<times> string) option" where
  "read_value 0 s = None"
| "read_value (Suc n) s0 =
     (let s = skip_space s0 in
      case s of [] \<Rightarrow> None
      | c # r \<Rightarrow>
          if c = CHR ''{'' then
            (let t = skip_space r in
             if t \<noteq> [] \<and> hd t = CHR ''}'' then Some (JObj [], tl t)
             else map_option (\<lambda>p. (JObj (foldl (\<lambda>kvs q. set_key (fst q) (snd q) kvs) [] (fst p)), snd p)) (read_members n r))
          else if c = CHR ''['' then
            (let t = skip_space r in
             if t \<noteq> [] \<and> hd t = CHR '']'' then Some (JArr [], tl t)
             else map_option (\<lambda>p. (JArr (fst p), snd p)) (read_elements n r))
          else if c = CHR 0x22 then map_option (\<lambda>p. (JStr (fst p), snd p)) (read_string r)
          else if c = CHR ''t'' then read_word ''true'' (JBool True) s
          else if c = CHR ''f'' then read_word ''false'' (JBool False) s
          else if c = CHR ''n'' then read_word ''null'' JNull s
          else read_number s)"
| "read_elements 0 s = None"
| "read_elements (Suc n) s =
     (case read_value n s of None \<Rightarrow> None
      | Some (v, r) \<Rightarrow>
          (case skip_space r of [] \<Rightarrow> None
           | c # t \<Rightarrow>
               if c = CHR '','' then map_option (\<lambda>p. (v # fst p, snd p)) (read_elements n t)
               else if c = CHR '']'' then Some ([v], t) else None))"
| "read_members 0 s = None"
| "read_members (Suc n) s0 =
     (case skip_space s0 of [] \<Rightarrow> None
      | q # s \<Rightarrow>
          if q \<noteq> CHR 0x22 then None
          else (case read_string s of None \<Rightarrow> None
                | Some (k, r) \<Rightarrow>
                    (case skip_space r of [] \<Rightarrow> None
                     | c # t \<Rightarrow>
                         if c \<noteq> CHR '':'' then None
                         else (case read_value n t of None \<Rightarrow> None
                               | Some (v, u) \<Rightarrow>
                                   (case skip_space u of [] \<Rightarrow> None
                                    | d # w \<Rightarrow>
                                        if d = CHR '','' then map_option (\<lambda>p. ((k, v) # fst p, snd p)) (read_members n w)
                                        else if d = CHR ''}'' then Some ([(k, v)], w) else None)))))"

definition json_parse :: "string \<Rightarrow> jsval option" where
  \<comment> \<open>\<open>None\<close>: \<open>JSON.parse\<close> throws a \<open>SyntaxError\<close>\<close>
  "json_parse s =
     (case read_value (2 * length s + 2) s of None \<Rightarrow> None
      | Some (v, r) \<Rightarrow> if skip_space r = [] then Some v else None)"


subsection \<open>Reading what was printed\<close>

lemma skip_space_ends [simp]: "ends_value x \<Longrightarrow> skip_space x = x"
  by (cases x) (auto simp: skip_space_def ends_value_def json_space_def)

lemma read_char_escape: "read_char (escape_char c @ x) = Some (c, x)"
proof -
  let ?n = "code_unit c"
  consider "?n = 34" | "?n = 92" | "?n = 8" | "?n = 12" | "?n = 10" | "?n = 13" | "?n = 9"
    | "?n < 32 \<and> ?n \<notin> {8, 9, 10, 12, 13}" | "32 \<le> ?n \<and> ?n \<noteq> 34 \<and> ?n \<noteq> 92"
    by fastforce
  then show ?thesis
  proof cases
    case 8
    let ?l = "if ?n mod 16 < 10 then digit_char (?n mod 16) else char_of (87 + ?n mod 16) :: char"
    have small: "?n mod 16 < 16" by simp
    have low: "lower_char (digit_char d) = digit_char d" for d
    proof -
      have "d mod 10 < 10" by simp
      then show ?thesis unfolding lower_char_def Let_def code_unit_digit_char by auto
    qed
    have low': "lower_char ?l = ?l" using small by (auto simp: low lower_char_def Let_def of_char_of)
    have hex: "any_hex (digit_char (?n div 16))" "any_hex ?l"
      unfolding any_hex_def low low' using small by (auto simp: is_hex_def is_digit_def of_char_of)
    have h: "hex_value (digit_char (?n div 16)) = ?n div 16" using 8 by (auto simp: hex_value_def)
    have l: "hex_value ?l = ?n mod 16"
      by (auto simp: hex_value_def of_char_of is_digit_def)
    have "read_char (escape_char c @ x) =
        read_hex4 (CHR ''0'' # CHR ''0'' # digit_char (?n div 16) # ?l # x)"
      using 8 by (simp add: escape_char_def Let_def read_char_def)
    also have "\<dots> = Some (char_of (16 * hex_value (digit_char (?n div 16)) + hex_value ?l), x)"
      using hex by (simp add: read_hex4_def low low' del: if_split split del: if_split)
    finally show ?thesis by (simp add: h l)
  next
    case 9
    then have "c \<noteq> CHR 0x5C" "c \<noteq> CHR 0x22" by auto
    with 9 show ?thesis by (simp add: escape_char_def Let_def read_char_def)
  qed (auto simp: escape_char_def Let_def read_char_def unescape_letter_def dest!: escaped_units)
qed

lemma read_string_step:
  assumes "hd w \<noteq> CHR 0x22" "read_char w = Some (c, x)"
  shows "read_string w = map_option (\<lambda>p. (c # fst p, snd p)) (read_string x)"
  using assms by (cases w) (auto simp: read_char_def)

lemma read_string_quoted: "read_string (concat (map escape_char s) @ CHR 0x22 # x) = Some (s, x)"
proof (induction s)
  case (Cons c s)
  have "read_string (escape_char c @ (concat (map escape_char s) @ CHR 0x22 # x)) = Some (c # s, x)"
    by (subst read_string_step [OF _ read_char_escape]) (use escape_no_quote [of c "[]"] Cons in simp_all)
  then show ?case by simp
qed simp

lemma nat_str_lead: "hd (nat_str n) = CHR ''0'' \<Longrightarrow> n = 0"
proof (induction n rule: nat_str.induct)
  case (1 n)
  show ?case
  proof (cases "n < 10")
    case True
    then have "code_unit (hd (nat_str n)) = 48 + n" by (simp add: nat_str.simps [of n])
    then show ?thesis using 1(2) by simp
  next
    case False
    then have "hd (nat_str n) = hd (nat_str (n div 10))" by (simp add: nat_str.simps [of n])
    then show ?thesis using 1 False by auto
  qed
qed

lemma nat_str_zero: "nat_str 0 = ''0''"
  by (rule nat_str.simps [THEN trans]) (simp add: digit_char_def, code_simp)

lemma read_digits_nat: "ends_value x \<Longrightarrow> read_digits (nat_str n @ x) = (nat_str n, x)"
  using nat_str_digits [of n]
  by (cases x) (auto simp: read_digits_def takeWhile_append dropWhile_append ends_value_def is_digit_def)

lemma read_no_fraction: "ends_value x \<Longrightarrow> read_fraction x = Some (0, x)"
  "ends_value x \<Longrightarrow> read_exponent x = Some (1, x)"
  by (cases x; auto simp: read_fraction_def read_exponent_def ends_value_def)+

lemma nat_str_no_sign: "\<not> (nat_str n @ x \<noteq> [] \<and> hd (nat_str n @ x) = CHR ''-'')"
proof -
  have "is_digit (hd (nat_str n))" using nat_str_digits [of n] by simp
  then have "hd (nat_str n) \<noteq> CHR ''-''" by (auto simp: is_digit_def)
  then show ?thesis by simp
qed

lemma nat_str_no_lead_zero: "\<not> (nat_str n = [] \<or> (hd (nat_str n) = CHR ''0'' \<and> 1 < length (nat_str n)))"
  using nat_str_lead [of n] by (auto simp: nat_str_zero)

lemma read_fraction_digits:
  assumes "ends_value x" "\<forall>c\<in>set ds. is_digit c"
  shows "read_fraction ((if ds = [] then [] else CHR ''.'' # ds) @ x) = Some (fraction_value ds, x)"
proof (cases "ds = []")
  case False
  have "takeWhile is_digit (ds @ x) = ds" using assms by (intro stop_at_end) (auto simp: is_digit_def)
  then have "dropWhile is_digit (ds @ x) = x" by (metis append_eq_append_conv takeWhile_dropWhile_id)
  then show ?thesis using False \<open>takeWhile is_digit (ds @ x) = ds\<close> by (simp add: read_fraction_def read_digits_def)
qed (use assms in \<open>simp add: read_no_fraction fraction_value_simps\<close>)

lemma read_digits_stop:
  assumes "ends_value x"
  shows "read_digits (nat_str n @ (if ds = [] then [] else CHR ''.'' # ds) @ x) = (nat_str n, (if ds = [] then [] else CHR ''.'' # ds) @ x)"
proof (cases "ds = []")
  case False
  have "\<forall>c\<in>set (nat_str n). is_digit c" by (rule nat_str_digits)
  moreover have "\<not> is_digit (CHR ''.'')" by (simp add: is_digit_def)
  ultimately show ?thesis using False by (simp add: read_digits_def)
qed (use assms read_digits_nat in simp)

lemma read_number_decimal:
  assumes "ends_value x" "decimal r"
  shows "read_number (num_str r @ x) = Some (JNum (Fin r), x)"
proof -
  obtain w ds where r: "num_str r = (if r < 0 then ''-'' else []) @ nat_str w @ (if ds = [] then [] else CHR ''.'' # ds)"
    "\<forall>c\<in>set ds. is_digit c" "\<bar>r\<bar> = of_nat w + fraction_value ds" by (rule decimal_parts [OF assms(2)])
  note parts = read_digits_stop [OF assms(1)] read_fraction_digits [OF assms(1) r(2)] read_no_fraction(2) [OF assms(1)]
    nat_str_no_lead_zero [of w]
  show ?thesis
  proof (cases "r < 0")
    case True
    then show ?thesis using r(3) parts
      by (simp add: r(1) read_number_def Let_def del: append.simps(2))
  next
    case False
    then have n: "num_str r @ x = nat_str w @ (if ds = [] then [] else CHR ''.'' # ds) @ x" "of_nat w + fraction_value ds = r"
      using r(1,3) by simp_all
    show ?thesis
      using parts nat_str_no_sign [of w "(if ds = [] then [] else CHR ''.'' # ds) @ x"] n(2)
      by (simp only: n(1) read_number_def Let_def) simp
  qed
qed

text \<open>Values as \<open>JSON.parse\<close> can return them: no key twice in an object.\<close>

fun json_data :: "jsval \<Rightarrow> bool" where
  "json_data (JArr vs) = (\<forall>v\<in>set vs. json_data v)"
| "json_data (JObj kvs) = (distinct (map fst kvs) \<and> (\<forall>p\<in>set kvs. json_data (snd p)))"
| "json_data v = (v \<noteq> JUndef \<and> plain_json v)"

lemma json_data_plain: "json_data v \<Longrightarrow> plain_json v"
  by (induction v rule: json_data.induct) auto

lemma set_key_new: "k \<notin> set (map fst kvs) \<Longrightarrow> set_key k v kvs = kvs @ [(k, v)]"
  by (induction kvs) auto

lemma rebuild_members:
  "distinct (map fst (acc @ kvs)) \<Longrightarrow> foldl (\<lambda>kvs q. set_key (fst q) (snd q) kvs) acc kvs = acc @ kvs"
proof (induction kvs arbitrary: acc)
  case (Cons q kvs)
  then have "set_key (fst q) (snd q) acc = acc @ [q]" by (simp add: set_key_new)
  with Cons show ?case by simp
qed simp

definition reads :: "(string \<Rightarrow> (jsval \<times> string) option) \<Rightarrow> string \<Rightarrow> jsval \<Rightarrow> bool" where
  "reads f w v \<longleftrightarrow> (\<forall>x. ends_value x \<longrightarrow> f (w @ x) = Some (v, x))"

lemma readsD: "reads f w v \<Longrightarrow> ends_value x \<Longrightarrow> f (w @ x) = Some (v, x)"
  by (simp add: reads_def)

lemma skip_space_comma [simp]: "skip_space (CHR '','' # x) = CHR '','' # x" "skip_space (CHR '']'' # x) = CHR '']'' # x"
  "skip_space (CHR ''}'' # x) = CHR ''}'' # x" "skip_space (CHR '':'' # x) = CHR '':'' # x"
  "skip_space (CHR 0x22 # x) = CHR 0x22 # x"
  by (simp_all add: skip_space_def json_space_def)

lemma ends_simps [simp]: "ends_value (CHR '','' # x)" "ends_value (CHR '']'' # x)" "ends_value (CHR ''}'' # x)"
  by (simp_all add: ends_value_def)

lemma read_elements_printed:
  assumes "vs \<noteq> []" and "\<And>v n. v \<in> set vs \<Longrightarrow> 2 * length (P v) \<le> n \<Longrightarrow> reads (read_value n) (P v) v"
    and "\<And>v. v \<in> set vs \<Longrightarrow> P v \<noteq> []"
    and "2 * length (join_with '','' (map P vs)) < n"
  shows "read_elements n (join_with '','' (map P vs) @ CHR '']'' # x) = Some (vs, x)"
  using assms
proof (induction vs arbitrary: n)
  case (Cons v vs)
  obtain m where n: "n = Suc m" using Cons.prems(4) by (cases n) auto
  have size: "2 * length (P v) \<le> m" using Cons.prems(4) n by (cases vs) (auto simp: join_with_Cons)
  note head = readsD [OF Cons.prems(2) [OF _ size]]
  show ?case
  proof (cases "vs = []")
    case True
    then show ?thesis using n head [of "CHR '']'' # x"] by simp
  next
    case False
    then have j: "join_with '','' (map P (v # vs)) = P v @ CHR '','' # join_with '','' (map P vs)"
      by (cases vs) auto
    have "read_elements m (join_with '','' (map P vs) @ CHR '']'' # x) = Some (vs, x)"
    proof (rule Cons.IH)
      have "P v \<noteq> []" using Cons.prems(3) by simp
      then have "1 \<le> length (P v)" by (cases "P v") auto
      then show "2 * length (join_with '','' (map P vs)) < m" using Cons.prems(4) n unfolding j by simp
    qed (use False Cons.prems in auto)
    then show ?thesis unfolding j using n head [of "CHR '','' # join_with '','' (map P vs) @ CHR '']'' # x"] by simp
  qed
qed simp

lemma read_members_printed:
  assumes "kvs \<noteq> []" and "\<And>p n. p \<in> set kvs \<Longrightarrow> 2 * length (P (snd p)) \<le> n \<Longrightarrow> reads (read_value n) (P (snd p)) (snd p)"
    and "2 * length (join_with '','' (map (\<lambda>p. json_quote (fst p) @ '':'' @ P (snd p)) kvs)) < n"
  shows "read_members n (join_with '','' (map (\<lambda>p. json_quote (fst p) @ '':'' @ P (snd p)) kvs) @ CHR ''}'' # x) = Some (kvs, x)"
  using assms
proof (induction kvs arbitrary: n)
  case (Cons p kvs)
  let ?M = "\<lambda>p. json_quote (fst p) @ '':'' @ P (snd p)"
  obtain m where n: "n = Suc m" using Cons.prems(3) by (cases n) auto
  have size: "2 * length (P (snd p)) \<le> m" using Cons.prems(3) n by (cases kvs) (auto simp: join_with_Cons)
  note head = readsD [OF Cons.prems(2) [OF _ size]]
  have key: "read_string (concat (map escape_char (fst p)) @ CHR 0x22 # z) = Some (fst p, z)" for z
    by (rule read_string_quoted)
  show ?case
  proof (cases "kvs = []")
    case True
    then show ?thesis using n head [of "CHR ''}'' # x"] by (simp add: json_quote_hd key)
  next
    case False
    then have j: "join_with '','' (map ?M (p # kvs)) = ?M p @ CHR '','' # join_with '','' (map ?M kvs)"
      by (cases kvs) auto
    have "read_members m (join_with '','' (map ?M kvs) @ CHR ''}'' # x) = Some (kvs, x)"
    proof (rule Cons.IH)
      show "2 * length (join_with '','' (map ?M kvs)) < m" using Cons.prems(3) n unfolding j by simp
    qed (use False Cons.prems in auto)
    then show ?thesis unfolding j
      using n head [of "CHR '','' # join_with '','' (map ?M kvs) @ CHR ''}'' # x"]
      by (simp add: json_quote_hd key)
  qed
qed simp

lemma read_value_opens:
  assumes "w \<noteq> []" "\<not> json_space (hd w)"
  shows "skip_space (w @ x) = w @ x"
  using assms by (cases w) (auto simp: skip_space_def)

lemma number_lead:
  assumes "c = CHR ''-'' \<or> is_digit c"
  shows "\<not> json_space c" "c \<notin> {CHR ''{'', CHR ''['', CHR 0x22, CHR ''t'', CHR ''f'', CHR ''n''}"
  using assms by (auto simp: json_space_def is_digit_def)

lemma read_value_printed: "json_data v \<Longrightarrow> 2 * length (print_json v) \<le> n \<Longrightarrow> reads (read_value n) (print_json v) v"
proof (induction v arbitrary: n rule: print_json.induct)
  case 2
  then obtain m where n: "n = Suc m" by (cases n) auto
  show ?case unfolding n by (auto simp: reads_def skip_space_def json_space_def read_word_def prefix_of_def)
next
  case (3 b)
  then obtain m where n: "n = Suc m" by (cases n) (auto split: if_splits)
  show ?case unfolding n by (auto simp: reads_def skip_space_def json_space_def read_word_def prefix_of_def)
next
  case (4 k)
  then obtain i where k: "k = Fin i" "decimal i" using plain_number [of k] by auto
  have p: "print_json (JNum k) = num_str i" by (simp add: k jsnum_str_def)
  obtain c w where cw: "num_str i = c # w" using num_str_hd [of i] by (cases "num_str i") auto
  then have c: "c = CHR ''-'' \<or> is_digit c" using num_str_hd [of i] by simp
  obtain m where n: "n = Suc m" using 4(2) num_str_hd [of i] p by (cases n) auto
  show ?case unfolding reads_def p n
  proof (intro allI impI)
    fix x assume x: "ends_value x"
    have "skip_space (num_str i @ x) = c # w @ x" using number_lead [OF c] cw by (simp add: skip_space_def)
    then have "read_value (Suc m) (num_str i @ x) = read_number (num_str i @ x)"
      using number_lead(2) [OF c] cw by simp
    then show "read_value (Suc m) (num_str i @ x) = Some (JNum k, x)" by (simp add: read_number_decimal x k)
  qed
next
  case (5 t)
  then obtain m where n: "n = Suc m" by (cases n) (auto simp: json_quote_def)
  show ?case unfolding n by (simp add: reads_def json_quote_hd read_string_quoted)
next
  case (6 vs)
  have nu: "map (\<lambda>v. if v = JUndef then [] else print_json v) vs = map print_json vs"
    using 6(2) by auto
  let ?j = "join_with '','' (map print_json vs)"
  have p: "print_json (JArr vs) = CHR ''['' # ?j @ '']''" by (simp add: nu)
  then obtain m where n: "n = Suc m" and m: "2 * length ?j < m" using 6(3) by (cases n) auto
  show ?case
  proof (cases "vs = []")
    case True
    then show ?thesis unfolding n by (simp add: reads_def skip_space_def json_space_def)
  next
    case False
    then obtain v ws where vs: "vs = v # ws" by (cases vs) auto
    have "json_data v" using 6(2) vs by simp
    then have "hd ?j = hd (print_json v) \<and> ?j \<noteq> []"
      using print_json_opens [of v] by (simp add: vs join_with_Cons opens_value_def)
    moreover have "lead_of (hd (print_json v)) = lead v"
      using lead_print [OF json_data_plain [OF \<open>json_data v\<close>], of "[]"] by simp
    ultimately have j: "?j \<noteq> []" "\<not> json_space (hd ?j)" "hd ?j \<noteq> CHR '']''"
      using print_json_opens [of v] by (cases v; auto simp: lead_of_def json_space_def opens_value_def is_digit_def)+
    have inner: "read_elements m (?j @ CHR '']'' # x) = Some (vs, x)" for x
    proof (rule read_elements_printed [OF False _ _ m])
      fix v k assume "v \<in> set vs" "2 * length (print_json v) \<le> k"
      moreover from this 6(2) have "json_data v" "v \<noteq> JUndef" by auto
      ultimately show "reads (read_value k) (print_json v) v" using 6(1) by blast
    next
      fix v show "print_json v \<noteq> []" using print_json_opens [of v] by (simp add: opens_value_def)
    qed
    show ?thesis unfolding reads_def p n
    proof (intro allI impI)
      fix x
      have "skip_space (?j @ CHR '']'' # x) = ?j @ CHR '']'' # x" using read_value_opens j by blast
      then show "read_value (Suc m) ((CHR ''['' # ?j @ '']'') @ x) = Some (JArr vs, x)"
        using j inner [of x] by (simp add: skip_space_def json_space_def)
    qed
  qed
next
  case (7 kvs)
  let ?j = "join_with '','' (map (\<lambda>p. json_quote (fst p) @ '':'' @ print_json (snd p)) kvs)"
  have p: "print_json (JObj kvs) = CHR ''{'' # ?j @ ''}''" by simp
  then obtain m where n: "n = Suc m" and m: "2 * length ?j < m" using 7(3) by (cases n) auto
  show ?case
  proof (cases "kvs = []")
    case True
    then show ?thesis unfolding n by (simp add: reads_def skip_space_def json_space_def)
  next
    case False
    then obtain q ws where kvs: "kvs = q # ws" by (cases kvs) auto
    then have j: "?j \<noteq> []" "hd ?j = CHR 0x22"
      by (simp_all add: join_with_Cons json_quote_hd)
    have inner: "read_members m (?j @ CHR ''}'' # x) = Some (kvs, x)" for x
    proof (rule read_members_printed [OF False _ m])
      fix p k assume "p \<in> set kvs" "2 * length (print_json (snd p)) \<le> k"
      then show "reads (read_value k) (print_json (snd p)) (snd p)" using 7 by auto
    qed
    have keys: "foldl (\<lambda>kvs q. set_key (fst q) (snd q) kvs) [] kvs = kvs"
      using rebuild_members [of "[]" kvs] 7(2) by simp
    show ?thesis unfolding reads_def p n
    proof (intro allI impI)
      fix x
      have "skip_space (?j @ CHR ''}'' # x) = ?j @ CHR ''}'' # x"
        using read_value_opens j by (simp add: json_space_def)
      then show "read_value (Suc m) ((CHR ''{'' # ?j @ ''}'') @ x) = Some (JObj kvs, x)"
        using j inner [of x] by (simp add: skip_space_def json_space_def keys)
    qed
  qed
qed simp

lemma json_round_trip: "json_data v \<Longrightarrow> json_parse (print_json v) = Some v"
  using readsD [OF read_value_printed [of v "2 * length (print_json v) + 2"], of "[]"]
  by (simp add: json_parse_def ends_value_def)

lemma json_data_sort_keys: "json_data v \<Longrightarrow> json_data (sort_keys v)"
proof (induction v rule: sort_keys.induct)
  case (2 kvs)
  let ?xs = "map (\<lambda>p. (fst p, sort_keys (snd p))) kvs"
  have "distinct (map fst (sort_key (\<lambda>p. locale_key (fst p)) xs)) = distinct (map fst xs)" for xs :: "(string \<times> jsval) list"
    by (simp add: distinct_map)
  then have "distinct (map fst (sort_key (\<lambda>p. locale_key (fst p)) ?xs)) = distinct (map fst ?xs)" .
  moreover have "map fst ?xs = map fst kvs" by simp
  moreover have "distinct (map fst kvs)" using 2 by simp
  ultimately have d: "distinct (map fst (sort_key (\<lambda>p. locale_key (fst p)) ?xs))" by metis
  show ?case using 2 d by (auto simp del: map_map)
qed auto

text \<open>
  C7. The canonical text of a value is faithful: parsing it gives the value with the keys of its objects
  sorted, so two values with the same canonical text (and so the same policy hash or argument digest
  input) differ only in the order of their keys.
\<close>

theorem canonicalJson_faithful:
  assumes "json_data v" "json_data w"
  shows "json_parse (canonicalJson v) = Some (sort_keys v) \<and>
    (canonicalJson v = canonicalJson w \<longleftrightarrow> sort_keys v = sort_keys w)"
proof -
  have "json_parse (canonicalJson u) = Some (sort_keys u)" if "json_data u" for u
    unfolding canonicalJson_def using json_round_trip [OF json_data_sort_keys [OF that]] .
  then show ?thesis using assms by (metis canonicalJson_def option.inject)
qed

theorem canonicalJson_faithful_witness:
  "canonicalJson (JObj [(''b'', JNull), (''a'', JArr [jint 1])]) = canonicalJson (JObj [(''a'', JArr [jint 1]), (''b'', JNull)])"
proof -
  let ?v = "JObj [(''b'', JNull), (''a'', JArr [jint 1])]" and ?w = "JObj [(''a'', JArr [jint 1]), (''b'', JNull)]"
  have "json_data ?v" "json_data ?w" using decimal_of_int [of 1] by (simp_all add: jint_def)
  moreover have "sort_keys ?v = sort_keys ?w" by code_simp
  ultimately show ?thesis using canonicalJson_faithful [of ?v ?w] by blast
qed

end
