(* ===== verification/Base64.thy ===== *)
theory Base64
  imports JsString
begin

text \<open>
  \<open>Buffer.from(s, "utf8").toString("base64url")\<close> and its inverse on byte lists, and the cutting of a
  text into chunks of bounded length (\<open>encoded.match(/.{1,512}/gu)\<close>), with their round trips.
\<close>

definition utf8_bytes :: "string \<Rightarrow> nat list" where
  "utf8_bytes s = concat (map (\<lambda>c.
     if code_unit c < 128 then [code_unit c] else [192 + code_unit c div 64, 128 + code_unit c mod 64]) s)"

lemma length_utf8_bytes: "length (utf8_bytes s) = utf8_length s"
  by (induction s) (auto simp: utf8_bytes_def)

lemma utf8_bytes_less: "b \<in> set (utf8_bytes s) \<Longrightarrow> b < 256"
proof (induction s)
  case (Cons c s)
  have "code_unit c div 64 < 4" by (rule less_mult_imp_div_less) (use code_unit_less [of c] in simp)
  moreover have "code_unit c mod 64 < 64" by simp
  ultimately have "192 + code_unit c div 64 < 256" "128 + code_unit c mod 64 < 256" by arith+
  with Cons show ?case by (auto simp: utf8_bytes_def split: if_splits)
qed (simp add: utf8_bytes_def)

definition sextet_char :: "nat \<Rightarrow> char" where
  "sextet_char n =
     (if n < 26 then char_of (65 + n)
      else if n < 52 then char_of (71 + n)
      else if n < 62 then char_of (n - 4)
      else if n = 62 then CHR ''-'' else CHR ''_'')"

definition sextet_value :: "char \<Rightarrow> nat" where
  "sextet_value c =
     (if is_upper c then code_unit c - 65
      else if is_lower c then code_unit c - 71
      else if is_digit c then code_unit c + 4
      else if c = CHR ''-'' then 62 else 63)"

definition is_base64url :: "char \<Rightarrow> bool" where
  \<comment> \<open>\<open>[A-Za-z0-9_-]\<close>\<close>
  "is_base64url c \<longleftrightarrow> is_alnum c \<or> c = CHR ''-'' \<or> c = CHR ''_''"

fun base64url :: "nat list \<Rightarrow> string" where
  "base64url [] = []"
| "base64url [a] = [sextet_char (a div 4), sextet_char (a mod 4 * 16)]"
| "base64url [a, b] = [sextet_char (a div 4), sextet_char (a mod 4 * 16 + b div 16), sextet_char (b mod 16 * 4)]"
| "base64url (a # b # c # r) =
     [sextet_char (a div 4), sextet_char (a mod 4 * 16 + b div 16),
      sextet_char (b mod 16 * 4 + c div 64), sextet_char (c mod 64)] @ base64url r"

fun base64_groups :: "nat list \<Rightarrow> nat list" where
  "base64_groups (p # q # r # s # t) =
     [p * 4 + q div 16, q mod 16 * 16 + r div 4, r mod 4 * 64 + s] @ base64_groups t"
| "base64_groups [p, q, r] = [p * 4 + q div 16, q mod 16 * 16 + r div 4]"
| "base64_groups [p, q] = [p * 4 + q div 16]"
| "base64_groups _ = []"

definition from_base64url :: "string \<Rightarrow> nat list" where
  "from_base64url s = base64_groups (map sextet_value s)"

lemma sextet_round_trip [simp]: "n < 64 \<Longrightarrow> sextet_value (sextet_char n) = n"
  by (auto simp: sextet_char_def sextet_value_def char_class_defs of_char_of)

lemma glue:
  fixes d :: nat
  assumes "d < k"
  shows "(m * k + d) div k = m" "(m * k + d) mod k = d"
  using assms by auto

lemma byte_parts:
  fixes b :: nat
  assumes "b < 256"
  shows "b div 4 < 64" "b div 16 < 16" "b div 64 < 4"
  using assms by (simp_all add: less_mult_imp_div_less)

lemma base64_round_trip: "\<forall>b\<in>set bs. b < 256 \<Longrightarrow> from_base64url (base64url bs) = bs"
proof (induction bs rule: base64url.induct)
  case (4 a b c r)
  then have byte: "a < 256" "b < 256" "c < 256" by auto
  note lt = byte_parts [OF byte(1)] byte_parts [OF byte(2)] byte_parts [OF byte(3)]
  have mods: "a mod 4 < 4" "b mod 16 < 16" "c mod 64 < 64" by auto
  have small: "a mod 4 * 16 + b div 16 < 64" "b mod 16 * 4 + c div 64 < 64"
    using lt mods by arith+
  show ?case
    using 4 lt mods small glue [OF lt(5), of "a mod 4"] glue [OF lt(9), of "b mod 16"]
    by (simp add: from_base64url_def)
next
  case (3 a b)
  then have byte: "a < 256" "b < 256" by auto
  note lt = byte_parts [OF byte(1)] byte_parts [OF byte(2)]
  have mods: "a mod 4 < 4" "b mod 16 < 16" by auto
  have small: "a mod 4 * 16 + b div 16 < 64" "b mod 16 * 4 < 64"
    using lt mods by arith+
  show ?case
    using lt mods small glue [OF lt(5), of "a mod 4"] by (simp add: from_base64url_def)
next
  case (2 a)
  then have "a div 4 < 64" "a mod 4 < 4" using byte_parts by auto
  moreover from this have "a mod 4 * 16 < 64" by arith
  ultimately show ?case by (simp add: from_base64url_def)
qed (simp add: from_base64url_def)

lemma sextet_is_base64url: "is_base64url (sextet_char n)"
  by (auto simp: sextet_char_def is_base64url_def char_class_defs of_char_of)

lemma base64url_chars: "c \<in> set (base64url bs) \<Longrightarrow> is_base64url c"
  by (induction bs rule: base64url.induct) (auto simp: sextet_is_base64url)

subsection \<open>Chunks\<close>

fun chunks :: "nat \<Rightarrow> 'a list \<Rightarrow> 'a list list" where
  "chunks n xs = (if n = 0 \<or> xs = [] then [] else take n xs # chunks n (drop n xs))"

declare chunks.simps [simp del]

lemma concat_chunks: "0 < n \<Longrightarrow> concat (chunks n xs) = xs"
proof (induction n xs rule: chunks.induct)
  case (1 n xs)
  then show ?case by (subst chunks.simps) auto
qed

lemma chunks_bounded: "w \<in> set (chunks n xs) \<Longrightarrow> w \<noteq> [] \<and> length w \<le> n"
proof (induction n xs rule: chunks.induct)
  case (1 n xs)
  then show ?case by (subst (asm) chunks.simps) (auto split: if_splits)
qed

end
