(* ===== verification/Coordinator.thy ===== *)
theory Coordinator
  imports Json_Parse Base64
begin

text \<open>
  The per-claw coordinator of worker/claw-coordinator.ts: one-use invocation grants, one-use runtime
  tickets and refreshes, and the queue of turn jobs with its offers, completions and Slack delivery.

  The SQL tables are lists of rows in insertion order. Every handler is \<open>async\<close>: it runs without
  interruption until it awaits something outside the object (a sealing, a token, Slack), and other
  events may run before it goes on; an await of the object's own storage lets no other event in.
  The model keeps that: an event runs the first segment of its handler and queues the rest as a
  thread of \<open>micro\<close> segments in the state; the event \<open>Tick i\<close> runs the next segment of thread \<open>i\<close>.
  All orders of ticks and events are runs of the model (\<open>coord_run\<close>). A segment that throws drops its
  thread and leaves what it wrote.

  What is outside the source is in \<open>coord_env\<close> (AES-GCM sealing, token verification, Slack switches)
  and in the arguments of \<open>Tick\<close> (Slack's answer, a freshly signed token).
\<close>

subsection \<open>Tables\<close>

datatype job_status = Pending | Offered | Running | Completed | Failed
datatype delivery_status = Undelivered | Delivery_pending | Delivered | Delivery_failed

record slack_source =
  src_surface :: string
  src_workspace :: string
  src_channel :: string
  src_thread :: string

record turn_input =
  in_id :: string
  in_event :: string
  in_claw :: string
  in_requester :: string
  in_persona :: string
  in_prompt :: string
  in_token :: string
  in_source :: slack_source
  in_expires :: int

record job_row =
  j_id :: string
  j_event :: string
  j_claw :: string
  j_requester :: string
  j_persona :: string
  j_status :: job_status
  j_token :: string
  j_payload :: "string option"
  j_source :: slack_source
  j_runtime :: "string option"
  j_response :: "string option"
  j_delivery :: delivery_status
  j_created :: int
  j_claimed :: "int option"
  j_completed :: "int option"
  j_expires :: int
  j_error :: "string option"
  j_attempts :: nat

record grant_row =
  g_invocation :: string
  g_jti :: string
  g_digest :: string
  g_expires :: int
  g_consumed :: "int option"

record run_row =
  r_invocation :: string
  r_status :: string
  r_started :: int
  r_completed :: "int option"
  r_error :: "string option"

record refresh_row =
  f_jti :: string
  f_expires :: int
  f_consumed :: "int option"
  f_response :: "string option"

record ticket_row =
  t_jti :: string
  t_expires :: int
  t_consumed :: "int option"

text \<open>\<open>UPDATE t SET f WHERE p\<close> and the number of rows it matches.\<close>

definition sql_update :: "('r \<Rightarrow> bool) \<Rightarrow> ('r \<Rightarrow> 'r) \<Rightarrow> 'r list \<Rightarrow> 'r list" where
  "sql_update p f rows = map (\<lambda>r. if p r then f r else r) rows"

definition sql_matches :: "('r \<Rightarrow> bool) \<Rightarrow> 'r list \<Rightarrow> nat" where
  "sql_matches p rows = length (filter p rows)"

subsection \<open>Sockets, messages and the state\<close>

record attachment =
  a_runtime :: string
  a_claw :: string
  a_refresh :: string
  a_disabled :: bool

record socket =
  s_id :: nat
  s_attachment :: "attachment option"
  s_open :: bool

datatype msg =
    Runtime_ready string int
  | Job_available
  | Heartbeat int int
  | Runtime_error string
  | Runtime_token string int
  | Job_preparing string
  | Job_turn_start string nat
  | Job_turn_chunk string nat string
  | Job_turn_ready string
  | Job_retry
  | Job_none
  | Job_started_ack string
  | Job_ack string

datatype frame = Send msg | Close nat string

text \<open>What an \<open>async\<close> handler still has to do. A segment that awaits something outside the object
  (\<open>awaits\<close> below) may be preceded by other events; the others run at once.\<close>

datatype micro =
    Insert_turn turn_input                                \<comment> \<open>\<open>enqueueTurn\<close> after the sealing\<close>
  | Cancel_each "string list" string nat bool             \<comment> \<open>\<open>cancelPending\<close>; then the running jobs?\<close>
  | Fail_each "string list" string nat                    \<comment> \<open>\<open>#failJob\<close> on each\<close>
  | Deliver string                                        \<comment> \<open>\<open>#deliver\<close>\<close>
  | Join_delivery string                                  \<comment> \<open>awaiting another handler's delivery\<close>
  | Post job_row                                          \<comment> \<open>\<open>#deliverPending\<close> after the decryption\<close>
  | Settle job_row                                        \<comment> \<open>\<open>#deliverPending\<close> after the answer\<close>
  | Expire_select int                                     \<comment> \<open>\<open>alarm\<close>, second part\<close>
  | Expire_each "string list" int
  | Deliver_select
  | Sweep int
  | Offer_send nat attachment job_row                     \<comment> \<open>\<open>#claim\<close> after the decryption\<close>
  | Refresh nat attachment                                \<comment> \<open>\<open>#refreshRuntime\<close>\<close>
  | Replay nat attachment string
  | Mint nat attachment bool int
  | Store_refresh nat attachment string string bool int
  | Complete_commit nat attachment string bool string string  \<comment> \<open>\<open>#complete\<close> after the sealing\<close>
  | Ack nat string
  | Ack_available nat string

record coord =
  grants :: "grant_row list"
  runs :: "run_row list"
  refreshes :: "refresh_row list"
  tickets :: "ticket_row list"
  jobs :: "job_row list"
  reset_generation :: int
  alarm :: "int option"
  sockets :: "socket list"
  outbox :: "(nat \<times> frame) list"
  next_socket :: nat
  posts :: "(string \<times> slack_source \<times> jsval) list"   \<comment> \<open>requests to \<open>chat.postMessage\<close>, with their job\<close>
  deliveries :: "string list"
  threads :: "micro list list"

definition coord_init :: coord where
  "coord_init = \<lparr>grants = [], runs = [], refreshes = [], tickets = [], jobs = [], reset_generation = 0,
     alarm = None, sockets = [], outbox = [], next_socket = 0, posts = [], deliveries = [], threads = []\<rparr>"

record coord_env =
  env_seal :: "string \<Rightarrow> jsval \<Rightarrow> string result"       \<comment> \<open>\<open>encryptTurnPayload(VAULT_MASTER_KEY, label, ..)\<close>\<close>
  env_open :: "string \<Rightarrow> string \<Rightarrow> jsval result"       \<comment> \<open>\<open>decryptTurnPayload(VAULT_MASTER_KEY, label, ..)\<close>\<close>
  env_verify :: "int \<Rightarrow> string \<Rightarrow> (string \<times> int) result"  \<comment> \<open>\<open>verifyClaims(RUNTIME_SIGNING_SECRET, ..)\<close>: jti, exp\<close>
  env_slack_mode :: "string option"                  \<comment> \<open>\<open>CRABHELM_SLACK\<close>\<close>
  env_bot_token :: "string"                          \<comment> \<open>\<open>SLACK_BOT_TOKEN\<close>\<close>
  env_index_writes :: nat   \<comment> \<open>index rows the platform counts in \<open>rowsWritten\<close> per updated turn job\<close>

text \<open>Slack's answer to \<open>chat.postMessage\<close>: none, or a status with a body that is too large, is not
  JSON, or has its \<open>ok\<close> flag and error code.\<close>

datatype slack_body = Too_large | Not_json | Body bool "string option"
datatype slack_outcome = No_response | Answer nat slack_body

subsection \<open>worker/slack-config.ts, worker/slack-delivery.ts\<close>

definition slackIngressEnabled :: "string option \<Rightarrow> bool" where
  "slackIngressEnabled mode \<longleftrightarrow> mode = None \<or> mode = Some ''on''"

definition slackIntegrationConfigured :: "string option \<Rightarrow> string \<Rightarrow> string \<Rightarrow> bool" where
  "slackIntegrationConfigured mode signing_secret bot_token \<longleftrightarrow>
     slackIngressEnabled mode \<and> trim signing_secret \<noteq> [] \<and> trim bot_token \<noteq> []"

definition retryableCodes :: "string list" where
  "retryableCodes = [''fatal_error'', ''internal_error'', ''ratelimited'', ''request_timeout'', ''service_unavailable'']"

definition slackDeliveryRetryable :: "nat \<Rightarrow> string option \<Rightarrow> bool" where
  "slackDeliveryRetryable status code \<longleftrightarrow>
     status = 429 \<or> 500 \<le> status \<or> (case code of Some c \<Rightarrow> c \<in> set retryableCodes | None \<Rightarrow> False)"

text \<open>Accepted, refused for good (\<open>SlackDeliveryError\<close> that is not retryable), or to be retried.\<close>

datatype slack_verdict = Accepted | Refused | Retry_later

definition slack_verdict_of :: "slack_outcome \<Rightarrow> slack_verdict" where
  "slack_verdict_of outcome =
     (case outcome of
        No_response \<Rightarrow> Retry_later
      | Answer status Too_large \<Rightarrow> Retry_later
      | Answer status Not_json \<Rightarrow> Retry_later
      | Answer status (Body ok code) \<Rightarrow>
          if 200 \<le> status \<and> status \<le> 299 \<and> ok then Accepted
          else if slackDeliveryRetryable status code then Retry_later else Refused)"

subsection \<open>Helpers of the class\<close>

definition minute :: int where
  "minute = 60000"

definition scheduleCleanup :: "int \<Rightarrow> coord \<Rightarrow> coord" where
  "scheduleCleanup now s =
     (case alarm s of
        None \<Rightarrow> s\<lparr>alarm := Some (now + minute)\<rparr>
      | Some due \<Rightarrow> if now + minute < due then s\<lparr>alarm := Some (now + minute)\<rparr> else s)"

definition socket_open :: "nat \<Rightarrow> coord \<Rightarrow> bool" where
  "socket_open sid s \<longleftrightarrow> (\<exists>k\<in>set (sockets s). s_id k = sid \<and> s_open k)"

definition emit :: "nat \<Rightarrow> frame \<Rightarrow> coord \<Rightarrow> coord" where
  "emit sid fr s = (if socket_open sid s then s\<lparr>outbox := outbox s @ [(sid, fr)]\<rparr> else s)"

definition send :: "nat \<Rightarrow> msg \<Rightarrow> coord \<Rightarrow> coord" where
  "send sid m s = emit sid (Send m) s"

definition close_socket :: "nat \<Rightarrow> nat \<Rightarrow> string \<Rightarrow> coord \<Rightarrow> coord" where
  "close_socket sid code why s =
     (let s' = emit sid (Close code why) s
      in s'\<lparr>sockets := sql_update (\<lambda>k. s_id k = sid) (\<lambda>k. k\<lparr>s_open := False\<rparr>) (sockets s')\<rparr>)"

definition set_attachment :: "nat \<Rightarrow> attachment \<Rightarrow> coord \<Rightarrow> coord" where
  "set_attachment sid att s =
     s\<lparr>sockets := sql_update (\<lambda>k. s_id k = sid) (\<lambda>k. k\<lparr>s_attachment := Some att\<rparr>) (sockets s)\<rparr>"

definition attachmentFrom :: "socket \<Rightarrow> attachment result" where
  "attachmentFrom k =
     (case s_attachment k of
        Some att \<Rightarrow> if a_runtime att = [] \<or> a_claw att = [] \<or> a_refresh att = []
                   then Inl (PlainError ''runtime socket attachment is invalid'') else Inr att
      | None \<Rightarrow> Inl (PlainError ''runtime socket attachment is invalid''))"

definition update_jobs :: "(job_row \<Rightarrow> bool) \<Rightarrow> (job_row \<Rightarrow> job_row) \<Rightarrow> coord \<Rightarrow> coord" where
  "update_jobs p f s = s\<lparr>jobs := sql_update p f (jobs s)\<rparr>"

text \<open>\<open>rowsWritten\<close> of an update of \<open>turn_jobs\<close>, which has two indexes.\<close>

definition rows_written :: "coord_env \<Rightarrow> (job_row \<Rightarrow> bool) \<Rightarrow> coord \<Rightarrow> nat" where
  "rows_written env p s = sql_matches p (jobs s) * (1 + env_index_writes env)"

definition find_job :: "string \<Rightarrow> coord \<Rightarrow> job_row option" where
  "find_job jid s = find (\<lambda>j. j_id j = jid) (jobs s)"

definition waiting :: "job_row \<Rightarrow> bool" where
  "waiting j \<longleftrightarrow> j_status j = Pending \<or> j_status j = Offered"

definition back_to_pending :: "job_row \<Rightarrow> job_row" where
  "back_to_pending j = j\<lparr>j_status := Pending, j_runtime := None, j_claimed := None\<rparr>"

definition releaseOffers :: "attachment \<Rightarrow> coord \<Rightarrow> coord" where
  "releaseOffers att s =
     update_jobs (\<lambda>j. j_status j = Offered \<and> j_runtime j = Some (a_runtime att)) back_to_pending s"

definition count_status :: "job_status \<Rightarrow> coord \<Rightarrow> nat" where
  "count_status st s = sql_matches (\<lambda>j. j_status j = st) (jobs s)"

definition pendingCount :: "coord \<Rightarrow> nat" where
  "pendingCount s = count_status Pending s"

definition hasWork :: "coord \<Rightarrow> bool" where
  "hasWork s \<longleftrightarrow>
     0 < sql_matches (\<lambda>j. waiting j \<or> j_status j = Running \<or> j_delivery j = Delivery_pending) (jobs s)"

definition notifyAvailable :: "coord \<Rightarrow> coord" where
  "notifyAvailable s = foldl (\<lambda>s k. send (s_id k) Job_available s) s (filter s_open (sockets s))"

definition sessionId :: "slack_source \<Rightarrow> string" where
  "sessionId src =
     slice 180 (map (\<lambda>c. if is_alnum c \<or> c \<in> set ''._-'' then c else CHR ''-'')
       (''crabhelm-slack-'' @ src_workspace src @ ''-'' @ src_channel src @ ''-'' @ src_thread src))"

definition validateTurn :: "turn_input \<Rightarrow> int \<Rightarrow> unit result" where
  "validateTurn input now =
     bindR (refuse_if (in_id input = [] \<or> in_event input = [] \<or> in_claw input = [] \<or> in_requester input = [] \<or>
              in_persona input = [] \<or> in_token input = []) (PlainError ''turn identity is incomplete'')) (\<lambda>_.
     bindR (refuse_if (trim (in_prompt input) = [] \<or> 48 * 1024 < utf8_length (in_prompt input))
              (PlainError ''turn prompt is invalid'')) (\<lambda>_.
     bindR (refuse_if (in_expires input \<le> now \<or> now + 60 * minute < in_expires input)
              (PlainError ''turn expiry is invalid'')) (\<lambda>_.
     refuse_if (src_surface (in_source input) \<noteq> ''slack'' \<or> src_workspace (in_source input) = [] \<or>
              src_channel (in_source input) = [] \<or> src_thread (in_source input) = [])
              (PlainError ''turn source is invalid''))))"

subsection \<open>Grants, runs, refreshes and tickets\<close>

definition unique_failed :: js_error where
  "unique_failed = PlainError ''UNIQUE constraint failed''"

definition digest_shape :: "string \<Rightarrow> bool" where
  \<comment> \<open>\<open>/^[0-9a-f]{64}$/u\<close>\<close>
  "digest_shape d \<longleftrightarrow> sha256Pattern d"

definition registerGrant :: "string \<Rightarrow> string \<Rightarrow> string \<Rightarrow> int \<Rightarrow> int \<Rightarrow> coord \<Rightarrow> unit result \<times> coord" where
  "registerGrant invocation jti digest expires now s =
     (if invocation = [] \<or> jti = [] \<or> \<not> digest_shape digest \<or> expires \<le> now
      then (Inl (PlainError ''grant registration is invalid''), s)
      else if \<exists>g\<in>set (grants s). g_invocation g = invocation \<or> g_jti g = jti then (Inl unique_failed, s)
      else (Inr (), scheduleCleanup now (s\<lparr>grants := grants s @
        [\<lparr>g_invocation = invocation, g_jti = jti, g_digest = digest, g_expires = expires, g_consumed = None\<rparr>]\<rparr>)))"

definition grant_matches :: "string \<Rightarrow> string \<Rightarrow> string \<Rightarrow> int \<Rightarrow> grant_row \<Rightarrow> bool" where
  "grant_matches invocation jti digest now g \<longleftrightarrow>
     g_invocation g = invocation \<and> g_jti g = jti \<and> g_digest g = digest \<and> now < g_expires g \<and> g_consumed g = None"

definition consumeGrant :: "string \<Rightarrow> string \<Rightarrow> string \<Rightarrow> int \<Rightarrow> coord \<Rightarrow> bool \<times> coord" where
  "consumeGrant invocation jti digest now s =
     (let p = grant_matches invocation jti digest now
      in (sql_matches p (grants s) = 1, s\<lparr>grants := sql_update p (\<lambda>g. g\<lparr>g_consumed := Some now\<rparr>) (grants s)\<rparr>))"

definition registerRuntimeRefresh :: "string \<Rightarrow> int \<Rightarrow> int \<Rightarrow> coord \<Rightarrow> unit result \<times> coord" where
  "registerRuntimeRefresh jti expires now s =
     (if jti = [] \<or> expires \<le> now then (Inl (PlainError ''runtime refresh is invalid''), s)
      else if \<exists>f\<in>set (refreshes s). f_jti f = jti then (Inl unique_failed, s)
      else (Inr (), scheduleCleanup now (s\<lparr>refreshes := refreshes s @
        [\<lparr>f_jti = jti, f_expires = expires, f_consumed = None, f_response = None\<rparr>]\<rparr>)))"

definition registerRuntimeTicket :: "string \<Rightarrow> int \<Rightarrow> int \<Rightarrow> coord \<Rightarrow> unit result \<times> coord" where
  "registerRuntimeTicket jti expires now s =
     (if jti = [] \<or> expires \<le> now then (Inl (PlainError ''runtime ticket is invalid''), s)
      else if \<exists>t\<in>set (tickets s). t_jti t = jti then (Inl unique_failed, s)
      else (Inr (), scheduleCleanup now (s\<lparr>tickets := tickets s @
        [\<lparr>t_jti = jti, t_expires = expires, t_consumed = None\<rparr>]\<rparr>)))"

definition consumeRuntimeTicket :: "string \<Rightarrow> int \<Rightarrow> coord \<Rightarrow> bool \<times> coord" where
  "consumeRuntimeTicket jti now s =
     (if jti = [] then (False, s)
      else let p = (\<lambda>t. t_jti t = jti \<and> t_consumed t = None \<and> now < t_expires t)
        in (sql_matches p (tickets s) = 1, s\<lparr>tickets := sql_update p (\<lambda>t. t\<lparr>t_consumed := Some now\<rparr>) (tickets s)\<rparr>))"

definition startRun :: "string \<Rightarrow> int \<Rightarrow> coord \<Rightarrow> unit result \<times> coord" where
  "startRun invocation now s =
     (if \<exists>r\<in>set (runs s). r_invocation r = invocation then (Inl unique_failed, s)
      else (Inr (), s\<lparr>runs := runs s @ [\<lparr>r_invocation = invocation, r_status = ''running'', r_started = now,
        r_completed = None, r_error = None\<rparr>]\<rparr>))"

definition finishRun :: "string \<Rightarrow> bool \<Rightarrow> string option \<Rightarrow> int \<Rightarrow> coord \<Rightarrow> coord" where
  "finishRun invocation ok err now s =
     s\<lparr>runs := sql_update (\<lambda>r. r_invocation r = invocation \<and> r_status r = ''running'')
       (\<lambda>r. r\<lparr>r_status := (if ok then ''succeeded'' else ''failed''), r_completed := Some now,
              r_error := map_option (slice 500) err\<rparr>) (runs s)\<rparr>"


subsection \<open>Turn jobs: admission and cancellation\<close>

datatype reply =
    Done
  | Later
  | Count nat
  | Flag bool
  | Turn string bool
  | Connected nat
  | Http nat
  | Status nat nat nat nat
  | Job_view "(job_status \<times> delivery_status \<times> int option \<times> bool) option"

type_synonym segment = "(reply \<times> micro list) result \<times> coord"

definition prompt_of :: "string \<Rightarrow> jsval" where
  "prompt_of text = JObj [(''prompt'', JStr text)]"

definition response_label :: "string \<Rightarrow> string" where
  "response_label jid = jid @ '':response''"

definition enqueueTurn :: "turn_input \<Rightarrow> int \<Rightarrow> coord \<Rightarrow> segment" where
  "enqueueTurn input now s =
     (case validateTurn input now of Inl e \<Rightarrow> (Inl e, s)
      | Inr _ \<Rightarrow>
          (case find (\<lambda>j. j_event j = in_event input) (jobs s) of
             Some j \<Rightarrow> (Inr (Turn (j_id j) True, []), s)
           | None \<Rightarrow> (Inr (Later, [Insert_turn input]), s)))"

definition new_job :: "turn_input \<Rightarrow> string \<Rightarrow> int \<Rightarrow> job_row" where
  "new_job input payload now =
     \<lparr>j_id = in_id input, j_event = in_event input, j_claw = in_claw input, j_requester = in_requester input,
      j_persona = in_persona input, j_status = Pending, j_token = in_token input, j_payload = Some payload,
      j_source = in_source input, j_runtime = None, j_response = None, j_delivery = Undelivered,
      j_created = now, j_claimed = None, j_completed = None, j_expires = in_expires input, j_error = None,
      j_attempts = 0\<rparr>"

definition insert_turn :: "coord_env \<Rightarrow> int \<Rightarrow> turn_input \<Rightarrow> coord \<Rightarrow> segment" where
  "insert_turn env now input s =
     (case env_seal env (in_id input) (prompt_of (in_prompt input)) of Inl e \<Rightarrow> (Inl e, s)
      | Inr payload \<Rightarrow>
          if \<exists>j\<in>set (jobs s). j_id j = in_id input \<or> j_event j = in_event input then (Inl unique_failed, s)
          else (Inr (Turn (in_id input) False, []),
                notifyAvailable (scheduleCleanup now (s\<lparr>jobs := jobs s @ [new_job input payload now]\<rparr>))))"

definition fail_job :: "int \<Rightarrow> string option \<Rightarrow> string \<Rightarrow> job_row \<Rightarrow> job_row" where
  \<comment> \<open>\<open>SET status = 'failed', completed_at = .., response_envelope = .., delivery_status = 'pending', error = ..\<close>\<close>
  "fail_job now response err j =
     j\<lparr>j_status := Failed, j_completed := Some now, j_response := response, j_delivery := Delivery_pending,
       j_error := Some err\<rparr>"

definition waiting_ids :: "coord \<Rightarrow> string list" where
  "waiting_ids s = map j_id (filter waiting (jobs s))"

definition running_ids :: "coord \<Rightarrow> string list" where
  "running_ids s = map j_id (filter (\<lambda>j. j_status j = Running) (jobs s))"

definition disabled_text :: string where
  "disabled_text = ''This Crabhelm teammate is currently disabled. Please contact an administrator.''"

definition failed_text :: string where
  "failed_text = ''Crabhelm could not complete this request. Please retry.''"

definition expired_text :: string where
  "expired_text = ''This request expired before the teammate could process it. Please retry.''"

fun cancel_each :: "coord_env \<Rightarrow> int \<Rightarrow> string list \<Rightarrow> string \<Rightarrow> nat \<Rightarrow> bool \<Rightarrow> coord \<Rightarrow> segment" where
  "cancel_each env now [] reason n active s =
     (let s' = (if 0 < n then scheduleCleanup now s else s)
      in if active then (Inr (Later, [Fail_each (running_ids s') reason (n + length (running_ids s'))]), s')
         else (Inr (Count n, []), s'))"
| "cancel_each env now (jid # ids) reason n active s =
     (case env_seal env (response_label jid) (prompt_of disabled_text) of Inl e \<Rightarrow> (Inl e, s)
      | Inr envelope \<Rightarrow>
          (Inr (Later, [Cancel_each ids reason n active]),
           update_jobs (\<lambda>j. j_id j = jid \<and> waiting j) (fail_job now (Some envelope) (slice 500 reason)) s))"

definition cancelPending :: "string \<Rightarrow> coord \<Rightarrow> segment" where
  "cancelPending reason s =
     (Inr (Later, [Cancel_each (waiting_ids s) reason (length (waiting_ids s)) False]), s)"

definition cancelActiveTurns :: "string \<Rightarrow> coord \<Rightarrow> segment" where
  "cancelActiveTurns reason s =
     (let s' = s\<lparr>reset_generation := reset_generation s + 1\<rparr>
      in (Inr (Later, [Cancel_each (waiting_ids s') reason (length (waiting_ids s')) True]), s'))"

definition unfinished :: "job_row \<Rightarrow> bool" where
  "unfinished j \<longleftrightarrow> waiting j \<or> j_status j = Running \<or> j_delivery j = Delivery_pending"

definition remove_job :: "int \<Rightarrow> string \<Rightarrow> job_row \<Rightarrow> job_row" where
  "remove_job now reason j =
     j\<lparr>j_status := Failed, j_completed := (case j_completed j of None \<Rightarrow> Some now | c \<Rightarrow> c),
       j_delivery := Delivery_failed, j_payload := None, j_response := None, j_error := Some (slice 500 reason)\<rparr>"

definition prepareForRemoval :: "string \<Rightarrow> int \<Rightarrow> coord \<Rightarrow> nat \<times> coord" where
  "prepareForRemoval reason now s =
     (let active = sql_matches unfinished (jobs s);
          s1 = update_jobs unfinished (remove_job now reason) (s\<lparr>reset_generation := reset_generation s + 1\<rparr>);
          s2 = foldl (\<lambda>s k. close_socket (s_id k) 4002 ''claw removal requested'' s) s1 (sockets s1)
      in (active, s2))"

subsection \<open>Delivery to Slack\<close>

definition drop_envelopes :: "delivery_status \<Rightarrow> job_row \<Rightarrow> job_row" where
  "drop_envelopes st j = j\<lparr>j_delivery := st, j_payload := None, j_response := None\<rparr>"

text \<open>\<open>#deliver\<close> and the first segment of \<open>#deliverPending\<close>: \<open>deliveries\<close> are the keys of the map of
  deliveries in flight.\<close>

definition deliver :: "coord_env \<Rightarrow> string \<Rightarrow> coord \<Rightarrow> micro list \<times> coord" where
  "deliver env jid s =
     (if jid \<in> set (deliveries s) then ([Join_delivery jid], s)
      else (case find (\<lambda>j. j_id j = jid \<and> j_delivery j = Delivery_pending) (jobs s) of
              None \<Rightarrow> ([], s)
            | Some j \<Rightarrow>
                if \<not> slackIngressEnabled (env_slack_mode env) \<or> src_surface (j_source j) \<noteq> ''slack'' \<or>
                   trim (env_bot_token env) = []
                then ([], update_jobs (\<lambda>r. j_id r = jid) (drop_envelopes Delivery_failed) s)
                else ([Post j], s\<lparr>deliveries := deliveries s @ [jid]\<rparr>)))"

definition settle :: "int \<Rightarrow> job_row \<Rightarrow> slack_verdict \<Rightarrow> coord \<Rightarrow> coord" where
  "settle now j verdict s =
     (let done = s\<lparr>deliveries := removeAll (j_id j) (deliveries s)\<rparr>; attempts = j_attempts j + 1 in
      if verdict = Accepted then update_jobs (\<lambda>r. j_id r = j_id j) (drop_envelopes Delivered) done
      else if verdict = Refused \<or> 5 \<le> attempts then
        update_jobs (\<lambda>r. j_id r = j_id j) (\<lambda>r. drop_envelopes Delivery_failed (r\<lparr>j_attempts := attempts\<rparr>)) done
      else scheduleCleanup now
        (update_jobs (\<lambda>r. j_id r = j_id j \<and> j_delivery r = Delivery_pending) (\<lambda>r. r\<lparr>j_attempts := attempts\<rparr>) done))"

definition post_message :: "coord_env \<Rightarrow> int \<Rightarrow> job_row \<Rightarrow> coord \<Rightarrow> micro list \<times> coord" where
  "post_message env now j s =
     (case env_open env (response_label (j_id j)) (case j_response j of Some r \<Rightarrow> r | None \<Rightarrow> []) of
        Inl e \<Rightarrow> ([], settle now j Retry_later s)
      | Inr payload \<Rightarrow>
          if nullish payload then ([], settle now j Retry_later s)
          else ([Settle j], s\<lparr>posts := posts s @ [(j_id j, j_source j, get payload ''prompt'')]\<rparr>))"

fun fail_each :: "coord_env \<Rightarrow> int \<Rightarrow> string list \<Rightarrow> string \<Rightarrow> nat \<Rightarrow> coord \<Rightarrow> segment" where
  "fail_each env now [] reason tally s = (Inr (Count tally, []), s)"
| "fail_each env now (jid # ids) reason tally s =
     (case env_seal env (response_label jid) (prompt_of failed_text) of Inl e \<Rightarrow> (Inl e, s)
      | Inr envelope \<Rightarrow>
          let p = (\<lambda>j. j_id j = jid \<and> j_status j = Running);
              written = rows_written env p s;
              s' = update_jobs p (fail_job now (Some envelope) (slice 500 reason)) s;
              (ms, s'') = (if written = 1 then deliver env jid s' else ([], s'))
          in (Inr (Later, ms @ [Fail_each ids reason tally]), s''))"

subsection \<open>The alarm\<close>

definition claimed_before :: "int \<Rightarrow> job_row \<Rightarrow> bool" where
  "claimed_before t j \<longleftrightarrow> (case j_claimed j of Some c \<Rightarrow> c < t | None \<Rightarrow> False)"

definition completed_before :: "int \<Rightarrow> job_row \<Rightarrow> bool" where
  "completed_before t j \<longleftrightarrow> (case j_completed j of Some c \<Rightarrow> c < t | None \<Rightarrow> False)"

definition alarm_start :: "int \<Rightarrow> coord \<Rightarrow> segment" where
  "alarm_start now s =
     (let s' = update_jobs (\<lambda>j. j_status j = Offered \<and> claimed_before (now - 30000) j) back_to_pending
                 (s\<lparr>alarm := None\<rparr>);
          stalled = filter (\<lambda>j. j_status j = Running \<and> claimed_before (now - 17 * minute) j) (jobs s')
      in (Inr (Later, [Fail_each (map j_id stalled) ''runtime turn timed out'' 0, Expire_select now]), s'))"

definition expire_select :: "int \<Rightarrow> coord \<Rightarrow> micro list" where
  "expire_select now s =
     [Expire_each (map j_id (filter (\<lambda>j. waiting j \<and> j_expires j \<le> now) (jobs s))) now, Deliver_select, Sweep now]"

fun expire_each :: "coord_env \<Rightarrow> string list \<Rightarrow> int \<Rightarrow> coord \<Rightarrow> segment" where
  "expire_each env [] now s = (Inr (Done, []), s)"
| "expire_each env (jid # ids) now s =
     (case env_seal env (response_label jid) (prompt_of expired_text) of Inl e \<Rightarrow> (Inl e, s)
      | Inr envelope \<Rightarrow>
          (Inr (Later, [Expire_each ids now]),
           update_jobs (\<lambda>j. j_id j = jid \<and> waiting j) (fail_job now (Some envelope) ''turn expired'') s))"

definition by_completion :: "job_row list \<Rightarrow> job_row list" where
  \<comment> \<open>\<open>ORDER BY completed_at\<close>: SQLite puts NULL first\<close>
  "by_completion rows =
     filter (\<lambda>j. j_completed j = None) rows @
     sort_key (\<lambda>j. case j_completed j of Some c \<Rightarrow> c | None \<Rightarrow> 0) (filter (\<lambda>j. j_completed j \<noteq> None) rows)"

definition deliver_select :: "coord \<Rightarrow> micro list" where
  "deliver_select s =
     map (\<lambda>j. Deliver (j_id j)) (take 20 (by_completion (filter (\<lambda>j. j_delivery j = Delivery_pending) (jobs s))))"

definition day :: int where
  "day = 24 * 60 * minute"

definition sweep :: "int \<Rightarrow> coord \<Rightarrow> coord" where
  "sweep now s =
     (let s' = s\<lparr>grants := filter (\<lambda>g. \<not> g_expires g < now) (grants s),
                 refreshes := filter (\<lambda>f. \<not> f_expires f < now) (refreshes s),
                 tickets := filter (\<lambda>t. \<not> t_expires t < now) (tickets s),
                 runs := filter (\<lambda>r. \<not> (case r_completed r of Some c \<Rightarrow> c < now - 7 * day | None \<Rightarrow> False)) (runs s),
                 jobs := filter (\<lambda>j. \<not> (completed_before (now - day) j \<and>
                   (j_delivery j = Delivered \<or> j_delivery j = Delivery_failed))) (jobs s)\<rparr>
      in if hasWork s' then s'\<lparr>alarm := Some (now + minute)\<rparr> else s')"

subsection \<open>Claiming a turn\<close>

definition earliest :: "(job_row \<Rightarrow> bool) \<Rightarrow> coord \<Rightarrow> job_row option" where
  \<comment> \<open>\<open>SELECT * .. WHERE p ORDER BY created_at LIMIT 1\<close>\<close>
  "earliest p s = (case sort_key j_created (filter p (jobs s)) of [] \<Rightarrow> None | j # _ \<Rightarrow> Some j)"

definition turn_text :: "job_row \<Rightarrow> jsval \<Rightarrow> string" where
  "turn_text j prompt = stringify (JObj
     [(''type'', JStr ''job.turn''), (''id'', JStr (j_id j)), (''prompt'', prompt),
      (''requesterId'', JStr (j_requester j)), (''personaId'', JStr (j_persona j)),
      (''turnToken'', JStr (j_token j)), (''sessionId'', JStr (sessionId (j_source j)))])"

definition turn_chunks :: "job_row \<Rightarrow> jsval \<Rightarrow> string list" where
  "turn_chunks j prompt = chunks 512 (base64url (utf8_bytes (turn_text j prompt)))"

definition offer_messages :: "job_row \<Rightarrow> jsval \<Rightarrow> msg list" where
  "offer_messages j prompt =
     [Job_preparing (j_id j), Job_turn_start (j_id j) (length (turn_chunks j prompt))] @
     map (\<lambda>p. Job_turn_chunk (j_id j) (fst p) (snd p)) (zip [0..<length (turn_chunks j prompt)] (turn_chunks j prompt)) @
     [Job_turn_ready (j_id j)]"

definition send_all :: "nat \<Rightarrow> msg list \<Rightarrow> coord \<Rightarrow> coord" where
  "send_all sid ms s = foldl (\<lambda>s m. send sid m s) s ms"

definition offer_send :: "coord_env \<Rightarrow> int \<Rightarrow> nat \<Rightarrow> attachment \<Rightarrow> job_row \<Rightarrow> coord \<Rightarrow> coord" where
  "offer_send env now sid att j s =
     (let failed = scheduleCleanup now (send sid Job_retry
            (update_jobs (\<lambda>r. j_id r = j_id j \<and> j_status r = Offered \<and> j_runtime r = Some (a_runtime att)) back_to_pending s))
      in case env_open env (j_id j) (case j_payload j of Some p \<Rightarrow> p | None \<Rightarrow> []) of
           Inl e \<Rightarrow> failed
         | Inr payload \<Rightarrow>
             if nullish payload \<or> \<not> socket_open sid s then failed
             else send_all sid (offer_messages j (get payload ''prompt'')) s)"

definition send_refused :: string where
  \<comment> \<open>the error of \<open>ws.send\<close> on a socket that is closed\<close>
  "send_refused = ''Can't call WebSocket send() after close().''"

definition claim :: "int \<Rightarrow> nat \<Rightarrow> attachment \<Rightarrow> coord \<Rightarrow> segment" where
  "claim now sid att s =
     (case earliest (\<lambda>j. j_status j = Offered \<and> j_runtime j = Some (a_runtime att) \<and> now < j_expires j) s of
        Some j \<Rightarrow> (Inr (Later, [Offer_send sid att j]), s)
      | None \<Rightarrow>
          (case earliest (\<lambda>j. j_status j = Pending \<and> now < j_expires j) s of
             None \<Rightarrow> (Inr (Done, []), send sid Job_none s)
           | Some row \<Rightarrow>
               if socket_open sid s then
                 (Inr (Done, []),
                  update_jobs (\<lambda>j. j_id j = j_id row \<and> j_status j = Pending)
                    (\<lambda>j. j\<lparr>j_status := Offered, j_runtime := Some (a_runtime att), j_claimed := Some now\<rparr>)
                    (send sid Job_retry s))
               else
                 (let s1 = update_jobs (\<lambda>j. j_id j = j_id row \<and> j_status j = Pending)
                        (\<lambda>j. j\<lparr>j_status := Failed, j_completed := Some now, j_delivery := Delivery_pending,
                                j_error := Some send_refused\<rparr>) s;
                      s2 = update_jobs (\<lambda>j. j_id j = j_id row \<and> j_status j = Offered) back_to_pending s1
                  in (Inr (Done, []), scheduleCleanup now (send sid Job_retry s2)))))"

subsection \<open>Runtime refresh\<close>

definition refresh_label :: "attachment \<Rightarrow> string" where
  "refresh_label att = ''runtime-refresh:'' @ a_refresh att"

definition find_refresh :: "string \<Rightarrow> coord \<Rightarrow> refresh_row option" where
  "find_refresh jti s = find (\<lambda>f. f_jti f = jti) (refreshes s)"

definition refreshRuntime :: "int \<Rightarrow> nat \<Rightarrow> attachment \<Rightarrow> coord \<Rightarrow> micro list \<times> coord" where
  "refreshRuntime now sid att s =
     (let rejected = ([], close_socket sid 4003 ''runtime refresh rejected''
            (send sid (Runtime_error ''runtime refresh was already used'') s))
      in case find_refresh (a_refresh att) s of
           None \<Rightarrow> rejected
         | Some f \<Rightarrow>
             if f_expires f \<le> now then rejected
             else (case f_response f of
                     Some envelope \<Rightarrow> if envelope \<noteq> [] then ([Replay sid att envelope], s)
                                      else ([Mint sid att (f_consumed f = None) now], s)
                   | None \<Rightarrow> ([Mint sid att (f_consumed f = None) now], s)))"

definition token_response :: "string \<Rightarrow> jsval" where
  "token_response token = JObj [(''token'', JStr token), (''expiresInSeconds'', jint 600)]"

definition replay :: "coord_env \<Rightarrow> int \<Rightarrow> nat \<Rightarrow> attachment \<Rightarrow> string \<Rightarrow> coord \<Rightarrow> segment" where
  "replay env now sid att envelope s =
     (case env_open env (refresh_label att) envelope of Inl e \<Rightarrow> (Inl e, s)
      | Inr v \<Rightarrow>
          (case get v ''token'' of
             JStr token \<Rightarrow>
               (case env_verify env now token of Inl e \<Rightarrow> (Inl e, s)
                | Inr (jti, ex) \<Rightarrow>
                    (Inr (Done, []), send sid (Runtime_token token 600) (set_attachment sid (att\<lparr>a_refresh := jti\<rparr>) s)))
           | _ \<Rightarrow> (Inl (PlainError ''malformed signed token''), s)))"

definition mint :: "coord_env \<Rightarrow> int \<Rightarrow> string \<Rightarrow> nat \<Rightarrow> attachment \<Rightarrow> bool \<Rightarrow> int \<Rightarrow> coord \<Rightarrow> segment" where
  "mint env now token sid att unconsumed began s =
     (case env_verify env now token of Inl e \<Rightarrow> (Inl e, s)
      | Inr (jti, ex) \<Rightarrow>
          (case registerRuntimeRefresh jti (ex * 1000) now s of
             (Inl e, s') \<Rightarrow> (Inl e, s')
           | (Inr _, s') \<Rightarrow> (Inr (Later, [Store_refresh sid att token jti unconsumed began]), s')))"

definition storable :: "attachment \<Rightarrow> bool \<Rightarrow> int \<Rightarrow> refresh_row \<Rightarrow> bool" where
  "storable att unconsumed began f \<longleftrightarrow>
     f_jti f = a_refresh att \<and> (unconsumed \<longrightarrow> f_consumed f = None) \<and> f_response f = None \<and> began < f_expires f"

definition store_refresh ::
  "coord_env \<Rightarrow> nat \<Rightarrow> attachment \<Rightarrow> string \<Rightarrow> string \<Rightarrow> bool \<Rightarrow> int \<Rightarrow> coord \<Rightarrow> segment" where
  "store_refresh env sid att token jti unconsumed began s =
     (case env_seal env (refresh_label att) (token_response token) of Inl e \<Rightarrow> (Inl e, s)
      | Inr envelope \<Rightarrow>
          let p = storable att unconsumed began;
              s' = s\<lparr>refreshes := sql_update p
                (\<lambda>f. f\<lparr>f_consumed := (if unconsumed then Some began else f_consumed f), f_response := Some envelope\<rparr>)
                (refreshes s)\<rparr>
          in if sql_matches p (refreshes s) \<noteq> 1 then
               (Inr (Later, [Refresh sid att]),
                s'\<lparr>refreshes := filter (\<lambda>f. \<not> (f_jti f = jti \<and> f_consumed f = None)) (refreshes s')\<rparr>)
             else (Inr (Done, []), send sid (Runtime_token token 600) (set_attachment sid (att\<lparr>a_refresh := jti\<rparr>) s')))"

subsection \<open>Running and completing a turn\<close>

definition string_field :: "jsval \<Rightarrow> string \<Rightarrow> string" where
  "string_field v k = (case get v k of JStr t \<Rightarrow> t | _ \<Rightarrow> [])"

definition start :: "coord_env \<Rightarrow> int \<Rightarrow> nat \<Rightarrow> attachment \<Rightarrow> jsval \<Rightarrow> coord \<Rightarrow> coord" where
  "start env now sid att input s =
     (let jid = string_field input ''id'';
          p = (\<lambda>j. j_id j = jid \<and> j_status j = Offered \<and> j_runtime j = Some (a_runtime att));
          s' = (if jid = [] then s else update_jobs p (\<lambda>j. j\<lparr>j_status := Running, j_claimed := Some now\<rparr>) s)
      in if jid \<noteq> [] \<and> rows_written env p s = 1 then send sid (Job_started_ack jid) s'
         else if jid \<noteq> [] \<and> (case find_job jid s' of
                   Some j \<Rightarrow> j_status j = Running \<and> j_runtime j = Some (a_runtime att) | None \<Rightarrow> False)
           then send sid (Job_started_ack jid) s'
         else send sid (Runtime_error ''job offer is not owned by this runtime'') s')"

definition complete :: "coord_env \<Rightarrow> nat \<Rightarrow> attachment \<Rightarrow> jsval \<Rightarrow> coord \<Rightarrow> micro list \<times> coord" where
  "complete env sid att input s =
     (let jid = string_field input ''id''; ok = (get input ''ok'' = JBool True);
          output = trim (string_field input ''output'');
          err = (case get input ''error'' of JStr e \<Rightarrow> slice 500 (trim e) | _ \<Rightarrow> ''runtime turn failed'');
          not_owned = ([], send sid (Runtime_error ''job is not owned by this runtime'') s)
      in if jid = [] \<or> (ok \<and> (output = [] \<or> 24 * 1024 < utf8_length output))
         then ([], send sid (Runtime_error ''invalid completion'') s)
         else (case find_job jid s of
                 None \<Rightarrow> not_owned
               | Some j \<Rightarrow>
                   if (j_status j = Completed \<or> j_status j = Failed) \<and> j_runtime j = Some (a_runtime att) then
                     (let (ms, s') = (if j_delivery j = Delivery_pending then deliver env jid s else ([], s))
                      in (ms @ [Ack sid jid], s'))
                   else if j_status j \<noteq> Running \<or> j_runtime j \<noteq> Some (a_runtime att) then not_owned
                   else ([Complete_commit sid att jid ok output err], s)))"

definition complete_job :: "int \<Rightarrow> bool \<Rightarrow> string \<Rightarrow> string \<Rightarrow> job_row \<Rightarrow> job_row" where
  "complete_job now ok envelope err j =
     j\<lparr>j_status := (if ok then Completed else Failed), j_completed := Some now, j_response := Some envelope,
       j_delivery := Delivery_pending, j_error := (if ok then None else Some err)\<rparr>"

definition complete_commit ::
  "coord_env \<Rightarrow> int \<Rightarrow> nat \<Rightarrow> string \<Rightarrow> bool \<Rightarrow> string \<Rightarrow> string \<Rightarrow> coord \<Rightarrow> segment" where
  "complete_commit env now sid jid ok output err s =
     (case env_seal env (response_label jid) (prompt_of (if ok then output else failed_text)) of Inl e \<Rightarrow> (Inl e, s)
      | Inr envelope \<Rightarrow>
          let s' = update_jobs (\<lambda>j. j_id j = jid \<and> j_status j = Running) (complete_job now ok envelope err) s
          in case find_job jid s' of
               None \<Rightarrow> (Inl (PlainError ''Expected exactly one result from SQL query, but got no results.''), s')
             | Some _ \<Rightarrow> (let (ms, s'') = deliver env jid s' in (Inr (Later, ms @ [Ack_available sid jid]), s'')))"

subsection \<open>Sockets\<close>

definition connect :: "bool \<Rightarrow> string \<Rightarrow> string \<Rightarrow> string \<Rightarrow> coord \<Rightarrow> reply \<times> coord" where
  \<comment> \<open>\<open>fetch\<close>: the headers of the upgrade request\<close>
  "connect websocket runtime claw refresh s =
     (if \<not> websocket then (Http 426, s)
      else if trim runtime = [] \<or> trim claw = [] \<or> trim refresh = [] then (Http 401, s)
      else
        let s1 = foldl (\<lambda>s k. case attachmentFrom k of
                     Inl _ \<Rightarrow> close_socket (s_id k) 1011 ''invalid runtime attachment'' s
                   | Inr att \<Rightarrow> if a_runtime att = trim runtime
                       then close_socket (s_id k) 4001 ''runtime reconnected'' (releaseOffers att s) else s) s (sockets s);
            sid = next_socket s1;
            att = \<lparr>a_runtime = trim runtime, a_claw = trim claw, a_refresh = trim refresh, a_disabled = False\<rparr>;
            s2 = s1\<lparr>sockets := sockets s1 @ [\<lparr>s_id = sid, s_attachment = Some att, s_open = True\<rparr>], next_socket := Suc sid\<rparr>;
            s3 = send sid (Runtime_ready (trim claw) (reset_generation s2)) s2
        in (Connected sid, if 0 < pendingCount s3 then send sid Job_available s3 else s3))"

fun restart_each :: "socket list \<Rightarrow> coord \<Rightarrow> unit result \<times> coord" where
  "restart_each [] s = (Inr (), s)"
| "restart_each (k # ks) s =
     (case attachmentFrom k of Inl e \<Rightarrow> (Inl e, s)
      | Inr att \<Rightarrow> restart_each ks (close_socket (s_id k) 4002 ''runtime reconnect requested''
            (releaseOffers att (set_attachment (s_id k) (att\<lparr>a_disabled := True\<rparr>) s))))"

definition restartRuntimeConnections :: "int \<Rightarrow> coord \<Rightarrow> reply result \<times> coord" where
  "restartRuntimeConnections now s =
     (case restart_each (sockets s) s of
        (Inl e, s') \<Rightarrow> (Inl e, s')
      | (Inr _, s') \<Rightarrow>
          let s'' = update_jobs (\<lambda>j. j_status j = Offered) back_to_pending s'
          in (Inr (Count (length (sockets s))), if hasWork s'' then scheduleCleanup now s'' else s''))"

definition webSocketClose :: "int \<Rightarrow> nat \<Rightarrow> coord \<Rightarrow> coord" where
  \<comment> \<open>\<open>webSocketError\<close> has the same text; the platform forgets the socket\<close>
  "webSocketClose now sid s =
     (case find (\<lambda>k. s_id k = sid) (sockets s) of None \<Rightarrow> s
      | Some k \<Rightarrow>
          let s1 = (case attachmentFrom k of Inl _ \<Rightarrow> s | Inr att \<Rightarrow> releaseOffers att s);
              s2 = (if hasWork s1 then scheduleCleanup now s1 else s1)
          in s2\<lparr>sockets := filter (\<lambda>k. s_id k \<noteq> sid) (sockets s2)\<rparr>)"

definition runtimeStatus :: "coord \<Rightarrow> reply" where
  "runtimeStatus s = Status (length (sockets s)) (sql_matches waiting (jobs s)) (count_status Running s)
     (sql_matches (\<lambda>j. j_delivery j = Delivery_pending) (jobs s))"

definition jobStatus :: "string \<Rightarrow> coord \<Rightarrow> reply result" where
  "jobStatus jid s =
     (if jid = [] \<or> 200 < length jid then Inl (PlainError ''invalid job id'')
      else Inr (Job_view (map_option (\<lambda>j. (j_status j, j_delivery j, j_completed j, j_error j \<noteq> None)) (find_job jid s))))"

datatype ws_data = Binary | Text string

definition webSocketMessage :: "coord_env \<Rightarrow> int \<Rightarrow> nat \<Rightarrow> ws_data \<Rightarrow> coord \<Rightarrow> segment" where
  "webSocketMessage env now sid data s =
     (case find (\<lambda>k. s_id k = sid) (sockets s) of None \<Rightarrow> (Inr (Done, []), s)
      | Some k \<Rightarrow>
     (case attachmentFrom k of Inl e \<Rightarrow> (Inl e, s)
      | Inr att \<Rightarrow>
          if a_disabled att then (Inr (Done, []), s)
          else (case data of
             Binary \<Rightarrow> (Inr (Done, []), close_socket sid 1009 ''invalid message'' s)
           | Text text \<Rightarrow>
               if 64 * 1024 < utf8_length text then (Inr (Done, []), close_socket sid 1009 ''invalid message'' s)
               else (case json_parse text of
                  None \<Rightarrow> (Inr (Done, []), close_socket sid 1007 ''invalid JSON'' s)
                | Some input \<Rightarrow>
                    if nullish input then (Inl (PlainError ''Cannot read properties of null''), s)
                    else let kind = get input ''type'' in
                    if kind = JStr ''runtime.heartbeat'' then (Inr (Done, []), send sid (Heartbeat now (reset_generation s)) s)
                    else if kind = JStr ''runtime.refresh'' then (Inr (Later, [Refresh sid att]), s)
                    else if kind = JStr ''runtime.client_error'' \<or> kind = JStr ''runtime.client_event'' then (Inr (Done, []), s)
                    else if kind = JStr ''job.claim'' then claim now sid att s
                    else if kind = JStr ''job.started'' then (Inr (Done, []), start env now sid att input s)
                    else if kind = JStr ''job.complete'' then
                      (let (ms, s') = complete env sid att input s in (Inr (Done, ms), s'))
                    else (Inr (Done, []), send sid (Runtime_error ''unsupported message type'') s)))))"

subsection \<open>Segments, threads and events\<close>

definition awaits :: "coord \<Rightarrow> micro \<Rightarrow> bool" where
  "awaits s m =
     (case m of
        Insert_turn _ \<Rightarrow> True
      | Cancel_each ids _ _ _ \<Rightarrow> ids \<noteq> []
      | Fail_each ids _ _ \<Rightarrow> ids \<noteq> []
      | Expire_each ids _ \<Rightarrow> ids \<noteq> []
      | Join_delivery jid \<Rightarrow> jid \<in> set (deliveries s)
      | Post _ \<Rightarrow> True
      | Settle _ \<Rightarrow> True
      | Offer_send _ _ _ \<Rightarrow> True
      | Replay _ _ _ \<Rightarrow> True
      | Mint _ _ _ _ \<Rightarrow> True
      | Store_refresh _ _ _ _ _ _ \<Rightarrow> True
      | Complete_commit _ _ _ _ _ _ \<Rightarrow> True
      | _ \<Rightarrow> False)"

definition carry_on :: "micro list \<times> coord \<Rightarrow> segment" where
  "carry_on r = (Inr (Done, fst r), snd r)"

definition exec_micro :: "coord_env \<Rightarrow> int \<Rightarrow> slack_outcome \<Rightarrow> string \<Rightarrow> micro \<Rightarrow> coord \<Rightarrow> segment" where
  "exec_micro env now outcome token m s =
     (case m of
        Insert_turn input \<Rightarrow> insert_turn env now input s
      | Cancel_each ids reason n active \<Rightarrow> cancel_each env now ids reason n active s
      | Fail_each ids reason tally \<Rightarrow> fail_each env now ids reason tally s
      | Deliver jid \<Rightarrow> carry_on (deliver env jid s)
      | Join_delivery jid \<Rightarrow> carry_on (if jid \<in> set (deliveries s) then [Join_delivery jid] else [], s)
      | Post j \<Rightarrow> carry_on (post_message env now j s)
      | Settle j \<Rightarrow> carry_on ([], settle now j (slack_verdict_of outcome) s)
      | Expire_select began \<Rightarrow> carry_on (expire_select began s, s)
      | Expire_each ids began \<Rightarrow> expire_each env ids began s
      | Deliver_select \<Rightarrow> carry_on (deliver_select s, s)
      | Sweep began \<Rightarrow> carry_on ([], sweep began s)
      | Offer_send sid att j \<Rightarrow> carry_on ([], offer_send env now sid att j s)
      | Refresh sid att \<Rightarrow> carry_on (refreshRuntime now sid att s)
      | Replay sid att envelope \<Rightarrow> replay env now sid att envelope s
      | Mint sid att unconsumed began \<Rightarrow> mint env now token sid att unconsumed began s
      | Store_refresh sid att tok jti unconsumed began \<Rightarrow> store_refresh env sid att tok jti unconsumed began s
      | Complete_commit sid att jid ok output err \<Rightarrow> complete_commit env now sid jid ok output err s
      | Ack sid jid \<Rightarrow> carry_on ([], send sid (Job_ack jid) s)
      | Ack_available sid jid \<Rightarrow>
          carry_on ([], (let s' = send sid (Job_ack jid) s in if 0 < pendingCount s' then send sid Job_available s' else s')))"

text \<open>Run the segments that await nothing. The alarm has the longest sequence of them, 25; should the
  fuel end, the rest is a thread like any other.\<close>

fun run_thread :: "nat \<Rightarrow> coord_env \<Rightarrow> int \<Rightarrow> reply \<Rightarrow> micro list \<Rightarrow> coord \<Rightarrow> reply result \<times> micro list \<times> coord" where
  "run_thread n env now r [] s = (Inr r, [], s)"
| "run_thread 0 env now r (m # ms) s = (Inr Later, m # ms, s)"
| "run_thread (Suc n) env now r (m # ms) s =
     (if awaits s m then (Inr Later, m # ms, s)
      else (case exec_micro env now No_response [] m s of
              (Inl e, s') \<Rightarrow> (Inl e, [], s')
            | (Inr (r', new), s') \<Rightarrow> run_thread n env now r' (new @ ms) s'))"

definition park :: "reply result \<times> micro list \<times> coord \<Rightarrow> reply result \<times> coord" where
  "park x = (case x of (r, ms, s) \<Rightarrow> (r, if ms = [] then s else s\<lparr>threads := threads s @ [ms]\<rparr>))"

definition begin_thread :: "coord_env \<Rightarrow> int \<Rightarrow> segment \<Rightarrow> micro list \<Rightarrow> reply result \<times> coord" where
  "begin_thread env now seg rest =
     (case seg of
        (Inl e, s) \<Rightarrow> (Inl e, s)
      | (Inr (r, ms), s) \<Rightarrow> park (run_thread 64 env now r (ms @ rest) s))"

datatype event =
    Enqueue turn_input
  | Cancel_pending string
  | Cancel_active string
  | Prepare_removal string
  | Register_grant string string string int
  | Register_refresh string int
  | Register_ticket string int
  | Consume_ticket string int
  | Consume_grant string string string
  | Start_run string
  | Finish_run string bool "string option"
  | Connect bool string string string
  | Message nat ws_data
  | Restart_connections
  | Socket_closed nat
  | Alarm
  | Runtime_status
  | Job_status string
  | Tick nat slack_outcome string
  | Evict   \<comment> \<open>the platform drops the object from memory: the storage stays\<close>

definition lift_reply :: "reply \<Rightarrow> unit result \<times> coord \<Rightarrow> reply result \<times> coord" where
  "lift_reply r x = (case x of (Inl e, s) \<Rightarrow> (Inl e, s) | (Inr _, s) \<Rightarrow> (Inr r, s))"

definition tick :: "coord_env \<Rightarrow> int \<Rightarrow> nat \<Rightarrow> slack_outcome \<Rightarrow> string \<Rightarrow> coord \<Rightarrow> reply result \<times> coord" where
  "tick env now i outcome token s =
     (if i < length (threads s) then
        (case threads s ! i of
           [] \<Rightarrow> (Inr Done, s)
         | m # ms \<Rightarrow>
             let s' = s\<lparr>threads := take i (threads s) @ drop (Suc i) (threads s)\<rparr>
             in begin_thread env now (exec_micro env now outcome token m s') ms)
      else (Inr Done, s))"

definition coord_step :: "coord_env \<Rightarrow> int \<Rightarrow> event \<Rightarrow> coord \<Rightarrow> reply result \<times> coord" where
  "coord_step env now ev s =
     (case ev of
        Enqueue input \<Rightarrow> begin_thread env now (enqueueTurn input now s) []
      | Cancel_pending reason \<Rightarrow> begin_thread env now (cancelPending reason s) []
      | Cancel_active reason \<Rightarrow> begin_thread env now (cancelActiveTurns reason s) []
      | Prepare_removal reason \<Rightarrow> (let (n, s') = prepareForRemoval reason now s in (Inr (Count n), s'))
      | Register_grant invocation jti digest expires \<Rightarrow> lift_reply Done (registerGrant invocation jti digest expires now s)
      | Register_refresh jti expires \<Rightarrow> lift_reply Done (registerRuntimeRefresh jti expires now s)
      | Register_ticket jti expires \<Rightarrow> lift_reply Done (registerRuntimeTicket jti expires now s)
      | Consume_ticket jti at_time \<Rightarrow> (let (b, s') = consumeRuntimeTicket jti at_time s in (Inr (Flag b), s'))
      | Consume_grant invocation jti digest \<Rightarrow>
          (let (b, s') = consumeGrant invocation jti digest now s in (Inr (Flag b), s'))
      | Start_run invocation \<Rightarrow> lift_reply Done (startRun invocation now s)
      | Finish_run invocation ok err \<Rightarrow> (Inr Done, finishRun invocation ok err now s)
      | Connect websocket runtime claw refresh \<Rightarrow> (let (r, s') = connect websocket runtime claw refresh s in (Inr r, s'))
      | Message sid data \<Rightarrow> begin_thread env now (webSocketMessage env now sid data s) []
      | Restart_connections \<Rightarrow> restartRuntimeConnections now s
      | Socket_closed sid \<Rightarrow> (Inr Done, webSocketClose now sid s)
      | Alarm \<Rightarrow> begin_thread env now (alarm_start now s) []
      | Runtime_status \<Rightarrow> (Inr (runtimeStatus s), s)
      | Job_status jid \<Rightarrow> (jobStatus jid s, s)
      | Tick i outcome token \<Rightarrow> tick env now i outcome token s
      | Evict \<Rightarrow> (Inr Done, s\<lparr>threads := [], deliveries := []\<rparr>))"

text \<open>A run: the events with the times they happen at, and the replies.\<close>

fun coord_run :: "coord_env \<Rightarrow> (int \<times> event) list \<Rightarrow> coord \<Rightarrow> reply result list \<times> coord" where
  "coord_run env [] s = ([], s)"
| "coord_run env ((now, ev) # evs) s =
     (let (r, s') = coord_step env now ev s; (rs, s'') = coord_run env evs s' in (r # rs, s''))"

definition reachable :: "coord_env \<Rightarrow> coord \<Rightarrow> bool" where
  "reachable env s \<longleftrightarrow> (\<exists>evs. s = snd (coord_run env evs coord_init))"

end
