(* ===== verification/Coordinator_Safety.thy ===== *)
theory Coordinator_Safety
  imports Coordinator
begin

text \<open>
  Safety of the coordinator over all runs. An update of the job table is an \<open>evolves\<close> step: rows are
  dropped or moved along \<open>row_move\<close>, which carries the invariant of a single row (\<open>job_ok\<close>) and the
  facts that hold between a row and its successor. \<open>coord_inv\<close> adds what the waiting threads rely on:
  a turn id is inserted once, a job has one delivery in flight, a completion that awaits its sealing
  belongs to the runtime that owns the job.
\<close>

subsection \<open>What the helpers leave alone\<close>

named_theorems frame_simps "fields that an operation does not touch"

lemma foldl_keeps: "(\<And>a x. f (g a x) = f a) \<Longrightarrow> f (foldl g a xs) = f a"
  by (induction xs arbitrary: a) auto

lemma emit_frame [frame_simps]:
  "jobs (emit sid fr s) = jobs s" "threads (emit sid fr s) = threads s" "deliveries (emit sid fr s) = deliveries s"
  "posts (emit sid fr s) = posts s" "grants (emit sid fr s) = grants s" "tickets (emit sid fr s) = tickets s"
  "refreshes (emit sid fr s) = refreshes s"
  by (simp_all add: emit_def)

lemma send_frame [frame_simps]:
  "jobs (send sid m s) = jobs s" "threads (send sid m s) = threads s" "deliveries (send sid m s) = deliveries s"
  "posts (send sid m s) = posts s" "grants (send sid m s) = grants s" "tickets (send sid m s) = tickets s"
  "refreshes (send sid m s) = refreshes s"
  by (simp_all add: send_def frame_simps)

lemma close_socket_frame [frame_simps]:
  "jobs (close_socket sid c w s) = jobs s" "threads (close_socket sid c w s) = threads s"
  "deliveries (close_socket sid c w s) = deliveries s" "posts (close_socket sid c w s) = posts s"
  "grants (close_socket sid c w s) = grants s" "tickets (close_socket sid c w s) = tickets s"
  "refreshes (close_socket sid c w s) = refreshes s"
  by (simp_all add: close_socket_def Let_def frame_simps)

lemma set_attachment_frame [frame_simps]:
  "jobs (set_attachment sid a s) = jobs s" "threads (set_attachment sid a s) = threads s"
  "deliveries (set_attachment sid a s) = deliveries s" "posts (set_attachment sid a s) = posts s"
  "grants (set_attachment sid a s) = grants s" "tickets (set_attachment sid a s) = tickets s"
  "refreshes (set_attachment sid a s) = refreshes s"
  by (simp_all add: set_attachment_def)

lemma scheduleCleanup_frame [frame_simps]:
  "jobs (scheduleCleanup now s) = jobs s" "threads (scheduleCleanup now s) = threads s"
  "deliveries (scheduleCleanup now s) = deliveries s" "posts (scheduleCleanup now s) = posts s"
  "grants (scheduleCleanup now s) = grants s" "tickets (scheduleCleanup now s) = tickets s"
  "refreshes (scheduleCleanup now s) = refreshes s"
  by (simp_all add: scheduleCleanup_def split: option.splits)

lemma update_jobs_frame [frame_simps]:
  "threads (update_jobs p f s) = threads s" "deliveries (update_jobs p f s) = deliveries s"
  "posts (update_jobs p f s) = posts s" "grants (update_jobs p f s) = grants s"
  "tickets (update_jobs p f s) = tickets s" "refreshes (update_jobs p f s) = refreshes s"
  "jobs (update_jobs p f s) = sql_update p f (jobs s)"
  by (simp_all add: update_jobs_def)

lemma notifyAvailable_frame [frame_simps]:
  "jobs (notifyAvailable s) = jobs s" "threads (notifyAvailable s) = threads s"
  "deliveries (notifyAvailable s) = deliveries s" "posts (notifyAvailable s) = posts s"
  "grants (notifyAvailable s) = grants s" "tickets (notifyAvailable s) = tickets s"
  "refreshes (notifyAvailable s) = refreshes s"
  by (simp_all add: notifyAvailable_def foldl_keeps send_frame)

lemma send_all_frame [frame_simps]:
  "jobs (send_all sid ms s) = jobs s" "threads (send_all sid ms s) = threads s"
  "deliveries (send_all sid ms s) = deliveries s" "posts (send_all sid ms s) = posts s"
  "grants (send_all sid ms s) = grants s" "tickets (send_all sid ms s) = tickets s"
  "refreshes (send_all sid ms s) = refreshes s"
  by (simp_all add: send_all_def foldl_keeps send_frame)

lemma set_sql_update: "r' \<in> set (sql_update p f rows) \<Longrightarrow> \<exists>r\<in>set rows. r' = (if p r then f r else r)"
  by (auto simp: sql_update_def)

subsection \<open>One row\<close>

definition terminal :: "job_row \<Rightarrow> bool" where
  "terminal j \<longleftrightarrow> j_status j = Completed \<or> j_status j = Failed"

lemma terminal_status: "terminal j \<longleftrightarrow> \<not> waiting j \<and> j_status j \<noteq> Running"
  by (cases "j_status j") (auto simp: terminal_def waiting_def)

definition job_ok :: "job_row \<Rightarrow> bool" where
  "job_ok j \<longleftrightarrow>
     (terminal j \<longleftrightarrow> j_delivery j \<noteq> Undelivered) \<and> (terminal j \<longleftrightarrow> j_completed j \<noteq> None) \<and>
     (j_status j = Pending \<longrightarrow> j_runtime j = None) \<and>
     (j_status j = Offered \<or> j_status j = Running \<longrightarrow> j_runtime j \<noteq> None \<and> j_claimed j \<noteq> None) \<and>
     (\<not> terminal j \<longrightarrow> j_payload j \<noteq> None \<and> j_attempts j = 0) \<and>
     (j_delivery j = Delivery_pending \<longrightarrow> j_attempts j < 5) \<and> j_attempts j \<le> 5 \<and>
     (j_delivery j = Delivered \<or> j_delivery j = Delivery_failed \<longrightarrow> j_payload j = None \<and> j_response j = None)"

text \<open>From a row to its successor; only jobs of \<open>X\<close> may become \<open>Delivered\<close>, only jobs
  of \<open>C\<close> may become \<open>Completed\<close>.\<close>

definition row_move :: "string set \<Rightarrow> string set \<Rightarrow> job_row \<Rightarrow> job_row \<Rightarrow> bool" where
  "row_move X C j j' \<longleftrightarrow>
     j_id j' = j_id j \<and> j_event j' = j_event j \<and> j_source j' = j_source j \<and>
     (job_ok j \<longrightarrow>
        job_ok j' \<and> (terminal j \<longrightarrow> terminal j') \<and> (j_status j = Failed \<longrightarrow> j_status j' = Failed) \<and>
        (\<not> waiting j \<longrightarrow> \<not> waiting j' \<and> j_runtime j' = j_runtime j) \<and>
        (j_delivery j = Delivered \<longrightarrow> j_delivery j' = Delivered) \<and>
        (j_delivery j' = Delivered \<longrightarrow> j_delivery j = Delivered \<or> j_id j \<in> X) \<and>
        (j_status j' = Completed \<longrightarrow> j_status j = Completed \<or> j_id j \<in> C))"

lemma row_move_refl [simp]: "row_move X C j j"
  by (simp add: row_move_def)

lemma row_move_trans: "row_move X C a b \<Longrightarrow> row_move X C b c \<Longrightarrow> row_move X C a c"
  unfolding row_move_def by (elim conjE, intro conjI) (simp_all, blast)

lemma row_move_mono: "row_move X C a b \<Longrightarrow> X \<subseteq> Y \<Longrightarrow> C \<subseteq> D \<Longrightarrow> row_move Y D a b"
  unfolding row_move_def by blast

text \<open>The updates of the source.\<close>

lemma move_back: "j_status j = Offered \<Longrightarrow> row_move X C j (back_to_pending j)"
  by (cases "j_status j"; simp add: row_move_def back_to_pending_def job_ok_def terminal_def waiting_def)

lemma move_fail: "waiting j \<or> j_status j = Running \<Longrightarrow> row_move X C j (fail_job now w e j)"
  by (cases "j_status j"; simp add: row_move_def fail_job_def job_ok_def terminal_def waiting_def)

lemma move_remove: "unfinished j \<Longrightarrow> row_move X C j (remove_job now e j)"
  by (cases "j_status j"; cases "j_completed j";
      simp add: row_move_def remove_job_def job_ok_def terminal_def waiting_def unfinished_def)

lemma move_drop: "j_delivery j = Delivery_pending \<Longrightarrow> row_move X C j (drop_envelopes Delivery_failed j)"
  by (cases "j_status j"; simp add: row_move_def drop_envelopes_def job_ok_def terminal_def waiting_def)

lemma move_offer:
  "j_status j = Pending \<Longrightarrow> row_move X C j (j\<lparr>j_status := Offered, j_runtime := Some rt, j_claimed := Some now\<rparr>)"
  by (cases "j_status j"; simp add: row_move_def job_ok_def terminal_def waiting_def)

lemma move_unsent:
  "j_status j = Pending \<Longrightarrow> row_move X C j (j\<lparr>j_status := Failed, j_completed := Some now, j_delivery := Delivery_pending, j_error := Some e\<rparr>)"
  by (cases "j_status j"; simp add: row_move_def job_ok_def terminal_def waiting_def)

lemma move_run: "j_status j = Offered \<Longrightarrow> row_move X C j (j\<lparr>j_status := Running, j_claimed := Some now\<rparr>)"
  by (cases "j_status j"; simp add: row_move_def job_ok_def terminal_def waiting_def)

lemma move_complete: "j_status j = Running \<Longrightarrow> j_id j \<in> C \<Longrightarrow> row_move X C j (complete_job now ok w e j)"
  by (cases "j_status j"; simp add: row_move_def complete_job_def job_ok_def terminal_def waiting_def)

subsection \<open>The table\<close>

definition evolves :: "string set \<Rightarrow> string set \<Rightarrow> job_row list \<Rightarrow> job_row list \<Rightarrow> bool" where
  "evolves X C js js' \<longleftrightarrow> (\<exists>p g. js' = map g (filter p js) \<and> (\<forall>j\<in>set js. row_move X C j (g j)))"

lemma evolves_refl [simp]: "evolves X C js js"
proof -
  have "js = map (\<lambda>j. j) (filter (\<lambda>_. True) js)" by simp
  then show ?thesis unfolding evolves_def using row_move_refl by blast
qed

lemma evolves_trans:
  assumes "evolves X C a b" "evolves X C b c"
  shows "evolves X C a c"
proof -
  obtain p g where b: "b = map g (filter p a)" and g: "\<forall>j\<in>set a. row_move X C j (g j)"
    using assms(1) unfolding evolves_def by blast
  obtain q h where c: "c = map h (filter q b)" and h: "\<forall>j\<in>set b. row_move X C j (h j)"
    using assms(2) unfolding evolves_def by blast
  let ?k = "\<lambda>j. if p j then h (g j) else j"
  have "c = map ?k (filter (\<lambda>j. p j \<and> q (g j)) a)"
    unfolding c b by (simp add: filter_map o_def)
  moreover have "\<forall>j\<in>set a. row_move X C j (?k j)"
    using g h b by (auto intro: row_move_trans)
  ultimately show ?thesis unfolding evolves_def by blast
qed

lemma evolves_mono: "evolves X C a b \<Longrightarrow> X \<subseteq> Y \<Longrightarrow> C \<subseteq> D \<Longrightarrow> evolves Y D a b"
  unfolding evolves_def using row_move_mono by blast

lemma evolves_update:
  assumes "\<And>j. j \<in> set js \<Longrightarrow> p j \<Longrightarrow> row_move X C j (f j)"
  shows "evolves X C js (sql_update p f js)"
proof -
  have "sql_update p f js = map (\<lambda>j. if p j then f j else j) (filter (\<lambda>_. True) js)" by (simp add: sql_update_def)
  moreover have "\<forall>j\<in>set js. row_move X C j (if p j then f j else j)" using assms by simp
  ultimately show ?thesis unfolding evolves_def by blast
qed

lemma evolves_filter: "evolves X C js (filter p js)"
proof -
  have "filter p js = map (\<lambda>j. j) (filter p js)" by simp
  then show ?thesis unfolding evolves_def using row_move_refl by blast
qed


lemma evolves_row: "evolves X C js js' \<Longrightarrow> j' \<in> set js' \<Longrightarrow> \<exists>j\<in>set js. row_move X C j j'"
  unfolding evolves_def by fastforce

lemma evolves_ids:
  assumes "evolves X C js js'"
  shows "distinct (map j_id js) \<Longrightarrow> distinct (map j_id js')" "distinct (map j_event js) \<Longrightarrow> distinct (map j_event js')"
proof -
  obtain p g where js': "js' = map g (filter p js)" and g: "\<forall>j\<in>set js. row_move X C j (g j)"
    using assms unfolding evolves_def by blast
  have "map j_id js' = map j_id (filter p js)" "map j_event js' = map j_event (filter p js)"
    unfolding js' using g by (auto simp: row_move_def)
  then show "distinct (map j_id js) \<Longrightarrow> distinct (map j_id js')" "distinct (map j_event js) \<Longrightarrow> distinct (map j_event js')"
    by (simp_all add: distinct_map_filter)
qed

lemma evolves_ok: "evolves X C js js' \<Longrightarrow> \<forall>j\<in>set js. job_ok j \<Longrightarrow> \<forall>j\<in>set js'. job_ok j"
  using evolves_row unfolding row_move_def by blast


subsection \<open>Waiting threads\<close>

definition turn_ids :: "micro \<Rightarrow> string list" where
  "turn_ids m = (case m of Insert_turn input \<Rightarrow> [in_id input] | _ \<Rightarrow> [])"

definition flights :: "micro \<Rightarrow> string list" where
  "flights m = (case m of Post j \<Rightarrow> [j_id j] | Settle j \<Rightarrow> [j_id j] | _ \<Rightarrow> [])"

definition refs :: "micro \<Rightarrow> string list" where
  "refs m = (case m of Complete_commit sid att jid ok output err \<Rightarrow> [jid] | _ \<Rightarrow> flights m)"

definition flight_ok :: "job_row list \<Rightarrow> job_row \<Rightarrow> bool" where
  "flight_ok js j \<longleftrightarrow> j_attempts j < 5 \<and>
     (\<forall>r\<in>set js. j_id r = j_id j \<longrightarrow> j_delivery r = Delivery_pending \<or> j_delivery r = Delivery_failed)"

definition micro_ok :: "job_row list \<Rightarrow> micro \<Rightarrow> bool" where
  "micro_ok js m =
     (case m of
        Post j \<Rightarrow> flight_ok js j
      | Settle j \<Rightarrow> flight_ok js j
      | Complete_commit sid att jid ok output err \<Rightarrow>
          (\<forall>r\<in>set js. j_id r = jid \<longrightarrow> \<not> waiting r \<and> j_runtime r = Some (a_runtime att))
      | _ \<Rightarrow> True)"

definition all_ids :: "micro list \<Rightarrow> string list" where
  "all_ids M = concat (map turn_ids M)"

definition all_flights :: "micro list \<Rightarrow> string list" where
  "all_flights M = concat (map flights M)"

lemma all_append [simp]:
  "all_ids [] = []" "all_ids (m # M) = turn_ids m @ all_ids M" "all_ids (M @ N) = all_ids M @ all_ids N"
  "all_flights [] = []" "all_flights (m # M) = flights m @ all_flights M" "all_flights (M @ N) = all_flights M @ all_flights N"
  by (simp_all add: all_ids_def all_flights_def)

definition rows_inv :: "string set \<Rightarrow> job_row list \<Rightarrow> bool" where
  "rows_inv U js \<longleftrightarrow>
     distinct (map j_id js) \<and> distinct (map j_event js) \<and> j_id ` set js \<subseteq> U \<and> (\<forall>j\<in>set js. job_ok j)"

text \<open>\<open>U\<close>: the ids enqueued so far; \<open>M\<close>: the segments that wait.\<close>

definition micros_inv :: "string set \<Rightarrow> job_row list \<Rightarrow> string list \<Rightarrow> micro list \<Rightarrow> bool" where
  "micros_inv U js ds M \<longleftrightarrow>
     distinct (all_ids M) \<and> set (all_ids M) \<subseteq> U - j_id ` set js \<and>
     distinct (all_flights M) \<and> set (all_flights M) \<subseteq> set ds \<and>
     (\<forall>m\<in>set M. micro_ok js m \<and> set (refs m) \<subseteq> U - set (all_ids M))"

text \<open>\<open>ms\<close>: the segments of the handler that runs now.\<close>

definition coord_inv :: "string set \<Rightarrow> coord \<Rightarrow> micro list \<Rightarrow> bool" where
  "coord_inv U s ms \<longleftrightarrow> rows_inv U (jobs s) \<and> micros_inv U (jobs s) (deliveries s) (ms @ concat (threads s))"

definition idle :: "micro \<Rightarrow> bool" where
  "idle m \<longleftrightarrow> turn_ids m = [] \<and> refs m = []"

lemma idle_flights: "idle m \<Longrightarrow> flights m = [] \<and> (\<forall>js. micro_ok js m)"
  by (cases m) (auto simp: idle_def refs_def flights_def micro_ok_def)

lemma idle_simps [simp]:
  "idle (Cancel_each ids reason n a)" "idle (Fail_each ids reason n)" "idle (Deliver jid)"
  "idle (Join_delivery jid)" "idle (Expire_select t)" "idle (Expire_each ids t)" "idle Deliver_select"
  "idle (Sweep t)" "idle (Offer_send sid att j)" "idle (Refresh sid att)" "idle (Replay sid att w)"
  "idle (Mint sid att b t)" "idle (Store_refresh sid att tok jti b t)" "idle (Ack sid jid)"
  "idle (Ack_available sid jid)"
  "\<not> idle (Insert_turn i)" "\<not> idle (Post j)" "\<not> idle (Settle j)"
  "\<not> idle (Complete_commit sid att jid ok out err)"
  by (simp_all add: idle_def turn_ids_def refs_def flights_def)

lemma all_idle: "\<forall>m\<in>set ms. idle m \<Longrightarrow> all_ids ms = [] \<and> all_flights ms = []"
  using idle_flights by (auto simp: idle_def all_ids_def all_flights_def)

lemma micros_swap: "micros_inv U js ds (A @ B @ C) \<longleftrightarrow> micros_inv U js ds (B @ A @ C)"
proof -
  have "distinct (all_ids (A @ B @ C)) = distinct (all_ids (B @ A @ C))"
    "distinct (all_flights (A @ B @ C)) = distinct (all_flights (B @ A @ C))" by auto
  moreover have "set (all_ids (A @ B @ C)) = set (all_ids (B @ A @ C))"
    "set (all_flights (A @ B @ C)) = set (all_flights (B @ A @ C))" "set (A @ B @ C) = set (B @ A @ C)" by auto
  ultimately show ?thesis unfolding micros_inv_def by metis
qed

lemma micros_tail: "micros_inv U js ds (A @ B) \<Longrightarrow> micros_inv U js ds B"
  unfolding micros_inv_def by (simp only: all_append distinct_append set_append) blast

lemma micros_idle:
  assumes "micros_inv U js ds B" "\<forall>m\<in>set A. idle m"
  shows "micros_inv U js ds (A @ B)"
proof -
  have "micro_ok js m \<and> refs m = []" if "m \<in> set A" for m
    using assms(2) that idle_flights by (auto simp: idle_def)
  then show ?thesis using assms all_idle [OF assms(2)] unfolding micros_inv_def by auto
qed

lemma inv_idle: "coord_inv U s ms \<Longrightarrow> \<forall>m\<in>set new. idle m \<Longrightarrow> coord_inv U s (new @ ms)"
  using micros_idle by (simp add: coord_inv_def)

lemma inv_tail: "coord_inv U s (new @ ms) \<Longrightarrow> coord_inv U s ms"
  unfolding coord_inv_def append_assoc using micros_tail by blast

lemma inv_nil: "coord_inv U s ms \<Longrightarrow> coord_inv U s []"
  using inv_tail [of U s ms "[]"] by simp

lemma flight_move:
  assumes "evolves X C js js'" "\<forall>j\<in>set js. job_ok j" "flight_ok js j" "j_id j \<notin> X"
  shows "flight_ok js' j"
  unfolding flight_ok_def
proof (intro conjI ballI impI)
  show "j_attempts j < 5" using assms(3) by (simp add: flight_ok_def)
  fix r' assume r': "r' \<in> set js'" and i: "j_id r' = j_id j"
  obtain r where r: "r \<in> set js" and m: "row_move X C r r'" using evolves_row [OF assms(1) r'] by blast
  have ri: "j_id r = j_id j" using m i by (simp add: row_move_def)
  with r assms(3) have pf: "j_delivery r = Delivery_pending \<or> j_delivery r = Delivery_failed" by (simp add: flight_ok_def)
  have ok: "job_ok r" "job_ok r'" using r assms(2) m by (auto simp: row_move_def)
  from pf ok(1) have "terminal r" by (auto simp: job_ok_def)
  with m ok(1) have "terminal r'" by (simp add: row_move_def)
  with ok(2) have "j_delivery r' \<noteq> Undelivered" by (simp add: job_ok_def)
  moreover have "j_delivery r' \<noteq> Delivered" using m ok(1) pf ri assms(4) by (auto simp: row_move_def)
  ultimately show "j_delivery r' = Delivery_pending \<or> j_delivery r' = Delivery_failed"
    by (cases "j_delivery r'") auto
qed

lemma micro_move:
  assumes "evolves X C js js'" "\<forall>j\<in>set js. job_ok j" "micro_ok js m" "set (flights m) \<inter> X = {}"
  shows "micro_ok js' m"
proof (cases m)
  case (Complete_commit sid att jid ok out err)
  have "\<not> waiting r' \<and> j_runtime r' = Some (a_runtime att)" if r': "r' \<in> set js'" "j_id r' = jid" for r'
  proof -
    obtain r where r: "r \<in> set js" and m: "row_move X C r r'" using evolves_row [OF assms(1) r'(1)] by blast
    then have "\<not> waiting r \<and> j_runtime r = Some (a_runtime att)"
      using assms(3) r'(2) Complete_commit by (auto simp: row_move_def micro_ok_def)
    then show ?thesis using m r assms(2) by (simp add: row_move_def)
  qed
  then show ?thesis using Complete_commit by (auto simp: micro_ok_def)
qed (use assms flight_move in \<open>auto simp: micro_ok_def flights_def\<close>)

lemma rows_evolve:
  assumes "rows_inv U js" "evolves X C js js'"
  shows "rows_inv U js'" "j_id ` set js' \<subseteq> j_id ` set js"
proof -
  show ids: "j_id ` set js' \<subseteq> j_id ` set js"
  proof
    fix x assume "x \<in> j_id ` set js'"
    then obtain j' where "j' \<in> set js'" "x = j_id j'" by blast
    then show "x \<in> j_id ` set js" using evolves_row [OF assms(2)] by (fastforce simp: row_move_def)
  qed
  have "distinct (map j_id js')" "distinct (map j_event js')"
    using assms(1) evolves_ids [OF assms(2)] unfolding rows_inv_def by blast+
  moreover have "\<forall>j\<in>set js'. job_ok j" using assms(1) evolves_ok [OF assms(2)] by (simp add: rows_inv_def)
  moreover have "j_id ` set js' \<subseteq> U" using ids assms(1) unfolding rows_inv_def by (meson order_trans)
  ultimately show "rows_inv U js'" unfolding rows_inv_def by simp
qed

lemma micros_evolve:
  assumes "micros_inv U js ds M" "evolves X C js js'" "\<forall>j\<in>set js. job_ok j" "j_id ` set js' \<subseteq> j_id ` set js"
    "set (all_flights M) \<subseteq> set ds'" "set (all_flights M) \<inter> X = {}"
  shows "micros_inv U js' ds' M"
proof -
  have "micro_ok js' m" if "m \<in> set M" for m
  proof (rule micro_move [OF assms(2,3)])
    show "micro_ok js m" using assms(1) that by (simp add: micros_inv_def)
    show "set (flights m) \<inter> X = {}" using assms(6) that by (auto simp: all_flights_def)
  qed
  moreover have "set (all_ids M) \<subseteq> U - j_id ` set js" using assms(1) by (simp add: micros_inv_def)
  then have "set (all_ids M) \<subseteq> U - j_id ` set js'" using assms(4) by (meson Diff_mono order_refl order_trans)
  ultimately show ?thesis using assms(1,5) unfolding micros_inv_def by simp
qed

lemma inv_evolve:
  assumes "coord_inv U s ms" "evolves X C (jobs s) (jobs s')" "threads s' = threads s"
    "set (all_flights (ms @ concat (threads s))) \<subseteq> set (deliveries s')"
    "set (all_flights (ms @ concat (threads s))) \<inter> X = {}"
  shows "coord_inv U s' ms"
  unfolding coord_inv_def assms(3)
proof
  have r: "rows_inv U (jobs s)" using assms(1) by (simp add: coord_inv_def)
  show "rows_inv U (jobs s')" by (rule rows_evolve(1) [OF r assms(2)])
  show "micros_inv U (jobs s') (deliveries s') (ms @ concat (threads s))"
  proof (rule micros_evolve [OF _ assms(2) _ rows_evolve(2) [OF r assms(2)] assms(4,5)])
    show "micros_inv U (jobs s) (deliveries s) (ms @ concat (threads s))" using assms(1) by (simp add: coord_inv_def)
    show "\<forall>j\<in>set (jobs s). job_ok j" using r by (simp add: rows_inv_def)
  qed
qed

lemma inv_flights: "coord_inv U s ms \<Longrightarrow> set (all_flights (ms @ concat (threads s))) \<subseteq> set (deliveries s)"
  by (simp only: coord_inv_def micros_inv_def)

lemma inv_step:
  assumes "coord_inv U s ms" "evolves {} C (jobs s) (jobs s')" "threads s' = threads s"
    "deliveries s' = deliveries s" "\<forall>m\<in>set new. idle m"
  shows "coord_inv U s' (new @ ms)"
  by (rule inv_idle [OF inv_evolve [OF assms(1-3)] assms(5)]) (use assms inv_flights in simp_all)

end
