(* ===== verification/Coordinator_Runs.thy ===== *)
theory Coordinator_Runs
  imports Coordinator_Safety
begin

text \<open>
  Every segment, every event and so every run of the coordinator keeps \<open>coord_inv\<close> and moves the job
  table along \<open>evolves\<close>; the properties of the coordinator follow.
\<close>

subsection \<open>Segments\<close>

definition new_of :: "segment \<Rightarrow> micro list" where
  "new_of seg = (case fst seg of Inl _ \<Rightarrow> [] | Inr r \<Rightarrow> snd r)"

lemma new_of_simps [simp]: "new_of (Inl e, s) = []" "new_of (Inr (r, ms), s) = ms"
  by (simp_all add: new_of_def)

definition good :: "string set \<Rightarrow> string set \<Rightarrow> string set \<Rightarrow> coord \<Rightarrow> micro list \<Rightarrow> segment \<Rightarrow> bool" where
  "good X C U s ms seg \<longleftrightarrow>
     coord_inv U (snd seg) (new_of seg @ ms) \<and> evolves X C (jobs s) (jobs (snd seg)) \<and>
     threads (snd seg) = threads s \<and> posts (snd seg) = posts s"

lemma goodI:
  assumes "coord_inv U s ms" "evolves {} C (jobs s) (jobs (snd seg))" "threads (snd seg) = threads s"
    "deliveries (snd seg) = deliveries s" "posts (snd seg) = posts s" "\<forall>m\<in>set (new_of seg). idle m"
  shows "good {} C U s ms seg"
  unfolding good_def using assms inv_step [OF assms(1-4,6)] by simp

lemma good_chain:
  assumes "good X C U s ms (Inr (r, A), s1)" "good X C U s1 (A @ ms) seg"
  shows "evolves X C (jobs s) (jobs (snd seg)) \<and> threads (snd seg) = threads s \<and> posts (snd seg) = posts s"
  using assms evolves_trans unfolding good_def by auto

lemma evolves_fail: "evolves {} {} js (sql_update (\<lambda>j. j_id j = i \<and> waiting j) (fail_job now w e) js)"
  "evolves {} {} js (sql_update (\<lambda>j. j_id j = i \<and> j_status j = Running) (fail_job now w e) js)"
  by (rule evolves_update, rule move_fail, blast)+

lemma good_cancel_each: "coord_inv U s ms \<Longrightarrow> good {} {} U s ms (cancel_each env now ids reason n a s)"
  by (cases ids) (auto intro!: goodI simp: frame_simps Let_def evolves_fail split: sum.splits)

lemma good_expire_each: "coord_inv U s ms \<Longrightarrow> good {} {} U s ms (expire_each env ids now s)"
  by (cases ids) (auto intro!: goodI simp: frame_simps evolves_fail split: sum.splits)

lemma row_of_id:
  assumes "coord_inv U s ms" "j \<in> set (jobs s)" "r \<in> set (jobs s)" "j_id r = j_id j"
  shows "r = j"
  using assms by (auto simp: coord_inv_def rows_inv_def distinct_map inj_on_def)

lemma inv_known: "coord_inv U s ms \<Longrightarrow> j \<in> set (jobs s) \<Longrightarrow> j_id j \<in> U - set (all_ids (ms @ concat (threads s)))"
  unfolding coord_inv_def rows_inv_def micros_inv_def by blast

lemma find_Some_mem: "find p xs = Some x \<Longrightarrow> x \<in> set xs \<and> p x"
  by (auto simp: find_Some_iff)

lemma good_deliver:
  assumes inv: "coord_inv U s ms"
  shows "good {} {} U s ms (carry_on (deliver env jid s))"
proof (cases "jid \<in> set (deliveries s)")
  case True
  then show ?thesis by (intro goodI [OF inv]) (auto simp: deliver_def carry_on_def)
next
  case False
  let ?row = "find (\<lambda>j. j_id j = jid \<and> j_delivery j = Delivery_pending) (jobs s)"
  show ?thesis
  proof (cases ?row)
    case None
    then show ?thesis using False by (intro goodI [OF inv]) (auto simp: deliver_def carry_on_def)
  next
    case (Some j)
    then have j: "j \<in> set (jobs s)" "j_id j = jid" "j_delivery j = Delivery_pending" using find_Some_mem by fastforce+
    have only: "r = j" if "r \<in> set (jobs s)" "j_id r = jid" for r
      using row_of_id [OF inv j(1) that(1)] that(2) j(2) by simp
    let ?off = "\<not> slackIngressEnabled (env_slack_mode env) \<or> src_surface (j_source j) \<noteq> ''slack'' \<or> trim (env_bot_token env) = []"
    show ?thesis
    proof (cases ?off)
      case True
      have "evolves {} {} (jobs s) (sql_update (\<lambda>r. j_id r = jid) (drop_envelopes Delivery_failed) (jobs s))"
        using only j(3) by (intro evolves_update move_drop) blast
      then show ?thesis using False Some True
        by (intro goodI [OF inv]) (auto simp: deliver_def carry_on_def frame_simps)
    next
      case off: False
      have ok: "job_ok j" using inv j by (simp add: coord_inv_def rows_inv_def)
      have ok': "jid \<in> U - set (all_ids (ms @ concat (threads s)))" using inv_known [OF inv j(1)] j(2) by simp
      have "j_attempts j < 5" using ok j(3) by (simp add: job_ok_def)
      then have "flight_ok (jobs s) j" by (metis flight_ok_def j(2,3) only)
      moreover have "micros_inv U (jobs s) (deliveries s) (ms @ concat (threads s))" using inv by (simp add: coord_inv_def)
      ultimately have "micros_inv U (jobs s) (deliveries s @ [jid]) (Post j # ms @ concat (threads s))"
        using ok' j(2) False
        by (auto simp: micros_inv_def turn_ids_def flights_def refs_def micro_ok_def)
      then have "coord_inv U (s\<lparr>deliveries := deliveries s @ [jid]\<rparr>) (Post j # ms)"
        using inv by (simp add: coord_inv_def)
      then show ?thesis using False Some off by (simp add: good_def carry_on_def deliver_def)
    qed
  qed
qed

lemma good_fail_each:
  assumes inv: "coord_inv U s ms"
  shows "good {} {} U s ms (fail_each env now ids reason n s)"
proof (cases ids)
  case Nil
  then show ?thesis by (auto intro!: goodI [OF inv])
next
  case (Cons jid ids')
  show ?thesis
  proof (cases "env_seal env (response_label jid) (prompt_of failed_text)")
    case (Inl e)
    then show ?thesis using Cons by (auto intro!: goodI [OF inv])
  next
    case (Inr w)
    let ?p = "\<lambda>j. j_id j = jid \<and> j_status j = Running"
    let ?s = "update_jobs ?p (fail_job now (Some w) (slice 500 reason)) s"
    let ?rest = "[Fail_each ids' reason n]"
    have ev: "evolves {} {} (jobs s) (jobs ?s)" by (simp add: frame_simps evolves_fail)
    then have first: "good {} {} U s ms (Inr (Later, ?rest), ?s)"
      by (intro goodI [OF inv]) (auto simp: frame_simps)
    then have inv': "coord_inv U ?s (?rest @ ms)" by (simp add: good_def)
    show ?thesis
    proof (cases "rows_written env ?p s = 1")
      case True
      obtain new s' where d: "deliver env jid ?s = (new, s')" by (cases "deliver env jid ?s")
      have g: "good {} {} U ?s (?rest @ ms) (carry_on (deliver env jid ?s))" by (rule good_deliver [OF inv'])
      then show ?thesis using Cons Inr True d good_chain [OF first g]
        by (simp add: good_def carry_on_def Let_def)
    next
      case False
      then show ?thesis using first Cons Inr by (simp add: Let_def)
    qed
  qed
qed




lemma earliest_Some: "earliest p s = Some j \<Longrightarrow> j \<in> set (jobs s) \<and> p j"
proof -
  assume e: "earliest p s = Some j"
  then obtain js where "sort_key j_created (filter p (jobs s)) = j # js"
    by (auto simp: earliest_def split: list.splits)
  then have "j \<in> set (sort_key j_created (filter p (jobs s)))" by simp
  then show ?thesis by simp
qed

lemma good_claim:
  assumes inv: "coord_inv U s ms"
  shows "good {} {} U s ms (claim now sid att s)"
proof -
  have e: "evolves {} {} js (sql_update (\<lambda>j. j_id j = i \<and> j_status j = Pending)
        (\<lambda>j. j\<lparr>j_status := Offered, j_runtime := Some rt, j_claimed := Some now\<rparr>) js)"
    "evolves {} {} js (sql_update (\<lambda>j. j_id j = i \<and> j_status j = Offered) back_to_pending
        (sql_update (\<lambda>j. j_id j = i \<and> j_status j = Pending)
        (\<lambda>j. j\<lparr>j_status := Failed, j_completed := Some now, j_delivery := Delivery_pending, j_error := Some w\<rparr>) js))"
    for js i rt w
    by (rule evolves_update, rule move_offer, blast)
      (rule evolves_trans; rule evolves_update, (rule move_unsent move_back), blast)
  show ?thesis
    by (intro goodI [OF inv]) (simp_all add: claim_def frame_simps Let_def e split: option.splits)
qed

lemma good_same_jobs:
  assumes "coord_inv U s ms" "jobs s' = jobs s" "threads s' = threads s" "deliveries s' = deliveries s"
    "posts s' = posts s" "\<forall>m\<in>set (new_of (r, s')). idle m"
  shows "good {} {} U s ms (r, s')"
  by (rule goodI [OF assms(1)]) (use assms in simp_all)

lemma good_refresh: "coord_inv U s ms \<Longrightarrow> good {} {} U s ms (carry_on (refreshRuntime now sid att s))"
  by (auto simp: refreshRuntime_def carry_on_def frame_simps Let_def intro!: good_same_jobs split: option.splits)

lemma good_replay: "coord_inv U s ms \<Longrightarrow> good {} {} U s ms (replay env now sid att w s)"
  by (auto simp: replay_def frame_simps intro!: good_same_jobs split: sum.splits jsval.splits prod.splits)

lemma good_mint: "coord_inv U s ms \<Longrightarrow> good {} {} U s ms (mint env now tok sid att b t s)"
  by (auto simp: mint_def registerRuntimeRefresh_def frame_simps intro!: good_same_jobs split: sum.splits prod.splits if_splits)

lemma good_store: "coord_inv U s ms \<Longrightarrow> good {} {} U s ms (store_refresh env sid att tok jti b t s)"
  by (auto simp: store_refresh_def frame_simps Let_def intro!: good_same_jobs split: sum.splits)

lemma evolves_start: "evolves {} {} js (sql_update (\<lambda>j. j_id j = i \<and> j_status j = Offered \<and> j_runtime j = Some rt)
    (\<lambda>j. j\<lparr>j_status := Running, j_claimed := Some now\<rparr>) js)"
  by (rule evolves_update, rule move_run, blast)

lemma good_start: "coord_inv U s ms \<Longrightarrow> good {} {} U s ms (Inr (Done, []), start env now sid att input s)"
  by (rule goodI) (simp_all add: start_def frame_simps Let_def evolves_start)

lemma evolves_back:
  "evolves {} {} js (sql_update (\<lambda>r. j_id r = i \<and> j_status r = Offered \<and> q r) back_to_pending js)"
  "evolves {} {} js (sql_update (\<lambda>r. j_status r = Offered \<and> q r) back_to_pending js)"
  "evolves {} {} js (sql_update (\<lambda>r. j_status r = Offered) back_to_pending js)"
  by (rule evolves_update, rule move_back, blast)+

lemma good_offer: "coord_inv U s ms \<Longrightarrow> good {} {} U s ms (carry_on ([], offer_send env now sid att j s))"
  by (rule goodI) (simp_all add: carry_on_def offer_send_def frame_simps Let_def evolves_back split: sum.splits)

lemma good_sweep: "coord_inv U s ms \<Longrightarrow> good {} {} U s ms (carry_on ([], sweep now s))"
  by (rule goodI) (simp_all add: carry_on_def sweep_def Let_def evolves_filter)

lemma complete_cases:
  obtains (refused) m where "complete env sid att input s = ([], send sid m s)"
    | (again) j where "find_job (string_field input ''id'') s = Some j" "complete env sid att input s =
        (let (ms, s') = (if j_delivery j = Delivery_pending then deliver env (string_field input ''id'') s else ([], s))
         in (ms @ [Ack sid (string_field input ''id'')], s'))"
    | (commit) j out err where "find_job (string_field input ''id'') s = Some j" "j_status j = Running"
        "j_runtime j = Some (a_runtime att)" "complete env sid att input s =
          ([Complete_commit sid att (string_field input ''id'') (get input ''ok'' = JBool True) out err], s)"
proof (cases "string_field input ''id'' = [] \<or> (get input ''ok'' = JBool True \<and>
    (trim (string_field input ''output'') = [] \<or> 24 * 1024 < utf8_length (trim (string_field input ''output''))))")
  case True
  then show thesis by (intro refused [of "Runtime_error ''invalid completion''"]) (simp add: complete_def Let_def)
next
  case valid: False
  note body = complete_def [of env sid att input s, unfolded Let_def if_not_P [OF valid]]
  show thesis
  proof (cases "find_job (string_field input ''id'') s")
    case None
    then show thesis by (intro refused [of "Runtime_error ''job is not owned by this runtime''"]) (simp add: body)
  next
    case (Some j)
    show thesis
    proof (cases "(j_status j = Completed \<or> j_status j = Failed) \<and> j_runtime j = Some (a_runtime att)")
      case True
      with Some show thesis by (intro again) (simp_all add: body Let_def)
    next
      case other: False
      show thesis
      proof (cases "j_status j \<noteq> Running \<or> j_runtime j \<noteq> Some (a_runtime att)")
        case True
        with Some other show thesis
          by (intro refused [of "Runtime_error ''job is not owned by this runtime''"]) (simp add: body if_not_P [OF other])
      next
        case False
        with Some show thesis by (intro commit [OF Some]) (simp_all add: body)
      qed
    qed
  qed
qed

lemma good_complete:
  assumes inv: "coord_inv U s ms"
  shows "good {} {} U s ms (carry_on (complete env sid att input s))"
proof -
  let ?jid = "string_field input ''id''"
  let ?ok = "get input ''ok'' = JBool True"
  show ?thesis
  proof (cases rule: complete_cases [of env sid att input s])
    case refused
    then show ?thesis by (intro goodI [OF inv]) (simp_all add: carry_on_def frame_simps)
  next
    case again
    have inv': "coord_inv U s ([Ack sid ?jid] @ ms)" by (rule inv_idle [OF inv]) simp
    from again show ?thesis using good_deliver [OF inv', of env ?jid] inv'
      by (auto simp: good_def carry_on_def split: prod.splits)
  next
    case (commit j out err)
    then have j: "j \<in> set (jobs s)" "j_id j = ?jid" using find_Some_mem unfolding find_job_def by fastforce+
    have "\<not> waiting r \<and> j_runtime r = Some (a_runtime att)" if "r \<in> set (jobs s)" "j_id r = ?jid" for r
      using row_of_id [OF inv j(1) that(1)] that(2) j(2) commit(2,3) by (simp add: waiting_def)
    moreover have "?jid \<in> U - set (all_ids (ms @ concat (threads s)))"
      using inv_known [OF inv j(1)] j(2) by simp
    ultimately have "coord_inv U s (Complete_commit sid att ?jid ?ok out err # ms)"
      using inv by (auto simp: coord_inv_def micros_inv_def turn_ids_def flights_def refs_def micro_ok_def)
    then show ?thesis using commit(4) by (simp add: good_def carry_on_def)
  qed
qed

lemma good_commit:
  assumes inv: "coord_inv U s ms"
  shows "good {} {jid} U s ms (complete_commit env now sid jid ok out err s)"
proof (cases "env_seal env (response_label jid) (prompt_of (if ok then out else failed_text))")
  case (Inl e)
  then show ?thesis by (intro good_same_jobs [OF inv] | simp add: complete_commit_def good_def inv)+
next
  case (Inr w)
  let ?s = "update_jobs (\<lambda>j. j_id j = jid \<and> j_status j = Running) (complete_job now ok w err) s"
  have "evolves {} {jid} (jobs s) (jobs ?s)"
    unfolding frame_simps by (rule evolves_update, rule move_complete) auto
  then have first: "good {} {jid} U s ms (Inr (Later, [Ack_available sid jid]), ?s)"
    by (intro goodI [OF inv]) (simp_all add: frame_simps)
  show ?thesis
  proof (cases "find_job jid ?s")
    case None
    have "coord_inv U ?s ms" using first inv_tail [of U ?s "[Ack_available sid jid]" ms] by (simp add: good_def)
    with None Inr first show ?thesis by (simp add: complete_commit_def good_def Let_def)
  next
    case (Some j)
    obtain new s' where d: "deliver env jid ?s = (new, s')" by (cases "deliver env jid ?s")
    have inv': "coord_inv U ?s ([Ack_available sid jid] @ ms)" using first by (simp add: good_def)
    have g: "good {} {} U ?s ([Ack_available sid jid] @ ms) (carry_on (new, s'))"
      using good_deliver [OF inv', of env jid] unfolding d .
    then have e: "evolves {} {} (jobs ?s) (jobs s')" by (simp add: good_def carry_on_def)
    have "evolves {} {jid} (jobs s) (jobs ?s)" using first by (simp add: good_def)
    then have "evolves {} {jid} (jobs s) (jobs s')"
      by (rule evolves_trans [OF _ evolves_mono [OF e]]) simp_all
    moreover have "complete_commit env now sid jid ok out err s = (Inr (Later, new @ [Ack_available sid jid]), s')"
      using Some Inr d by (simp add: complete_commit_def Let_def)
    ultimately show ?thesis using g first by (simp add: good_def carry_on_def)
  qed
qed

lemma move_delivered:
  "j_delivery j = Delivery_pending \<or> j_delivery j = Delivery_failed \<Longrightarrow> j_id j \<in> X \<Longrightarrow> row_move X C j (drop_envelopes Delivered j)"
  by (elim disjE; cases "j_status j"; simp add: row_move_def drop_envelopes_def job_ok_def terminal_def waiting_def)

lemma move_refused:
  "j_delivery j = Delivery_pending \<or> j_delivery j = Delivery_failed \<Longrightarrow> n \<le> 5 \<Longrightarrow>
    row_move X C j (drop_envelopes Delivery_failed (j\<lparr>j_attempts := n\<rparr>))"
  by (elim disjE; cases "j_status j"; simp add: row_move_def drop_envelopes_def job_ok_def terminal_def waiting_def)

lemma move_retry:
  "j_delivery j = Delivery_pending \<Longrightarrow> n < 5 \<Longrightarrow> row_move X C j (j\<lparr>j_attempts := n\<rparr>)"
  by (cases "j_status j"; simp add: row_move_def job_ok_def terminal_def waiting_def)

lemma good_settle:
  assumes inv: "coord_inv U s (m # ms)" and m: "flights m = [j_id j]" "micro_ok (jobs s) m \<Longrightarrow> flight_ok (jobs s) j"
  shows "good {j_id j} {} U s ms (carry_on ([], settle now j v s))"
proof -
  have mi: "micros_inv U (jobs s) (deliveries s) (m # ms @ concat (threads s))" using inv by (simp add: coord_inv_def)
  then have fl: "flight_ok (jobs s) j" using m(2) by (simp add: micros_inv_def)
  then have row: "j_delivery r = Delivery_pending \<or> j_delivery r = Delivery_failed"
    if "r \<in> set (jobs s)" "j_id r = j_id j" for r using that by (simp add: flight_ok_def)
  have n: "j_attempts j + 1 \<le> 5" using fl by (simp add: flight_ok_def)
  let ?js = "jobs (settle now j v s)"
  have ev: "evolves {j_id j} {} (jobs s) ?js"
  proof (cases "v = Accepted")
    case True
    then show ?thesis
      by (simp add: settle_def Let_def frame_simps) (rule evolves_update, rule move_delivered, use row in auto)
  next
    case v: False
    show ?thesis
    proof (cases "v = Refused \<or> 5 \<le> j_attempts j + 1")
      case True
      with v show ?thesis using n
        by (simp add: settle_def Let_def frame_simps) (rule evolves_update, rule move_refused, use row in auto)
    next
      case False
      with v show ?thesis
        by (simp add: settle_def Let_def frame_simps) (rule evolves_update, rule move_retry, auto)
    qed
  qed
  have keep: "threads (settle now j v s) = threads s" "posts (settle now j v s) = posts s"
    "deliveries (settle now j v s) = removeAll (j_id j) (deliveries s)"
    by (simp_all add: settle_def Let_def frame_simps)
  have other: "set (all_flights (ms @ concat (threads s))) \<inter> {j_id j} = {}"
    "set (all_flights (ms @ concat (threads s))) \<subseteq> set (deliveries (settle now j v s))"
    using mi m(1) unfolding keep by (auto simp: micros_inv_def)
  have "coord_inv U s ms" using inv inv_tail [of U s "[m]" ms] by simp
  then have "coord_inv U (settle now j v s) ms" by (rule inv_evolve [OF _ ev keep(1) other(2,1)])
  with ev show ?thesis by (simp add: good_def carry_on_def keep)
qed

text \<open>The request to Slack is the only segment that adds to \<open>posts\<close>.\<close>

lemma post_cases:
  assumes inv: "coord_inv U s (Post j # ms)"
  shows "good {j_id j} {} U s ms (carry_on (post_message env now j s)) \<or>
    (\<exists>x. post_message env now j s = ([Settle j], s\<lparr>posts := posts s @ [(j_id j, j_source j, x)]\<rparr>) \<and>
       coord_inv U (s\<lparr>posts := posts s @ [(j_id j, j_source j, x)]\<rparr>) (Settle j # ms))"
proof -
  have g: "good {j_id j} {} U s ms (carry_on ([], settle now j Retry_later s))"
    by (rule good_settle [OF inv]) (simp_all add: flights_def micro_ok_def)
  have i: "coord_inv U (s\<lparr>posts := ps\<rparr>) (Settle j # ms)" for ps
    using inv by (simp add: coord_inv_def micros_inv_def turn_ids_def flights_def refs_def micro_ok_def)
  show ?thesis
    by (cases "env_open env (response_label (j_id j)) (case j_response j of Some r \<Rightarrow> r | None \<Rightarrow> [])")
      (use g i in \<open>auto simp: post_message_def\<close>)
qed

text \<open>The only segment that adds a row.\<close>

lemma insert_cases:
  assumes inv: "coord_inv U s (Insert_turn input # ms)"
  shows "good {} {} U s ms (insert_turn env now input s) \<or>
    (\<exists>w s'. insert_turn env now input s = (Inr (Turn (in_id input) False, []), s') \<and>
       jobs s' = jobs s @ [new_job input w now] \<and> in_id input \<notin> j_id ` set (jobs s) \<and>
       threads s' = threads s \<and> posts s' = posts s \<and> deliveries s' = deliveries s \<and> coord_inv U s' ms)"
proof -
  have i: "coord_inv U s ms" using inv inv_tail [of U s "[Insert_turn input]" ms] by simp
  show ?thesis
  proof (cases "env_seal env (in_id input) (prompt_of (in_prompt input))")
    case (Inl e)
    then show ?thesis using i by (intro disjI1) (simp add: insert_turn_def good_def)
  next
    case (Inr w)
    show ?thesis
    proof (cases "\<exists>j\<in>set (jobs s). j_id j = in_id input \<or> j_event j = in_event input")
      case True
      then show ?thesis using i Inr by (intro disjI1) (simp add: insert_turn_def good_def)
    next
      case False
      let ?s = "notifyAvailable (scheduleCleanup now (s\<lparr>jobs := jobs s @ [new_job input w now]\<rparr>))"
      have mi: "micros_inv U (jobs s) (deliveries s) (Insert_turn input # ms @ concat (threads s))"
        and ri: "rows_inv U (jobs s)" using inv by (simp_all add: coord_inv_def)
      have U: "in_id input \<in> U" "in_id input \<notin> set (all_ids (ms @ concat (threads s)))"
        using mi by (auto simp: micros_inv_def turn_ids_def)
      have "job_ok (new_job input w now)" by (simp add: new_job_def job_ok_def terminal_def)
      then have rows: "rows_inv U (jobs ?s)" using ri False U(1) by (auto simp: rows_inv_def frame_simps new_job_def)
      have "micro_ok (jobs ?s) m" if m: "m \<in> set (ms @ concat (threads s))" for m
      proof -
        have "micro_ok (jobs s) m" "set (refs m) \<subseteq> U - set (all_ids (Insert_turn input # ms @ concat (threads s)))"
          using mi m by (auto simp: micros_inv_def)
        then have ok: "micro_ok (jobs s) m" and r: "in_id input \<notin> set (refs m)" by (auto simp: turn_ids_def)
        from ok r show ?thesis
          by (cases m) (auto simp: micro_ok_def flight_ok_def frame_simps new_job_def refs_def flights_def)
      qed
      moreover have "set (all_ids (ms @ concat (threads s))) \<subseteq> U - j_id ` set (jobs ?s)"
        using mi U(2) by (auto simp: micros_inv_def frame_simps new_job_def turn_ids_def)
      ultimately have "micros_inv U (jobs ?s) (deliveries s) (ms @ concat (threads s))"
        using mi unfolding micros_inv_def by (auto simp: turn_ids_def flights_def)
      then have "coord_inv U ?s ms" using rows by (simp add: coord_inv_def frame_simps)
      moreover have "insert_turn env now input s = (Inr (Turn (in_id input) False, []), ?s)"
        using False Inr by (simp add: insert_turn_def)
      ultimately show ?thesis using False by (intro disjI2) (auto simp: frame_simps)
    qed
  qed
qed

definition delivered :: "micro \<Rightarrow> string set" where
  "delivered m = (case m of Settle j \<Rightarrow> {j_id j} | Post j \<Rightarrow> {j_id j} | _ \<Rightarrow> {})"

definition committed :: "micro \<Rightarrow> string set" where
  "committed m = (case m of Complete_commit sid att jid ok out err \<Rightarrow> {jid} | _ \<Rightarrow> {})"

lemma good_carry_on: "coord_inv U s ms \<Longrightarrow> \<forall>m\<in>set new. idle m \<Longrightarrow> good {} {} U s ms (carry_on (new, s))"
  by (rule goodI) (simp_all add: carry_on_def)

lemma exec_good:
  assumes inv: "coord_inv U s (m # ms)" and m: "turn_ids m = []" "\<And>j. m \<noteq> Post j"
  shows "good (delivered m) (committed m) U s ms (exec_micro env now outcome token m s)"
proof -
  have i: "coord_inv U s ms" using inv inv_tail [of U s "[m]" ms] by simp
  note goods = good_cancel_each good_fail_each good_deliver good_expire_each good_offer good_refresh good_replay
    good_mint good_store good_commit good_sweep
  show ?thesis
  proof (cases m)
    case (Settle j)
    then show ?thesis using good_settle [OF inv, of j] by (simp add: exec_micro_def delivered_def committed_def flights_def micro_ok_def)
  next
    case (Deliver_select)
    have "\<forall>m\<in>set (deliver_select s). idle m" by (auto simp: deliver_select_def)
    then show ?thesis using good_carry_on [OF i] Deliver_select by (simp add: exec_micro_def delivered_def committed_def)
  next
    case (Ack_available sid jid)
    have "good {} {} U s ms (exec_micro env now outcome token m s)"
      by (intro goodI [OF i]) (simp_all add: Ack_available exec_micro_def carry_on_def frame_simps Let_def)
    then show ?thesis using Ack_available by (simp add: delivered_def committed_def)
  next
    case (Ack sid jid)
    have "good {} {} U s ms (exec_micro env now outcome token m s)"
      by (intro goodI [OF i]) (simp_all add: Ack exec_micro_def carry_on_def frame_simps)
    then show ?thesis using Ack by (simp add: delivered_def committed_def)
  qed (use m goods i in \<open>simp_all add: exec_micro_def delivered_def committed_def turn_ids_def good_carry_on expire_select_def\<close>)
qed

subsection \<open>Threads\<close>

lemma run_thread_good:
  "coord_inv U s ms \<Longrightarrow> run_thread n env now r ms s = (r', left, s') \<Longrightarrow>
    coord_inv U s' left \<and> evolves {} {} (jobs s) (jobs s') \<and> threads s' = threads s \<and> posts s' = posts s"
proof (induction n env now r ms s arbitrary: r' left s' rule: run_thread.induct)
  case (3 n env now r m ms s)
  show ?case
  proof (cases "awaits s m")
    case True
    with 3 show ?thesis by auto
  next
    case False
    then have m: "turn_ids m = []" "\<And>j. m \<noteq> Post j" "delivered m = {}" "committed m = {}"
      by (auto simp: awaits_def turn_ids_def delivered_def committed_def split: micro.splits)
    have g: "good {} {} U s ms (exec_micro env now No_response [] m s)"
      using exec_good [OF 3(2) m(1,2), where outcome = No_response and token = "[]"] m(3,4) by simp
    show ?thesis
    proof (cases "exec_micro env now No_response [] m s")
      case (Pair x t)
      show ?thesis
      proof (cases x)
        case (Inl e)
        with Pair False 3(3) g show ?thesis using inv_nil by (auto simp: good_def)
      next
        case (Inr y)
        obtain q new where y: "y = (q, new)" by (cases y)
        have "run_thread n env now q (new @ ms) t = (r', left, s')" using 3(3) False Pair Inr y by simp
        moreover have "coord_inv U t (new @ ms)" using g Pair Inr y by (simp add: good_def)
        ultimately have "coord_inv U s' left \<and> evolves {} {} (jobs t) (jobs s') \<and> threads s' = threads t \<and> posts s' = posts t"
          using 3(1) [OF False Pair [symmetric] Inr y [symmetric]] by simp
        then show ?thesis using g Pair Inr y evolves_trans by (auto simp: good_def)
      qed
    qed
  qed
qed auto

lemma inv_park: "coord_inv U s left \<Longrightarrow> coord_inv U (s\<lparr>threads := threads s @ [left]\<rparr>) []"
  using micros_swap [of U "jobs s" "deliveries s" left "concat (threads s)" "[]"] by (simp add: coord_inv_def)

lemma inv_pop:
  assumes "coord_inv U s []" "i < length (threads s)"
  shows "coord_inv U (s\<lparr>threads := take i (threads s) @ drop (Suc i) (threads s)\<rparr>) (threads s ! i)"
proof -
  have "threads s = take i (threads s) @ threads s ! i # drop (Suc i) (threads s)"
    using assms(2) by (simp add: id_take_nth_drop)
  then have "concat (threads s) = concat (take i (threads s)) @ threads s ! i @ concat (drop (Suc i) (threads s))"
    by (metis concat.simps(2) concat_append)
  then show ?thesis using assms(1) micros_swap by (simp add: coord_inv_def)
qed

lemma begin_thread_good:
  assumes "coord_inv U (snd seg) (new_of seg @ rest)"
  shows "coord_inv U (snd (begin_thread env now seg rest)) [] \<and>
    evolves {} {} (jobs (snd seg)) (jobs (snd (begin_thread env now seg rest))) \<and>
    posts (snd (begin_thread env now seg rest)) = posts (snd seg)"
proof (cases seg)
  case (Pair x s)
  show ?thesis
  proof (cases x)
    case (Inl e)
    with Pair show ?thesis using assms inv_nil by (simp add: begin_thread_def)
  next
    case (Inr y)
    obtain r ms where y: "y = (r, ms)" by (cases y)
    obtain r' left s' where run: "run_thread 64 env now r (ms @ rest) s = (r', left, s')" by (metis prod_cases3)
    have "coord_inv U s' left \<and> evolves {} {} (jobs s) (jobs s') \<and> threads s' = threads s \<and> posts s' = posts s"
      using run_thread_good [OF _ run] assms Pair Inr y by simp
    then show ?thesis using Pair Inr y run inv_park [of U s' left] by (auto simp: begin_thread_def park_def)
  qed
qed

subsection \<open>Events\<close>

definition calm :: "coord \<Rightarrow> coord \<Rightarrow> bool" where
  "calm s s' \<longleftrightarrow> evolves {} {} (jobs s) (jobs s') \<and> threads s' = threads s \<and> deliveries s' = deliveries s \<and> posts s' = posts s"

lemma calm_refl [simp]: "calm s s"
  by (simp add: calm_def)

lemma calm_trans: "calm a b \<Longrightarrow> calm b c \<Longrightarrow> calm a c"
  unfolding calm_def using evolves_trans by metis

lemma calm_inv: "calm s s' \<Longrightarrow> coord_inv U s ms \<Longrightarrow> coord_inv U s' ms"
  using inv_step [of U s ms "{}" s' "[]"] by (simp add: calm_def)

lemma calm_simps [simp]:
  "calm s (send sid m s') = calm s s'" "calm s (close_socket sid c w s') = calm s s'"
  "calm s (set_attachment sid a s') = calm s s'" "calm s (scheduleCleanup now s') = calm s s'"
  "calm s (s'\<lparr>sockets := k\<rparr>) = calm s s'" "calm s (s'\<lparr>next_socket := n\<rparr>) = calm s s'"
  "calm s (s'\<lparr>grants := g\<rparr>) = calm s s'" "calm s (s'\<lparr>tickets := t\<rparr>) = calm s s'"
  "calm s (s'\<lparr>refreshes := f\<rparr>) = calm s s'" "calm s (s'\<lparr>runs := u\<rparr>) = calm s s'"
  "calm s (s'\<lparr>alarm := al\<rparr>) = calm s s'" "calm s (s'\<lparr>reset_generation := k'\<rparr>) = calm s s'"
  by (simp_all add: calm_def frame_simps)

lemma calm_back:
  "calm s (releaseOffers att s)"
  "calm s (update_jobs (\<lambda>j. j_status j = Offered) back_to_pending s)"
  "calm s (update_jobs (\<lambda>j. j_status j = Offered \<and> q j) back_to_pending s)"
  by (simp_all add: calm_def releaseOffers_def frame_simps evolves_back)

lemma calm_foldl: "(\<And>s x. calm s (f s x)) \<Longrightarrow> calm s (foldl f s xs)"
proof (induction xs arbitrary: s)
  case (Cons x xs)
  then have "calm s (f s x)" "calm (f s x) (foldl f (f s x) xs)" by blast+
  then show ?case using calm_trans by simp
qed simp

lemma calm_connect: "calm s (snd (connect websocket runtime claw refresh s))"
proof -
  let ?f = "\<lambda>s k. case attachmentFrom k of
                     Inl _ \<Rightarrow> close_socket (s_id k) 1011 ''invalid runtime attachment'' s
                   | Inr att \<Rightarrow> if a_runtime att = trim runtime
                       then close_socket (s_id k) 4001 ''runtime reconnected'' (releaseOffers att s) else s"
  have "calm s (foldl ?f s (sockets s))"
    by (rule calm_foldl) (simp add: calm_back split: sum.splits)
  then show ?thesis by (simp add: connect_def Let_def)
qed

lemma calm_removal: "calm s (snd (prepareForRemoval reason now s))"
proof -
  let ?s = "update_jobs unfinished (remove_job now reason) (s\<lparr>reset_generation := reset_generation s + 1\<rparr>)"
  have "evolves {} {} (jobs s) (jobs ?s)"
    unfolding frame_simps by (simp, rule evolves_update, rule move_remove)
  then have "calm s ?s" by (simp add: calm_def frame_simps)
  moreover have "calm ?s (foldl (\<lambda>s k. close_socket (s_id k) 4002 ''claw removal requested'' s) ?s (sockets ?s))"
    by (rule calm_foldl) simp
  ultimately show ?thesis using calm_trans by (simp add: prepareForRemoval_def Let_def)
qed

lemma calm_restart_each: "calm s (snd (restart_each ks s))"
proof (induction ks s rule: restart_each.induct)
  case (2 k ks s)
  show ?case
  proof (cases "attachmentFrom k")
    case (Inr att)
    let ?t = "close_socket (s_id k) 4002 ''runtime reconnect requested''
      (releaseOffers att (set_attachment (s_id k) (att\<lparr>a_disabled := True\<rparr>) s))"
    have "calm s (set_attachment (s_id k) (att\<lparr>a_disabled := True\<rparr>) s)" by simp
    then have "calm s ?t" using calm_trans [OF _ calm_back(1)] by simp
    moreover have "calm ?t (snd (restart_each ks ?t))" using 2 Inr by simp
    ultimately have "calm s (snd (restart_each ks ?t))" by (rule calm_trans)
    then show ?thesis using Inr by simp
  qed simp
qed simp

lemma calm_restart: "calm s (snd (restartRuntimeConnections now s))"
proof -
  obtain r s' where e: "restart_each (sockets s) s = (r, s')" by (cases "restart_each (sockets s) s")
  have "calm s s'" using calm_restart_each [of s "sockets s"] e by simp
  moreover from this have "calm s (update_jobs (\<lambda>j. j_status j = Offered) back_to_pending s')"
    using calm_back(2) calm_trans by blast
  ultimately show ?thesis by (simp add: restartRuntimeConnections_def e Let_def split: sum.splits)
qed

lemma calm_close: "calm s (webSocketClose now sid s)"
  by (simp add: webSocketClose_def Let_def calm_back split: option.splits sum.splits)

lemma calm_registers:
  "calm s (snd (registerGrant i j d e now s))" "calm s (snd (registerRuntimeRefresh j e now s))"
  "calm s (snd (registerRuntimeTicket j e now s))" "calm s (snd (consumeRuntimeTicket j now s))"
  "calm s (snd (consumeGrant i j d now s))" "calm s (snd (startRun i now s))" "calm s (finishRun i ok err now s)"
  by (simp_all add: registerGrant_def registerRuntimeRefresh_def registerRuntimeTicket_def consumeRuntimeTicket_def
      consumeGrant_def startRun_def finishRun_def Let_def)

lemma good_message:
  assumes inv: "coord_inv U s []"
  shows "good {} {} U s [] (webSocketMessage env now sid data s)"
proof -
  note same = good_same_jobs [OF inv]
  have c: "good {} {} U s [] (case complete env sid att input s of (ms, s') \<Rightarrow> (Inr (Done, ms), s'))" for att input
    using good_complete [OF inv, of env sid att input] by (cases "complete env sid att input s") (simp add: carry_on_def)
  show ?thesis unfolding webSocketMessage_def
    by (simp add: c good_claim [OF inv] good_start [OF inv] same frame_simps Let_def
        split: option.splits sum.splits ws_data.splits)
qed

text \<open>How a step may change the table: rows move, and a new one starts undelivered.\<close>

definition table :: "string set \<Rightarrow> string set \<Rightarrow> job_row list \<Rightarrow> job_row list \<Rightarrow> bool" where
  "table X C js js' \<longleftrightarrow> (\<forall>j'\<in>set js'. (\<exists>j\<in>set js. row_move X C j j') \<or>
     (j_id j' \<notin> j_id ` set js \<and> job_ok j' \<and> j_delivery j' \<noteq> Delivered \<and> j_status j' \<noteq> Completed))"

lemma table_evolves: "evolves X C js js' \<Longrightarrow> table X C js js'"
  unfolding table_def using evolves_row by blast

lemma table_then_evolves:
  assumes "table X C a b" "evolves {} {} b c"
  shows "table X C a c"
  unfolding table_def
proof
  fix k assume "k \<in> set c"
  then obtain j' where j': "j' \<in> set b" and m: "row_move {} {} j' k" using evolves_row [OF assms(2)] by blast
  from assms(1) j' consider j where "j \<in> set a" "row_move X C j j'"
    | "j_id j' \<notin> j_id ` set a" "job_ok j'" "j_delivery j' \<noteq> Delivered" "j_status j' \<noteq> Completed"
    unfolding table_def by blast
  then show "(\<exists>j\<in>set a. row_move X C j k) \<or>
     (j_id k \<notin> j_id ` set a \<and> job_ok k \<and> j_delivery k \<noteq> Delivered \<and> j_status k \<noteq> Completed)"
  proof cases
    case 1
    then show ?thesis using row_move_trans row_move_mono [OF m, of X C] by blast
  next
    case 2
    then show ?thesis using m by (auto simp: row_move_def)
  qed
qed

definition head_of :: "event \<Rightarrow> coord \<Rightarrow> micro list" where
  "head_of ev s = (case ev of Tick i outcome token \<Rightarrow> if i < length (threads s) then take 1 (threads s ! i) else [] | _ \<Rightarrow> [])"

definition enqueued :: "event \<Rightarrow> string set" where
  "enqueued ev = (case ev of Enqueue input \<Rightarrow> {in_id input} | _ \<Rightarrow> {})"

definition may_deliver :: "event \<Rightarrow> coord \<Rightarrow> string set" where
  "may_deliver ev s = \<Union> (delivered ` set (head_of ev s))"

definition may_commit :: "event \<Rightarrow> coord \<Rightarrow> string set" where
  "may_commit ev s = \<Union> (committed ` set (head_of ev s))"

definition step_ok :: "string set \<Rightarrow> event \<Rightarrow> coord \<Rightarrow> coord \<Rightarrow> bool" where
  "step_ok U ev s s' \<longleftrightarrow>
     coord_inv (U \<union> enqueued ev) s' [] \<and> table (may_deliver ev s) (may_commit ev s) (jobs s) (jobs s') \<and>
     (posts s' = posts s \<or> (\<exists>j x. head_of ev s = [Post j] \<and> posts s' = posts s @ [(j_id j, j_source j, x)]))"

lemma inv_mono: "coord_inv U s ms \<Longrightarrow> U \<subseteq> V \<Longrightarrow> coord_inv V s ms"
proof -
  assume i: "coord_inv U s ms" and UV: "U \<subseteq> V"
  have "rows_inv V (jobs s)" using i UV unfolding coord_inv_def rows_inv_def by (meson order_trans)
  moreover have "micros_inv V (jobs s) (deliveries s) (ms @ concat (threads s))"
    using i UV unfolding coord_inv_def micros_inv_def by (meson Diff_mono order_refl order_trans)
  ultimately show ?thesis by (simp add: coord_inv_def)
qed

lemma step_calm:
  assumes "coord_inv U s []" "calm s s'"
  shows "step_ok U ev s s'"
proof -
  have "evolves (may_deliver ev s) (may_commit ev s) (jobs s) (jobs s')"
    using assms(2) evolves_mono [of "{}" "{}" "jobs s" "jobs s'"] by (simp add: calm_def)
  moreover have "coord_inv (U \<union> enqueued ev) s' []"
    using calm_inv [OF assms(2,1)] inv_mono [of U s' "[]" "U \<union> enqueued ev"] by simp
  ultimately show ?thesis using assms(2) table_evolves by (simp add: step_ok_def calm_def)
qed

lemma step_thread:
  assumes "good {} {} U s [] seg"
  shows "step_ok U ev s (snd (begin_thread env now seg []))"
proof -
  let ?s = "snd (begin_thread env now seg [])"
  have b: "coord_inv U ?s [] \<and> evolves {} {} (jobs (snd seg)) (jobs ?s) \<and> posts ?s = posts (snd seg)"
    using assms by (intro begin_thread_good) (simp add: good_def)
  then have "evolves {} {} (jobs s) (jobs ?s)" using assms evolves_trans by (auto simp: good_def)
  then have "evolves (may_deliver ev s) (may_commit ev s) (jobs s) (jobs ?s)"
    using evolves_mono [of "{}" "{}" "jobs s" "jobs ?s"] by simp
  then show ?thesis using b assms inv_mono [of U ?s "[]" "U \<union> enqueued ev"] table_evolves by (simp add: step_ok_def good_def)
qed

lemma step_enqueue:
  assumes inv: "coord_inv U s []" and new: "in_id input \<notin> U"
  shows "step_ok U (Enqueue input) s (snd (begin_thread env now (enqueueTurn input now s) []))"
proof (cases "\<exists>e. validateTurn input now = Inl e \<or> (\<exists>j. find (\<lambda>j. j_event j = in_event input) (jobs s) = Some j)")
  case True
  then have "good {} {} U s [] (enqueueTurn input now s)"
    using inv by (auto simp: enqueueTurn_def good_def split: sum.splits option.splits)
  then show ?thesis by (rule step_thread)
next
  case False
  then have e: "enqueueTurn input now s = (Inr (Later, [Insert_turn input]), s)"
    by (auto simp: enqueueTurn_def split: sum.splits option.splits)
  let ?V = "insert (in_id input) U"
  have i: "coord_inv ?V s []" using inv_mono [OF inv] by blast
  have u: "set (all_ids (concat (threads s))) \<subseteq> U" "j_id ` set (jobs s) \<subseteq> U"
    "\<forall>m\<in>set (concat (threads s)). set (refs m) \<subseteq> U"
    using inv unfolding coord_inv_def rows_inv_def micros_inv_def append_Nil by blast+
  have "micros_inv ?V (jobs s) (deliveries s) (Insert_turn input # concat (threads s))"
  proof -
    have m: "micros_inv ?V (jobs s) (deliveries s) (concat (threads s))" using i by (simp add: coord_inv_def)
    have r: "in_id input \<notin> set (refs m)" if "m \<in> set (concat (threads s))" for m using u(3) that new by blast
    have f: "in_id input \<notin> set (all_ids (concat (threads s)))" "in_id input \<notin> j_id ` set (jobs s)" using u new by blast+
    have t: "turn_ids (Insert_turn input) = [in_id input]" "flights (Insert_turn input) = []"
      "refs (Insert_turn input) = []" "micro_ok (jobs s) (Insert_turn input)"
      by (simp_all add: turn_ids_def flights_def refs_def micro_ok_def)
    have "micro_ok (jobs s) m \<and> set (refs m) \<subseteq> ?V - set (all_ids (Insert_turn input # concat (threads s)))"
      if m': "m \<in> set (concat (threads s))" for m
      using m m' r [OF m'] unfolding micros_inv_def all_append t by (simp del: set_concat) blast
    then show ?thesis using m f unfolding micros_inv_def all_append t by (simp del: set_concat add: t)
  qed
  then have "coord_inv ?V s [Insert_turn input]" using i by (simp add: coord_inv_def)
  then have "good {} {} ?V s [] (enqueueTurn input now s)" by (simp add: e good_def)
  from step_thread [OF this, of "Enqueue input"] show ?thesis by (simp add: step_ok_def enqueued_def)
qed

lemma step_segment:
  assumes "coord_inv U (snd seg) (new_of seg @ ms)" "table X C (jobs s) (jobs (snd seg))"
    "X \<subseteq> may_deliver ev s" "C \<subseteq> may_commit ev s"
    "posts (snd seg) = posts s \<or> (\<exists>j x. head_of ev s = [Post j] \<and> posts (snd seg) = posts s @ [(j_id j, j_source j, x)])"
  shows "step_ok U ev s (snd (begin_thread env now seg ms))"
proof -
  let ?s = "snd (begin_thread env now seg ms)"
  have b: "coord_inv U ?s [] \<and> evolves {} {} (jobs (snd seg)) (jobs ?s) \<and> posts ?s = posts (snd seg)"
    by (rule begin_thread_good [OF assms(1)])
  then have "table X C (jobs s) (jobs ?s)" using table_then_evolves [OF assms(2)] by blast
  then have "table (may_deliver ev s) (may_commit ev s) (jobs s) (jobs ?s)"
    using row_move_mono [OF _ assms(3,4)] unfolding table_def by blast
  moreover have "coord_inv (U \<union> enqueued ev) ?s []" using b inv_mono [of U ?s "[]" "U \<union> enqueued ev"] by simp
  ultimately show ?thesis using b assms(5) by (simp add: step_ok_def)
qed

lemma step_tick:
  assumes inv: "coord_inv U s []"
  shows "step_ok U (Tick i outcome token) s (snd (tick env now i outcome token s))"
proof (cases "i < length (threads s) \<and> threads s ! i \<noteq> []")
  case False
  then have "snd (tick env now i outcome token s) = s" by (auto simp: tick_def split: list.splits)
  then show ?thesis using step_calm [OF inv] by simp
next
  case True
  then obtain m ms where i: "i < length (threads s)" and th: "threads s ! i = m # ms" by (auto simp: neq_Nil_conv)
  let ?ev = "Tick i outcome token"
  let ?s = "s\<lparr>threads := take i (threads s) @ drop (Suc i) (threads s)\<rparr>"
  let ?seg = "exec_micro env now outcome token m ?s"
  have inv': "coord_inv U ?s (m # ms)" using inv_pop [OF inv i] th by simp
  have hd: "head_of ?ev s = [m]" using i th by (simp add: head_of_def)
  have t: "snd (tick env now i outcome token s) = snd (begin_thread env now ?seg ms)"
    using i th by (simp add: tick_def Let_def)
  have goodcase: "step_ok U ?ev s (snd (begin_thread env now ?seg ms))"
    if "good X C U ?s ms ?seg" "X \<subseteq> delivered m" "C \<subseteq> committed m" for X C
    using that table_evolves by (intro step_segment [of _ _ _ X C]) (auto simp: good_def may_deliver_def may_commit_def hd)
  show ?thesis unfolding t
  proof (cases m)
    case (Insert_turn input)
    then have seg: "?seg = insert_turn env now input ?s" by (simp add: exec_micro_def)
    from insert_cases [OF inv' [unfolded Insert_turn], of env now]
    consider "good {} {} U ?s ms (insert_turn env now input ?s)"
      | w s' where "insert_turn env now input ?s = (Inr (Turn (in_id input) False, []), s')"
       "jobs s' = jobs s @ [new_job input w now]" "in_id input \<notin> j_id ` set (jobs s)" "posts s' = posts s" "coord_inv U s' ms"
      by auto
    then show "step_ok U ?ev s (snd (begin_thread env now ?seg ms))"
    proof cases
      case 1
      then show ?thesis using goodcase seg by simp
    next
      case (2 w s')
      have "job_ok (new_job input w now)" by (simp add: new_job_def job_ok_def terminal_def)
      then have "table {} {} (jobs s) (jobs s')"
        using 2(3) row_move_refl [of "{}" "{}"] unfolding table_def 2(2) by (fastforce simp: new_job_def)
      then show ?thesis using 2 seg by (intro step_segment [of _ _ _ "{}" "{}"]) auto
    qed
  next
    case (Post j)
    then have seg: "?seg = carry_on (post_message env now j ?s)" by (simp add: exec_micro_def)
    from post_cases [OF inv' [unfolded Post], of env now]
    consider "good {j_id j} {} U ?s ms (carry_on (post_message env now j ?s))"
      | x where "post_message env now j ?s = ([Settle j], ?s\<lparr>posts := posts s @ [(j_id j, j_source j, x)]\<rparr>)"
        "coord_inv U (?s\<lparr>posts := posts s @ [(j_id j, j_source j, x)]\<rparr>) (Settle j # ms)"
      by auto
    then show "step_ok U ?ev s (snd (begin_thread env now ?seg ms))"
    proof cases
      case 1
      then show ?thesis using goodcase Post seg by (simp add: delivered_def committed_def)
    next
      case (2 x)
      have "table {} {} (jobs s) (jobs s)" by (rule table_evolves) simp
      then show ?thesis using 2 seg hd Post by (intro step_segment [of _ _ _ "{}" "{}"]) (auto simp: carry_on_def)
    qed
  qed (use goodcase [OF exec_good [OF inv']] in \<open>simp_all add: turn_ids_def\<close>)
qed

lemma step_evict: "coord_inv U s [] \<Longrightarrow> step_ok U Evict s (s\<lparr>threads := [], deliveries := []\<rparr>)"
  using table_evolves [OF evolves_refl]
  by (simp add: step_ok_def coord_inv_def micros_inv_def enqueued_def all_ids_def all_flights_def)

lemma snd_lift_reply [simp]: "snd (lift_reply r x) = snd x"
  by (cases x) (auto simp: lift_reply_def split: sum.splits)

theorem step_inv:
  assumes inv: "coord_inv U s []" and new: "\<And>input. ev = Enqueue input \<Longrightarrow> in_id input \<notin> U"
  shows "step_ok U ev s (snd (coord_step env now ev s))"
proof (cases ev)
  case (Enqueue input)
  then show ?thesis using step_enqueue [OF inv] new by (simp add: coord_step_def)
next
  case (Cancel_pending reason)
  then show ?thesis
    using step_thread [of U s "cancelPending reason s" ev env now] good_same_jobs [OF inv] by (simp add: coord_step_def cancelPending_def)
next
  case (Cancel_active reason)
  then show ?thesis
    using step_thread [of U s "cancelActiveTurns reason s" ev env now] good_same_jobs [OF inv]
    by (simp add: coord_step_def cancelActiveTurns_def Let_def)
next
  case (Message sid data)
  then show ?thesis using step_thread [OF good_message [OF inv]] by (simp add: coord_step_def)
next
  case Alarm
  have "good {} {} U s [] (alarm_start now s)"
    by (rule goodI [OF inv]) (simp_all add: alarm_start_def Let_def frame_simps evolves_back)
  then show ?thesis using Alarm step_thread by (simp add: coord_step_def)
next
  case (Tick i outcome token)
  then show ?thesis using step_tick [OF inv] by (simp add: coord_step_def)
next
  case Evict
  then show ?thesis using step_evict [OF inv] by (simp add: coord_step_def)
qed (use step_calm [OF inv] calm_registers calm_removal calm_connect calm_restart calm_close
     in \<open>simp_all add: coord_step_def case_prod_unfold Let_def\<close>)

subsection \<open>Reachable states\<close>

text \<open>A state after some events in which no two turns were enqueued under one id (worker/slack.ts draws
  the id with \<open>crypto.randomUUID()\<close>).\<close>

inductive reach :: "coord_env \<Rightarrow> string set \<Rightarrow> coord \<Rightarrow> bool" for env where
  start: "reach env {} coord_init"
| step: "reach env U s \<Longrightarrow> enqueued ev \<inter> U = {} \<Longrightarrow> reach env (U \<union> enqueued ev) (snd (coord_step env now ev s))"

lemma fresh_enqueue: "enqueued ev \<inter> U = {} \<Longrightarrow> ev = Enqueue input \<Longrightarrow> in_id input \<notin> U"
  by (simp add: enqueued_def)

lemma reach_inv: "reach env U s \<Longrightarrow> coord_inv U s []"
proof (induction rule: reach.induct)
  case start
  show ?case by (simp add: coord_inv_def rows_inv_def micros_inv_def coord_init_def)
next
  case (step U s ev now)
  have "step_ok U ev s (snd (coord_step env now ev s))"
    by (rule step_inv [OF step(3) fresh_enqueue [OF step(2)]])
  then show ?case by (simp add: step_ok_def)
qed

lemma reach_step_ok: "reach env U s \<Longrightarrow> enqueued ev \<inter> U = {} \<Longrightarrow> step_ok U ev s (snd (coord_step env now ev s))"
  by (rule step_inv [OF reach_inv fresh_enqueue])

lemma reach_run: "reach env U s \<Longrightarrow> (\<forall>p\<in>set evs. enqueued (snd p) \<inter> U = {}) \<Longrightarrow> distinct (concat (map (\<lambda>p. case snd p of Enqueue i \<Rightarrow> [in_id i] | _ \<Rightarrow> []) evs)) \<Longrightarrow>
    reach env (U \<union> \<Union> (enqueued ` snd ` set evs)) (snd (coord_run env evs s))"
proof (induction evs arbitrary: U s)
  case (Cons p evs)
  obtain now ev where p: "p = (now, ev)" by (cases p)
  have "reach env (U \<union> enqueued ev) (snd (coord_step env now ev s))" using Cons.prems p by (intro reach.step) auto
  moreover have "\<forall>q\<in>set evs. enqueued (snd q) \<inter> (U \<union> enqueued ev) = {}"
    using Cons.prems(2,3) p by (fastforce simp: enqueued_def split: event.splits)
  ultimately show ?case using Cons.IH [of "U \<union> enqueued ev" "snd (coord_step env now ev s)"] Cons.prems(3) p
    by (simp add: case_prod_unfold Let_def Un_assoc)
qed simp

subsection \<open>Concrete runs\<close>

text \<open>One turn: cancelled and delivered (\<open>delivery_run\<close>), or claimed, started and answered up to the point
  where the sealing of the answer is awaited (\<open>completion_run\<close>).\<close>

definition demo_env :: coord_env where
  "demo_env = \<lparr>env_seal = (\<lambda>label v. Inr label), env_open = (\<lambda>label w. Inr (prompt_of w)),
     env_verify = (\<lambda>now t. Inr (t, 999)), env_slack_mode = None, env_bot_token = ''xoxb'', env_index_writes = 0\<rparr>"

definition demo_turn :: turn_input where
  "demo_turn = \<lparr>in_id = ''job-1'', in_event = ''Ev1'', in_claw = ''claw'', in_requester = ''ada'', in_persona = ''helper'',
     in_prompt = ''hello'', in_token = ''token'',
     in_source = \<lparr>src_surface = ''slack'', src_workspace = ''W1'', src_channel = ''C1'', src_thread = ''17''\<rparr>,
     in_expires = 50000\<rparr>"

definition delivery_run :: "(int \<times> event) list" where
  "delivery_run =
     [(10, Enqueue demo_turn), (11, Tick 0 No_response []), (12, Cancel_pending ''disabled''), (13, Tick 0 No_response []),
      (14, Alarm), (15, Tick 0 No_response []), (16, Tick 0 (Answer 200 (Body True None)) [])]"

definition completion_run :: "(int \<times> event) list" where
  "completion_run =
     [(10, Enqueue demo_turn), (11, Tick 0 No_response []), (12, Connect True ''rt'' ''claw'' ''refresh''),
      (13, Message 0 (Text (stringify (JObj [(''type'', JStr ''job.claim'')])))),
      (14, Message 0 (Text (stringify (JObj [(''type'', JStr ''job.started''), (''id'', JStr ''job-1'')])))),
      (15, Message 0 (Text (stringify (JObj [(''type'', JStr ''job.complete''), (''id'', JStr ''job-1''),
         (''ok'', JBool True), (''output'', JStr ''done'')]))))]"

definition after :: "(int \<times> event) list \<Rightarrow> coord" where
  "after evs = snd (coord_run demo_env evs coord_init)"

lemma reach_delivery: "reach demo_env {''job-1''} (after delivery_run)"
  using reach_run [OF reach.start, of delivery_run demo_env]
  by (simp add: after_def delivery_run_def enqueued_def demo_turn_def)

lemma reach_completion: "reach demo_env {''job-1''} (after completion_run)"
  using reach_run [OF reach.start, of completion_run demo_env]
  by (simp add: after_def completion_run_def enqueued_def demo_turn_def)

lemma delivery_jobs: "map (\<lambda>j. (j_id j, j_status j, j_delivery j)) (jobs (after delivery_run)) = [(''job-1'', Failed, Delivered)]"
  by code_simp

lemma delivery_next:
  "map (\<lambda>j. (j_id j, j_status j)) (jobs (snd (coord_step demo_env 20 Alarm (after delivery_run)))) = [(''job-1'', Failed)]"
  by code_simp

lemma completion_jobs: "map (\<lambda>j. (j_id j, j_status j)) (jobs (after completion_run)) = [(''job-1'', Running)]"
  by code_simp

lemma completion_next:
  "map (\<lambda>j. (j_id j, j_status j)) (jobs (snd (coord_step demo_env 20 (Tick 0 No_response []) (after completion_run)))) =
    [(''job-1'', Completed)]"
  by code_simp

subsection \<open>Properties of the job table\<close>

lemma head_waits:
  assumes "m \<in> set (head_of ev s)"
  shows "m \<in> set (concat (threads s)) \<and> head_of ev s = [m]"
proof -
  obtain i where i: "i < length (threads s)" "head_of ev s = take 1 (threads s ! i)"
    using assms by (cases ev) (auto simp: head_of_def split: if_splits)
  with assms obtain ms where "threads s ! i = m # ms" by (cases "threads s ! i") auto
  moreover from this i have "m # ms \<in> set (threads s)" by (metis nth_mem)
  ultimately show ?thesis using i by force
qed

lemma waits_ok:
  assumes "coord_inv U s []" "m \<in> set (concat (threads s))"
  shows "micro_ok (jobs s) m"
  using assms unfolding coord_inv_def micros_inv_def append_Nil by blast

lemma reach_row:
  assumes "reach env U s" "enqueued ev \<inter> U = {}" "j \<in> set (jobs s)" "j' \<in> set (jobs (snd (coord_step env now ev s)))"
    "j_id j' = j_id j"
  shows "row_move (may_deliver ev s) (may_commit ev s) j j' \<and> job_ok j"
proof -
  have t: "table (may_deliver ev s) (may_commit ev s) (jobs s) (jobs (snd (coord_step env now ev s)))"
    using reach_step_ok [OF assms(1,2)] by (simp add: step_ok_def)
  have inv: "coord_inv U s []" by (rule reach_inv [OF assms(1)])
  from t assms(4) have "(\<exists>r\<in>set (jobs s). row_move (may_deliver ev s) (may_commit ev s) r j') \<or> j_id j' \<notin> j_id ` set (jobs s)"
    unfolding table_def by blast
  then obtain r where r: "r \<in> set (jobs s)" "row_move (may_deliver ev s) (may_commit ev s) r j'"
    using assms(3,5) by auto
  then have "j_id r = j_id j" using assms(5) by (simp add: row_move_def)
  then have "r = j" by (rule row_of_id [OF inv assms(3) r(1)])
  moreover have "job_ok j" using inv assms(3) by (simp add: coord_inv_def rows_inv_def)
  ultimately show ?thesis using r(2) by simp
qed

text \<open>
  C1. In every reachable state of a coordinator the turn jobs have distinct ids and distinct Slack
  events, and every row is well formed: it is terminal exactly when it has a completion time and a
  delivery state, a waiting or running job still has its payload and no delivery attempt, an offered or
  running job has an owner and a claim time, a pending one has no owner, a delivery is attempted at most
  five times, and once it is delivered or given up both envelopes are erased.
\<close>

theorem jobs_well_formed:
  assumes "reach env U s"
  shows "distinct (map j_id (jobs s)) \<and> distinct (map j_event (jobs s)) \<and> (\<forall>j\<in>set (jobs s). job_ok j)"
  using reach_inv [OF assms] by (simp add: coord_inv_def rows_inv_def)

theorem jobs_well_formed_witness:
  "distinct (map j_id (jobs (after delivery_run))) \<and> length (jobs (after delivery_run)) = 1"
  using jobs_well_formed [OF reach_delivery] arg_cong [OF delivery_jobs, of length] by simp

text \<open>
  C2. A settled job stays settled: whatever event comes next, a row that is completed or failed is
  still so, keeps its runtime, does not change from failed to completed, and a delivered answer stays
  delivered.
\<close>

theorem settled_jobs_are_final:
  assumes "reach env U s" "enqueued ev \<inter> U = {}" "j \<in> set (jobs s)" "terminal j"
    "j' \<in> set (jobs (snd (coord_step env now ev s)))" "j_id j' = j_id j"
  shows "terminal j' \<and> j_runtime j' = j_runtime j \<and> (j_status j = Failed \<longrightarrow> j_status j' = Failed) \<and>
    (j_delivery j = Delivered \<longrightarrow> j_delivery j' = Delivered)"
  using reach_row [OF assms(1-3,5,6)] assms(4) by (auto simp: row_move_def terminal_status)

theorem settled_jobs_are_final_witness:
  "terminal (hd (jobs (snd (coord_step demo_env 20 Alarm (after delivery_run)))))"
proof -
  let ?s = "after delivery_run"
  let ?t = "snd (coord_step demo_env 20 Alarm ?s)"
  obtain j where j: "jobs ?s = [j]" "j_id j = ''job-1''" "j_status j = Failed" using delivery_jobs by auto
  obtain j' where j': "jobs ?t = [j']" "j_id j' = ''job-1''" using delivery_next by auto
  have "terminal j'"
    using settled_jobs_are_final [OF reach_delivery, of Alarm j j' 20] j j' by (simp add: enqueued_def terminal_def)
  then show ?thesis using j' by simp
qed

text \<open>
  C3. An answer that Slack accepted is not posted again: in a state where a job is delivered, no event
  makes the coordinator send a message for that job, whatever deliveries other handlers had begun.
\<close>

theorem delivered_is_not_posted_again:
  assumes "reach env U s" "enqueued ev \<inter> U = {}" "j \<in> set (jobs s)" "j_delivery j = Delivered"
  shows "filter (\<lambda>p. fst p = j_id j) (posts (snd (coord_step env now ev s))) = filter (\<lambda>p. fst p = j_id j) (posts s)"
proof -
  have other: "j_id r \<noteq> j_id j" if "head_of ev s = [Post r]" for r
  proof -
    have w: "Post r \<in> set (concat (threads s))" using head_waits [of "Post r" ev s] that by (metis list.set_intros(1))
    have "micro_ok (jobs s) (Post r)" by (rule waits_ok [OF reach_inv [OF assms(1)] w])
    then have f: "flight_ok (jobs s) r" by (simp add: micro_ok_def)
    show ?thesis
    proof
      assume "j_id r = j_id j"
      then have "j_delivery j = Delivery_pending \<or> j_delivery j = Delivery_failed"
        using f assms(3) unfolding flight_ok_def by metis
      with assms(4) show False by simp
    qed
  qed
  have "posts (snd (coord_step env now ev s)) = posts s \<or>
      (\<exists>r x. head_of ev s = [Post r] \<and> posts (snd (coord_step env now ev s)) = posts s @ [(j_id r, j_source r, x)])"
    using reach_step_ok [OF assms(1,2)] by (simp add: step_ok_def)
  then show ?thesis
  proof (elim disjE exE conjE)
    fix r x assume "head_of ev s = [Post r]" "posts (snd (coord_step env now ev s)) = posts s @ [(j_id r, j_source r, x)]"
    then show ?thesis using other by simp
  qed simp
qed

theorem delivered_is_not_posted_again_witness:
  "filter (\<lambda>p. fst p = ''job-1'') (posts (snd (coord_step demo_env 20 Alarm (after delivery_run)))) =
    filter (\<lambda>p. fst p = ''job-1'') (posts (after delivery_run))"
proof -
  obtain j where j: "jobs (after delivery_run) = [j]" "j_id j = ''job-1''" "j_delivery j = Delivered" using delivery_jobs by auto
  then show ?thesis using delivered_is_not_posted_again [OF reach_delivery, of Alarm j] by (simp add: enqueued_def)
qed

text \<open>
  C4. Two handlers never deliver the same job at once: over all handlers that wait, the jobs between
  the reading of the pending answer and the recording of Slack's reply are distinct.
\<close>

theorem one_delivery_in_flight:
  assumes "reach env U s"
  shows "distinct (concat (map flights (concat (threads s))))"
  using reach_inv [OF assms] by (simp add: coord_inv_def micros_inv_def all_flights_def)

theorem one_delivery_in_flight_witness:
  "distinct (concat (map flights (concat (threads (after (butlast delivery_run))))))"
proof -
  have "reach demo_env {''job-1''} (after (butlast delivery_run))"
    using reach_run [OF reach.start, of "butlast delivery_run" demo_env]
    by (simp add: after_def delivery_run_def enqueued_def demo_turn_def)
  then show ?thesis by (rule one_delivery_in_flight)
qed

text \<open>
  C5. Only the runtime that owns a running job completes it: when an event makes a job completed, the
  event is the end of a completion message, the job was running, and its owner is the runtime of the
  socket that the message came from.
\<close>

theorem completed_by_its_runtime:
  assumes "reach env U s" "enqueued ev \<inter> U = {}"
    "j' \<in> set (jobs (snd (coord_step env now ev s)))" "j_status j' = Completed"
    "\<not> (\<exists>j\<in>set (jobs s). j_id j = j_id j' \<and> j_status j = Completed)"
  shows "\<exists>sid att ok out err j. head_of ev s = [Complete_commit sid att (j_id j') ok out err] \<and>
    j \<in> set (jobs s) \<and> j_id j = j_id j' \<and> j_status j = Running \<and> j_runtime j = Some (a_runtime att)"
proof -
  have inv: "coord_inv U s []" by (rule reach_inv [OF assms(1)])
  have "table (may_deliver ev s) (may_commit ev s) (jobs s) (jobs (snd (coord_step env now ev s)))"
    using reach_step_ok [OF assms(1,2)] by (simp add: step_ok_def)
  then obtain j where j: "j \<in> set (jobs s)" and m: "row_move (may_deliver ev s) (may_commit ev s) j j'"
    using assms(3,4) unfolding table_def by blast
  have ok: "job_ok j" and i: "j_id j' = j_id j" using j m inv by (auto simp: coord_inv_def rows_inv_def row_move_def)
  then have "j_id j \<in> may_commit ev s" and not_failed: "j_status j \<noteq> Failed"
    using m assms(4,5) j by (auto simp: row_move_def)
  then obtain c where c: "c \<in> set (head_of ev s)" "j_id j \<in> committed c" by (auto simp: may_commit_def)
  have hd: "head_of ev s = [c]" and w: "c \<in> set (concat (threads s))" using head_waits [OF c(1)] by blast+
  obtain sid att ok' out err where cc: "c = Complete_commit sid att (j_id j) ok' out err"
    using c(2) by (auto simp: committed_def split: micro.splits)
  have "micro_ok (jobs s) c" by (rule waits_ok [OF inv w])
  then have "\<not> waiting j \<and> j_runtime j = Some (a_runtime att)" using j cc by (auto simp: micro_ok_def)
  moreover have "j_status j \<noteq> Completed" using assms(5) j i by auto
  ultimately have "j_status j = Running \<and> j_runtime j = Some (a_runtime att)"
    using not_failed by (cases "j_status j") (auto simp: waiting_def)
  then show ?thesis using hd cc j i by auto
qed

theorem completed_by_its_runtime_witness:
  "length (head_of (Tick 0 No_response []) (after completion_run)) = 1"
proof -
  let ?s = "after completion_run"
  let ?t = "snd (coord_step demo_env 20 (Tick 0 No_response []) ?s)"
  obtain j where j: "jobs ?s = [j]" "j_id j = ''job-1''" "j_status j = Running" using completion_jobs by auto
  obtain j' where j': "jobs ?t = [j']" "j_id j' = ''job-1''" "j_status j' = Completed" using completion_next by auto
  show ?thesis
    using completed_by_its_runtime [OF reach_completion, of "Tick 0 No_response []" j' 20] j j'
    by (auto simp: enqueued_def)
qed

end
