(* ===== verification/Coordinator_Tokens.thy ===== *)
theory Coordinator_Tokens
  imports Coordinator_Runs
begin

text \<open>
  One-use grants and tickets, runtime refreshes, the chunks of an offered turn, and removal.
\<close>

subsection \<open>What a segment does to the token tables\<close>

definition filters :: "'a list \<Rightarrow> 'a list \<Rightarrow> bool" where
  "filters xs ys \<longleftrightarrow> (\<exists>p. ys = filter p xs)"

lemma filters_refl [simp]: "filters xs xs"
  unfolding filters_def by (rule exI [of _ "\<lambda>_. True"]) simp

lemma filters_filter [simp]: "filters xs (filter p xs)"
  unfolding filters_def by blast

lemma filters_trans: "filters a b \<Longrightarrow> filters b c \<Longrightarrow> filters a c"
  unfolding filters_def by (metis filter_filter)

lemma filters_count:
  assumes "filters xs ys"
  shows "length (filter q ys) \<le> length (filter q xs)"
proof -
  obtain p where "ys = filter p xs" using assms unfolding filters_def by blast
  then have "filter q ys = filter p (filter q xs)" by (simp add: conj_commute)
  then show ?thesis by (metis length_filter_le)
qed

lemma filters_set: "filters xs ys \<Longrightarrow> set ys \<subseteq> set xs"
  by (auto simp: filters_def)

definition tokens_kept :: "coord \<Rightarrow> coord \<Rightarrow> bool" where
  "tokens_kept s s' \<longleftrightarrow> filters (grants s) (grants s') \<and> filters (tickets s) (tickets s')"

definition refreshes_kept :: "coord \<Rightarrow> coord \<Rightarrow> bool" where
  "refreshes_kept s s' \<longleftrightarrow> filters (refreshes s) (refreshes s')"

lemma kept_refl [simp]: "tokens_kept s s" "refreshes_kept s s"
  by (simp_all add: tokens_kept_def refreshes_kept_def)

lemma tokens_kept_trans: "tokens_kept a b \<Longrightarrow> tokens_kept b c \<Longrightarrow> tokens_kept a c"
  unfolding tokens_kept_def using filters_trans by metis

lemma refreshes_kept_trans: "refreshes_kept a b \<Longrightarrow> refreshes_kept b c \<Longrightarrow> refreshes_kept a c"
  unfolding refreshes_kept_def using filters_trans by metis

lemma kept_eq:
  "grants s' = grants s \<Longrightarrow> tickets s' = tickets s \<Longrightarrow> tokens_kept s s'"
  "refreshes s' = refreshes s \<Longrightarrow> refreshes_kept s s'"
  by (simp_all add: tokens_kept_def refreshes_kept_def)

definition mints :: "micro \<Rightarrow> bool" where
  "mints m = (case m of Mint _ _ _ _ \<Rightarrow> True | Store_refresh _ _ _ _ _ _ \<Rightarrow> True | _ \<Rightarrow> False)"

lemma deliver_tokens:
  "grants (snd (deliver env jid s)) = grants s" "tickets (snd (deliver env jid s)) = tickets s"
  "refreshes (snd (deliver env jid s)) = refreshes s"
  by (simp_all add: deliver_def frame_simps split: option.splits)

lemma settle_tokens:
  "grants (settle now j v s) = grants s" "tickets (settle now j v s) = tickets s" "refreshes (settle now j v s) = refreshes s"
  by (simp_all add: settle_def Let_def frame_simps)

lemma post_tokens:
  "grants (snd (post_message env now j s)) = grants s" "tickets (snd (post_message env now j s)) = tickets s"
  "refreshes (snd (post_message env now j s)) = refreshes s"
  by (simp_all add: post_message_def settle_tokens split: sum.splits)

lemma cancel_tokens:
  "grants (snd (cancel_each env now ids r n a s)) = grants s" "tickets (snd (cancel_each env now ids r n a s)) = tickets s"
  "refreshes (snd (cancel_each env now ids r n a s)) = refreshes s"
  by (cases ids; simp add: Let_def frame_simps split: sum.splits)+

lemma fail_tokens:
  "grants (snd (fail_each env now ids r n s)) = grants s" "tickets (snd (fail_each env now ids r n s)) = tickets s"
  "refreshes (snd (fail_each env now ids r n s)) = refreshes s"
  by (cases ids; simp add: Let_def frame_simps deliver_tokens case_prod_unfold split: sum.splits)+

lemma expire_tokens:
  "grants (snd (expire_each env ids t s)) = grants s" "tickets (snd (expire_each env ids t s)) = tickets s"
  "refreshes (snd (expire_each env ids t s)) = refreshes s"
  by (cases ids; simp add: frame_simps split: sum.splits)+

lemma insert_tokens:
  "grants (snd (insert_turn env now i s)) = grants s" "tickets (snd (insert_turn env now i s)) = tickets s"
  "refreshes (snd (insert_turn env now i s)) = refreshes s"
  by (simp_all add: insert_turn_def frame_simps split: sum.splits)

lemma commit_tokens:
  "grants (snd (complete_commit env now sid jid ok out err s)) = grants s"
  "tickets (snd (complete_commit env now sid jid ok out err s)) = tickets s"
  "refreshes (snd (complete_commit env now sid jid ok out err s)) = refreshes s"
  by (simp_all add: complete_commit_def Let_def frame_simps deliver_tokens case_prod_unfold split: sum.splits option.splits)

lemma refresh_tokens:
  "grants (snd (refreshRuntime now sid att s)) = grants s" "tickets (snd (refreshRuntime now sid att s)) = tickets s"
  "refreshes (snd (refreshRuntime now sid att s)) = refreshes s"
  "grants (snd (replay env now sid att w s)) = grants s" "tickets (snd (replay env now sid att w s)) = tickets s"
  "refreshes (snd (replay env now sid att w s)) = refreshes s"
  "grants (snd (mint env now tok sid att b t s)) = grants s" "tickets (snd (mint env now tok sid att b t s)) = tickets s"
  "grants (snd (store_refresh env sid att tok jti b t s)) = grants s"
  "tickets (snd (store_refresh env sid att tok jti b t s)) = tickets s"
  by (simp_all add: refreshRuntime_def replay_def mint_def store_refresh_def registerRuntimeRefresh_def Let_def frame_simps
      split: option.splits sum.splits jsval.splits prod.splits)

lemma offer_tokens:
  "grants (offer_send env now sid att j s) = grants s" "tickets (offer_send env now sid att j s) = tickets s"
  "refreshes (offer_send env now sid att j s) = refreshes s"
  by (simp_all add: offer_send_def Let_def frame_simps split: sum.splits)

lemma snd_carry_on [simp]: "snd (carry_on x) = snd x"
  by (simp add: carry_on_def)

lemmas segment_tokens = deliver_tokens settle_tokens post_tokens cancel_tokens fail_tokens expire_tokens insert_tokens
  commit_tokens refresh_tokens offer_tokens

lemma exec_tokens:
  "tokens_kept s (snd (exec_micro env now outcome token m s))"
  "\<not> mints m \<Longrightarrow> refreshes_kept s (snd (exec_micro env now outcome token m s))"
  by (cases m; simp add: exec_micro_def segment_tokens kept_eq frame_simps Let_def sweep_def tokens_kept_def
      refreshes_kept_def mints_def)+

lemma run_thread_tokens:
  "run_thread n env now r ms s = (r', left, s') \<Longrightarrow> tokens_kept s s' \<and> refreshes_kept s s'"
proof (induction n env now r ms s arbitrary: r' left s' rule: run_thread.induct)
  case (3 n env now r m ms s)
  show ?case
  proof (cases "awaits s m")
    case False
    then have m: "\<not> mints m" by (auto simp: awaits_def mints_def split: micro.splits)
    obtain x t where e: "exec_micro env now No_response [] m s = (x, t)" by (cases "exec_micro env now No_response [] m s")
    have k: "tokens_kept s t" "refreshes_kept s t"
      using exec_tokens(1) [where s = s and env = env and now = now and outcome = No_response and token = "[]" and m = m]
        exec_tokens(2) [OF m, where s = s and env = env and now = now and outcome = No_response and token = "[]"] e
      by simp_all
    show ?thesis
    proof (cases x)
      case (Inl err)
      with e False 3 k show ?thesis by simp
    next
      case (Inr y)
      obtain q new where y: "y = (q, new)" by (cases y)
      have "run_thread n env now q (new @ ms) t = (r', left, s')" using 3(2) False e Inr y by simp
      then have "tokens_kept t s' \<and> refreshes_kept t s'"
        using 3(1) [OF False e [symmetric] Inr y [symmetric]] by simp
      then show ?thesis using k tokens_kept_trans refreshes_kept_trans by blast
    qed
  qed (use 3 in simp)
qed simp_all

lemma begin_thread_tokens:
  "tokens_kept (snd seg) (snd (begin_thread env now seg rest)) \<and> refreshes_kept (snd seg) (snd (begin_thread env now seg rest))"
proof (cases seg)
  case (Pair x s)
  show ?thesis
  proof (cases x)
    case (Inl e)
    with Pair show ?thesis by (simp add: begin_thread_def)
  next
    case (Inr y)
    obtain r ms where y: "y = (r, ms)" by (cases y)
    obtain r' left s' where run: "run_thread 64 env now r (ms @ rest) s = (r', left, s')" by (metis prod_cases3)
    have "tokens_kept s (s'\<lparr>threads := th\<rparr>) \<and> refreshes_kept s (s'\<lparr>threads := th\<rparr>)" for th
      using run_thread_tokens [OF run] by (simp add: tokens_kept_def refreshes_kept_def)
    then show ?thesis using run_thread_tokens [OF run] Pair Inr y run by (simp add: begin_thread_def park_def)
  qed
qed

subsection \<open>What an event does to the token tables\<close>

definition tokens_same :: "coord \<Rightarrow> coord \<Rightarrow> bool" where
  "tokens_same s s' \<longleftrightarrow> grants s' = grants s \<and> tickets s' = tickets s \<and> refreshes s' = refreshes s"

lemma tokens_same_refl [simp]: "tokens_same s s"
  by (simp add: tokens_same_def)

lemma tokens_same_trans: "tokens_same a b \<Longrightarrow> tokens_same b c \<Longrightarrow> tokens_same a c"
  by (simp add: tokens_same_def)

lemma tokens_same_kept: "tokens_same s s' \<Longrightarrow> tokens_kept s s' \<and> refreshes_kept s s'"
  by (simp add: tokens_same_def tokens_kept_def refreshes_kept_def)

lemma tokens_same_simps [simp]:
  "tokens_same s (send sid m s') = tokens_same s s'" "tokens_same s (close_socket sid c w s') = tokens_same s s'"
  "tokens_same s (set_attachment sid a s') = tokens_same s s'" "tokens_same s (scheduleCleanup now s') = tokens_same s s'"
  "tokens_same s (update_jobs p f s') = tokens_same s s'" "tokens_same s (releaseOffers att s') = tokens_same s s'"
  "tokens_same s (s'\<lparr>sockets := k\<rparr>) = tokens_same s s'" "tokens_same s (s'\<lparr>next_socket := n\<rparr>) = tokens_same s s'"
  "tokens_same s (s'\<lparr>alarm := al\<rparr>) = tokens_same s s'" "tokens_same s (s'\<lparr>reset_generation := g\<rparr>) = tokens_same s s'"
  "tokens_same s (s'\<lparr>threads := th\<rparr>) = tokens_same s s'" "tokens_same s (s'\<lparr>deliveries := ds\<rparr>) = tokens_same s s'"
  "tokens_same s (s'\<lparr>runs := rs\<rparr>) = tokens_same s s'"
  by (simp_all add: tokens_same_def frame_simps releaseOffers_def)

lemma tokens_same_foldl: "(\<And>s x. tokens_same s (f s x)) \<Longrightarrow> tokens_same s (foldl f s xs)"
proof (induction xs arbitrary: s)
  case (Cons x xs)
  then have "tokens_same s (f s x)" "tokens_same (f s x) (foldl f (f s x) xs)" by blast+
  then show ?case using tokens_same_trans by simp
qed simp

lemma tokens_same_foldl_start: "(\<And>s x. tokens_same s (f s x)) \<Longrightarrow> tokens_same t s \<Longrightarrow> tokens_same t (foldl f s xs)"
  using tokens_same_foldl tokens_same_trans by blast

lemma tokens_same_restart_each: "tokens_same s (snd (restart_each ks s))"
proof (induction ks s rule: restart_each.induct)
  case (2 k ks s)
  show ?case
  proof (cases "attachmentFrom k")
    case (Inr att)
    let ?t = "close_socket (s_id k) 4002 ''runtime reconnect requested''
      (releaseOffers att (set_attachment (s_id k) (att\<lparr>a_disabled := True\<rparr>) s))"
    have "tokens_same s ?t" "tokens_same ?t (snd (restart_each ks ?t))" using 2 Inr by simp_all
    then have "tokens_same s (snd (restart_each ks ?t))" by (rule tokens_same_trans)
    then show ?thesis using Inr by simp
  qed simp
qed simp

lemma tokens_same_handlers:
  "tokens_same s (snd (connect websocket runtime claw refresh s))"
  "tokens_same s (snd (prepareForRemoval reason now s))"
  "tokens_same s (snd (restartRuntimeConnections now s))"
  "tokens_same s (webSocketClose now sid s)"
  "tokens_same s (snd (claim now sid att s))"
  "tokens_same s (start env now sid att input s)"
  "tokens_same s (snd (complete env sid att input s))"
  "tokens_same s (snd (alarm_start now s))"
  "tokens_same s (snd (enqueueTurn input' now s))"
  "tokens_same s (snd (cancelPending reason s))"
  "tokens_same s (snd (cancelActiveTurns reason s))"
  "tokens_same s (snd (startRun rid now s))"
  "tokens_same s (finishRun rid ok err now s)"
proof -
  let ?f = "\<lambda>s k. case attachmentFrom k of
                     Inl _ \<Rightarrow> close_socket (s_id k) 1011 ''invalid runtime attachment'' s
                   | Inr att \<Rightarrow> if a_runtime att = trim runtime
                       then close_socket (s_id k) 4001 ''runtime reconnected'' (releaseOffers att s) else s"
  have "tokens_same s (foldl ?f s (sockets s))" by (rule tokens_same_foldl) (simp split: sum.splits)
  then show "tokens_same s (snd (connect websocket runtime claw refresh s))" by (simp add: connect_def Let_def)
  show "tokens_same s (snd (prepareForRemoval reason now s))"
    by (simp add: prepareForRemoval_def Let_def, rule tokens_same_foldl_start) simp_all
  obtain r s' where e: "restart_each (sockets s) s = (r, s')" by (cases "restart_each (sockets s) s")
  then have "tokens_same s s'" using tokens_same_restart_each [of s "sockets s"] by simp
  then show "tokens_same s (snd (restartRuntimeConnections now s))"
    by (simp add: restartRuntimeConnections_def e Let_def split: sum.splits)
  show "tokens_same s (webSocketClose now sid s)"
    by (simp add: webSocketClose_def Let_def split: option.splits sum.splits)
  show "tokens_same s (snd (claim now sid att s))" by (simp add: claim_def Let_def split: option.splits)
  show "tokens_same s (start env now sid att input s)" by (simp add: start_def Let_def)
  show "tokens_same s (snd (complete env sid att input s))"
    by (rule complete_cases [of env sid att input s])
      (simp_all add: Let_def case_prod_unfold tokens_same_def deliver_tokens frame_simps)
qed (simp_all add: alarm_start_def enqueueTurn_def cancelPending_def cancelActiveTurns_def startRun_def finishRun_def Let_def
    split: sum.splits option.splits)

lemma tokens_same_message: "tokens_same s (snd (webSocketMessage env now sid data s))"
  using tokens_same_handlers(5,6,7)
  by (simp add: webSocketMessage_def Let_def case_prod_unfold split: option.splits sum.splits ws_data.splits)

definition touches_tokens :: "event \<Rightarrow> bool" where
  "touches_tokens ev = (case ev of Register_grant _ _ _ _ \<Rightarrow> True | Register_ticket _ _ \<Rightarrow> True | Register_refresh _ _ \<Rightarrow> True
     | Consume_ticket _ _ \<Rightarrow> True | Consume_grant _ _ _ \<Rightarrow> True | _ \<Rightarrow> False)"

lemma thread_tokens:
  assumes "tokens_same s (snd seg)"
  shows "tokens_kept s (snd (begin_thread env now seg rest)) \<and> refreshes_kept s (snd (begin_thread env now seg rest))"
  using tokens_same_kept [OF assms] begin_thread_tokens [of seg env now rest] tokens_kept_trans refreshes_kept_trans by blast

lemma step_tokens:
  assumes "\<not> touches_tokens ev"
  shows "tokens_kept s (snd (coord_step env now ev s))"
    "\<not> (\<exists>m\<in>set (head_of ev s). mints m) \<Longrightarrow> refreshes_kept s (snd (coord_step env now ev s))"
proof -
  note hs = tokens_same_handlers [THEN tokens_same_kept]
  have tick: "tokens_kept s (snd (tick env now i outcome token s)) \<and>
      (\<not> (\<exists>m\<in>set (head_of (Tick i outcome token) s). mints m) \<longrightarrow> refreshes_kept s (snd (tick env now i outcome token s)))"
    for i outcome token
  proof (cases "i < length (threads s) \<and> threads s ! i \<noteq> []")
    case False
    then show ?thesis by (auto simp: tick_def split: list.splits)
  next
    case True
    then obtain m ms where i: "i < length (threads s)" and th: "threads s ! i = m # ms" by (auto simp: neq_Nil_conv)
    let ?s = "s\<lparr>threads := take i (threads s) @ drop (Suc i) (threads s)\<rparr>"
    let ?seg = "exec_micro env now outcome token m ?s"
    have t: "snd (tick env now i outcome token s) = snd (begin_thread env now ?seg ms)"
      using i th by (simp add: tick_def Let_def)
    have hd: "head_of (Tick i outcome token) s = [m]" using i th by (simp add: head_of_def)
    have k: "tokens_kept s (snd ?seg)" "\<not> mints m \<Longrightarrow> refreshes_kept s (snd ?seg)"
      using exec_tokens [where s = ?s and m = m and env = env and now = now and outcome = outcome and token = token]
      by (simp_all add: tokens_kept_def refreshes_kept_def)
    show ?thesis unfolding t hd
      using k begin_thread_tokens [of ?seg env now ms] tokens_kept_trans refreshes_kept_trans by simp blast
  qed
  have "tokens_kept s (snd (coord_step env now ev s)) \<and>
    (\<not> (\<exists>m\<in>set (head_of ev s). mints m) \<longrightarrow> refreshes_kept s (snd (coord_step env now ev s)))"
    using assms
    by (cases ev) (simp_all add: coord_step_def touches_tokens_def case_prod_unfold Let_def hs tick
        thread_tokens tokens_same_handlers tokens_same_message tokens_same_kept)
  then show "tokens_kept s (snd (coord_step env now ev s))"
    "\<not> (\<exists>m\<in>set (head_of ev s). mints m) \<Longrightarrow> refreshes_kept s (snd (coord_step env now ev s))" by blast+
qed

subsection \<open>One use per registration\<close>

text \<open>Over a run with its replies: the registrations of a grant that succeeded, the consumptions that
  were answered with true, and the grants that are left.\<close>

definition grant_registered :: "string \<Rightarrow> string \<Rightarrow> string \<Rightarrow> event \<Rightarrow> reply result \<Rightarrow> bool" where
  "grant_registered invocation jti digest ev r =
     (case ev of Register_grant i j d e \<Rightarrow> i = invocation \<and> j = jti \<and> d = digest \<and> r = Inr Done | _ \<Rightarrow> False)"

definition grant_used :: "string \<Rightarrow> string \<Rightarrow> string \<Rightarrow> event \<Rightarrow> reply result \<Rightarrow> bool" where
  "grant_used invocation jti digest ev r =
     (case ev of Consume_grant i j d \<Rightarrow> i = invocation \<and> j = jti \<and> d = digest \<and> r = Inr (Flag True) | _ \<Rightarrow> False)"

definition ticket_registered :: "string \<Rightarrow> event \<Rightarrow> reply result \<Rightarrow> bool" where
  "ticket_registered jti ev r = (case ev of Register_ticket j e \<Rightarrow> j = jti \<and> r = Inr Done | _ \<Rightarrow> False)"

definition ticket_used :: "string \<Rightarrow> event \<Rightarrow> reply result \<Rightarrow> bool" where
  "ticket_used jti ev r = (case ev of Consume_ticket j t \<Rightarrow> j = jti \<and> r = Inr (Flag True) | _ \<Rightarrow> False)"

definition occurrences :: "(event \<Rightarrow> reply result \<Rightarrow> bool) \<Rightarrow> (int \<times> event) list \<Rightarrow> reply result list \<Rightarrow> nat" where
  "occurrences q evs rs = length (filter (\<lambda>p. q (snd (fst p)) (snd p)) (zip evs rs))"

definition open_grant :: "string \<Rightarrow> string \<Rightarrow> string \<Rightarrow> grant_row \<Rightarrow> bool" where
  "open_grant invocation jti digest g \<longleftrightarrow>
     g_invocation g = invocation \<and> g_jti g = jti \<and> g_digest g = digest \<and> g_consumed g = None"

definition open_ticket :: "string \<Rightarrow> ticket_row \<Rightarrow> bool" where
  "open_ticket jti t \<longleftrightarrow> t_jti t = jti \<and> t_consumed t = None"

lemma occurrences_simps [simp]:
  "occurrences q [] rs = 0"
  "occurrences q (p # evs) (r # rs) = (if q (snd p) r then 1 else 0) + occurrences q evs rs"
  by (simp_all add: occurrences_def)

lemma length_filter_update:
  assumes "\<And>r. p r \<Longrightarrow> \<not> q (f r)"
  shows "length (filter q (sql_update p f rows)) + length (filter (\<lambda>r. p r \<and> q r) rows) = length (filter q rows)"
  using assms by (induction rows) (auto simp: sql_update_def)

lemma tokens_count:
  "tokens_kept s s' \<Longrightarrow> length (filter q (grants s')) \<le> length (filter q (grants s))"
  "tokens_kept s s' \<Longrightarrow> length (filter q' (tickets s')) \<le> length (filter q' (tickets s))"
  by (simp_all add: tokens_kept_def filters_count)

lemma grant_step:
  assumes "coord_step env now ev s = (r, s')"
  shows "(if grant_used i j d ev r then 1 else 0) + length (filter (open_grant i j d) (grants s')) \<le>
    (if grant_registered i j d ev r then 1 else 0) + length (filter (open_grant i j d) (grants s))"
proof (cases "touches_tokens ev")
  case False
  then have "\<not> grant_used i j d ev r" "\<not> grant_registered i j d ev r"
    by (auto simp: touches_tokens_def grant_used_def grant_registered_def split: event.splits)
  moreover have "tokens_kept s s'" using step_tokens(1) [OF False, of s env now] assms by simp
  ultimately show ?thesis using tokens_count(1) by simp
next
  case True
  then show ?thesis
  proof (cases ev)
    case (Consume_grant i' j' d')
    let ?p = "grant_matches i' j' d' now"
    have "length (filter (open_grant i j d) (sql_update ?p (\<lambda>g. g\<lparr>g_consumed := Some now\<rparr>) (grants s))) +
        length (filter (\<lambda>g. ?p g \<and> open_grant i j d g) (grants s)) = length (filter (open_grant i j d) (grants s))"
      by (rule length_filter_update) (simp add: open_grant_def)
    moreover have "sql_matches ?p (grants s) = 1 \<Longrightarrow> i' = i \<Longrightarrow> j' = j \<Longrightarrow> d' = d \<Longrightarrow>
        length (filter (\<lambda>g. ?p g \<and> open_grant i j d g) (grants s)) = 1"
    proof -
      assume "sql_matches ?p (grants s) = 1" "i' = i" "j' = j" "d' = d"
      moreover from this have "(\<lambda>g. ?p g \<and> open_grant i j d g) = ?p" by (auto simp: grant_matches_def open_grant_def)
      ultimately show ?thesis by (simp add: sql_matches_def)
    qed
    ultimately show ?thesis using assms Consume_grant
      by (auto simp: coord_step_def consumeGrant_def Let_def grant_used_def grant_registered_def split: if_splits)
  qed (use assms in \<open>auto simp: coord_step_def touches_tokens_def grant_used_def grant_registered_def lift_reply_def
      registerGrant_def registerRuntimeTicket_def registerRuntimeRefresh_def consumeRuntimeTicket_def Let_def
      frame_simps open_grant_def split: if_splits\<close>)
qed

lemma ticket_step:
  assumes "coord_step env now ev s = (r, s')"
  shows "(if ticket_used j ev r then 1 else 0) + length (filter (open_ticket j) (tickets s')) \<le>
    (if ticket_registered j ev r then 1 else 0) + length (filter (open_ticket j) (tickets s))"
proof (cases "touches_tokens ev")
  case False
  then have "\<not> ticket_used j ev r" "\<not> ticket_registered j ev r"
    by (auto simp: touches_tokens_def ticket_used_def ticket_registered_def split: event.splits)
  moreover have "tokens_kept s s'" using step_tokens(1) [OF False, of s env now] assms by simp
  ultimately show ?thesis using tokens_count(2) by simp
next
  case True
  then show ?thesis
  proof (cases ev)
    case (Consume_ticket j' t)
    let ?p = "\<lambda>k. t_jti k = j' \<and> t_consumed k = None \<and> t < t_expires k"
    have "length (filter (open_ticket j) (sql_update ?p (\<lambda>k. k\<lparr>t_consumed := Some t\<rparr>) (tickets s))) +
        length (filter (\<lambda>k. ?p k \<and> open_ticket j k) (tickets s)) = length (filter (open_ticket j) (tickets s))"
      by (rule length_filter_update) (simp add: open_ticket_def)
    moreover have "sql_matches ?p (tickets s) = 1 \<Longrightarrow> j' = j \<Longrightarrow>
        length (filter (\<lambda>k. ?p k \<and> open_ticket j k) (tickets s)) = 1"
    proof -
      assume "sql_matches ?p (tickets s) = 1" "j' = j"
      moreover from this have "(\<lambda>k. ?p k \<and> open_ticket j k) = ?p" by (auto simp: open_ticket_def)
      ultimately show ?thesis by (simp add: sql_matches_def)
    qed
    ultimately show ?thesis using assms Consume_ticket
      by (auto simp: coord_step_def consumeRuntimeTicket_def Let_def ticket_used_def ticket_registered_def split: if_splits)
  qed (use assms in \<open>auto simp: coord_step_def touches_tokens_def ticket_used_def ticket_registered_def lift_reply_def
      registerGrant_def registerRuntimeTicket_def registerRuntimeRefresh_def consumeGrant_def Let_def
      frame_simps open_ticket_def split: if_splits\<close>)
qed

lemma grant_run:
  "coord_run env evs s = (rs, s') \<Longrightarrow>
    occurrences (grant_used i j d) evs rs + length (filter (open_grant i j d) (grants s')) \<le>
    occurrences (grant_registered i j d) evs rs + length (filter (open_grant i j d) (grants s))"
proof (induction evs arbitrary: s rs s')
  case (Cons p evs)
  obtain now ev where p: "p = (now, ev)" by (cases p)
  obtain r t where st: "coord_step env now ev s = (r, t)" by (cases "coord_step env now ev s")
  obtain rs' u where rn: "coord_run env evs t = (rs', u)" by (cases "coord_run env evs t")
  have e: "rs = r # rs'" "s' = u" using Cons.prems p st rn by simp_all
  show ?case using grant_step [OF st, of i j d] Cons.IH [OF rn] unfolding e p by simp
qed simp

lemma ticket_run:
  "coord_run env evs s = (rs, s') \<Longrightarrow>
    occurrences (ticket_used j) evs rs + length (filter (open_ticket j) (tickets s')) \<le>
    occurrences (ticket_registered j) evs rs + length (filter (open_ticket j) (tickets s))"
proof (induction evs arbitrary: s rs s')
  case (Cons p evs)
  obtain now ev where p: "p = (now, ev)" by (cases p)
  obtain r t where st: "coord_step env now ev s = (r, t)" by (cases "coord_step env now ev s")
  obtain rs' u where rn: "coord_run env evs t = (rs', u)" by (cases "coord_run env evs t")
  have e: "rs = r # rs'" "s' = u" using Cons.prems p st rn by simp_all
  show ?case using ticket_step [OF st, of j] Cons.IH [OF rn] unfolding e p by simp
qed simp

text \<open>
  C6. An invocation grant is used once: over any sequence of events from the empty coordinator, the
  consumptions of a grant (invocation, token id and digest of the arguments) that are answered with true
  are at most as many as its successful registrations, so none is consumed twice and none is consumed
  for other arguments than those it was registered for.
\<close>

theorem grants_are_single_use:
  "(let (rs, s) = coord_run env evs coord_init
    in occurrences (grant_used i j d) evs rs \<le> occurrences (grant_registered i j d) evs rs)"
proof -
  obtain rs s where r: "coord_run env evs coord_init = (rs, s)" by (cases "coord_run env evs coord_init")
  show ?thesis using grant_run [OF r, of i j d] r by (simp add: coord_init_def)
qed

text \<open>
  A runtime ticket is used once: over any sequence of events from the empty coordinator, a ticket is
  accepted at most as often as it was registered.
\<close>

theorem tickets_are_single_use:
  "(let (rs, s) = coord_run env evs coord_init
    in occurrences (ticket_used j) evs rs \<le> occurrences (ticket_registered j) evs rs)"
proof -
  obtain rs s where r: "coord_run env evs coord_init = (rs, s)" by (cases "coord_run env evs coord_init")
  show ?thesis using ticket_run [OF r, of j] r by (simp add: coord_init_def)
qed

subsection \<open>Runtime refresh\<close>

definition refresh_move :: "refresh_row \<Rightarrow> refresh_row \<Rightarrow> bool" where
  "refresh_move f f' \<longleftrightarrow> f_jti f' = f_jti f \<and> f_expires f' = f_expires f \<and>
     (f_response f \<noteq> None \<longrightarrow> f_response f' = f_response f) \<and> (f_consumed f \<noteq> None \<longrightarrow> f_consumed f' = f_consumed f)"

definition refresh_table :: "refresh_row list \<Rightarrow> refresh_row list \<Rightarrow> bool" where
  "refresh_table fs fs' \<longleftrightarrow> distinct (map f_jti fs) \<longrightarrow> distinct (map f_jti fs') \<and>
     (\<forall>f'\<in>set fs'. (\<exists>f\<in>set fs. refresh_move f f') \<or> f_jti f' \<notin> f_jti ` set fs)"

lemma refresh_move_refl [simp]: "refresh_move f f"
  by (simp add: refresh_move_def)

lemma refresh_table_refl [simp]: "refresh_table fs fs"
  unfolding refresh_table_def using refresh_move_refl by blast

lemma refresh_table_filters:
  assumes "refresh_table a b" "filters b c"
  shows "refresh_table a c"
proof -
  obtain p where "c = filter p b" using assms(2) unfolding filters_def by blast
  then show ?thesis using assms(1) unfolding refresh_table_def by (auto simp: distinct_map_filter)
qed

lemma refresh_table_insert:
  assumes "f_jti f \<notin> f_jti ` set fs"
  shows "refresh_table fs (fs @ [f])"
proof -
  have "\<exists>g\<in>set fs. refresh_move g f'" if "f' \<in> set fs" for f' using that refresh_move_refl by blast
  then show ?thesis using assms unfolding refresh_table_def by auto
qed

lemma refresh_table_update:
  assumes "\<And>f. f \<in> set fs \<Longrightarrow> p f \<Longrightarrow> refresh_move f (g f)"
  shows "refresh_table fs (sql_update p g fs)"
proof -
  have "map f_jti (sql_update p g fs) = map f_jti fs"
    using assms by (auto simp: sql_update_def refresh_move_def)
  moreover have "\<exists>f\<in>set fs. refresh_move f f'" if "f' \<in> set (sql_update p g fs)" for f'
    using set_sql_update [OF that] assms refresh_move_refl by (metis (full_types))
  ultimately show ?thesis unfolding refresh_table_def by metis
qed

lemma register_table: "refresh_table (refreshes s) (refreshes (snd (registerRuntimeRefresh jti ex now s)))"
  by (simp add: registerRuntimeRefresh_def frame_simps) (auto intro!: refresh_table_insert)

lemma mint_table: "refresh_table (refreshes s) (refreshes (snd (mint env now tok sid att b t s)))"
proof (cases "env_verify env now tok")
  case (Inr p)
  obtain jti ex where p: "p = (jti, ex)" by (cases p)
  obtain r s' where e: "registerRuntimeRefresh jti (ex * 1000) now s = (r, s')"
    by (cases "registerRuntimeRefresh jti (ex * 1000) now s")
  have "refresh_table (refreshes s) (refreshes s')" using register_table [of s jti "ex * 1000" now] e by simp
  then show ?thesis using Inr p e by (cases r) (simp_all add: mint_def)
qed (simp add: mint_def)

lemma store_table: "refresh_table (refreshes s) (refreshes (snd (store_refresh env sid att tok jti b t s)))"
proof (cases "env_seal env (refresh_label att) (token_response tok)")
  case (Inr w)
  let ?fs = "sql_update (storable att b t) (\<lambda>f. f\<lparr>f_consumed := (if b then Some t else f_consumed f), f_response := Some w\<rparr>) (refreshes s)"
  have "refresh_table (refreshes s) ?fs"
    by (rule refresh_table_update) (auto simp: storable_def refresh_move_def)
  then have "refresh_table (refreshes s) (filter q ?fs)" for q by (rule refresh_table_filters) simp
  then show ?thesis using Inr \<open>refresh_table (refreshes s) ?fs\<close> by (simp add: store_refresh_def Let_def frame_simps)
qed (simp add: store_refresh_def)

lemma exec_table: "refresh_table (refreshes s) (refreshes (snd (exec_micro env now outcome token m s)))"
proof (cases "mints m")
  case True
  then show ?thesis using mint_table store_table by (cases m) (simp_all add: mints_def exec_micro_def)
next
  case False
  then show ?thesis using exec_tokens(2) [OF False] refresh_table_filters [OF refresh_table_refl]
    unfolding refreshes_kept_def by blast
qed

lemma step_refreshes: "refresh_table (refreshes s) (refreshes (snd (coord_step env now ev s)))"
proof (cases "touches_tokens ev")
  case True
  then show ?thesis using register_table
    by (cases ev) (simp_all add: coord_step_def touches_tokens_def case_prod_unfold Let_def registerGrant_def
        registerRuntimeTicket_def consumeRuntimeTicket_def consumeGrant_def frame_simps)
next
  case False
  show ?thesis
  proof (cases "\<exists>m\<in>set (head_of ev s). mints m")
    case no: False
    show ?thesis using step_tokens(2) [OF False no] refresh_table_filters [OF refresh_table_refl]
      unfolding refreshes_kept_def by blast
  next
    case True
    then obtain m where m: "m \<in> set (head_of ev s)" by blast
    then obtain i outcome token where ev: "ev = Tick i outcome token" and i: "i < length (threads s)"
        and hd: "m \<in> set (take 1 (threads s ! i))"
      by (cases ev) (auto simp: head_of_def split: if_splits)
    from hd obtain ms where th: "threads s ! i = m # ms" by (cases "threads s ! i") auto
    let ?s = "s\<lparr>threads := take i (threads s) @ drop (Suc i) (threads s)\<rparr>"
    let ?seg = "exec_micro env now outcome token m ?s"
    have "refresh_table (refreshes s) (refreshes (snd ?seg))" using exec_table [where s = ?s] by simp
    moreover have "filters (refreshes (snd ?seg)) (refreshes (snd (begin_thread env now ?seg ms)))"
      using begin_thread_tokens by (simp add: refreshes_kept_def)
    ultimately show ?thesis using refresh_table_filters i th ev by (simp add: coord_step_def tick_def Let_def)
  qed
qed

lemma run_refreshes: "distinct (map f_jti (refreshes s)) \<Longrightarrow> distinct (map f_jti (refreshes (snd (coord_run env evs s))))"
proof (induction evs arbitrary: s)
  case (Cons p evs)
  obtain now ev where p: "p = (now, ev)" by (cases p)
  have "distinct (map f_jti (refreshes (snd (coord_step env now ev s))))"
    using step_refreshes [of s env now ev] Cons.prems by (simp add: refresh_table_def)
  then show ?case using Cons.IH p by (simp add: case_prod_unfold Let_def)
qed simp

text \<open>
  A runtime refresh is answered by one token: once a refresh row has a stored response, no event
  changes the response or the time of consumption while the row exists, and a further request with that
  refresh id before it expires replays the stored response instead of minting another token.
\<close>

theorem refresh_response_is_final:
  assumes "f \<in> set (refreshes (snd (coord_run env evs coord_init)))" "f_response f = Some w"
    "f' \<in> set (refreshes (snd (coord_step env now ev (snd (coord_run env evs coord_init)))))" "f_jti f' = f_jti f"
    "a_refresh att = f_jti f" "w \<noteq> []" "later < f_expires f"
  shows "f_response f' = Some w \<and> (f_consumed f \<noteq> None \<longrightarrow> f_consumed f' = f_consumed f) \<and>
    refreshRuntime later sid att (snd (coord_run env evs coord_init)) =
      ([Replay sid att w], snd (coord_run env evs coord_init))"
proof -
  let ?s = "snd (coord_run env evs coord_init)"
  have d: "distinct (map f_jti (refreshes ?s))" by (rule run_refreshes) (simp add: coord_init_def)
  have only: "g = f" if "g \<in> set (refreshes ?s)" "f_jti g = f_jti f" for g
    using d that assms(1) by (auto simp: distinct_map inj_on_def)
  have "f_jti f' \<in> f_jti ` set (refreshes ?s)" using assms(1,4) by simp
  then obtain g where "g \<in> set (refreshes ?s)" "refresh_move g f'"
    using step_refreshes [of ?s env now ev] d assms(3) unfolding refresh_table_def by blast
  then have "refresh_move f f'" using only assms(4) by (metis refresh_move_def)
  moreover have "find_refresh (a_refresh att) ?s = Some f"
  proof -
    obtain g where g: "find_refresh (a_refresh att) ?s = Some g"
      using assms(1,5) by (cases "find_refresh (a_refresh att) ?s") (auto simp: find_refresh_def find_None_iff)
    then have "g \<in> set (refreshes ?s) \<and> f_jti g = a_refresh att" unfolding find_refresh_def by (rule find_Some_mem)
    then show ?thesis using g only assms(5) by simp
  qed
  ultimately show ?thesis using assms(2,6,7) by (simp add: refresh_move_def refreshRuntime_def)
qed

definition refresh_run :: "(int \<times> event) list" where
  "refresh_run =
     [(10, Register_refresh ''first'' 5000), (11, Connect True ''rt'' ''claw'' ''first''),
      (12, Message 0 (Text (stringify (JObj [(''type'', JStr ''runtime.refresh'')])))),
      (13, Tick 0 No_response ''second''), (14, Tick 0 No_response [])]"

lemma refresh_rows: "map (\<lambda>f. (f_jti f, f_expires f, f_response f)) (refreshes (after refresh_run)) =
    [(''first'', 5000, Some ''runtime-refresh:first''), (''second'', 999000, None)]"
  by code_simp

lemma refresh_rows_next:
  "map (\<lambda>f. (f_jti f, f_expires f)) (refreshes (snd (coord_step demo_env 20 (Message 0 Binary) (after refresh_run)))) =
    [(''first'', 5000), (''second'', 999000)]"
  by code_simp

theorem refresh_response_is_final_witness:
  "f_response (hd (refreshes (snd (coord_step demo_env 20 (Message 0 Binary) (after refresh_run))))) =
    Some ''runtime-refresh:first''"
proof -
  obtain f g where f: "refreshes (after refresh_run) = [f, g]" "f_jti f = ''first''" "f_expires f = 5000"
      "f_response f = Some ''runtime-refresh:first''"
    using refresh_rows by auto
  obtain f' g' where f': "refreshes (snd (coord_step demo_env 20 (Message 0 Binary) (after refresh_run))) = [f', g']"
      "f_jti f' = ''first''"
    using refresh_rows_next by auto
  let ?att = "\<lparr>a_runtime = ''rt'', a_claw = ''claw'', a_refresh = ''first'', a_disabled = False\<rparr>"
  have "f_response f' = Some ''runtime-refresh:first''"
    using refresh_response_is_final [of f demo_env refresh_run "''runtime-refresh:first''" f' 20 "Message 0 Binary" ?att 21 0] f f'
    by (simp add: after_def)
  then show ?thesis using f' by simp
qed

subsection \<open>An offered turn\<close>

text \<open>What a runtime gets when it joins the data of the chunks in the order they were sent.\<close>

definition received :: "msg list \<Rightarrow> string" where
  "received ms = concat (map (\<lambda>m. case m of Job_turn_chunk jid i d \<Rightarrow> d | _ \<Rightarrow> []) ms)"

definition chunk_numbers :: "msg list \<Rightarrow> nat list" where
  "chunk_numbers ms = concat (map (\<lambda>m. case m of Job_turn_chunk jid i d \<Rightarrow> [i] | _ \<Rightarrow> []) ms)"

definition chunk_fits :: "msg \<Rightarrow> bool" where
  "chunk_fits m = (case m of Job_turn_chunk jid i d \<Rightarrow> d \<noteq> [] \<and> length d \<le> 512 | _ \<Rightarrow> True)"

definition turn_message :: "job_row \<Rightarrow> string \<Rightarrow> jsval" where
  "turn_message j prompt = JObj
     [(''type'', JStr ''job.turn''), (''id'', JStr (j_id j)), (''prompt'', JStr prompt),
      (''requesterId'', JStr (j_requester j)), (''personaId'', JStr (j_persona j)),
      (''turnToken'', JStr (j_token j)), (''sessionId'', JStr (sessionId (j_source j)))]"

lemma offer_parts:
  fixes cs :: "string list"
  shows "concat (map (\<lambda>m. case m of Job_turn_chunk jid i d \<Rightarrow> d | _ \<Rightarrow> []) (map (\<lambda>p. Job_turn_chunk k (fst p) (snd p)) (zip [0..<length cs] cs))) = concat cs"
    "concat (map (\<lambda>m. case m of Job_turn_chunk jid i d \<Rightarrow> [i] | _ \<Rightarrow> []) (map (\<lambda>p. Job_turn_chunk k (fst p) (snd p)) (zip [0..<length cs] cs))) = [0..<length cs]"
proof -
  have "map snd (zip [0..<length cs] cs) = cs" "map fst (zip [0..<length cs] cs) = [0..<length cs]" by simp_all
  then show "concat (map (\<lambda>m. case m of Job_turn_chunk jid i d \<Rightarrow> d | _ \<Rightarrow> []) (map (\<lambda>p. Job_turn_chunk k (fst p) (snd p)) (zip [0..<length cs] cs))) = concat cs"
    "concat (map (\<lambda>m. case m of Job_turn_chunk jid i d \<Rightarrow> [i] | _ \<Rightarrow> []) (map (\<lambda>p. Job_turn_chunk k (fst p) (snd p)) (zip [0..<length cs] cs))) = [0..<length cs]"
    by (simp_all add: o_def)
qed

text \<open>
  An offered turn arrives whole: the data of the chunks, joined in the order of their indexes,
  decodes from base64url to the UTF-8 text of the message, that text parses to the object with the job's
  identity, requester, persona, turn token, session and prompt, and no chunk is empty or longer than 512
  characters.
\<close>

theorem offered_turn_reassembles:
  "from_base64url (received (offer_messages j (JStr prompt))) = utf8_bytes (turn_text j (JStr prompt)) \<and>
    json_parse (turn_text j (JStr prompt)) = Some (turn_message j prompt) \<and>
    chunk_numbers (offer_messages j (JStr prompt)) = [0..<length (turn_chunks j (JStr prompt))] \<and>
    list_all chunk_fits (offer_messages j (JStr prompt))"
proof -
  let ?cs = "turn_chunks j (JStr prompt)"
  have "received (offer_messages j (JStr prompt)) = concat ?cs"
    by (simp only: received_def offer_messages_def map_append concat_append offer_parts) simp
  also have "\<dots> = base64url (utf8_bytes (turn_text j (JStr prompt)))"
    unfolding turn_chunks_def by (rule concat_chunks) simp
  finally have "from_base64url (received (offer_messages j (JStr prompt))) = utf8_bytes (turn_text j (JStr prompt))"
    using base64_round_trip utf8_bytes_less by simp
  moreover have "json_parse (turn_text j (JStr prompt)) = Some (turn_message j prompt)"
    unfolding turn_text_def stringify_def turn_message_def by (rule json_round_trip) simp
  moreover have "chunk_numbers (offer_messages j (JStr prompt)) = [0..<length ?cs]"
    by (simp only: chunk_numbers_def offer_messages_def map_append concat_append offer_parts) simp
  moreover have "chunk_fits (Job_turn_chunk k i d)" if "d \<in> set ?cs" for k i d
    using chunks_bounded [OF that [unfolded turn_chunks_def]] by (simp add: chunk_fits_def)
  then have "list_all chunk_fits (offer_messages j (JStr prompt))"
    by (auto simp: list_all_iff offer_messages_def chunk_fits_def dest: set_zip_rightD)
  ultimately show ?thesis by simp
qed

subsection \<open>Removal\<close>

lemma close_open: "k' \<in> set (sockets (close_socket sid c w s)) \<Longrightarrow> s_open k' \<Longrightarrow> k' \<in> set (sockets s) \<and> s_id k' \<noteq> sid"
  by (auto simp: close_socket_def Let_def sql_update_def emit_def split: if_splits)

lemma close_all_open:
  "k' \<in> set (sockets (foldl (\<lambda>s k. close_socket (s_id k) c w s) s ks)) \<Longrightarrow> s_open k' \<Longrightarrow>
    k' \<in> set (sockets s) \<and> s_id k' \<notin> s_id ` set ks"
proof (induction ks arbitrary: s)
  case (Cons k ks)
  then have "k' \<in> set (sockets (close_socket (s_id k) c w s)) \<and> s_id k' \<notin> s_id ` set ks" by simp
  then show ?case using close_open Cons.prems(2) by fastforce
qed simp

text \<open>
  Preparing a removal leaves nothing to do: it answers with the number of jobs that were waiting,
  running or awaiting delivery, after it no job is, so the object does not arm its alarm again, no
  socket of a runtime is open, the rows are the same ones, and the generation that tells runtimes to
  reset has advanced.
\<close>

theorem removal_leaves_no_work:
  "(let (n, s') = prepareForRemoval reason now s
    in n = sql_matches unfinished (jobs s) \<and> \<not> hasWork s' \<and> sql_matches s_open (sockets s') = 0 \<and>
       map j_id (jobs s') = map j_id (jobs s) \<and> reset_generation s' = reset_generation s + 1)"
proof -
  let ?s = "update_jobs unfinished (remove_job now reason) (s\<lparr>reset_generation := reset_generation s + 1\<rparr>)"
  let ?t = "foldl (\<lambda>s k. close_socket (s_id k) 4002 ''claw removal requested'' s) ?s (sockets ?s)"
  have e: "prepareForRemoval reason now s = (sql_matches unfinished (jobs s), ?t)"
    by (simp add: prepareForRemoval_def Let_def)
  have j: "jobs ?t = sql_update unfinished (remove_job now reason) (jobs s)"
    by (simp add: foldl_keeps frame_simps)
  have g: "reset_generation ?t = reset_generation s + 1"
  proof -
    have "reset_generation (close_socket sid c w u) = reset_generation u" for sid c w u
      by (simp add: close_socket_def Let_def emit_def)
    then show ?thesis by (simp add: foldl_keeps update_jobs_def)
  qed
  have "\<not> unfinished (remove_job now reason j)" for j
    by (simp add: unfinished_def waiting_def remove_job_def)
  then have "filter unfinished (jobs ?t) = []" unfolding j by (auto simp: filter_empty_conv sql_update_def)
  then have "\<not> hasWork ?t"
    by (simp add: hasWork_def sql_matches_def filter_empty_conv unfinished_def)
  moreover have "filter s_open (sockets ?t) = []"
    using close_all_open by (fastforce simp: filter_empty_conv)
  moreover have "map j_id (jobs ?t) = map j_id (jobs s)" unfolding j by (simp add: sql_update_def remove_job_def)
  ultimately show ?thesis unfolding e using g by (simp add: sql_matches_def)
qed

end
