(* ===== verification/Types.thy ===== *)
theory Types
  imports Json
begin

text \<open>
  The data of src/types.ts. An object type is a record, a union of objects a datatype, an optional
  member an option. String unions that the code only compares are strings (the invariants of theory
  \<open>Domain\<close> say which); the ones that drive a state machine are datatypes. A timestamp
  (\<open>toISOString()\<close>) is its number of milliseconds. Members that the code copies from the request
  without checking them keep their raw value.
\<close>

datatype claw_phase = Requested | Provisioning | Enrolling | Ready | Disabled | Deleting | Deleted | Attention

record owner_ref =
  o_subject :: string
  o_label :: string
  o_source :: string

record appliance_release =
  ap_manifest :: string
  ap_archive :: string
  ap_node :: string

record deployment_spec =
  dp_target :: string
  dp_profile :: string
  dp_region :: "string option"
  dp_appliance :: "appliance_release option"

record routed_inference =
  rt_base :: string
  rt_tenant :: string
  rt_policy :: string
  rt_credential :: string
  rt_project :: string
  rt_allowed :: "string list"
  rt_models :: "(string \<times> string) list"
  rt_providers :: "string list"

datatype inference_router = Direct | Routed routed_inference

record inference_policy =
  inf_provider :: string
  inf_model :: string
  inf_fallback :: "string list"
  inf_auth :: "string option"
  inf_budget :: "rat option"
  inf_router :: inference_router

record fleet_policy =
  fp_base :: string
  fp_tenant :: string
  fp_allowed :: "string list"
  fp_models :: "(string \<times> string) list"
  fp_default :: string

record slack_policy =
  sl_enabled :: jsval
  sl_mode :: string
  sl_workspace :: "string option"
  sl_route :: string
  sl_bot :: "string option"
  sl_relay :: "string option"

record access_policy =
  ac_dm :: string
  ac_group :: string

record otel_policy =
  ot_enabled :: bool
  ot_endpoint :: "string option"
  ot_service :: string
  ot_traces :: bool
  ot_metrics :: bool
  ot_sample :: rat
  ot_flush :: int

record observability_policy =
  ob_level :: string
  ob_retention :: int
  ob_otel :: otel_policy

record policy_spec =
  ps_model :: string
  ps_fallback :: "string list"
  ps_slack :: bool
  ps_access :: access_policy
  ps_level :: string

record policy_version =
  pv_version :: int
  pv_at :: int
  pv_by :: string
  pv_spec :: policy_spec

record policy_template =
  pt_id :: string
  pt_name :: string
  pt_description :: string
  pt_versions :: "policy_version list"
  pt_created :: int
  pt_updated :: int

record field_change =
  fc_field :: string
  fc_before :: jsval
  fc_after :: jsval

record policy_target =
  tg_claw :: string
  tg_name :: string
  tg_generation :: int
  tg_changes :: "field_change list"

record policy_preview =
  pp_policy :: string
  pp_name :: string
  pp_version :: int
  pp_targets :: "policy_target list"

record claw_desired =
  d_generation :: int
  d_name :: string
  d_slug :: string
  d_owner :: owner_ref
  d_template :: string
  d_template_version :: jsval
  d_deployment :: deployment_spec
  d_inference :: inference_policy
  d_slack :: slack_policy
  d_access :: access_policy
  d_observability :: observability_policy
  d_enabled :: bool
  d_credentials :: "int option"   \<comment> \<open>absent in records written before the field existed\<close>

record lifecycle_identity =
  lc_workspace :: string
  lc_resource :: "string option"
  lc_digest :: string

datatype link_status = Link_pending | Link_paired | Link_offline | Link_revoked

record control_link =
  cl_status :: link_status
  cl_transport :: string
  cl_command :: string
  cl_node :: "string option"
  cl_seen :: "int option"

datatype deletion_stage = Stage_disable | Stage_drain | Stage_release | Stage_confirm | Stage_revoke

record deletion_state =
  ds_stage :: deletion_stage
  ds_requested :: int
  ds_attempt :: "int option"
  ds_drained :: "int option"

record slack_probe =
  sp_status :: string
  sp_configured :: bool
  sp_connected :: bool
  sp_accounts :: int
  sp_probe_ok :: "bool option"
  sp_audit_ok :: "bool option"
  sp_error :: "string option"
  sp_inbound :: "rat option"
  sp_outbound :: "rat option"

record model_probe =
  mp_status :: string
  mp_configured :: string
  mp_resolved :: "string option"
  mp_auth_ready :: bool
  mp_live :: bool
  mp_missing :: "string list"
  mp_unusable :: int

record diagnostics_probe =
  dg_level :: string
  dg_redaction :: string
  dg_uptime :: rat
  dg_rss :: rat
  dg_node :: string
  dg_platform :: string

record operational_probes =
  pr_checked :: int
  pr_slack :: slack_probe
  pr_model :: model_probe
  pr_diagnostics :: diagnostics_probe

record usage_summary =
  us_requests :: int
  us_success :: int
  us_errors :: int
  us_input :: int
  us_output :: int
  us_total :: int
  us_cost :: int

record budget_view =
  bg_configured :: bool
  bg_limit :: "int option"
  bg_spent :: "int option"
  bg_remaining :: "int option"

record inference_observation =
  io_checked :: int
  io_base :: string
  io_model :: string
  io_providers :: "string list"
  io_policy :: string
  io_credential :: string
  io_generation :: int
  io_policy_active :: bool
  io_credential_active :: bool
  io_healthy :: bool
  io_catalog :: bool
  io_verified :: bool
  io_budget :: budget_view
  io_usage :: "usage_summary option"

record user_access =
  ua_subject :: string
  ua_label :: "string option"
  ua_paired :: int

datatype health_state = Unknown | Healthy | Degraded | Offline

record claw_observed =
  ob_generation :: int
  ob_phase :: claw_phase
  ob_message :: string
  ob_health :: health_state
  ob_lifecycle :: "lifecycle_identity option"
  ob_link :: control_link
  ob_gateway :: "string option"
  ob_config :: "string option"
  ob_seen :: "int option"
  ob_inference :: "inference_observation option"
  ob_probes :: "operational_probes option"
  ob_deletion :: "deletion_state option"
  ob_access :: "user_access option"

record claw_record =
  c_id :: string
  c_revision :: int
  c_desired :: claw_desired
  c_observed :: claw_observed
  c_created :: int
  c_updated :: int

datatype audit_outcome = Outcome_requested | Outcome_succeeded | Outcome_failed

record audit_event =
  ev_id :: string
  ev_claw :: "string option"
  ev_at :: int
  ev_actor :: string
  ev_action :: string
  ev_outcome :: audit_outcome
  ev_summary :: string
  ev_generation :: "int option"
  ev_details :: "(string \<times> jsval) list option"

record fleet_summary =
  fs_total :: nat
  fs_ready :: nat
  fs_provisioning :: nat
  fs_attention :: nat
  fs_disabled :: nat
  fs_drifted :: nat

record provision_result =
  pv_phase :: claw_phase     \<comment> \<open>enrolling, ready or attention\<close>
  pv_message :: string
  pv_health :: health_state  \<comment> \<open>unknown or healthy\<close>
  pv_lifecycle :: lifecycle_identity
  pv_link :: "control_link option"
  pv_gateway :: "string option"
  pv_config :: "string option"
  pv_probes :: "operational_probes option"

record inspect_result =
  in_phase :: "claw_phase option"
  in_message :: "string option"
  in_health :: "health_state option"
  in_lifecycle :: "lifecycle_identity option"
  in_link :: "control_link option"
  in_gateway :: "string option"
  in_config :: "string option"
  in_probes :: "operational_probes option"
  in_absent :: bool
  in_invalidate :: bool
  in_seen :: "int option"

record disable_result =
  dr_inspect :: inspect_result
  dr_applied :: bool

record drain_result =
  dn_drained :: bool
  dn_active :: int
  dn_checked :: int
  dn_message :: string

record revoke_result =
  rv_removed :: bool
  rv_rejected :: bool
  rv_absent :: bool
  rv_message :: string

subsection \<open>The JSON of a record\<close>

text \<open>\<open>...(v ? { k: v } : {})\<close>\<close>

definition js_opt :: "string \<Rightarrow> ('a \<Rightarrow> jsval) \<Rightarrow> 'a option \<Rightarrow> (string \<times> jsval) list" where
  "js_opt k f v = (case v of None \<Rightarrow> [] | Some x \<Rightarrow> [(k, f x)])"

definition js_strings :: "string list \<Rightarrow> jsval" where
  "js_strings xs = JArr (map JStr xs)"

definition jrat :: "rat \<Rightarrow> jsval" where
  "jrat r = JNum (Fin r)"

definition js_owner :: "owner_ref \<Rightarrow> jsval" where
  "js_owner x = JObj [(''subject'', JStr (o_subject x)), (''label'', JStr (o_label x)), (''source'', JStr (o_source x))]"

definition js_appliance :: "appliance_release \<Rightarrow> jsval" where
  "js_appliance x = JObj [(''manifestSha256'', JStr (ap_manifest x)), (''archiveSha256'', JStr (ap_archive x)),
     (''nodeSha256'', JStr (ap_node x))]"

definition js_deployment :: "deployment_spec \<Rightarrow> jsval" where
  "js_deployment x = JObj ([(''target'', JStr (dp_target x)), (''profile'', JStr (dp_profile x))] @
     js_opt ''region'' JStr (dp_region x) @ js_opt ''appliance'' js_appliance (dp_appliance x))"

definition js_router :: "inference_router \<Rightarrow> jsval" where
  "js_router x = (case x of
     Direct \<Rightarrow> JObj [(''kind'', JStr ''direct'')]
   | Routed r \<Rightarrow> JObj [(''kind'', JStr ''clawrouter''), (''baseUrl'', JStr (rt_base r)), (''tenantId'', JStr (rt_tenant r)),
       (''policyId'', JStr (rt_policy r)), (''credentialId'', JStr (rt_credential r)), (''projectId'', JStr (rt_project r)),
       (''allowedProviders'', js_strings (rt_allowed r)),
       (''modelProviders'', JObj (map (\<lambda>p. (fst p, JStr (snd p))) (rt_models r))),
       (''providers'', js_strings (rt_providers r))])"

definition js_inference :: "inference_policy \<Rightarrow> jsval" where
  "js_inference x = JObj ([(''provider'', JStr (inf_provider x)), (''model'', JStr (inf_model x)),
     (''fallbackModels'', js_strings (inf_fallback x))] @ js_opt ''authRef'' JStr (inf_auth x) @
     js_opt ''monthlyBudgetUsd'' jrat (inf_budget x) @ [(''router'', js_router (inf_router x))])"

definition js_slack :: "slack_policy \<Rightarrow> jsval" where
  "js_slack x = JObj ([(''enabled'', sl_enabled x), (''mode'', JStr (sl_mode x))] @
     js_opt ''workspaceId'' JStr (sl_workspace x) @ [(''routeKey'', JStr (sl_route x))] @
     js_opt ''botTokenRef'' JStr (sl_bot x) @ js_opt ''relayTokenRef'' JStr (sl_relay x))"

definition js_access :: "access_policy \<Rightarrow> jsval" where
  "js_access x = JObj [(''dmPolicy'', JStr (ac_dm x)), (''groupPolicy'', JStr (ac_group x))]"

definition js_otel :: "otel_policy \<Rightarrow> jsval" where
  "js_otel x = JObj ([(''enabled'', JBool (ot_enabled x))] @ js_opt ''endpoint'' JStr (ot_endpoint x) @
     [(''serviceName'', JStr (ot_service x)), (''traces'', JBool (ot_traces x)), (''metrics'', JBool (ot_metrics x)),
      (''logs'', JBool False), (''sampleRate'', jrat (ot_sample x)), (''flushIntervalMs'', jint (ot_flush x))])"

definition js_observability :: "observability_policy \<Rightarrow> jsval" where
  "js_observability x = JObj [(''logLevel'', JStr (ob_level x)), (''retentionDays'', jint (ob_retention x)),
     (''metadataOnly'', JBool True), (''otel'', js_otel (ob_otel x))]"

definition js_desired :: "claw_desired \<Rightarrow> jsval" where
  "js_desired x = JObj ([(''generation'', jint (d_generation x)), (''name'', JStr (d_name x)), (''slug'', JStr (d_slug x)),
     (''owner'', js_owner (d_owner x)), (''templateId'', JStr (d_template x)), (''templateVersion'', d_template_version x),
     (''deployment'', js_deployment (d_deployment x)), (''inference'', js_inference (d_inference x)),
     (''channels'', JObj [(''slack'', js_slack (d_slack x))]), (''access'', js_access (d_access x)),
     (''observability'', js_observability (d_observability x)), (''enabled'', JBool (d_enabled x))] @
     js_opt ''credentialsGeneration'' jint (d_credentials x))"

end
