(* ===== verification/Errors.thy ===== *)
theory Errors
  imports JsString
begin

text \<open>
  src/errors.ts: which text of an error leaves the control plane. The classes of errors are the
  constructors of \<open>js_error\<close> (theory \<open>Prelude\<close>); the copy tables are functions of the code.
\<close>

definition all_codes :: "op_code list" where
  "all_codes = [CRABBOX_UNCONFIGURED, DEPLOYMENT_TARGET_UNAVAILABLE, CRABBOX_UNREACHABLE, CRABBOX_CREATE_HTTP,
     CRABBOX_CREATE_STATE, CRABBOX_INSPECT_HTTP, CRABBOX_DELETE_HTTP, CRABBOX_IDENTITY_MISMATCH,
     CRABBOX_WORKSPACE_FAILED, CLAWROUTER_UNCONFIGURED, CLAWROUTER_UNREACHABLE, CLAWROUTER_REJECTED,
     CLAWROUTER_STATUS_INVALID, CHILD_CONTROL_FAILED, CHILD_COMMAND_MISSING, CHILD_IDENTITY_MISMATCH,
     CHILD_STATUS_INVALID, CHILD_HEALTH_INVALID, CHILD_DRAIN_INVALID, CHILD_POLICY_CAS_CONFLICT,
     SLACK_CREDENTIALS_UNRESOLVED, CHILD_INGRESS_DISABLE_FAILED, CHILD_PROVISION_FAILED,
     CHILD_RECONCILE_FAILED, CHILD_REMOVAL_FAILED]"

definition code_name :: "op_code \<Rightarrow> string" where
  "code_name c =
     (case c of
        CRABBOX_UNCONFIGURED \<Rightarrow> ''CRABBOX_UNCONFIGURED''
      | DEPLOYMENT_TARGET_UNAVAILABLE \<Rightarrow> ''DEPLOYMENT_TARGET_UNAVAILABLE''
      | CRABBOX_UNREACHABLE \<Rightarrow> ''CRABBOX_UNREACHABLE''
      | CRABBOX_CREATE_HTTP \<Rightarrow> ''CRABBOX_CREATE_HTTP''
      | CRABBOX_CREATE_STATE \<Rightarrow> ''CRABBOX_CREATE_STATE''
      | CRABBOX_INSPECT_HTTP \<Rightarrow> ''CRABBOX_INSPECT_HTTP''
      | CRABBOX_DELETE_HTTP \<Rightarrow> ''CRABBOX_DELETE_HTTP''
      | CRABBOX_IDENTITY_MISMATCH \<Rightarrow> ''CRABBOX_IDENTITY_MISMATCH''
      | CRABBOX_WORKSPACE_FAILED \<Rightarrow> ''CRABBOX_WORKSPACE_FAILED''
      | CLAWROUTER_UNCONFIGURED \<Rightarrow> ''CLAWROUTER_UNCONFIGURED''
      | CLAWROUTER_UNREACHABLE \<Rightarrow> ''CLAWROUTER_UNREACHABLE''
      | CLAWROUTER_REJECTED \<Rightarrow> ''CLAWROUTER_REJECTED''
      | CLAWROUTER_STATUS_INVALID \<Rightarrow> ''CLAWROUTER_STATUS_INVALID''
      | CHILD_CONTROL_FAILED \<Rightarrow> ''CHILD_CONTROL_FAILED''
      | CHILD_COMMAND_MISSING \<Rightarrow> ''CHILD_COMMAND_MISSING''
      | CHILD_IDENTITY_MISMATCH \<Rightarrow> ''CHILD_IDENTITY_MISMATCH''
      | CHILD_STATUS_INVALID \<Rightarrow> ''CHILD_STATUS_INVALID''
      | CHILD_HEALTH_INVALID \<Rightarrow> ''CHILD_HEALTH_INVALID''
      | CHILD_DRAIN_INVALID \<Rightarrow> ''CHILD_DRAIN_INVALID''
      | CHILD_POLICY_CAS_CONFLICT \<Rightarrow> ''CHILD_POLICY_CAS_CONFLICT''
      | SLACK_CREDENTIALS_UNRESOLVED \<Rightarrow> ''SLACK_CREDENTIALS_UNRESOLVED''
      | CHILD_INGRESS_DISABLE_FAILED \<Rightarrow> ''CHILD_INGRESS_DISABLE_FAILED''
      | CHILD_PROVISION_FAILED \<Rightarrow> ''CHILD_PROVISION_FAILED''
      | CHILD_RECONCILE_FAILED \<Rightarrow> ''CHILD_RECONCILE_FAILED''
      | CHILD_REMOVAL_FAILED \<Rightarrow> ''CHILD_REMOVAL_FAILED'')"

record public_failure =
  pf_status :: nat
  pf_message :: string
  pf_unexpected :: bool

definition publicRequestFailure :: "js_error \<Rightarrow> public_failure" where
  "publicRequestFailure e =
     (case e of
        SyntaxErr _ \<Rightarrow> \<lparr>pf_status = 400, pf_message = ''request body must contain valid JSON'', pf_unexpected = False\<rparr>
      | RequestError m \<Rightarrow> \<lparr>pf_status = 422, pf_message = m, pf_unexpected = False\<rparr>
      | _ \<Rightarrow> \<lparr>pf_status = 500, pf_message = ''request failed'', pf_unexpected = True\<rparr>)"

definition operationalErrorCopy :: "op_code \<Rightarrow> string option" where
  "operationalErrorCopy c =
     (case c of
        CRABBOX_UNCONFIGURED \<Rightarrow> Some ''Crabbox provisioning is unconfigured''
      | DEPLOYMENT_TARGET_UNAVAILABLE \<Rightarrow> Some ''The deployment target is unavailable''
      | CRABBOX_UNREACHABLE \<Rightarrow> Some ''Crabbox is unreachable''
      | CRABBOX_CREATE_HTTP \<Rightarrow> Some ''Crabbox rejected workspace creation''
      | CRABBOX_CREATE_STATE \<Rightarrow> Some ''Crabbox returned invalid workspace creation state''
      | CRABBOX_INSPECT_HTTP \<Rightarrow> Some ''Crabbox workspace inspection failed''
      | CRABBOX_DELETE_HTTP \<Rightarrow> Some ''Crabbox workspace removal failed''
      | CRABBOX_IDENTITY_MISMATCH \<Rightarrow> Some ''Crabbox workspace identity does not match the claw''
      | CRABBOX_WORKSPACE_FAILED \<Rightarrow> Some ''Crabbox reports a failed workspace''
      | CLAWROUTER_UNCONFIGURED \<Rightarrow> Some ''ClawRouter is unconfigured''
      | CLAWROUTER_UNREACHABLE \<Rightarrow> Some ''ClawRouter is unreachable''
      | CLAWROUTER_REJECTED \<Rightarrow> Some ''ClawRouter rejected the control-plane request''
      | CLAWROUTER_STATUS_INVALID \<Rightarrow> Some ''ClawRouter returned invalid status''
      | CHILD_CONTROL_FAILED \<Rightarrow> Some ''Child control command failed''
      | CHILD_INGRESS_DISABLE_FAILED \<Rightarrow> Some ''Child ingress disable did not complete''
      | _ \<Rightarrow> None)"

definition childErrorCopy :: "op_code \<Rightarrow> string option" where
  "childErrorCopy c =
     (case c of
        CHILD_COMMAND_MISSING \<Rightarrow> Some ''Child does not advertise a required Crabhelm command''
      | CHILD_IDENTITY_MISMATCH \<Rightarrow> Some ''Child node identity does not match the enrolled claw''
      | CHILD_STATUS_INVALID \<Rightarrow> Some ''Child returned invalid status evidence''
      | CHILD_HEALTH_INVALID \<Rightarrow> Some ''Child returned invalid operational health evidence''
      | CHILD_DRAIN_INVALID \<Rightarrow> Some ''Child returned invalid active-run drain evidence''
      | CHILD_POLICY_CAS_CONFLICT \<Rightarrow> Some ''Child policy changed during managed configuration apply''
      | SLACK_CREDENTIALS_UNRESOLVED \<Rightarrow> Some ''Child-local Slack credentials are unresolved''
      | _ \<Rightarrow> None)"

definition safeOperationalFailure :: "js_error \<Rightarrow> op_code \<times> string \<Rightarrow> op_code \<times> string" where
  "safeOperationalFailure e fallback =
     (case e of
        OperationalError c m \<Rightarrow>
          (c, case operationalErrorCopy c of Some t \<Rightarrow> t
              | None \<Rightarrow> (case childErrorCopy c of Some t \<Rightarrow> t | None \<Rightarrow> snd fallback))
      | _ \<Rightarrow> fallback)"

text \<open>
  The code that a child node reports is looked up in the table, a plain object (errors.ts:120-121), so the names
  of the members it inherits from \<open>Object.prototype\<close> are found too; their values are functions and objects,
  which count as a message. \<open>Inherited s\<close> stands for the error made of such a name: its code is the name itself,
  none of the codes of the type.
\<close>

datatype child_error = Known js_error | Inherited string

definition object_members :: "string list" where
  "object_members = [''constructor'', ''__defineGetter__'', ''__defineSetter__'', ''hasOwnProperty'', ''__lookupGetter__'',
     ''__lookupSetter__'', ''isPrototypeOf'', ''propertyIsEnumerable'', ''toString'', ''valueOf'', ''__proto__'', ''toLocaleString'']"

definition code_of_name :: "string \<Rightarrow> op_code option" where
  "code_of_name s = find (\<lambda>c. code_name c = s) all_codes"

definition operationalErrorFromChildCode :: "string option \<Rightarrow> child_error" where
  \<comment> \<open>\<open>None\<close>: what the child reported is not a string\<close>
  "operationalErrorFromChildCode reported =
     (if \<exists>s\<in>set object_members. reported = Some s then Inherited (the reported)
      else case (case reported of None \<Rightarrow> None | Some s \<Rightarrow> code_of_name s) of
        None \<Rightarrow> Known (OperationalError CHILD_CONTROL_FAILED ''Child control command failed'')
      | Some c \<Rightarrow>
          (case childErrorCopy c of
             Some t \<Rightarrow> Known (OperationalError c t)
           | None \<Rightarrow> Known (OperationalError CHILD_CONTROL_FAILED ''Child control command failed'')))"

lemma code_of_name_code_name [simp]: "code_of_name (code_name c) = Some c"
  by (cases c) (simp_all add: code_of_name_def all_codes_def code_name_def)

lemma code_of_name_iff: "code_of_name s = Some c \<longleftrightarrow> s = code_name c"
  using code_of_name_code_name by (auto simp: code_of_name_def find_Some_iff)

lemma code_name_eq: "code_name c = code_name d \<longleftrightarrow> c = d"
  using code_of_name_code_name by (metis option.inject)

lemma code_not_member: "code_name c \<notin> set object_members"
  by (cases c) (simp_all add: code_name_def object_members_def)

text \<open>the texts that are written for operators\<close>

definition copy_texts :: "string set" where
  "copy_texts = {t. \<exists>c. operationalErrorCopy c = Some t \<or> childErrorCopy c = Some t}"

lemma safe_text: "snd (safeOperationalFailure e fallback) \<in> insert (snd fallback) copy_texts"
  by (auto simp: safeOperationalFailure_def copy_texts_def split: js_error.splits option.splits)


end
