(* ===== verification/Domain.thy ===== *)
theory Domain
  imports Types Errors
begin

text \<open>
  src/domain.ts: normalisation of what a request may say about a claw or a policy, the record of a claw
  and its updates. A request is a raw value; a normaliser returns a record or the error the code throws,
  in the order of the code's checks. The URL parser and SHA-256 of the platform are parameters
  (\<open>js_lib\<close>). Strings of \<open>fallbackModels\<close> that are not strings are refused.
\<close>

record url_parts =
  url_protocol :: string
  url_username :: string
  url_password :: string
  url_search :: string
  url_hash :: string

record js_lib =
  lib_url :: "string \<Rightarrow> url_parts option"   \<comment> \<open>\<open>new URL(s)\<close>; none: \<open>URL.canParse(s)\<close> is false\<close>
  lib_sha256 :: "string \<Rightarrow> string"           \<comment> \<open>hex digest of the UTF-8 text\<close>

definition type_error :: js_error where
  "type_error = PlainError ''TypeError''"

subsection \<open>Text fields\<close>

definition requireText :: "jsval \<Rightarrow> string \<Rightarrow> nat \<Rightarrow> string result" where
  "requireText v label limit =
     (case v of
        JStr t \<Rightarrow>
          let clean = trim t in
          if clean = [] \<or> limit < length clean
          then Inl (RequestError (label @ '' must be between 1 and '' @ nat_str limit @ '' characters'')) else Inr clean
      | _ \<Rightarrow> Inl (RequestError (label @ '' is required'')))"

text \<open>\<open>v ? requireText(v, ..) : undefined\<close>\<close>

definition optional_text :: "jsval \<Rightarrow> string \<Rightarrow> nat \<Rightarrow> string option result" where
  "optional_text v label limit =
     (if truthy v then bindR (requireText v label limit) (\<lambda>t. Inr (Some t)) else Inr None)"

definition normalizeOwner :: "jsval \<Rightarrow> owner_ref result" where
  "normalizeOwner owner =
     bindR (requireText (get owner ''subject'') ''owner subject'' 200) (\<lambda>subject.
     bindR (refuse_if (\<not> subjectPattern subject) (RequestError ''owner subject contains unsupported characters'')) (\<lambda>_.
     case get owner ''source'' of
       JStr source \<Rightarrow>
         if source \<in> {''github'', ''slack'', ''email'', ''manual''} then
           bindR (requireText (get owner ''label'') ''owner label'' 120) (\<lambda>label.
           Inr \<lparr>o_subject = subject, o_label = label, o_source = source\<rparr>)
         else Inl (RequestError ''owner source must be github, slack, email, or manual'')
     | _ \<Rightarrow> Inl (RequestError ''owner source must be github, slack, email, or manual'')))"

subsection \<open>Models\<close>

text \<open>\<open>[...new Set(xs)]\<close>: the first occurrence of each value.\<close>

fun js_set :: "'a list \<Rightarrow> 'a list" where
  "js_set [] = []"
| "js_set (x # xs) = x # filter (\<lambda>y. y \<noteq> x) (js_set xs)"

definition js_string_list :: "jsval \<Rightarrow> string list result" where
  "js_string_list v =
     (case v of
        JArr vs \<Rightarrow> mapR (\<lambda>v. case v of JStr t \<Rightarrow> Inr t | _ \<Rightarrow> Inl type_error) vs
      | JStr t \<Rightarrow> Inr (map (\<lambda>c. [c]) t)
      | _ \<Rightarrow> Inl type_error)"

definition clawRouterCredentialId :: "string \<Rightarrow> string result" where
  "clawRouterCredentialId clawId =
     (let compact = to_lower (filter (\<lambda>c. c \<noteq> CHR ''-'') clawId)
      in if class_range is_hex 32 32 compact then Inr (''crabhelm_'' @ compact)
         else Inl (RequestError ''claw id is invalid for ClawRouter identity''))"

definition routed_prefix :: "string \<Rightarrow> bool" where
  "routed_prefix s \<longleftrightarrow> prefix_of ''clawrouter/'' s"

definition check_model :: "bool \<Rightarrow> string \<Rightarrow> unit result" where
  "check_model routed v =
     (if routed then refuse_if (\<not> clawRouterModelPattern v)
        (RequestError (''ClawRouter fleets require clawrouter/provider/model form: '' @ v))
      else refuse_if (routed_prefix v \<or> \<not> directModelPattern v)
        (RequestError (''model must use provider/model form: '' @ v)))"

definition model_provider :: "string \<Rightarrow> string" where
  \<comment> \<open>\<open>model.slice(0, model.indexOf("/"))\<close>, for a model with a slash\<close>
  "model_provider model = takeWhile (\<lambda>c. c \<noteq> CHR ''/'') model"

definition check_provider :: "jsval \<Rightarrow> string \<Rightarrow> unit result" where
  "check_provider v model =
     (if v = JUndef then Inr ()
      else bindR (requireText v ''inference provider'' 80) (\<lambda>requested.
        refuse_if (requested \<noteq> model_provider model)
          (RequestError (''inference provider '' @ requested @ '' does not match model '' @ model))))"

definition check_budget :: "jsval \<Rightarrow> rat option result" where
  "check_budget v =
     (if v = JUndef then Inr None
      else (case js_finite v of
              Some r \<Rightarrow> if r < 0 \<or> 1000000 < r
                then Inl (RequestError ''monthly budget must be between 0 and 1000000 USD'') else Inr (Some r)
            | None \<Rightarrow> Inl (RequestError ''monthly budget must be between 0 and 1000000 USD'')))"

definition sort_entries :: "(string \<times> string) list \<Rightarrow> (string \<times> string) list" where
  "sort_entries kvs = sort_key (\<lambda>p. locale_key (fst p)) kvs"

definition mapped_provider :: "fleet_policy \<Rightarrow> string \<Rightarrow> string" where
  "mapped_provider fp v = (case map_of (fp_models fp) v of Some p \<Rightarrow> p | None \<Rightarrow> [])"

definition routed_for :: "fleet_policy \<Rightarrow> string \<Rightarrow> string list \<Rightarrow> routed_inference result" where
  "routed_for fp clawId models =
     bindR (refuse_if (\<exists>v\<in>set models. \<not> routed_prefix v)
              (RequestError ''ClawRouter fleets require clawrouter/provider/model references'')) (\<lambda>_.
     let providers = sort (js_set (map (mapped_provider fp) models)) in
     bindR (refuse_if ([] \<in> set providers)
              (RequestError ''every ClawRouter model requires an explicit fleet model-to-provider mapping'')) (\<lambda>_.
     bindR (refuse_if (\<exists>p\<in>set providers. p \<notin> set (fp_allowed fp))
              (RequestError ''inference model provider is outside the fleet ClawRouter allowlist'')) (\<lambda>_.
     bindR (clawRouterCredentialId clawId) (\<lambda>credential.
     Inr \<lparr>rt_base = fp_base fp, rt_tenant = fp_tenant fp, rt_policy = credential, rt_credential = credential,
          rt_project = clawId, rt_allowed = fp_allowed fp, rt_models = sort_entries (fp_models fp),
          rt_providers = providers\<rparr>))))"

definition normalizeModels :: "jsval \<Rightarrow> string \<Rightarrow> fleet_policy option \<Rightarrow> bool \<Rightarrow> inference_policy result" where
  "normalizeModels input clawId fleet template_form =
     bindR (requireText (coalesce (get input ''model'')
              (case fleet of Some fp \<Rightarrow> JStr (fp_default fp) | None \<Rightarrow> JStr ''openai/gpt-5.5'')) ''inference model'' 220) (\<lambda>model.
     bindR (if nullish (get input ''fallbackModels'') then Inr [] else js_string_list (get input ''fallbackModels'')) (\<lambda>listed.
     let fallbacks = js_set listed; routed = (fleet \<noteq> None \<or> (template_form \<and> routed_prefix model)) in
     bindR (mapR (check_model routed) (model # fallbacks)) (\<lambda>_.
     bindR (check_provider (get input ''provider'') model) (\<lambda>_.
     bindR (check_budget (get input ''monthlyBudgetUsd'')) (\<lambda>budget.
     bindR (optional_text (get input ''authRef'') ''inference auth ref'' 240) (\<lambda>auth.
     case fleet of
       None \<Rightarrow> Inr \<lparr>inf_provider = model_provider model, inf_model = model, inf_fallback = fallbacks, inf_auth = auth,
                     inf_budget = budget, inf_router = Direct\<rparr>
     | Some fp \<Rightarrow>
         bindR (routed_for fp clawId (model # fallbacks)) (\<lambda>r.
         Inr \<lparr>inf_provider = model_provider model, inf_model = model, inf_fallback = fallbacks,
              inf_auth = Some (''clawrouter:'' @ rt_credential r), inf_budget = budget, inf_router = Routed r\<rparr>)))))))"

subsection \<open>Channels, access, observability, deployment\<close>

definition normalizeSlack :: "jsval \<Rightarrow> string \<Rightarrow> slack_policy result" where
  "normalizeSlack input slug =
     (case coalesce (get input ''mode'') (JStr ''socket'') of
        JStr mode \<Rightarrow>
          if mode \<in> {''relay'', ''socket'', ''http''} then
            bindR (optional_text (get input ''workspaceId'') ''Slack workspace id'' 80) (\<lambda>workspace.
            bindR (requireText (coalesce (get input ''routeKey'') (JStr slug)) ''Slack route key'' 120) (\<lambda>route.
            bindR (optional_text (get input ''botTokenRef'') ''Slack bot token ref'' 240) (\<lambda>bot.
            bindR (optional_text (get input ''relayTokenRef'') ''Slack relay token ref'' 240) (\<lambda>relay.
            Inr \<lparr>sl_enabled = coalesce (get input ''enabled'') (JBool False), sl_mode = mode, sl_workspace = workspace,
                 sl_route = route, sl_bot = bot, sl_relay = relay\<rparr>))))
          else Inl (RequestError ''Slack mode must be relay, socket, or http'')
      | _ \<Rightarrow> Inl (RequestError ''Slack mode must be relay, socket, or http''))"

definition one_of :: "jsval \<Rightarrow> string list \<Rightarrow> string \<Rightarrow> string result" where
  \<comment> \<open>\<open>if (!allowed.includes(v)) throw requestError(..)\<close>\<close>
  "one_of v allowed why = (case v of JStr t \<Rightarrow> if t \<in> set allowed then Inr t else Inl (RequestError why)
     | _ \<Rightarrow> Inl (RequestError why))"

definition normalizeAccess :: "jsval \<Rightarrow> access_policy result" where
  "normalizeAccess input =
     bindR (one_of (coalesce (get input ''dmPolicy'') (JStr ''pairing'')) [''pairing'', ''allowlist'', ''disabled'']
              ''DM policy must be pairing, allowlist, or disabled'') (\<lambda>dm.
     bindR (one_of (coalesce (get input ''groupPolicy'') (JStr ''allowlist'')) [''allowlist'', ''disabled'']
              ''group policy must be allowlist or disabled'') (\<lambda>group.
     Inr \<lparr>ac_dm = dm, ac_group = group\<rparr>))"

definition optional_bool :: "jsval \<Rightarrow> string \<Rightarrow> bool \<Rightarrow> bool result" where
  "optional_bool v field dflt =
     (case v of JUndef \<Rightarrow> Inr dflt | JBool b \<Rightarrow> Inr b
      | _ \<Rightarrow> Inl (RequestError (''OpenTelemetry '' @ field @ '' must be a boolean'')))"

definition https_only :: string where
  "https_only = ''OpenTelemetry endpoint must be an HTTPS URL without credentials, query, or fragment''"

definition plain_https :: "js_lib \<Rightarrow> string \<Rightarrow> bool" where
  "plain_https lib s \<longleftrightarrow>
     (case lib_url lib s of None \<Rightarrow> False
      | Some u \<Rightarrow> url_protocol u = ''https:'' \<and> url_username u = [] \<and> url_password u = [] \<and> url_search u = [] \<and> url_hash u = [])"

definition check_endpoint :: "js_lib \<Rightarrow> jsval \<Rightarrow> string option result" where
  "check_endpoint lib v =
     (case v of
        JUndef \<Rightarrow> Inr None
      | JStr t \<Rightarrow> if trim t = [] then Inr None
                 else if plain_https lib (trim t) then Inr (Some (trim t)) else Inl (RequestError https_only)
      | _ \<Rightarrow> Inl (RequestError ''OpenTelemetry endpoint must be a string''))"

definition int_between :: "jsval \<Rightarrow> int \<Rightarrow> int \<Rightarrow> string \<Rightarrow> int result" where
  "int_between v lo hi why =
     (case js_integer v of Some i \<Rightarrow> if i < lo \<or> hi < i then Inl (RequestError why) else Inr i
      | None \<Rightarrow> Inl (RequestError why))"

definition check_sample :: "jsval \<Rightarrow> rat result" where
  "check_sample v =
     (case js_finite v of Some r \<Rightarrow> if r < 0 \<or> 1 < r then Inl (RequestError ''OpenTelemetry sample rate must be between 0 and 1'') else Inr r
      | None \<Rightarrow> Inl (RequestError ''OpenTelemetry sample rate must be between 0 and 1''))"

definition normalizeObservability :: "js_lib \<Rightarrow> jsval \<Rightarrow> string \<Rightarrow> observability_policy result" where
  "normalizeObservability lib input slug =
     (let otel = get input ''otel'' in
     bindR (one_of (coalesce (get input ''logLevel'') (JStr ''info'')) [''error'', ''warn'', ''info'', ''debug'']
              ''log level must be error, warn, info, or debug'') (\<lambda>level.
     bindR (int_between (coalesce (get input ''retentionDays'') (jint 30)) 1 365 ''retention must be between 1 and 365 days'') (\<lambda>retention.
     bindR (optional_bool (get otel ''enabled'') ''enabled'' False) (\<lambda>enabled.
     bindR (optional_bool (get otel ''traces'') ''traces'' True) (\<lambda>traces.
     bindR (optional_bool (get otel ''metrics'') ''metrics'' True) (\<lambda>metrics.
     bindR (check_endpoint lib (get otel ''endpoint'')) (\<lambda>endpoint.
     bindR (refuse_if (enabled \<and> endpoint = None)
              (RequestError ''OpenTelemetry endpoint is required when export is enabled'')) (\<lambda>_.
     bindR (refuse_if (enabled \<and> \<not> traces \<and> \<not> metrics)
              (RequestError ''OpenTelemetry export requires traces, metrics, or both'')) (\<lambda>_.
     bindR (refuse_if (get otel ''logs'' \<noteq> JUndef \<and> get otel ''logs'' \<noteq> JBool False)
              (RequestError ''OpenTelemetry log export is unavailable under metadata-only policy'')) (\<lambda>_.
     bindR (check_sample (coalesce (get otel ''sampleRate'') (jrat (1 / 10)))) (\<lambda>sample.
     bindR (int_between (coalesce (get otel ''flushIntervalMs'') (jint 60000)) 1000 300000
              ''OpenTelemetry flush interval must be between 1000 and 300000 milliseconds'') (\<lambda>flush.
     bindR (requireText (coalesce (get otel ''serviceName'') (JStr (''crabhelm-'' @ slug))) ''OpenTelemetry service name'' 120) (\<lambda>service.
     bindR (refuse_if (\<not> serviceNamePattern service)
              (RequestError ''OpenTelemetry service name contains unsupported characters'')) (\<lambda>_.
     Inr \<lparr>ob_level = level, ob_retention = retention,
          ob_otel = \<lparr>ot_enabled = enabled, ot_endpoint = endpoint, ot_service = service, ot_traces = traces,
                     ot_metrics = metrics, ot_sample = sample, ot_flush = flush\<rparr>\<rparr>))))))))))))))"

definition normalizeAppliance :: "jsval \<Rightarrow> appliance_release option result" where
  "normalizeAppliance deployment =
     (let input = get deployment ''appliance'' in
      if \<not> truthy input then Inr None
      else bindR (requireText (get input ''manifestSha256'') ''appliance manifest SHA-256'' 64) (\<lambda>manifest.
        bindR (requireText (get input ''archiveSha256'') ''appliance archive SHA-256'' 64) (\<lambda>archive.
        bindR (requireText (get input ''nodeSha256'') ''appliance Node SHA-256'' 64) (\<lambda>node.
        bindR (refuse_if (\<not> sha256Pattern manifest \<or> \<not> sha256Pattern archive \<or> \<not> sha256Pattern node)
          (RequestError ''appliance release digests must be lowercase SHA-256 values'')) (\<lambda>_.
        Inr (Some \<lparr>ap_manifest = manifest, ap_archive = archive, ap_node = node\<rparr>))))))"

subsection \<open>Managed policies\<close>

definition normalizeManagedPolicySpec :: "js_lib \<Rightarrow> jsval \<Rightarrow> policy_spec result" where
  "normalizeManagedPolicySpec lib input =
     bindR (normalizeModels (get input ''inference'') ''00000000-0000-4000-8000-000000000000'' None True) (\<lambda>inference.
     bindR (normalizeAccess (get input ''access'')) (\<lambda>access.
     bindR (normalizeObservability lib (get input ''observability'') ''openclaw'') (\<lambda>observability.
     Inr \<lparr>ps_model = inf_model inference, ps_fallback = inf_fallback inference, ps_slack = truthy (get input ''slackEnabled''),
          ps_access = access, ps_level = ob_level observability\<rparr>)))"

definition managedPolicyPatch :: "string \<Rightarrow> int \<Rightarrow> policy_spec \<Rightarrow> jsval result" where
  "managedPolicyPatch policyId version spec =
     bindR (requireText (JStr policyId) ''policy id'' 80) (\<lambda>template.
     Inr (JObj [(''templateId'', JStr template), (''templateVersion'', jint version),
       (''inference'', JObj [(''model'', JStr (ps_model spec)), (''fallbackModels'', js_strings (ps_fallback spec))]),
       (''slack'', JObj [(''enabled'', JBool (ps_slack spec))]), (''access'', js_access (ps_access spec)),
       (''observability'', JObj [(''logLevel'', JStr (ps_level spec))])]))"

definition or_none :: "string \<Rightarrow> string" where
  "or_none s = (if s = [] then ''none'' else s)"

definition managedPolicyDiff :: "claw_record \<Rightarrow> policy_spec \<Rightarrow> field_change list" where
  "managedPolicyDiff r spec =
     (let d = c_desired r;
          rows = [\<lparr>fc_field = ''inference.model'', fc_before = JStr (inf_model (d_inference d)), fc_after = JStr (ps_model spec)\<rparr>,
            \<lparr>fc_field = ''inference.fallbackModels'', fc_before = JStr (or_none (join_with '', '' (inf_fallback (d_inference d)))),
             fc_after = JStr (or_none (join_with '', '' (ps_fallback spec)))\<rparr>,
            \<lparr>fc_field = ''channels.slack.enabled'', fc_before = sl_enabled (d_slack d), fc_after = JBool (ps_slack spec)\<rparr>,
            \<lparr>fc_field = ''access.dmPolicy'', fc_before = JStr (ac_dm (d_access d)), fc_after = JStr (ac_dm (ps_access spec))\<rparr>,
            \<lparr>fc_field = ''access.groupPolicy'', fc_before = JStr (ac_group (d_access d)), fc_after = JStr (ac_group (ps_access spec))\<rparr>,
            \<lparr>fc_field = ''observability.logLevel'', fc_before = JStr (ob_level (d_observability d)), fc_after = JStr (ps_level spec)\<rparr>]
      in filter (\<lambda>c. fc_before c \<noteq> fc_after c) rows)"

subsection \<open>Claw records\<close>

definition createClawRecord :: "js_lib \<Rightarrow> jsval \<Rightarrow> int \<Rightarrow> string \<Rightarrow> fleet_policy option \<Rightarrow> claw_record result" where
  "createClawRecord lib input now cid fleet =
     bindR (refuse_if (nullish input) type_error) (\<lambda>_.
     let deployment = get input ''deployment'' in
     bindR (requireText (get input ''name'') ''name'' 80) (\<lambda>name.
     bindR (if truthy (get input ''slug'') then requireText (get input ''slug'') ''slug'' 63 else Inr (slugify name)) (\<lambda>slug.
     bindR (refuse_if (\<not> slugPattern slug) (RequestError ''slug must be a lowercase DNS label'')) (\<lambda>_.
     bindR (requireText (coalesce (get deployment ''profile'') (JStr ''openclaw-core'')) ''profile'' 63) (\<lambda>profile.
     bindR (refuse_if (\<not> slugPattern profile) (RequestError ''deployment profile must be a lowercase DNS label'')) (\<lambda>_.
     bindR (normalizeAppliance deployment) (\<lambda>appliance.
     bindR (normalizeOwner (get input ''owner'')) (\<lambda>owner.
     bindR (requireText (coalesce (get input ''templateId'') (JStr ''default'')) ''template id'' 80) (\<lambda>template.
     bindR (requireText (coalesce (get deployment ''target'') (JStr ''default'')) ''deployment target'' 80) (\<lambda>target.
     bindR (optional_text (get deployment ''region'') ''region'' 80) (\<lambda>region.
     bindR (normalizeModels (get input ''inference'') cid fleet False) (\<lambda>inference.
     bindR (normalizeSlack (get input ''slack'') slug) (\<lambda>slack.
     bindR (normalizeAccess (get input ''access'')) (\<lambda>access.
     bindR (normalizeObservability lib (get input ''observability'') slug) (\<lambda>observability.
     Inr \<lparr>c_id = cid, c_revision = 1,
       c_desired = \<lparr>d_generation = 1, d_name = name, d_slug = slug, d_owner = owner, d_template = template,
         d_template_version = coalesce (get input ''templateVersion'') (jint 1),
         d_deployment = \<lparr>dp_target = target, dp_profile = profile, dp_region = region, dp_appliance = appliance\<rparr>,
         d_inference = inference, d_slack = slack, d_access = access, d_observability = observability,
         d_enabled = True, d_credentials = Some 1\<rparr>,
       c_observed = \<lparr>ob_generation = 0, ob_phase = Requested, ob_message = ''Waiting for the parent reconciler'',
         ob_health = Unknown, ob_lifecycle = None,
         ob_link = \<lparr>cl_status = Link_pending, cl_transport = ''openclaw-node'', cl_command = ''crabhelm.child.status'',
                    cl_node = None, cl_seen = None\<rparr>,
         ob_gateway = None, ob_config = None, ob_seen = None, ob_inference = None, ob_probes = None,
         ob_deletion = None, ob_access = None\<rparr>,
       c_created = now, c_updated = now\<rparr>)))))))))))))))"

text \<open>\<open>Number.isSafeInteger\<close>\<close>

definition safe_int :: "int \<Rightarrow> bool" where
  "safe_int i \<longleftrightarrow> \<bar>i\<bar> \<le> 9007199254740991"

definition nextRecordRevision :: "claw_record \<Rightarrow> int" where
  "nextRecordRevision r = (if safe_int (c_revision r) \<and> 0 \<le> c_revision r then c_revision r + 1 else 1)"

definition clawCredentialsGeneration :: "claw_record \<Rightarrow> int" where
  "clawCredentialsGeneration r =
     (case d_credentials (c_desired r) of Some v \<Rightarrow> if safe_int v \<and> 1 \<le> v then v else 1 | None \<Rightarrow> 1)"

definition fleet_of :: "claw_record \<Rightarrow> fleet_policy option" where
  "fleet_of r =
     (case inf_router (d_inference (c_desired r)) of Direct \<Rightarrow> None
      | Routed rt \<Rightarrow> Some \<lparr>fp_base = rt_base rt, fp_tenant = rt_tenant rt, fp_allowed = rt_allowed rt, fp_models = rt_models rt,
                         fp_default = inf_model (d_inference (c_desired r))\<rparr>)"

definition merged_inference :: "claw_desired \<Rightarrow> jsval \<Rightarrow> jsval" where
  "merged_inference d patch =
     (let base = spread (js_inference (d_inference d)) patch
      in if get patch ''model'' \<noteq> JUndef \<and> get patch ''provider'' = JUndef then spread base (JObj [(''provider'', JUndef)]) else base)"

definition merged_input :: "claw_desired \<Rightarrow> jsval \<Rightarrow> jsval" where
  "merged_input d patch = JObj
     [(''name'', coalesce (get patch ''name'') (JStr (d_name d))), (''slug'', JStr (d_slug d)),
      (''owner'', coalesce (get patch ''owner'') (js_owner (d_owner d))),
      (''templateId'', coalesce (get patch ''templateId'') (JStr (d_template d))),
      (''templateVersion'', coalesce (get patch ''templateVersion'') (d_template_version d)),
      (''deployment'', spread (js_deployment (d_deployment d)) (get patch ''deployment'')),
      (''inference'', merged_inference d (get patch ''inference'')),
      (''slack'', spread (js_slack (d_slack d)) (get patch ''slack'')),
      (''access'', spread (js_access (d_access d)) (get patch ''access'')),
      (''observability'', spread (spread (js_observability (d_observability d)) (get patch ''observability''))
         (JObj [(''otel'', spread (js_otel (ob_otel (d_observability d))) (get (get patch ''observability'') ''otel''))]))]"

definition updateClawRecord :: "js_lib \<Rightarrow> claw_record \<Rightarrow> jsval \<Rightarrow> int \<Rightarrow> claw_record result" where
  "updateClawRecord lib r patch now =
     bindR (refuse_if (nullish patch) type_error) (\<lambda>_.
     bindR (createClawRecord lib (merged_input (c_desired r) patch) now (c_id r) (fleet_of r)) (\<lambda>merged.
     let epoch = Some (clawCredentialsGeneration r);
         desired = (c_desired merged)\<lparr>d_generation := d_generation (c_desired r), d_enabled := d_enabled (c_desired r),
                      d_credentials := epoch\<rparr>;
         baseline = (c_desired r)\<lparr>d_credentials := epoch\<rparr>
     in if canonicalJson (js_desired desired) = canonicalJson (js_desired baseline) then Inr r
        else Inr (r\<lparr>c_revision := nextRecordRevision r,
                    c_desired := desired\<lparr>d_generation := d_generation (c_desired r) + 1\<rparr>, c_updated := now\<rparr>)))"

definition setClawEnabled :: "claw_record \<Rightarrow> bool \<Rightarrow> int \<Rightarrow> claw_record" where
  "setClawEnabled r enabled now =
     (if d_enabled (c_desired r) = enabled then r
      else r\<lparr>c_revision := nextRecordRevision r,
             c_desired := (c_desired r)\<lparr>d_enabled := enabled, d_generation := d_generation (c_desired r) + 1\<rparr>,
             c_updated := now\<rparr>)"

definition rotateClawCredentials :: "claw_record \<Rightarrow> int \<Rightarrow> claw_record result" where
  "rotateClawCredentials r now =
     (let epoch = clawCredentialsGeneration r + 1 in
      if 1000000 < epoch then Inl (RequestError ''credential rotation limit reached'')
      else Inr (r\<lparr>c_revision := nextRecordRevision r,
                  c_desired := (c_desired r)\<lparr>d_credentials := Some epoch, d_generation := d_generation (c_desired r) + 1\<rparr>,
                  c_updated := now\<rparr>))"

definition child_policy :: "claw_record \<Rightarrow> jsval" where
  "child_policy r =
     (let d = c_desired r in JObj
       [(''model'', JStr (inf_model (d_inference d))), (''fallbackModels'', js_strings (inf_fallback (d_inference d))),
        (''router'', js_router (inf_router (d_inference d))), (''slackEnabled'', sl_enabled (d_slack d)),
        (''access'', js_access (d_access d)), (''logLevel'', JStr (ob_level (d_observability d))),
        (''otel'', js_otel (ob_otel (d_observability d))),
        (''appliance'', case dp_appliance (d_deployment d) of None \<Rightarrow> JUndef | Some a \<Rightarrow> js_appliance a),
        (''credentialsGeneration'', jint (clawCredentialsGeneration r))])"

definition childPolicyHash :: "js_lib \<Rightarrow> claw_record \<Rightarrow> string" where
  "childPolicyHash lib r = lib_sha256 lib (canonicalJson (child_policy r))"

definition standaloneBootstrapHashFor :: "js_lib \<Rightarrow> string \<Rightarrow> string \<Rightarrow> otel_policy \<Rightarrow> inference_router \<Rightarrow> string" where
  "standaloneBootstrapHashFor lib model level otel router =
     lib_sha256 lib (canonicalJson (JObj [(''model'', JStr model), (''router'', js_router router),
       (''logLevel'', JStr level), (''otel'', js_otel otel)]))"

definition standaloneBootstrapHash :: "js_lib \<Rightarrow> claw_record \<Rightarrow> string" where
  "standaloneBootstrapHash lib r =
     (let d = c_desired r in standaloneBootstrapHashFor lib (inf_model (d_inference d)) (ob_level (d_observability d))
        (ob_otel (d_observability d)) (inf_router (d_inference d)))"

definition count_records :: "(claw_record \<Rightarrow> bool) \<Rightarrow> claw_record list \<Rightarrow> nat" where
  "count_records p rs = length (filter p rs)"

definition fleetSummary :: "claw_record list \<Rightarrow> fleet_summary" where
  "fleetSummary rs =
     \<lparr>fs_total = count_records (\<lambda>r. ob_phase (c_observed r) \<noteq> Deleted) rs,
      fs_ready = count_records (\<lambda>r. ob_phase (c_observed r) = Ready) rs,
      fs_provisioning = count_records (\<lambda>r. ob_phase (c_observed r) \<in> {Requested, Provisioning, Enrolling, Deleting}) rs,
      fs_attention = count_records (\<lambda>r. ob_phase (c_observed r) = Attention) rs,
      fs_disabled = count_records (\<lambda>r. ob_phase (c_observed r) = Disabled) rs,
      fs_drifted = count_records (\<lambda>r. ob_phase (c_observed r) \<noteq> Deleted \<and>
        d_generation (c_desired r) \<noteq> ob_generation (c_observed r)) rs\<rparr>"

end
