(* ===== verification/Domain_Rules.thy ===== *)
theory Domain_Rules
  imports Domain
begin

text \<open>
  What the operations of theory \<open>Domain\<close> promise: the well-formedness of a stored claw (\<open>claw_wf\<close>),
  established by creation and kept by every update, and that normalising what is stored changes
  nothing (\<open>normalised\<close>), which makes an empty update the identity.
\<close>

named_theorems normalised "a normaliser leaves a normalised value alone"
named_theorems normal_form "what a normaliser returns is normalised"

subsection \<open>Text\<close>

definition text_ok :: "nat \<Rightarrow> string \<Rightarrow> bool" where
  "text_ok n t \<longleftrightarrow> t \<noteq> [] \<and> length t \<le> n \<and> trim t = t"

definition opt_ok :: "('a \<Rightarrow> bool) \<Rightarrow> 'a option \<Rightarrow> bool" where
  "opt_ok p v \<longleftrightarrow> (case v of None \<Rightarrow> True | Some x \<Rightarrow> p x)"

lemma requireText_text [normal_form]: "requireText v l n = Inr t \<Longrightarrow> text_ok n t"
  by (auto simp: requireText_def text_ok_def Let_def split: jsval.splits if_splits)

lemma requireText_id [normalised]: "text_ok n t \<Longrightarrow> requireText (JStr t) l n = Inr t"
  by (simp add: requireText_def text_ok_def)

lemma optional_text_text [normal_form]: "optional_text v l n = Inr t \<Longrightarrow> opt_ok (text_ok n) t"
  by (auto simp: optional_text_def opt_ok_def intro: requireText_text split: if_splits)

lemma optional_text_id [normalised]:
  "opt_ok (text_ok n) t \<Longrightarrow> optional_text (case t of None \<Rightarrow> JUndef | Some x \<Rightarrow> JStr x) l n = Inr t"
  by (cases t) (auto simp: optional_text_def opt_ok_def requireText_id, simp add: text_ok_def)

lemma text_ok_mono: "text_ok m t \<Longrightarrow> m \<le> n \<Longrightarrow> text_ok n t"
  by (simp add: text_ok_def)

text \<open>Members of printed objects.\<close>

lemma get_JObj: "get (JObj kvs) k = (case map_of kvs k of Some x \<Rightarrow> x | None \<Rightarrow> JUndef)"
  by (simp add: get_def)

lemma get_none [simp]: "get JUndef k = JUndef" "get JNull k = JUndef" "get (JObj []) k = JUndef"
  by (simp_all add: get_def)

lemma get_js_owner [simp]:
  "get (js_owner x) ''subject'' = JStr (o_subject x)" "get (js_owner x) ''label'' = JStr (o_label x)"
  "get (js_owner x) ''source'' = JStr (o_source x)"
  by (simp_all add: js_owner_def get_JObj)

lemma coalesce_simps [simp]:
  "coalesce JUndef b = b" "coalesce JNull b = b" "coalesce (JStr s) b = JStr s" "coalesce (JBool c) b = JBool c"
  "coalesce (JNum n) b = JNum n" "coalesce (JArr vs) b = JArr vs" "coalesce (JObj kvs) b = JObj kvs"
  by (simp_all add: coalesce_def nullish_def)

lemma coalesce_jint [simp]: "coalesce (jint i) b = jint i" "coalesce (jrat r) b = jrat r"
  by (simp_all add: jint_def jrat_def)

lemma coalesce_not_nullish: "\<not> nullish a \<Longrightarrow> coalesce a b = a"
  by (simp add: coalesce_def)

lemma js_finite_jrat [simp]: "js_finite (jrat r) = Some r"
  by (simp add: js_finite_def jrat_def)

lemma spread_nothing [simp]: "spread (JObj kvs) JUndef = JObj kvs" "spread (JObj kvs) (JObj []) = JObj kvs"
  by (simp_all add: spread_def Json.fields_def)

subsection \<open>Owner, appliance\<close>

definition owner_ok :: "owner_ref \<Rightarrow> bool" where
  "owner_ok x \<longleftrightarrow> text_ok 200 (o_subject x) \<and> subjectPattern (o_subject x) \<and> text_ok 120 (o_label x) \<and>
     o_source x \<in> {''github'', ''slack'', ''email'', ''manual''}"

lemma normalizeOwner_ok [normal_form]: "normalizeOwner v = Inr x \<Longrightarrow> owner_ok x"
  by (cases "get v ''source''") (auto simp: normalizeOwner_def owner_ok_def intro: requireText_text split: if_splits)

lemma normalizeOwner_id [normalised]: "owner_ok x \<Longrightarrow> normalizeOwner (js_owner x) = Inr x"
  by (auto simp: normalizeOwner_def owner_ok_def requireText_id refuse_if_def)

definition appliance_ok :: "appliance_release \<Rightarrow> bool" where
  "appliance_ok x \<longleftrightarrow> (\<forall>d\<in>{ap_manifest x, ap_archive x, ap_node x}. text_ok 64 d \<and> sha256Pattern d)"

lemma normalizeAppliance_ok [normal_form]: "normalizeAppliance v = Inr x \<Longrightarrow> opt_ok appliance_ok x"
  by (auto simp: normalizeAppliance_def appliance_ok_def opt_ok_def Let_def intro: requireText_text split: if_splits)

lemma normalizeAppliance_id [normalised]:
  assumes "opt_ok appliance_ok x" "get v ''appliance'' = (case x of None \<Rightarrow> JUndef | Some a \<Rightarrow> js_appliance a)"
  shows "normalizeAppliance v = Inr x"
  using assms
  by (cases x) (auto simp: normalizeAppliance_def appliance_ok_def opt_ok_def js_appliance_def get_JObj requireText_id refuse_if_def)

subsection \<open>Models\<close>

definition fleet_ok :: "fleet_policy \<Rightarrow> bool" where
  \<comment> \<open>the keys of the model map are the keys of an object\<close>
  "fleet_ok fp \<longleftrightarrow> distinct (map fst (fp_models fp))"

definition providers_of :: "(string \<times> string) list \<Rightarrow> string list \<Rightarrow> string list" where
  "providers_of models ms = sort (js_set (map (\<lambda>m. case map_of models m of Some p \<Rightarrow> p | None \<Rightarrow> []) ms))"

definition router_ok :: "string \<Rightarrow> inference_policy \<Rightarrow> bool" where
  "router_ok cid x \<longleftrightarrow>
     (case inf_router x of
        Direct \<Rightarrow> (\<forall>m\<in>set (inf_model x # inf_fallback x). \<not> routed_prefix m \<and> directModelPattern m) \<and>
          opt_ok (text_ok 240) (inf_auth x)
      | Routed r \<Rightarrow> (\<forall>m\<in>set (inf_model x # inf_fallback x). clawRouterModelPattern m \<and> routed_prefix m) \<and>
          distinct (map fst (rt_models r)) \<and> sort_entries (rt_models r) = rt_models r \<and>
          rt_providers r = providers_of (rt_models r) (inf_model x # inf_fallback x) \<and>
          [] \<notin> set (rt_providers r) \<and> set (rt_providers r) \<subseteq> set (rt_allowed r) \<and>
          clawRouterCredentialId cid = Inr (rt_credential r) \<and> rt_policy r = rt_credential r \<and> rt_project r = cid \<and>
          inf_auth x = Some (''clawrouter:'' @ rt_credential r))"

definition inference_ok :: "string \<Rightarrow> inference_policy \<Rightarrow> bool" where
  "inference_ok cid x \<longleftrightarrow> text_ok 220 (inf_model x) \<and> distinct (inf_fallback x) \<and> inf_provider x = model_provider (inf_model x) \<and>
     opt_ok (\<lambda>b. 0 \<le> b \<and> b \<le> 1000000) (inf_budget x) \<and> router_ok cid x"

lemma set_js_set [simp]: "set (js_set xs) = set xs"
  by (induction xs) auto

lemma distinct_js_set [simp]: "distinct (js_set xs)"
  by (induction xs) auto

lemma js_set_distinct [simp]: "distinct xs \<Longrightarrow> js_set xs = xs"
proof (induction xs)
  case (Cons x xs)
  then have "filter (\<lambda>y. y \<noteq> x) xs = xs" by (auto simp: filter_id_conv)
  with Cons show ?case by simp
qed simp

lemma map_of_sort_entries: "distinct (map fst kvs) \<Longrightarrow> map_of (sort_entries kvs) = map_of kvs"
  by (simp add: sort_entries_def map_of_sort_key)

lemma sort_entries_idem [simp]: "sort_entries (sort_entries kvs) = sort_entries kvs"
  unfolding sort_entries_def by (intro sort_key_id_if_sorted) simp

lemma distinct_sort_entries [simp]: "distinct (map fst (sort_entries kvs)) \<longleftrightarrow> distinct (map fst kvs)"
  by (simp add: sort_entries_def distinct_map)

lemma check_models_ok:
  "mapR (check_model routed) ms = Inr us \<Longrightarrow>
    \<forall>m\<in>set ms. if routed then clawRouterModelPattern m else \<not> routed_prefix m \<and> directModelPattern m"
  by (induction ms arbitrary: us) (auto simp: check_model_def split: if_splits)

lemma check_models_pass:
  "\<forall>m\<in>set ms. if routed then clawRouterModelPattern m else \<not> routed_prefix m \<and> directModelPattern m \<Longrightarrow>
    \<exists>us. mapR (check_model routed) ms = Inr us"
  by (induction ms) (auto simp: check_model_def refuse_if_def)

lemma js_string_list_strings [simp]: "js_string_list (js_strings xs) = Inr xs"
proof -
  have "mapR (\<lambda>v. case v of JStr t \<Rightarrow> Inr t | _ \<Rightarrow> Inl type_error) (map JStr xs) = Inr xs" by (induction xs) auto
  then show ?thesis by (simp add: js_string_list_def js_strings_def)
qed

lemma routed_for_ok:
  assumes "routed_for fp cid ms = Inr r" "fleet_ok fp"
  shows "(\<forall>m\<in>set ms. routed_prefix m) \<and> distinct (map fst (rt_models r)) \<and> sort_entries (rt_models r) = rt_models r \<and>
    rt_providers r = providers_of (rt_models r) ms \<and>
    [] \<notin> set (rt_providers r) \<and> set (rt_providers r) \<subseteq> set (rt_allowed r) \<and>
    clawRouterCredentialId cid = Inr (rt_credential r) \<and> rt_policy r = rt_credential r \<and> rt_project r = cid \<and>
    rt_base r = fp_base fp \<and> rt_tenant r = fp_tenant fp \<and> rt_allowed r = fp_allowed fp \<and> rt_models r = sort_entries (fp_models fp)"
  using assms
  by (auto simp: routed_for_def Let_def fleet_ok_def map_of_sort_entries mapped_provider_def [abs_def] providers_of_def)

lemma routed_for_again:
  assumes "fp = \<lparr>fp_base = rt_base r, fp_tenant = rt_tenant r, fp_allowed = rt_allowed r, fp_models = rt_models r, fp_default = d\<rparr>"
    "\<forall>m\<in>set ms. routed_prefix m" "sort_entries (rt_models r) = rt_models r"
    "rt_providers r = providers_of (rt_models r) ms"
    "[] \<notin> set (rt_providers r)" "set (rt_providers r) \<subseteq> set (rt_allowed r)"
    "clawRouterCredentialId cid = Inr (rt_credential r)" "rt_policy r = rt_credential r" "rt_project r = cid"
  shows "routed_for fp cid ms = Inr r"
proof -
  have p: "map (mapped_provider fp) ms = map (\<lambda>m. case map_of (rt_models r) m of Some p \<Rightarrow> p | None \<Rightarrow> []) ms"
    using assms(1) by (simp add: mapped_provider_def)
  have "sort (js_set (map (mapped_provider fp) ms)) = rt_providers r" unfolding p assms(4) providers_of_def ..
  then show ?thesis using assms
    by (auto simp: routed_for_def Let_def refuse_if_def)
qed

lemma normalizeModels_ok [normal_form]:
  assumes "normalizeModels v cid fleet False = Inr x" "opt_ok fleet_ok fleet"
  shows "inference_ok cid x"
proof -
  obtain model listed us u b auth where
    m: "requireText (coalesce (get v ''model'')
          (case fleet of Some fp \<Rightarrow> JStr (fp_default fp) | None \<Rightarrow> JStr ''openai/gpt-5.5'')) ''inference model'' 220 = Inr model"
    and us: "mapR (check_model (fleet \<noteq> None \<or> False \<and> routed_prefix model)) (model # js_set listed) = Inr us"
    and b: "check_budget (get v ''monthlyBudgetUsd'') = Inr b" and a: "optional_text (get v ''authRef'') ''inference auth ref'' 240 = Inr auth"
    and x: "(case fleet of
       None \<Rightarrow> Inr \<lparr>inf_provider = model_provider model, inf_model = model, inf_fallback = js_set listed, inf_auth = auth,
                     inf_budget = b, inf_router = Direct\<rparr>
     | Some fp \<Rightarrow> bindR (routed_for fp cid (model # js_set listed)) (\<lambda>r.
         Inr \<lparr>inf_provider = model_provider model, inf_model = model, inf_fallback = js_set listed,
              inf_auth = Some (''clawrouter:'' @ rt_credential r), inf_budget = b, inf_router = Routed r\<rparr>)) = Inr x"
    using assms(1) unfolding normalizeModels_def Let_def bindR_eq_Inr by blast
  have m: "text_ok 220 model" by (rule requireText_text [OF m])
  have a: "opt_ok (text_ok 240) auth" by (rule optional_text_text [OF a])
  have b: "opt_ok (\<lambda>b. 0 \<le> b \<and> b \<le> 1000000) b"
    using b by (auto simp: check_budget_def opt_ok_def split: if_splits option.splits)
  note pat = check_models_ok [OF us]
  show ?thesis
  proof (cases fleet)
    case None
    then show ?thesis using x m b a pat by (auto simp: inference_ok_def router_ok_def)
  next
    case (Some fp)
    then obtain r where r: "routed_for fp cid (model # js_set listed) = Inr r"
      and xr: "x = \<lparr>inf_provider = model_provider model, inf_model = model, inf_fallback = js_set listed,
              inf_auth = Some (''clawrouter:'' @ rt_credential r), inf_budget = b, inf_router = Routed r\<rparr>" using x by auto
    have "fleet_ok fp" using assms(2) Some by (simp add: opt_ok_def)
    from routed_for_ok [OF r this] show ?thesis using m b pat Some by (auto simp: inference_ok_def router_ok_def xr)
  qed
qed

lemma split_on_not_Nil [simp]: "split_on d s \<noteq> []"
  by (induction s) (auto split: list.splits)

lemma split_on_takeWhile: "split_on d s = p # ws \<Longrightarrow> takeWhile (\<lambda>c. c \<noteq> d) s = p"
  by (induction s arbitrary: p ws) (auto split: if_splits list.splits)

lemma no_space_trim: "\<forall>c\<in>set t. \<not> is_space c \<Longrightarrow> trim t = t"
  unfolding trim_eq_strip by (rule strip_class_id) (auto simp: hd_in_set)

lemma head_tail_chars: "head_tail p q n t \<Longrightarrow> t \<noteq> [] \<and> (\<forall>c\<in>set t. p c \<or> q c)"
  by (auto simp: head_tail_def list_all_iff split: list.splits)

lemma alnum_no_space: "is_alnum c \<Longrightarrow> \<not> is_space c" "is_lower_alnum c \<Longrightarrow> \<not> is_space c"
  by (auto simp: char_class_defs)

lemma model_provider_ok:
  assumes "directModelPattern m \<or> clawRouterModelPattern m" "length (model_provider m) \<le> n"
  shows "text_ok n (model_provider m)"
proof -
  have "model_provider m \<noteq> [] \<and> (\<forall>c\<in>set (model_provider m). \<not> is_space c)"
    using assms(1)
  proof
    assume d: "directModelPattern m"
    then obtain p q qs where s: "split_on (CHR ''/'') m = p # q # qs"
      and h: "head_tail is_lower_alnum (\<lambda>c. is_lower_alnum c \<or> c \<in> set ''_.-'') (length m) p"
      by (auto simp: directModelPattern_def split: list.splits)
    have "model_provider m = p" using split_on_takeWhile [OF s] by (simp add: model_provider_def)
    moreover have "\<not> is_space c" if "is_lower_alnum c \<or> is_lower_alnum c \<or> c \<in> set ''_.-''" for c
      using that alnum_no_space(2) [of c] by (auto simp: is_space_def)
    ultimately show ?thesis using head_tail_chars [OF h] by blast
  next
    assume d: "clawRouterModelPattern m"
    then obtain ws where s: "split_on (CHR ''/'') m = ''clawrouter'' # ws"
      by (auto simp: clawRouterModelPattern_def split: list.splits)
    have "model_provider m = ''clawrouter''" using split_on_takeWhile [OF s] by (simp add: model_provider_def)
    then show ?thesis by (simp add: is_space_def)
  qed
  then show ?thesis using assms(2) by (simp add: text_ok_def no_space_trim)
qed

lemma get_js_inference [simp]:
  "get (js_inference x) ''provider'' = JStr (inf_provider x)" "get (js_inference x) ''model'' = JStr (inf_model x)"
  "get (js_inference x) ''fallbackModels'' = js_strings (inf_fallback x)"
  "get (js_inference x) ''authRef'' = (case inf_auth x of None \<Rightarrow> JUndef | Some t \<Rightarrow> JStr t)"
  "get (js_inference x) ''monthlyBudgetUsd'' = (case inf_budget x of None \<Rightarrow> JUndef | Some b \<Rightarrow> jrat b)"
  by (cases "inf_auth x"; cases "inf_budget x"; simp add: js_inference_def get_JObj js_opt_def)+

definition router_fleet :: "inference_policy \<Rightarrow> fleet_policy option" where
  \<comment> \<open>the fleet policy a stored router stands for\<close>
  "router_fleet x =
     (case inf_router x of Direct \<Rightarrow> None
      | Routed r \<Rightarrow> Some \<lparr>fp_base = rt_base r, fp_tenant = rt_tenant r, fp_allowed = rt_allowed r, fp_models = rt_models r,
                         fp_default = inf_model x\<rparr>)"

lemma fleet_of_router: "fleet_of r = router_fleet (d_inference (c_desired r))"
  by (simp add: fleet_of_def router_fleet_def)

lemma check_budget_id: "opt_ok (\<lambda>b. 0 \<le> b \<and> b \<le> 1000000) b \<Longrightarrow>
    check_budget (case b of None \<Rightarrow> JUndef | Some b \<Rightarrow> jrat b) = Inr b"
  by (cases b) (auto simp: check_budget_def opt_ok_def jrat_def js_finite_def)

lemma nullish_simps [simp]: "\<not> nullish (js_strings xs)" "nullish JUndef" "nullish JNull" "\<not> nullish (JStr t)"
  "\<not> nullish (JObj kvs)" "\<not> nullish (JBool b)" "\<not> nullish (JNum n)" "\<not> nullish (JArr vs)"
  by (simp_all add: nullish_def js_strings_def)

lemma clawRouter_routed: "clawRouterModelPattern m \<Longrightarrow> routed_prefix m \<Longrightarrow> model_provider m = ''clawrouter''"
  by (auto simp: clawRouterModelPattern_def model_provider_def dest!: split_on_takeWhile split: list.splits)

lemma normalizeModels_id [normalised]:
  assumes ok: "inference_ok cid x" and len: "length (inf_provider x) \<le> 80"
  shows "normalizeModels (js_inference x) cid (router_fleet x) False = Inr x"
proof -
  let ?ms = "inf_model x # inf_fallback x"
  note parts = ok [unfolded inference_ok_def]
  have model: "requireText (JStr (inf_model x)) l 220 = Inr (inf_model x)" for l using parts by (simp add: requireText_id)
  have routed: "(router_fleet x \<noteq> None \<or> False \<and> b) = (case inf_router x of Direct \<Rightarrow> False | Routed _ \<Rightarrow> True)" for b
    by (auto simp: router_fleet_def split: inference_router.splits)
  obtain us where us: "mapR (check_model (router_fleet x \<noteq> None \<or> False \<and> b)) ?ms = Inr us" for b
    using check_models_pass [of ?ms "case inf_router x of Direct \<Rightarrow> False | Routed _ \<Rightarrow> True"] parts
    unfolding routed by (cases "inf_router x") (auto simp: router_ok_def)
  have pat: "directModelPattern (inf_model x) \<or> clawRouterModelPattern (inf_model x)"
    using parts by (cases "inf_router x") (auto simp: router_ok_def)
  have prov: "check_provider (JStr (inf_provider x)) (inf_model x) = Inr ()"
    using model_provider_ok [OF pat] len parts by (simp add: check_provider_def requireText_id refuse_if_def)
  have budget: "check_budget (case inf_budget x of None \<Rightarrow> JUndef | Some b \<Rightarrow> jrat b) = Inr (inf_budget x)"
    using parts by (simp add: check_budget_id)
  have fb: "js_set (inf_fallback x) = inf_fallback x" using parts by simp
  show ?thesis
  proof (cases "inf_router x")
    case Direct
    then have "opt_ok (text_ok 240) (inf_auth x)" using parts by (simp add: router_ok_def)
    from optional_text_id [OF this]
    have "optional_text (case inf_auth x of None \<Rightarrow> JUndef | Some t \<Rightarrow> JStr t) ''inference auth ref'' 240 = Inr (inf_auth x)" .
    moreover have "router_fleet x = None" using Direct by (simp add: router_fleet_def)
    ultimately show ?thesis using us model prov budget fb Direct parts
      by (simp add: normalizeModels_def Let_def del: mapR.simps)
  next
    case (Routed r)
    let ?fp = "\<lparr>fp_base = rt_base r, fp_tenant = rt_tenant r, fp_allowed = rt_allowed r, fp_models = rt_models r, fp_default = inf_model x\<rparr>"
    have rf: "router_fleet x = Some ?fp" using Routed by (simp add: router_fleet_def)
    have again: "routed_for ?fp cid ?ms = Inr r"
      using parts Routed by (intro routed_for_again [where d = "inf_model x"]) (auto simp: router_ok_def)
    have cred: "clawRouterCredentialId cid = Inr (rt_credential r)" "inf_auth x = Some (''clawrouter:'' @ rt_credential r)"
      using parts Routed by (simp_all add: router_ok_def)
    have "text_ok 240 (''clawrouter:'' @ rt_credential r)"
    proof -
      obtain t where t: "rt_credential r = ''crabhelm_'' @ t" "length t = 32" "\<forall>c\<in>set t. is_hex c"
        using cred(1) by (force simp: clawRouterCredentialId_def Let_def class_range_def list_all_iff split: if_splits)
      have "\<not> is_space c" if "is_hex c" for c using that by (auto simp: char_class_defs)
      then have "length (rt_credential r) = 41 \<and> (\<forall>c\<in>set (rt_credential r). \<not> is_space c)"
        using t by (auto simp: is_space_def)
      then show ?thesis by (auto simp: text_ok_def is_space_def intro!: no_space_trim)
    qed
    then have "optional_text (case inf_auth x of None \<Rightarrow> JUndef | Some t \<Rightarrow> JStr t) ''inference auth ref'' 240 = Inr (inf_auth x)"
      using optional_text_id [of 240 "inf_auth x"] cred(2) by (simp add: opt_ok_def)
    then show ?thesis using us model prov budget fb rf again cred parts Routed
      by (simp add: normalizeModels_def Let_def del: mapR.simps)
  qed
qed

subsection \<open>Channels, access, observability, deployment\<close>

definition slack_ok :: "slack_policy \<Rightarrow> bool" where
  "slack_ok x \<longleftrightarrow> \<not> nullish (sl_enabled x) \<and> sl_mode x \<in> {''relay'', ''socket'', ''http''} \<and> opt_ok (text_ok 80) (sl_workspace x) \<and>
     text_ok 120 (sl_route x) \<and> opt_ok (text_ok 240) (sl_bot x) \<and> opt_ok (text_ok 240) (sl_relay x)"

lemma not_nullish_coalesce: "\<not> nullish b \<Longrightarrow> \<not> nullish (coalesce a b)"
  by (simp add: coalesce_def)

lemma normalizeSlack_ok [normal_form]: "normalizeSlack v slug = Inr x \<Longrightarrow> slack_ok x"
  by (auto simp: normalizeSlack_def slack_ok_def not_nullish_coalesce intro: requireText_text optional_text_text
      split: jsval.splits if_splits)

lemma get_js_slack [simp]:
  "get (js_slack x) ''enabled'' = sl_enabled x" "get (js_slack x) ''mode'' = JStr (sl_mode x)"
  "get (js_slack x) ''workspaceId'' = (case sl_workspace x of None \<Rightarrow> JUndef | Some t \<Rightarrow> JStr t)"
  "get (js_slack x) ''routeKey'' = JStr (sl_route x)"
  "get (js_slack x) ''botTokenRef'' = (case sl_bot x of None \<Rightarrow> JUndef | Some t \<Rightarrow> JStr t)"
  "get (js_slack x) ''relayTokenRef'' = (case sl_relay x of None \<Rightarrow> JUndef | Some t \<Rightarrow> JStr t)"
  by (cases "sl_workspace x"; cases "sl_bot x"; cases "sl_relay x"; simp add: js_slack_def get_JObj js_opt_def)+

lemma normalizeSlack_id [normalised]: "slack_ok x \<Longrightarrow> normalizeSlack (js_slack x) slug = Inr x"
  by (auto simp: normalizeSlack_def slack_ok_def requireText_id optional_text_id coalesce_not_nullish)

definition access_ok :: "access_policy \<Rightarrow> bool" where
  "access_ok x \<longleftrightarrow> ac_dm x \<in> {''pairing'', ''allowlist'', ''disabled''} \<and> ac_group x \<in> {''allowlist'', ''disabled''}"

lemma one_of_in: "one_of v allowed why = Inr t \<longleftrightarrow> v = JStr t \<and> t \<in> set allowed"
  by (auto simp: one_of_def split: jsval.splits)

lemma normalizeAccess_ok [normal_form]: "normalizeAccess v = Inr x \<Longrightarrow> access_ok x"
  by (auto simp: normalizeAccess_def access_ok_def one_of_in)

lemma normalizeAccess_id [normalised]: "access_ok x \<Longrightarrow> normalizeAccess (js_access x) = Inr x"
  by (auto simp: normalizeAccess_def access_ok_def one_of_def js_access_def get_JObj)

definition otel_ok :: "js_lib \<Rightarrow> otel_policy \<Rightarrow> bool" where
  "otel_ok lib x \<longleftrightarrow> opt_ok (\<lambda>e. e \<noteq> [] \<and> trim e = e \<and> plain_https lib e) (ot_endpoint x) \<and>
     (ot_enabled x \<longrightarrow> ot_endpoint x \<noteq> None \<and> (ot_traces x \<or> ot_metrics x)) \<and>
     0 \<le> ot_sample x \<and> ot_sample x \<le> 1 \<and> 1000 \<le> ot_flush x \<and> ot_flush x \<le> 300000 \<and>
     text_ok 120 (ot_service x) \<and> serviceNamePattern (ot_service x)"

definition observability_ok :: "js_lib \<Rightarrow> observability_policy \<Rightarrow> bool" where
  "observability_ok lib x \<longleftrightarrow> ob_level x \<in> {''error'', ''warn'', ''info'', ''debug''} \<and>
     1 \<le> ob_retention x \<and> ob_retention x \<le> 365 \<and> otel_ok lib (ob_otel x)"

lemma int_between_ok: "int_between v lo hi why = Inr i \<Longrightarrow> lo \<le> i \<and> i \<le> hi"
  by (auto simp: int_between_def split: option.splits if_splits)

lemma int_between_id: "lo \<le> i \<Longrightarrow> i \<le> hi \<Longrightarrow> int_between (jint i) lo hi why = Inr i"
  by (simp add: int_between_def)

lemma check_endpoint_ok: "check_endpoint lib v = Inr e \<Longrightarrow> opt_ok (\<lambda>e. e \<noteq> [] \<and> trim e = e \<and> plain_https lib e) e"
  by (auto simp: check_endpoint_def opt_ok_def split: jsval.splits if_splits)

lemma check_sample_ok: "check_sample v = Inr r \<Longrightarrow> 0 \<le> r \<and> r \<le> 1"
  by (auto simp: check_sample_def split: option.splits if_splits)

lemma normalizeObservability_ok [normal_form]:
  assumes "normalizeObservability lib v slug = Inr x"
  shows "observability_ok lib x"
proof -
  obtain level retention enabled traces metrics endpoint sample flush service w1 w2 w3 v1 v2 v3 v4 v5 v6 l where
    level: "one_of v1 [''error'', ''warn'', ''info'', ''debug''] w1 = Inr level"
    and retention: "int_between v2 1 365 w2 = Inr retention"
    and endpoint: "check_endpoint lib v3 = Inr endpoint"
    and guards: "\<not> (enabled \<and> endpoint = None)" "\<not> (enabled \<and> \<not> traces \<and> \<not> metrics)" "\<not> \<not> serviceNamePattern service"
    and sample: "check_sample v4 = Inr sample" and flush: "int_between v5 1000 300000 w3 = Inr flush"
    and service: "requireText v6 l 120 = Inr service"
    and x: "x = \<lparr>ob_level = level, ob_retention = retention,
          ob_otel = \<lparr>ot_enabled = enabled, ot_endpoint = endpoint, ot_service = service, ot_traces = traces,
                     ot_metrics = metrics, ot_sample = sample, ot_flush = flush\<rparr>\<rparr>"
    using assms unfolding normalizeObservability_def Let_def bindR_eq_Inr refuse_if_Inr sum.inject by blast
  have "level \<in> {''error'', ''warn'', ''info'', ''debug''}" using level by (simp add: one_of_in)
  then show ?thesis
    using int_between_ok [OF retention] check_endpoint_ok [OF endpoint] guards check_sample_ok [OF sample]
      int_between_ok [OF flush] requireText_text [OF service]
    unfolding observability_ok_def otel_ok_def x by simp
qed

lemma get_js_otel [simp]:
  "get (js_otel x) ''enabled'' = JBool (ot_enabled x)" "get (js_otel x) ''traces'' = JBool (ot_traces x)"
  "get (js_otel x) ''metrics'' = JBool (ot_metrics x)" "get (js_otel x) ''logs'' = JBool False"
  "get (js_otel x) ''endpoint'' = (case ot_endpoint x of None \<Rightarrow> JUndef | Some e \<Rightarrow> JStr e)"
  "get (js_otel x) ''serviceName'' = JStr (ot_service x)" "get (js_otel x) ''sampleRate'' = jrat (ot_sample x)"
  "get (js_otel x) ''flushIntervalMs'' = jint (ot_flush x)"
  by (cases "ot_endpoint x"; simp add: js_otel_def get_JObj js_opt_def)+

lemma normalizeObservability_id [normalised]:
  assumes "observability_ok lib x" "get v ''logLevel'' = JStr (ob_level x)" "get v ''retentionDays'' = jint (ob_retention x)"
    "get v ''otel'' = js_otel (ob_otel x)"
  shows "normalizeObservability lib v slug = Inr x"
proof -
  let ?o = "ob_otel x"
  note ok = assms(1) [unfolded observability_ok_def otel_ok_def]
  have level: "one_of (JStr (ob_level x)) [''error'', ''warn'', ''info'', ''debug''] why = Inr (ob_level x)" for why
    using ok by (simp add: one_of_in)
  have ints: "int_between (jint (ob_retention x)) 1 365 why = Inr (ob_retention x)"
    "int_between (jint (ot_flush ?o)) 1000 300000 why = Inr (ot_flush ?o)" for why
    using ok by (simp_all only: int_between_id)
  have endpoint: "check_endpoint lib (case ot_endpoint ?o of None \<Rightarrow> JUndef | Some e \<Rightarrow> JStr e) = Inr (ot_endpoint ?o)"
    using ok by (cases "ot_endpoint ?o") (auto simp: check_endpoint_def opt_ok_def)
  have sample: "check_sample (jrat (ot_sample ?o)) = Inr (ot_sample ?o)"
    using ok by (auto simp: check_sample_def)
  have service: "requireText (JStr (ot_service ?o)) l 120 = Inr (ot_service ?o)" for l
    using ok by (simp only: requireText_id)
  have guards: "refuse_if (ot_enabled ?o \<and> ot_endpoint ?o = None) e = Inr ()"
    "refuse_if (ot_enabled ?o \<and> \<not> ot_traces ?o \<and> \<not> ot_metrics ?o) e = Inr ()"
    "refuse_if (JBool False \<noteq> JUndef \<and> JBool False \<noteq> JBool False) e = Inr ()"
    "refuse_if (\<not> serviceNamePattern (ot_service ?o)) e = Inr ()" for e
    using ok by simp_all
  have bools: "optional_bool (JBool c) f d = Inr c" for c f d by (simp add: optional_bool_def)
  show ?thesis
    unfolding normalizeObservability_def Let_def assms(2-4) get_js_otel coalesce_simps coalesce_jint
      level ints endpoint sample service guards bools bindR_simps
    by simp
qed

subsection \<open>Claw records\<close>

definition desired_wf :: "js_lib \<Rightarrow> string \<Rightarrow> claw_desired \<Rightarrow> bool" where
  "desired_wf lib cid d \<longleftrightarrow> text_ok 80 (d_name d) \<and> slugPattern (d_slug d) \<and> owner_ok (d_owner d) \<and> text_ok 80 (d_template d) \<and>
     \<not> nullish (d_template_version d) \<and> text_ok 80 (dp_target (d_deployment d)) \<and> slugPattern (dp_profile (d_deployment d)) \<and>
     opt_ok (text_ok 80) (dp_region (d_deployment d)) \<and> opt_ok appliance_ok (dp_appliance (d_deployment d)) \<and>
     inference_ok cid (d_inference d) \<and> slack_ok (d_slack d) \<and> access_ok (d_access d) \<and>
     observability_ok lib (d_observability d)"

definition claw_wf :: "js_lib \<Rightarrow> claw_record \<Rightarrow> bool" where
  "claw_wf lib r \<longleftrightarrow> desired_wf lib (c_id r) (c_desired r)"

lemma slug_text: "slugPattern s \<Longrightarrow> text_ok 63 s"
  by (auto simp: slugPattern_def text_ok_def list_all_iff slug_char_def char_class_defs intro!: no_space_trim)

definition fresh_record :: "string \<Rightarrow> claw_desired \<Rightarrow> int \<Rightarrow> claw_record" where
  \<comment> \<open>what creation stores around the desired state\<close>
  "fresh_record cid d now =
     \<lparr>c_id = cid, c_revision = 1, c_desired = d\<lparr>d_generation := 1, d_enabled := True, d_credentials := Some 1\<rparr>,
       c_observed = \<lparr>ob_generation = 0, ob_phase = Requested, ob_message = ''Waiting for the parent reconciler'',
         ob_health = Unknown, ob_lifecycle = None,
         ob_link = \<lparr>cl_status = Link_pending, cl_transport = ''openclaw-node'', cl_command = ''crabhelm.child.status'',
                    cl_node = None, cl_seen = None\<rparr>,
         ob_gateway = None, ob_config = None, ob_seen = None, ob_inference = None, ob_probes = None,
         ob_deletion = None, ob_access = None\<rparr>,
       c_created = now, c_updated = now\<rparr>"

text \<open>What a successful creation has computed.\<close>

lemma created_parts:
  assumes "createClawRecord lib input now cid fleet = Inr r"
  obtains name slug profile appliance owner template target region inference slack access observability where
    "requireText (get input ''name'') ''name'' 80 = Inr name"
    "(if truthy (get input ''slug'') then requireText (get input ''slug'') ''slug'' 63 else Inr (slugify name)) = Inr slug"
    "slugPattern slug" "slugPattern profile"
    "normalizeAppliance (get input ''deployment'') = Inr appliance" "normalizeOwner (get input ''owner'') = Inr owner"
    "requireText (coalesce (get input ''templateId'') (JStr ''default'')) ''template id'' 80 = Inr template"
    "requireText (coalesce (get (get input ''deployment'') ''target'') (JStr ''default'')) ''deployment target'' 80 = Inr target"
    "optional_text (get (get input ''deployment'') ''region'') ''region'' 80 = Inr region"
    "normalizeModels (get input ''inference'') cid fleet False = Inr inference"
    "normalizeSlack (get input ''slack'') slug = Inr slack" "normalizeAccess (get input ''access'') = Inr access"
    "normalizeObservability lib (get input ''observability'') slug = Inr observability"
    "r = fresh_record cid \<lparr>d_generation = 1, d_name = name, d_slug = slug, d_owner = owner, d_template = template,
         d_template_version = coalesce (get input ''templateVersion'') (jint 1),
         d_deployment = \<lparr>dp_target = target, dp_profile = profile, dp_region = region, dp_appliance = appliance\<rparr>,
         d_inference = inference, d_slack = slack, d_access = access, d_observability = observability,
         d_enabled = True, d_credentials = Some 1\<rparr> now"
  using assms unfolding createClawRecord_def Let_def bindR_eq_Inr refuse_if_Inr not_not sum.inject
  by (elim exE conjE, intro that) (assumption | simp add: fresh_record_def)+

lemma fresh_record_sel [simp]:
  "c_id (fresh_record cid d now) = cid" "c_revision (fresh_record cid d now) = 1"
  "c_desired (fresh_record cid d now) = d\<lparr>d_generation := 1, d_enabled := True, d_credentials := Some 1\<rparr>"
  "ob_phase (c_observed (fresh_record cid d now)) = Requested" "ob_generation (c_observed (fresh_record cid d now)) = 0"
  "ob_lifecycle (c_observed (fresh_record cid d now)) = None" "ob_deletion (c_observed (fresh_record cid d now)) = None"
  "c_created (fresh_record cid d now) = now" "c_updated (fresh_record cid d now) = now"
  by (simp_all add: fresh_record_def)

lemma created_wf:
  assumes "createClawRecord lib input now cid fleet = Inr r" "opt_ok fleet_ok fleet"
  shows "claw_wf lib r \<and> c_id r = cid \<and> c_desired r = (c_desired r)\<lparr>d_generation := 1, d_enabled := True, d_credentials := Some 1\<rparr> \<and>
    r = fresh_record cid (c_desired r) now"
proof -
  from assms(1) obtain name slug profile appliance owner template target region inference slack access observability where
    c: "requireText (get input ''name'') ''name'' 80 = Inr name"
    "slugPattern slug" "slugPattern profile"
    "normalizeAppliance (get input ''deployment'') = Inr appliance" "normalizeOwner (get input ''owner'') = Inr owner"
    "requireText (coalesce (get input ''templateId'') (JStr ''default'')) ''template id'' 80 = Inr template"
    "requireText (coalesce (get (get input ''deployment'') ''target'') (JStr ''default'')) ''deployment target'' 80 = Inr target"
    "optional_text (get (get input ''deployment'') ''region'') ''region'' 80 = Inr region"
    "normalizeModels (get input ''inference'') cid fleet False = Inr inference"
    "normalizeSlack (get input ''slack'') slug = Inr slack" "normalizeAccess (get input ''access'') = Inr access"
    "normalizeObservability lib (get input ''observability'') slug = Inr observability"
    and r: "r = fresh_record cid \<lparr>d_generation = 1, d_name = name, d_slug = slug, d_owner = owner, d_template = template,
         d_template_version = coalesce (get input ''templateVersion'') (jint 1),
         d_deployment = \<lparr>dp_target = target, dp_profile = profile, dp_region = region, dp_appliance = appliance\<rparr>,
         d_inference = inference, d_slack = slack, d_access = access, d_observability = observability,
         d_enabled = True, d_credentials = Some 1\<rparr> now"
    by (rule created_parts)
  have "\<not> nullish (coalesce (get input ''templateVersion'') (jint 1))"
    by (simp add: not_nullish_coalesce jint_def)
  then show ?thesis
    using requireText_text [OF c(1)] c(2,3) normalizeAppliance_ok [OF c(4)] normalizeOwner_ok [OF c(5)]
      requireText_text [OF c(6)] requireText_text [OF c(7)] optional_text_text [OF c(8)]
      normalizeModels_ok [OF c(9) assms(2)] normalizeSlack_ok [OF c(10)] normalizeAccess_ok [OF c(11)]
      normalizeObservability_ok [OF c(12)]
    unfolding claw_wf_def desired_wf_def r by simp
qed

text \<open>Creating from what is stored gives back what is stored.\<close>

lemma get_merged [simp]:
  "get (merged_input d p) ''name'' = coalesce (get p ''name'') (JStr (d_name d))"
  "get (merged_input d p) ''slug'' = JStr (d_slug d)"
  "get (merged_input d p) ''owner'' = coalesce (get p ''owner'') (js_owner (d_owner d))"
  "get (merged_input d p) ''templateId'' = coalesce (get p ''templateId'') (JStr (d_template d))"
  "get (merged_input d p) ''templateVersion'' = coalesce (get p ''templateVersion'') (d_template_version d)"
  "get (merged_input d p) ''deployment'' = spread (js_deployment (d_deployment d)) (get p ''deployment'')"
  "get (merged_input d p) ''inference'' = merged_inference d (get p ''inference'')"
  "get (merged_input d p) ''slack'' = spread (js_slack (d_slack d)) (get p ''slack'')"
  "get (merged_input d p) ''access'' = spread (js_access (d_access d)) (get p ''access'')"
  by (simp_all add: merged_input_def get_JObj)

lemma get_js_deployment [simp]:
  "get (js_deployment x) ''target'' = JStr (dp_target x)" "get (js_deployment x) ''profile'' = JStr (dp_profile x)"
  "get (js_deployment x) ''region'' = (case dp_region x of None \<Rightarrow> JUndef | Some t \<Rightarrow> JStr t)"
  "get (js_deployment x) ''appliance'' = (case dp_appliance x of None \<Rightarrow> JUndef | Some a \<Rightarrow> js_appliance a)"
  by (cases "dp_region x"; cases "dp_appliance x"; simp add: js_deployment_def get_JObj js_opt_def)+

lemma spread_undef:
  "spread (js_deployment a) JUndef = js_deployment a" "spread (js_slack b) JUndef = js_slack b"
  "spread (js_access c) JUndef = js_access c" "spread (js_inference e) JUndef = js_inference e"
  "spread (js_observability f) JUndef = js_observability f" "spread (js_otel g) JUndef = js_otel g"
  by (simp_all add: js_deployment_def js_slack_def js_access_def js_inference_def js_observability_def js_otel_def)

lemma observability_unpatched:
  assumes "\<And>k. get p k = JUndef"
  shows "get (get (merged_input d p) ''observability'') ''logLevel'' = JStr (ob_level (d_observability d))"
    "get (get (merged_input d p) ''observability'') ''retentionDays'' = jint (ob_retention (d_observability d))"
    "get (get (merged_input d p) ''observability'') ''otel'' = js_otel (ob_otel (d_observability d))"
  by (simp_all add: merged_input_def get_JObj assms spread_undef get_spread Json.fields_def js_observability_def)

lemma create_again:
  assumes wf: "desired_wf lib cid d" and len: "length (inf_provider (d_inference d)) \<le> 80"
    and p: "\<And>k. get p k = JUndef"
  shows "createClawRecord lib (merged_input d p) now cid (router_fleet (d_inference d)) = Inr (fresh_record cid d now)"
proof -
  note ok = wf [unfolded desired_wf_def]
  note slug = slug_text [of "d_slug d"] slug_text [of "dp_profile (d_deployment d)"]
  have texts: "requireText (JStr (d_name d)) l 80 = Inr (d_name d)" "requireText (JStr (d_slug d)) l 63 = Inr (d_slug d)"
    "requireText (JStr (d_template d)) l 80 = Inr (d_template d)"
    "requireText (JStr (dp_target (d_deployment d))) l 80 = Inr (dp_target (d_deployment d))"
    "requireText (JStr (dp_profile (d_deployment d))) l 63 = Inr (dp_profile (d_deployment d))" for l
    using ok slug by (simp_all add: requireText_id)
  have region: "optional_text (case dp_region (d_deployment d) of None \<Rightarrow> JUndef | Some t \<Rightarrow> JStr t) l 80 = Inr (dp_region (d_deployment d))" for l
    using ok by (simp add: optional_text_id)
  have appliance: "normalizeAppliance (js_deployment (d_deployment d)) = Inr (dp_appliance (d_deployment d))"
    using ok by (intro normalizeAppliance_id) simp_all
  have owner: "normalizeOwner (js_owner (d_owner d)) = Inr (d_owner d)" using ok by (simp add: normalizeOwner_id)
  have inference: "normalizeModels (js_inference (d_inference d)) cid (router_fleet (d_inference d)) False = Inr (d_inference d)"
    using ok len by (intro normalizeModels_id) simp_all
  have rest: "normalizeSlack (js_slack (d_slack d)) s = Inr (d_slack d)" "normalizeAccess (js_access (d_access d)) = Inr (d_access d)" for s
    using ok by (simp_all add: normalizeSlack_id normalizeAccess_id)
  have obs: "normalizeObservability lib (get (merged_input d p) ''observability'') s = Inr (d_observability d)" for s
    using ok observability_unpatched [OF p] by (intro normalizeObservability_id) simp_all
  have minf: "merged_inference d JUndef = js_inference (d_inference d)"
    by (simp add: merged_inference_def spread_undef get_def)
  have own: "coalesce JUndef (js_owner (d_owner d)) = js_owner (d_owner d)" by simp
  have slugp: "slugPattern (d_slug d)" "slugPattern (dp_profile (d_deployment d))" "d_slug d \<noteq> []"
    using ok by (auto simp: slugPattern_def)
  have tv: "coalesce (coalesce JUndef (d_template_version d)) (jint 1) = d_template_version d"
    using ok by (simp add: coalesce_not_nullish)
  have nn: "\<not> nullish (merged_input d p)" by (simp add: merged_input_def)
  have tr: "truthy (JStr (d_slug d))" using slugp by simp
  have guard: "refuse_if False e = Inr ()" for e by simp
  show ?thesis
    unfolding createClawRecord_def Let_def get_merged p spread_undef get_js_deployment coalesce_simps(1,3) texts region appliance owner
      minf inference rest obs
    by (simp add: nn tr slugp texts refuse_if_def fresh_record_def coalesce_not_nullish ok)
qed

text \<open>
  C9. A record that creation accepts is well formed: its texts are trimmed and within their limits, slug and
  profile are DNS labels, models match their pattern, the router names only allowed providers and the
  credential of the claw, exporting telemetry has a plain HTTPS endpoint. It starts at generation and
  revision 1, enabled, and waits to be reconciled.
\<close>

theorem created_claw_well_formed:
  assumes "createClawRecord lib input now cid fleet = Inr r" "opt_ok fleet_ok fleet"
  shows "claw_wf lib r \<and> c_id r = cid \<and> c_revision r = 1 \<and> d_generation (c_desired r) = 1 \<and> d_enabled (c_desired r) \<and>
    clawCredentialsGeneration r = 1 \<and> ob_phase (c_observed r) = Requested \<and> c_created r = now \<and> c_updated r = now"
proof -
  note c = created_wf [OF assms]
  have d: "c_desired r = (c_desired r)\<lparr>d_generation := 1, d_enabled := True, d_credentials := Some 1\<rparr>" using c by blast
  have f: "r = fresh_record cid (c_desired r) now" using c by blast
  have "d_generation (c_desired r) = 1" "d_enabled (c_desired r)" "d_credentials (c_desired r) = Some 1"
    by (subst d, simp)+
  moreover have "c_revision r = 1" "ob_phase (c_observed r) = Requested" "c_created r = now" "c_updated r = now"
    by (subst f, simp)+
  ultimately show ?thesis using c by (simp add: clawCredentialsGeneration_def safe_int_def)
qed

lemma evaluated_Inr: "(case x of Inl _ \<Rightarrow> False | Inr r \<Rightarrow> P r) \<Longrightarrow> x = Inr (projr x) \<and> P (projr x)"
  by (cases x) auto

definition demo_lib :: js_lib where
  "demo_lib = \<lparr>lib_url = (\<lambda>s. if prefix_of ''https://'' s
     then Some \<lparr>url_protocol = ''https:'', url_username = [], url_password = [], url_search = [], url_hash = []\<rparr> else None),
     lib_sha256 = id\<rparr>"

definition demo_input :: "string \<Rightarrow> jsval" where
  "demo_input model = JObj [(''name'', JStr '' Ada's Claw''),
     (''owner'', JObj [(''subject'', JStr ''ada@example.com''), (''label'', JStr ''Ada''), (''source'', JStr ''email'')]),
     (''inference'', JObj [(''model'', JStr model)])]"

definition demo_fleet :: fleet_policy where
  "demo_fleet = \<lparr>fp_base = ''https://router.example'', fp_tenant = ''acme'', fp_allowed = [''openai'', ''anthropic''],
     fp_models = [(''clawrouter/b/m2'', ''openai''), (''clawrouter/a/m1'', ''anthropic'')], fp_default = ''clawrouter/a/m1''\<rparr>"

definition demo_id :: string where
  "demo_id = ''0f8fad5b-d9cb-469f-a165-70867728950e''"

definition demo_create :: "claw_record result" where
  "demo_create = createClawRecord demo_lib (demo_input ''clawrouter/b/m2'') 5 demo_id (Some demo_fleet)"

definition demo_claw :: claw_record where
  "demo_claw = projr demo_create"

lemma demo_create: "demo_create = Inr demo_claw"
proof -
  have "\<not> isl demo_create" by code_simp
  then show ?thesis by (simp add: demo_claw_def)
qed

theorem created_claw_well_formed_witness: "claw_wf demo_lib demo_claw \<and> c_id demo_claw = demo_id"
proof -
  have "opt_ok fleet_ok (Some demo_fleet)" by code_simp
  then show ?thesis using created_claw_well_formed [OF demo_create [unfolded demo_create_def]] by blast
qed

lemma demo_wf: "claw_wf demo_lib demo_claw"
proof -
  have "opt_ok fleet_ok (Some demo_fleet)" by code_simp
  then show ?thesis using created_wf [OF demo_create [unfolded demo_create_def]] by blast
qed

lemma wf_fleet: "claw_wf lib r \<Longrightarrow> opt_ok fleet_ok (fleet_of r)"
  by (auto simp: claw_wf_def desired_wf_def inference_ok_def router_ok_def fleet_of_def opt_ok_def fleet_ok_def
      split: inference_router.splits)

text \<open>
  C10. For a claw whose model provider has at most 80 characters, an update without changes returns the stored
  record itself, not a new revision: normalising what is stored changes nothing, whatever the record's observed
  state, generation or credential epoch. A longer provider (creation takes it from the model and does not bound
  it) fails the check of a requested provider, and then every update is refused: \<open>long_provider_is_stuck\<close>.
\<close>

theorem update_nothing_is_identity:
  assumes "claw_wf lib r" "length (inf_provider (d_inference (c_desired r))) \<le> 80"
  shows "updateClawRecord lib r (JObj []) now = Inr r"
proof -
  have "createClawRecord lib (merged_input (c_desired r) (JObj [])) now (c_id r) (fleet_of r) =
      Inr (fresh_record (c_id r) (c_desired r) now)"
    unfolding fleet_of_router using assms by (intro create_again) (simp_all add: claw_wf_def)
  then show ?thesis by (simp add: updateClawRecord_def refuse_if_def Let_def)
qed

theorem update_nothing_is_identity_witness: "updateClawRecord demo_lib demo_claw (JObj []) 77 = Inr demo_claw"
proof (rule update_nothing_is_identity)
  show "length (inf_provider (d_inference (c_desired demo_claw))) \<le> 80" by code_simp
qed (rule demo_wf)

text \<open>A claw whose model has a provider part of more than 80 characters can be created but not updated.\<close>

definition stuck_create :: "claw_record result" where
  "stuck_create = createClawRecord demo_lib (demo_input (replicate 81 (CHR ''a'') @ ''/m'')) 5 demo_id None"

lemma long_provider_is_stuck:
  "\<not> isl stuck_create \<and> (case stuck_create of Inr r \<Rightarrow>
     updateClawRecord demo_lib r (JObj []) 6 = Inl (RequestError ''inference provider must be between 1 and 80 characters'') | _ \<Rightarrow> False)"
proof -
  have "case stuck_create of Inl _ \<Rightarrow> False | Inr r \<Rightarrow> (case updateClawRecord demo_lib r (JObj []) 6 of
     Inl (RequestError m) \<Rightarrow> m = ''inference provider must be between 1 and 80 characters'' | _ \<Rightarrow> False)" by code_simp
  from evaluated_Inr [OF this] obtain r where r: "stuck_create = Inr r" and
    "case updateClawRecord demo_lib r (JObj []) 6 of
     Inl (RequestError m) \<Rightarrow> m = ''inference provider must be between 1 and 80 characters'' | _ \<Rightarrow> False" by blast
  then show ?thesis unfolding r by (auto split: sum.splits js_error.splits)
qed

text \<open>The parts of a router that a claw keeps for its life.\<close>

definition pinned :: "inference_router \<Rightarrow> (string \<times> string \<times> string list \<times> (string \<times> string) list \<times> string) option" where
  "pinned x = (case x of Direct \<Rightarrow> None | Routed r \<Rightarrow> Some (rt_base r, rt_tenant r, rt_allowed r, rt_models r, rt_credential r))"

lemma pinned_kept:
  assumes "normalizeModels v cid (router_fleet x) False = Inr y" "inference_ok cid x"
  shows "pinned (inf_router y) = pinned (inf_router x)"
proof (cases "inf_router x")
  case Direct
  then have n: "router_fleet x = None" by (simp add: router_fleet_def)
  have "inf_router y = Direct"
    using assms(1) unfolding n normalizeModels_def Let_def bindR_eq_Inr by auto
  then show ?thesis using Direct by (simp add: pinned_def)
next
  case (Routed r)
  let ?fp = "\<lparr>fp_base = rt_base r, fp_tenant = rt_tenant r, fp_allowed = rt_allowed r, fp_models = rt_models r, fp_default = inf_model x\<rparr>"
  have f: "router_fleet x = Some ?fp" using Routed by (simp add: router_fleet_def)
  have ok: "fleet_ok ?fp" "sort_entries (rt_models r) = rt_models r" "clawRouterCredentialId cid = Inr (rt_credential r)"
    using assms(2) Routed by (simp_all add: inference_ok_def router_ok_def fleet_ok_def)
  obtain ms r' where r': "routed_for ?fp cid ms = Inr r'" "inf_router y = Routed r'"
    using assms(1) unfolding f normalizeModels_def Let_def bindR_eq_Inr by auto
  from routed_for_ok [OF r'(1) ok(1)] show ?thesis using ok(2,3) r'(2) Routed by (simp add: pinned_def)
qed

lemma update_frame:
  assumes wf: "claw_wf lib r" and upd: "updateClawRecord lib r patch now = Inr r'"
  shows "claw_wf lib r' \<and> c_id r' = c_id r \<and> d_slug (c_desired r') = d_slug (c_desired r) \<and> c_created r' = c_created r \<and>
    c_observed r' = c_observed r \<and> d_enabled (c_desired r') = d_enabled (c_desired r) \<and>
    clawCredentialsGeneration r' = clawCredentialsGeneration r \<and>
    pinned (inf_router (d_inference (c_desired r'))) = pinned (inf_router (d_inference (c_desired r))) \<and>
    (r' = r \<or> (d_generation (c_desired r') = d_generation (c_desired r) + 1 \<and> c_revision r' = nextRecordRevision r \<and> c_updated r' = now))"
proof -
  obtain merged where m: "createClawRecord lib (merged_input (c_desired r) patch) now (c_id r) (fleet_of r) = Inr merged"
    and eq: "r' = r \<or> r' = r\<lparr>c_revision := nextRecordRevision r,
        c_desired := (c_desired merged)\<lparr>d_enabled := d_enabled (c_desired r), d_credentials := Some (clawCredentialsGeneration r),
          d_generation := d_generation (c_desired r) + 1\<rparr>, c_updated := now\<rparr>"
    using upd by (auto simp: updateClawRecord_def Let_def split: if_splits)
  have mwf: "claw_wf lib merged" "c_id merged = c_id r" using created_wf [OF m wf_fleet [OF wf]] by blast+
  have slugp: "slugPattern (d_slug (c_desired r))" using wf by (simp add: claw_wf_def desired_wf_def)
  from m obtain name slug profile appliance owner template target region inference slack access observability where
    c: "(if truthy (get (merged_input (c_desired r) patch) ''slug'') then requireText (get (merged_input (c_desired r) patch) ''slug'') ''slug'' 63
         else Inr (slugify name)) = Inr slug"
    "normalizeModels (get (merged_input (c_desired r) patch) ''inference'') (c_id r) (fleet_of r) False = Inr inference"
    and mr: "merged = fresh_record (c_id r) \<lparr>d_generation = 1, d_name = name, d_slug = slug, d_owner = owner, d_template = template,
         d_template_version = coalesce (get (merged_input (c_desired r) patch) ''templateVersion'') (jint 1),
         d_deployment = \<lparr>dp_target = target, dp_profile = profile, dp_region = region, dp_appliance = appliance\<rparr>,
         d_inference = inference, d_slack = slack, d_access = access, d_observability = observability,
         d_enabled = True, d_credentials = Some 1\<rparr> now"
    by (rule created_parts)
  have "slug = d_slug (c_desired r)"
    using c(1) slugp slug_text [OF slugp] by (auto simp: slugPattern_def requireText_id)
  then have ms: "d_slug (c_desired merged) = d_slug (c_desired r)" by (simp add: mr)
  have mp: "pinned (inf_router (d_inference (c_desired merged))) = pinned (inf_router (d_inference (c_desired r)))"
    using pinned_kept [OF c(2) [unfolded fleet_of_router]] wf by (simp add: mr claw_wf_def desired_wf_def)
  have epoch: "clawCredentialsGeneration r \<ge> 1 \<and> safe_int (clawCredentialsGeneration r)"
    by (auto simp: clawCredentialsGeneration_def safe_int_def split: option.splits)
  show ?thesis using eq
  proof
    assume "r' = r" then show ?thesis using wf by simp
  next
    assume r': "r' = r\<lparr>c_revision := nextRecordRevision r,
        c_desired := (c_desired merged)\<lparr>d_enabled := d_enabled (c_desired r), d_credentials := Some (clawCredentialsGeneration r),
          d_generation := d_generation (c_desired r) + 1\<rparr>, c_updated := now\<rparr>"
    have "claw_wf lib r'" using mwf by (simp add: r' claw_wf_def desired_wf_def)
    moreover have "clawCredentialsGeneration r' = clawCredentialsGeneration r"
    proof -
      have "d_credentials (c_desired r') = Some (clawCredentialsGeneration r)" by (simp add: r')
      then show ?thesis using epoch by (subst clawCredentialsGeneration_def) simp
    qed
    ultimately show ?thesis using ms mp by (simp add: r')
  qed
qed

lemma next_revision:
  "nextRecordRevision r = (if 0 \<le> c_revision r \<and> c_revision r \<le> 9007199254740991 then c_revision r + 1 else 1)"
  by (auto simp: nextRecordRevision_def safe_int_def)

text \<open>
  C11. An update keeps a claw well formed and keeps its identity: id, slug, creation time, observed state,
  whether it is enabled, its credential epoch, and the router it was created with (gateway, tenant,
  allowed providers, model map, credential). Either nothing changed, or the generation grows by exactly
  one and so does the revision (a stored revision that is negative or beyond the safe integers starts again
  at one).
\<close>

theorem update_keeps_identity:
  assumes wf: "claw_wf lib r" and upd: "updateClawRecord lib r patch now = Inr r'"
  shows "claw_wf lib r' \<and> c_id r' = c_id r \<and> d_slug (c_desired r') = d_slug (c_desired r) \<and> c_created r' = c_created r \<and>
    c_observed r' = c_observed r \<and> d_enabled (c_desired r') = d_enabled (c_desired r) \<and>
    clawCredentialsGeneration r' = clawCredentialsGeneration r \<and>
    pinned (inf_router (d_inference (c_desired r'))) = pinned (inf_router (d_inference (c_desired r))) \<and>
    (r' = r \<or> (d_generation (c_desired r') = d_generation (c_desired r) + 1 \<and>
       c_revision r' = (if 0 \<le> c_revision r \<and> c_revision r \<le> 9007199254740991 then c_revision r + 1 else 1) \<and> c_updated r' = now))"
  using update_frame [OF assms] by (simp only: next_revision)

definition direct_create :: "claw_record result" where
  "direct_create = createClawRecord demo_lib (demo_input ''openai/m'') 5 demo_id None"

definition direct_claw :: claw_record where
  "direct_claw = projr direct_create"

lemma direct_wf: "claw_wf demo_lib direct_claw"
proof -
  have "case direct_create of Inl _ \<Rightarrow> False | Inr _ \<Rightarrow> True" by code_simp
  from evaluated_Inr [OF this] have "direct_create = Inr direct_claw" unfolding direct_claw_def by blast
  from created_wf [OF this [unfolded direct_create_def]] show ?thesis by (simp add: opt_ok_def)
qed

definition demo_patch :: jsval where
  "demo_patch = JObj [(''inference'', JObj [(''model'', JStr ''openai/n'')])]"

theorem update_keeps_identity_witness:
  "\<exists>r'. updateClawRecord demo_lib direct_claw demo_patch 9 = Inr r' \<and> claw_wf demo_lib r' \<and> d_generation (c_desired r') = 2"
proof -
  let ?u = "updateClawRecord demo_lib direct_claw demo_patch 9"
  have "case ?u of Inl _ \<Rightarrow> False | Inr r' \<Rightarrow> d_generation (c_desired r') = 2" by code_simp
  from evaluated_Inr [OF this]
  have g: "d_generation (c_desired (projr ?u)) = 2" and u: "?u = Inr (projr ?u)" by blast+
  from update_keeps_identity [OF direct_wf u] have "claw_wf demo_lib (projr ?u)" by blast
  then show ?thesis using g u by blast
qed

subsection \<open>Credentials and the policy hash\<close>

lemma get_sort_keys: "distinct (map fst kvs) \<Longrightarrow> get (sort_keys (JObj kvs)) k = sort_keys (get (JObj kvs) k)"
proof -
  assume d: "distinct (map fst kvs)"
  let ?m = "map (\<lambda>p. (fst p, sort_keys (snd p))) kvs"
  have "map_of (sort_key (\<lambda>p. locale_key (fst p)) ?m) = map_of ?m"
    using d by (intro map_of_sort_key) (simp add: comp_def)
  moreover have "map_of ?m k = map_option sort_keys (map_of kvs k)" by (induction kvs) auto
  ultimately show ?thesis by (simp add: get_def split: option.splits)
qed

lemma sorted_get:
  assumes "sort_keys (JObj a) = sort_keys (JObj b)" "distinct (map fst a)" "distinct (map fst b)"
  shows "sort_keys (get (JObj a) k) = sort_keys (get (JObj b) k)"
  using assms get_sort_keys by metis

lemma sort_keys_js_strings [simp]: "sort_keys (js_strings xs) = js_strings xs"
  by (simp add: js_strings_def)

lemma js_strings_inj [simp]: "js_strings xs = js_strings ys \<longleftrightarrow> xs = ys"
  by (auto simp: js_strings_def inj_map_eq_map inj_def)

lemma sort_keys_jnum [simp]: "sort_keys (jint i) = jint i" "sort_keys (jrat r) = jrat r"
  by (simp_all add: jint_def jrat_def)

lemma jnum_inj [simp]: "jint i = jint j \<longleftrightarrow> i = j" "jrat r = jrat s \<longleftrightarrow> r = s"
  by (simp_all add: jint_def jrat_def)

lemma map_insort: "map f (insort_key (\<lambda>p. g (f p)) x xs) = insort_key g (f x) (map f xs)"
  by (induction xs) auto

lemma map_sort: "map f (sort_key (\<lambda>p. g (f p)) xs) = sort_key g (map f xs)"
  by (induction xs) (auto simp: map_insort)

lemma sort_keys_models: "sort_keys (JObj (map (\<lambda>p. (fst p, JStr (snd p))) kvs)) = JObj (map (\<lambda>p. (fst p, JStr (snd p))) (sort_entries kvs))"
  using map_sort [of "\<lambda>p. (fst p, JStr (snd p))" "\<lambda>p. locale_key (fst p)" kvs] by (simp add: sort_entries_def comp_def)

lemma models_inj: "map (\<lambda>p. (fst p, JStr (snd p))) a = map (\<lambda>p. (fst p, JStr (snd p))) b \<Longrightarrow> a = b"
  by (metis (mono_tags, lifting) fst_conv inj_map_eq_map injI jsval.inject(3) prod_eqI snd_conv)

text \<open>Objects of the same form with the same sorted text have the same members.\<close>

definition router_sorted :: "inference_router \<Rightarrow> bool" where
  "router_sorted x \<longleftrightarrow> (case x of Direct \<Rightarrow> True | Routed r \<Rightarrow> sort_entries (rt_models r) = rt_models r)"

lemma js_router_members:
  "get (js_router Direct) k = (if k = ''kind'' then JStr ''direct'' else JUndef)"
  "get (js_router (Routed r)) ''kind'' = JStr ''clawrouter''" "get (js_router (Routed r)) ''baseUrl'' = JStr (rt_base r)"
  "get (js_router (Routed r)) ''tenantId'' = JStr (rt_tenant r)" "get (js_router (Routed r)) ''policyId'' = JStr (rt_policy r)"
  "get (js_router (Routed r)) ''credentialId'' = JStr (rt_credential r)" "get (js_router (Routed r)) ''projectId'' = JStr (rt_project r)"
  "get (js_router (Routed r)) ''allowedProviders'' = js_strings (rt_allowed r)"
  "get (js_router (Routed r)) ''modelProviders'' = JObj (map (\<lambda>p. (fst p, JStr (snd p))) (rt_models r))"
  "get (js_router (Routed r)) ''providers'' = js_strings (rt_providers r)"
  by (simp_all add: js_router_def get_JObj)

lemma get_sorted:
  assumes "sort_keys a = sort_keys b" "distinct (map fst (Json.fields a))" "distinct (map fst (Json.fields b))"
    and "a = JObj (Json.fields a)" "b = JObj (Json.fields b)"
  shows "sort_keys (get a k) = sort_keys (get b k)"
  using assms sorted_get by metis

lemma distinct_js:
  "distinct (map fst (Json.fields (js_router x)))" "js_router x = JObj (Json.fields (js_router x))"
  "distinct (map fst (Json.fields (js_otel ot)))" "js_otel ot = JObj (Json.fields (js_otel ot))"
  "distinct (map fst (Json.fields (js_access a)))" "js_access a = JObj (Json.fields (js_access a))"
  "distinct (map fst (Json.fields (js_appliance p)))" "js_appliance p = JObj (Json.fields (js_appliance p))"
  "distinct (map fst (Json.fields (child_policy r)))" "child_policy r = JObj (Json.fields (child_policy r))"
  by (simp_all add: js_router_def js_otel_def js_access_def js_appliance_def child_policy_def Json.fields_def js_opt_def Let_def
      split: inference_router.splits option.splits)

lemma js_router_sorted_inj:
  assumes "sort_keys (js_router x) = sort_keys (js_router y)" "router_sorted x" "router_sorted y"
  shows "x = y"
proof -
  have g: "sort_keys (get (js_router x) k) = sort_keys (get (js_router y) k)" for k
    by (rule get_sorted [OF assms(1) distinct_js(1,1,2,2)])
  show ?thesis
  proof (cases x; cases y)
    fix r s assume x: "x = Routed r" and y: "y = Routed s"
    note m = g [unfolded x y]
    have "sort_entries (rt_models r) = sort_entries (rt_models s)"
      using m [of "''modelProviders''"] unfolding js_router_members sort_keys_models by (auto dest: models_inj)
    then have "rt_models r = rt_models s" using assms(2,3) by (simp add: x y router_sorted_def)
    then have "r = s"
      using m [of "''baseUrl''"] m [of "''tenantId''"] m [of "''policyId''"] m [of "''credentialId''"] m [of "''projectId''"]
        m [of "''allowedProviders''"] m [of "''providers''"]
      by (simp add: js_router_members)
    then show ?thesis using x y by simp
  qed (use g [of "''kind''"] in \<open>auto simp: js_router_members\<close>)
qed

lemma js_otel_sorted_inj:
  assumes "sort_keys (js_otel x) = sort_keys (js_otel y)"
  shows "x = y"
proof -
  have g: "sort_keys (get (js_otel x) k) = sort_keys (get (js_otel y) k)" for k
    by (rule get_sorted [OF assms distinct_js(3,3,4,4)])
  have "ot_endpoint x = ot_endpoint y" using g [of "''endpoint''"] by (cases "ot_endpoint x"; cases "ot_endpoint y") auto
  then show ?thesis
    using g [of "''enabled''"] g [of "''serviceName''"] g [of "''traces''"] g [of "''metrics''"] g [of "''sampleRate''"] g [of "''flushIntervalMs''"]
    by simp
qed

lemma js_access_sorted_inj:
  assumes "sort_keys (js_access x) = sort_keys (js_access y)"
  shows "x = y"
proof -
  have g: "sort_keys (get (js_access x) k) = sort_keys (get (js_access y) k)" for k
    by (rule get_sorted [OF assms distinct_js(5,5,6,6)])
  show ?thesis using g [of "''dmPolicy''"] g [of "''groupPolicy''"] by (simp add: js_access_def get_JObj)
qed

lemma js_appliance_sorted_inj:
  assumes "sort_keys (case x of None \<Rightarrow> JUndef | Some a \<Rightarrow> js_appliance a) = sort_keys (case y of None \<Rightarrow> JUndef | Some a \<Rightarrow> js_appliance a)"
  shows "x = y"
proof (cases x; cases y)
  fix a b assume x: "x = Some a" and y: "y = Some b"
  have "sort_keys (js_appliance a) = sort_keys (js_appliance b)" using assms x y by simp
  then have g: "sort_keys (get (js_appliance a) k) = sort_keys (get (js_appliance b) k)" for k
    by (rule get_sorted [OF _ distinct_js(7,7,8,8)])
  show ?thesis using g [of "''manifestSha256''"] g [of "''archiveSha256''"] g [of "''nodeSha256''"] x y
    by (simp add: js_appliance_def get_JObj)
qed (use assms in \<open>auto simp: js_appliance_def\<close>)

text \<open>What the policy hash is computed from.\<close>

definition policy_view :: "claw_record \<Rightarrow>
    string \<times> string list \<times> inference_router \<times> jsval \<times> access_policy \<times> string \<times> otel_policy \<times> appliance_release option \<times> int" where
  "policy_view r = (let d = c_desired r in
     (inf_model (d_inference d), inf_fallback (d_inference d), inf_router (d_inference d), sl_enabled (d_slack d), d_access d,
      ob_level (d_observability d), ob_otel (d_observability d), dp_appliance (d_deployment d), clawCredentialsGeneration r))"

definition policy_data :: "claw_record \<Rightarrow> bool" where
  \<comment> \<open>the values the request schema admits: a boolean switch and a decimal sample rate\<close>
  "policy_data r \<longleftrightarrow> sl_enabled (d_slack (c_desired r)) \<in> {JBool True, JBool False} \<and> decimal (ot_sample (ob_otel (d_observability (c_desired r))))"

lemma plain_js [simp]:
  "plain_json (js_strings xs)" "plain_json (jint i)" "decimal q \<Longrightarrow> plain_json (jrat q)" "plain_json (js_router x)"
  "decimal (ot_sample ot) \<Longrightarrow> plain_json (js_otel ot)" "plain_json (js_access a)" "plain_json (js_appliance p)"
  by (auto simp: js_strings_def jint_def jrat_def js_router_def js_otel_def js_access_def js_appliance_def js_opt_def
      split: inference_router.splits option.splits)

lemma plain_child_policy: "policy_data r \<Longrightarrow> plain_json (child_policy r)"
  by (auto simp: policy_data_def child_policy_def Let_def split: option.splits)

lemma wf_router_sorted: "claw_wf lib r \<Longrightarrow> router_sorted (inf_router (d_inference (c_desired r)))"
  by (auto simp: claw_wf_def desired_wf_def inference_ok_def router_ok_def router_sorted_def split: inference_router.splits)

lemma child_policy_members:
  "get (child_policy r) ''model'' = JStr (inf_model (d_inference (c_desired r)))"
  "get (child_policy r) ''fallbackModels'' = js_strings (inf_fallback (d_inference (c_desired r)))"
  "get (child_policy r) ''router'' = js_router (inf_router (d_inference (c_desired r)))"
  "get (child_policy r) ''slackEnabled'' = sl_enabled (d_slack (c_desired r))"
  "get (child_policy r) ''access'' = js_access (d_access (c_desired r))"
  "get (child_policy r) ''logLevel'' = JStr (ob_level (d_observability (c_desired r)))"
  "get (child_policy r) ''otel'' = js_otel (ob_otel (d_observability (c_desired r)))"
  "get (child_policy r) ''appliance'' = (case dp_appliance (d_deployment (c_desired r)) of None \<Rightarrow> JUndef | Some a \<Rightarrow> js_appliance a)"
  "get (child_policy r) ''credentialsGeneration'' = jint (clawCredentialsGeneration r)"
  by (simp_all add: child_policy_def Let_def get_JObj)

lemma child_policy_inj:
  assumes "canonicalJson (child_policy r) = canonicalJson (child_policy s)" "claw_wf lib r" "claw_wf lib s" "policy_data r" "policy_data s"
  shows "policy_view r = policy_view s"
proof -
  have "sort_keys (child_policy r) = sort_keys (child_policy s)"
    using assms(1,4,5) by (intro canonicalJson_inj plain_child_policy)
  then have g: "sort_keys (get (child_policy r) k) = sort_keys (get (child_policy s) k)" for k
    by (rule get_sorted [OF _ distinct_js(9,9,10,10)])
  note m = g [unfolded child_policy_members]
  have "inf_router (d_inference (c_desired r)) = inf_router (d_inference (c_desired s))"
    by (rule js_router_sorted_inj [OF g [of "''router''", unfolded child_policy_members] wf_router_sorted [OF assms(2)] wf_router_sorted [OF assms(3)]])
  moreover have "d_access (c_desired r) = d_access (c_desired s)"
    by (rule js_access_sorted_inj [OF g [of "''access''", unfolded child_policy_members]])
  moreover have "ob_otel (d_observability (c_desired r)) = ob_otel (d_observability (c_desired s))"
    by (rule js_otel_sorted_inj [OF g [of "''otel''", unfolded child_policy_members]])
  moreover have "dp_appliance (d_deployment (c_desired r)) = dp_appliance (d_deployment (c_desired s))"
    by (rule js_appliance_sorted_inj [OF g [of "''appliance''", unfolded child_policy_members]])
  moreover have "sl_enabled (d_slack (c_desired r)) = sl_enabled (d_slack (c_desired s))"
    using g [of "''slackEnabled''"] assms(4,5) by (auto simp: child_policy_members policy_data_def)
  ultimately show ?thesis
    using g [of "''model''"] g [of "''fallbackModels''"] g [of "''logLevel''"] g [of "''credentialsGeneration''"]
    by (simp add: child_policy_members policy_view_def Let_def)
qed

lemma policy_view_child: "policy_view r = policy_view s \<Longrightarrow> child_policy r = child_policy s"
  by (simp add: policy_view_def child_policy_def Let_def)

text \<open>
  C12. The policy hash a child acknowledges stands for the whole child policy: two well-formed claws have the
  same hash exactly when model, fallbacks, router, Slack switch, access, log level, telemetry, appliance
  and credential epoch agree (for a hash function without a collision between the two texts). In
  particular rotating the credentials always asks the child for a new policy.
\<close>

theorem child_policy_hash_binds:
  assumes "lib_sha256 lib (canonicalJson (child_policy r)) = lib_sha256 lib (canonicalJson (child_policy s)) \<longrightarrow>
      canonicalJson (child_policy r) = canonicalJson (child_policy s)"
    and "claw_wf lib r" "claw_wf lib s" "policy_data r" "policy_data s"
  shows "childPolicyHash lib r = childPolicyHash lib s \<longleftrightarrow> policy_view r = policy_view s"
  using assms child_policy_inj [OF _ assms(2-5)] policy_view_child unfolding childPolicyHash_def by metis

theorem child_policy_hash_binds_witness:
  "childPolicyHash demo_lib direct_claw \<noteq> childPolicyHash demo_lib (direct_claw\<lparr>c_desired := (c_desired direct_claw)\<lparr>d_credentials := Some 2\<rparr>\<rparr>)"
proof -
  let ?s = "direct_claw\<lparr>c_desired := (c_desired direct_claw)\<lparr>d_credentials := Some 2\<rparr>\<rparr>"
  have wf: "claw_wf demo_lib ?s" using direct_wf by (simp add: claw_wf_def desired_wf_def)
  have s: "sl_enabled (d_slack (c_desired direct_claw)) = JBool False" and o: "decimal (ot_sample (ob_otel (d_observability (c_desired direct_claw))))"
    and c: "clawCredentialsGeneration direct_claw = 1" by code_simp+
  have c2: "clawCredentialsGeneration ?s = 2" by (simp add: clawCredentialsGeneration_def safe_int_def)
  have pd: "policy_data direct_claw" "policy_data ?s" using s o by (simp_all add: policy_data_def)
  have "policy_view direct_claw \<noteq> policy_view ?s" using c c2 by (auto simp: policy_view_def Let_def)
  moreover have "childPolicyHash demo_lib direct_claw = childPolicyHash demo_lib ?s \<longleftrightarrow> policy_view direct_claw = policy_view ?s"
    by (rule child_policy_hash_binds [OF _ direct_wf wf pd]) (simp add: demo_lib_def)
  ultimately show ?thesis by blast
qed

text \<open>
  C13. Rotating credentials raises the credential epoch by exactly one, never beyond a million and never
  below two, and asks for a new generation; at the limit it refuses and changes nothing. Enabling or
  disabling a claw to what it already is returns the record itself.
\<close>

theorem credential_rotation_is_monotone:
  "(case rotateClawCredentials r now of
      Inr r' \<Rightarrow> clawCredentialsGeneration r' = clawCredentialsGeneration r + 1 \<and> 2 \<le> clawCredentialsGeneration r' \<and>
        clawCredentialsGeneration r' \<le> 1000000 \<and> d_generation (c_desired r') = d_generation (c_desired r) + 1 \<and>
        c_revision r' = nextRecordRevision r \<and> setClawEnabled r' (d_enabled (c_desired r)) now = r'
    | Inl e \<Rightarrow> e = RequestError ''credential rotation limit reached'' \<and> 1000000 \<le> clawCredentialsGeneration r)"
proof -
  have "1 \<le> clawCredentialsGeneration r" by (auto simp: clawCredentialsGeneration_def split: option.splits)
  then show ?thesis
    by (auto simp: rotateClawCredentials_def Let_def setClawEnabled_def clawCredentialsGeneration_def [of "_\<lparr>c_updated := now\<rparr>"] safe_int_def)
qed

end
