(* ===== verification/Registry.thy ===== *)
theory Registry
  imports Domain_Rules StateStore
begin

text \<open>
  src/registry.ts: the registry of claws, policies and audit events over three stores, with the options
  that src/index.ts and worker/control-plane-service.ts give them (10000 claws, 1000 policies, 50000
  events of which the oldest is evicted). An operation is a computation on the state of the stores; the
  promise chain \<open>#serialize\<close> makes it atomic, and a transaction undoes the writes of an operation that
  throws. The clock of an operation is one parameter, \<open>randomUUID\<close> a supply of names. Records that lack
  members added by later versions (\<open>router\<close>, \<open>otel\<close>) are not representable; of \<open>normalizeRecord\<close>
  the rule for revisions is modelled.
\<close>

record deployment_target =
  tg_profile :: string
  tg_region :: "string option"

record registry_config =
  cfg_targets :: "(string \<times> deployment_target) list option"
  cfg_default :: "(string \<times> deployment_target) option"
  cfg_policies :: bool
  cfg_transaction :: bool
  cfg_router :: "fleet_policy option"
  cfg_lib :: js_lib
  cfg_uuid :: "nat \<Rightarrow> string"

record reg =
  rg_claws :: "claw_record entry list"
  rg_events :: "audit_event entry list"
  rg_policies :: "policy_template entry list"
  rg_uuids :: nat

definition claws_options :: store_options where
  "claws_options = \<lparr>max_entries = 10000, evict_oldest = False\<rparr>"

definition events_options :: store_options where
  "events_options = \<lparr>max_entries = 50000, evict_oldest = True\<rparr>"

definition policies_options :: store_options where
  "policies_options = \<lparr>max_entries = 1000, evict_oldest = False\<rparr>"

type_synonym 'a regc = "(reg, 'a) comp"

definition randomUUID :: "registry_config \<Rightarrow> string regc" where
  "randomUUID cfg = (\<lambda>s. (Inr (cfg_uuid cfg (rg_uuids s)), s\<lparr>rg_uuids := Suc (rg_uuids s)\<rparr>))"

text \<open>\<open>#serialize\<close>: with a transaction, what a failing operation wrote is undone.\<close>

definition serialize :: "registry_config \<Rightarrow> 'a regc \<Rightarrow> 'a regc" where
  "serialize cfg op = (\<lambda>s. case op s of
     (Inl e, t) \<Rightarrow> (Inl e, if cfg_transaction cfg then s\<lparr>rg_uuids := rg_uuids t\<rparr> else t)
   | (Inr a, t) \<Rightarrow> (Inr a, t))"

subsection \<open>Stores\<close>

definition put_claw :: "string \<Rightarrow> claw_record \<Rightarrow> int \<Rightarrow> unit regc" where
  "put_claw k r now = (\<lambda>s. case sql_register claws_options k r now (rg_claws s) of
     Inl e \<Rightarrow> (Inl e, s) | Inr t \<Rightarrow> (Inr (), s\<lparr>rg_claws := t\<rparr>))"

definition put_policy :: "string \<Rightarrow> policy_template \<Rightarrow> int \<Rightarrow> unit regc" where
  "put_policy k p now = (\<lambda>s. case sql_register policies_options k p now (rg_policies s) of
     Inl e \<Rightarrow> (Inl e, s) | Inr t \<Rightarrow> (Inr (), s\<lparr>rg_policies := t\<rparr>))"

definition put_event :: "string \<Rightarrow> audit_event \<Rightarrow> int \<Rightarrow> unit regc" where
  "put_event k e now = (\<lambda>s. case sql_register events_options k e now (rg_events s) of
     Inl err \<Rightarrow> (Inl err, s) | Inr t \<Rightarrow> (Inr (), s\<lparr>rg_events := t\<rparr>))"

text \<open>An audit event without its id and time.\<close>

definition audit_note :: "string option \<Rightarrow> string \<Rightarrow> string \<Rightarrow> audit_outcome \<Rightarrow> string \<Rightarrow> int option \<Rightarrow>
    (string \<times> jsval) list option \<Rightarrow> audit_event" where
  "audit_note claw actor action outcome summary generation details =
     \<lparr>ev_id = [], ev_claw = claw, ev_at = 0, ev_actor = actor, ev_action = action, ev_outcome = outcome,
      ev_summary = summary, ev_generation = generation, ev_details = details\<rparr>"

definition audit :: "registry_config \<Rightarrow> audit_event \<Rightarrow> int \<Rightarrow> unit regc" where
  "audit cfg event now =
     bindC (randomUUID cfg) (\<lambda>eid. put_event eid (event\<lparr>ev_id := eid, ev_at := now\<rparr>) now)"

subsection \<open>Helpers\<close>

definition normalizeRecord :: "claw_record \<Rightarrow> claw_record" where
  "normalizeRecord r = (if safe_int (c_revision r) \<and> 0 \<le> c_revision r then r else r\<lparr>c_revision := 0\<rparr>)"

definition require_claw :: "string \<Rightarrow> claw_record regc" where
  "require_claw k = (\<lambda>s. (bindR (sql_lookup k (rg_claws s)) (\<lambda>found.
     case found of None \<Rightarrow> Inl (RequestError ''claw not found'') | Some r \<Rightarrow> Inr (normalizeRecord r)), s))"

definition requirePolicies :: "registry_config \<Rightarrow> unit regc" where
  "requirePolicies cfg = refuseC (\<not> cfg_policies cfg) (RequestError ''policy storage is unavailable'')"

definition requirePolicy :: "registry_config \<Rightarrow> string \<Rightarrow> policy_template regc" where
  "requirePolicy cfg k = thenC (requirePolicies cfg) (\<lambda>s. (bindR (sql_lookup k (rg_policies s)) (\<lambda>found.
     case found of None \<Rightarrow> Inl (RequestError ''policy not found'') | Some p \<Rightarrow> Inr p), s))"

definition requirePolicyText :: "jsval \<Rightarrow> string \<Rightarrow> nat \<Rightarrow> bool \<Rightarrow> string result" where
  "requirePolicyText v label limit allowEmpty =
     (case v of
        JStr t \<Rightarrow>
          let clean = trim t in
          if (\<not> allowEmpty \<and> clean = []) \<or> limit < length clean
          then Inl (RequestError (label @ '' must be '' @ (if allowEmpty then ''at most '' else ''between 1 and '') @ nat_str limit @ '' characters''))
          else Inr clean
      | _ \<Rightarrow> Inl (RequestError (label @ '' is required'')))"

definition requirePolicyVersion :: "policy_template \<Rightarrow> jsval \<Rightarrow> policy_version result" where
  "requirePolicyVersion p v =
     (case js_integer v of
        None \<Rightarrow> Inl (RequestError ''policy version must be a positive integer'')
      | Some n \<Rightarrow>
          if n < 1 then Inl (RequestError ''policy version must be a positive integer'')
          else (case find (\<lambda>item. pv_version item = n) (pt_versions p) of
                  None \<Rightarrow> Inl (RequestError (''policy '' @ pt_name p @ '' has no version '' @ int_str n))
                | Some item \<Rightarrow> Inr item))"

definition requireUniqueClawIds :: "jsval \<Rightarrow> string list result" where
  "requireUniqueClawIds v =
     (case v of
        JArr vs \<Rightarrow>
          if vs = [] \<or> 100 < length vs then Inl (RequestError ''policy targets must contain between 1 and 100 claw ids'')
          else let ids = map (\<lambda>x. case x of JStr t \<Rightarrow> trim t | _ \<Rightarrow> []) vs in
            if [] \<in> set ids \<or> \<not> distinct ids then Inl (RequestError ''policy targets must contain unique non-empty claw ids'')
            else Inr ids
      | _ \<Rightarrow> Inl (RequestError ''policy targets must contain between 1 and 100 claw ids''))"

text \<open>A claw that is being removed or is gone.\<close>

definition going :: "claw_record \<Rightarrow> bool" where
  "going r \<longleftrightarrow> ob_phase (c_observed r) = Deleted \<or> ob_phase (c_observed r) = Deleting \<or> ob_deletion (c_observed r) \<noteq> None"

definition assertPolicyTargetMutable :: "claw_record \<Rightarrow> unit result" where
  "assertPolicyTargetMutable r =
     refuse_if (going r) (RequestError (''cannot apply policy to deleting or deleted claw '' @ d_name (c_desired r)))"

definition deploymentPlacement :: "claw_record \<Rightarrow> string \<times> string \<times> string option" where
  "deploymentPlacement r =
     (let d = d_deployment (c_desired r) in
      (dp_target d, dp_profile d, case dp_region d of None \<Rightarrow> None | Some t \<Rightarrow> if t = [] then None else Some t))"

definition coalesce_all :: "jsval list \<Rightarrow> jsval" where
  \<comment> \<open>\<open>a ?? b ?? c\<close>\<close>
  "coalesce_all vs = foldr coalesce vs JUndef"

definition js_text :: "string option \<Rightarrow> jsval" where
  "js_text t = (case t of None \<Rightarrow> JUndef | Some x \<Rightarrow> JStr x)"

definition withDefaultDeployment :: "registry_config \<Rightarrow> jsval \<Rightarrow> jsval" where
  "withDefaultDeployment cfg input =
     (case cfg_default cfg of
        None \<Rightarrow> input
      | Some (name, dflt) \<Rightarrow>
          let deployment = get input ''deployment'';
              target = coalesce (get deployment ''target'') (JStr name);
              configured = (case cfg_targets cfg of None \<Rightarrow> None
                | Some ts \<Rightarrow> (case target of JStr t \<Rightarrow> map_of ts t | _ \<Rightarrow> None));
              profile = coalesce_all [get deployment ''profile'', js_text (map_option tg_profile configured), JStr (tg_profile dflt)];
              region = coalesce_all [get deployment ''region'', js_text (case configured of None \<Rightarrow> None | Some c \<Rightarrow> tg_region c),
                         js_text (tg_region dflt)];
              appliance = get deployment ''appliance''
          in spread input (JObj [(''deployment'', JObj ([(''target'', target), (''profile'', profile)] @
               (if truthy region then [(''region'', region)] else []) @
               (if truthy appliance then [(''appliance'', appliance)] else [])))]))"

definition assertDeployment :: "registry_config \<Rightarrow> deployment_spec \<Rightarrow> unit result" where
  "assertDeployment cfg d =
     (case cfg_targets cfg of
        None \<Rightarrow> Inr ()
      | Some ts \<Rightarrow>
          (case map_of ts (dp_target d) of
             None \<Rightarrow> Inl (RequestError (''deployment target '' @ dp_target d @ '' is not configured''))
           | Some c \<Rightarrow>
               bindR (refuse_if (dp_profile d \<noteq> tg_profile c)
                 (RequestError (''deployment profile for '' @ dp_target d @ '' must be '' @ tg_profile c))) (\<lambda>_.
               refuse_if ((case dp_region d of None \<Rightarrow> [] | Some t \<Rightarrow> t) \<noteq> (case tg_region c of None \<Rightarrow> [] | Some t \<Rightarrow> t))
                 (RequestError (''deployment region for '' @ dp_target d @ '' must be '' @
                    (case tg_region c of None \<Rightarrow> ''unset'' | Some t \<Rightarrow> t))))))"

subsection \<open>Reading\<close>

definition list_claws :: "reg \<Rightarrow> claw_record list" where
  "list_claws s = sort_key (\<lambda>r. - c_updated r) (map (normalizeRecord \<circ> e_value) (sql_entries (rg_claws s)))"

definition get_claw :: "string \<Rightarrow> claw_record regc" where
  "get_claw k = require_claw k"

definition listPolicies :: "registry_config \<Rightarrow> reg \<Rightarrow> policy_template list" where
  "listPolicies cfg s =
     (if \<not> cfg_policies cfg then [] else sort_key (\<lambda>p. locale_key (pt_name p)) (map e_value (sql_entries (rg_policies s))))"

record registry_snapshot =
  sn_summary :: fleet_summary
  sn_claws :: "claw_record list"
  sn_events :: "audit_event list"
  sn_policies :: "policy_template list"

definition snapshot :: "registry_config \<Rightarrow> reg \<Rightarrow> registry_snapshot" where
  "snapshot cfg s =
     \<lparr>sn_summary = fleetSummary (list_claws s), sn_claws = list_claws s,
      sn_events = take 200 (sort_key (\<lambda>e. - ev_at e) (map e_value (sql_entries (rg_events s)))),
      sn_policies = listPolicies cfg s\<rparr>"

subsection \<open>Policies\<close>

definition createPolicy :: "registry_config \<Rightarrow> jsval \<Rightarrow> string \<Rightarrow> int \<Rightarrow> policy_template regc" where
  "createPolicy cfg input actor now = serialize cfg
     (thenC (requirePolicies cfg)
     (bindC (liftR (requirePolicyText (get input ''name'') ''policy name'' 80 False)) (\<lambda>name.
      bindC (liftR (if get input ''description'' = JUndef then Inr []
                    else requirePolicyText (get input ''description'') ''policy description'' 240 True)) (\<lambda>description.
      bindC (getC (\<lambda>s. \<exists>e\<in>set (rg_policies s). to_lower (pt_name (e_value e)) = to_lower name)) (\<lambda>duplicate.
      thenC (refuseC duplicate (RequestError (''a policy named '' @ name @ '' already exists'')))
     (bindC (randomUUID cfg) (\<lambda>pid.
      bindC (liftR (normalizeManagedPolicySpec (cfg_lib cfg) (get input ''spec''))) (\<lambda>spec.
      let policy = \<lparr>pt_id = pid, pt_name = name, pt_description = description,
            pt_versions = [\<lparr>pv_version = 1, pv_at = now, pv_by = actor, pv_spec = spec\<rparr>], pt_created = now, pt_updated = now\<rparr>
      in thenC (put_policy pid policy now)
        (thenC (audit cfg (audit_note None actor ''policy.create'' Outcome_succeeded (''Created policy '' @ name @ '' v1'') None
             (Some [(''policyId'', JStr pid), (''version'', jint 1)])) now)
        (retC policy))))))))))"

definition js_policy_spec :: "policy_spec \<Rightarrow> jsval" where
  "js_policy_spec x = JObj [(''inference'', JObj [(''model'', JStr (ps_model x)), (''fallbackModels'', js_strings (ps_fallback x))]),
     (''slackEnabled'', JBool (ps_slack x)), (''access'', js_access (ps_access x)),
     (''observability'', JObj [(''logLevel'', JStr (ps_level x))])]"

definition addPolicyVersion :: "registry_config \<Rightarrow> string \<Rightarrow> jsval \<Rightarrow> string \<Rightarrow> int \<Rightarrow> policy_template regc" where
  "addPolicyVersion cfg pid input actor now = serialize cfg
     (bindC (requirePolicy cfg pid) (\<lambda>current.
      thenC (refuseC (100 \<le> length (pt_versions current)) (RequestError ''policy version limit reached (100)''))
     (bindC (liftR (normalizeManagedPolicySpec (cfg_lib cfg) (get input ''spec''))) (\<lambda>spec.
      let version = int (length (pt_versions current)) + 1; latest = pv_spec (last (pt_versions current)) in
      thenC (refuseC (canonicalJson (js_policy_spec spec) = canonicalJson (js_policy_spec latest))
               (RequestError ''new policy version must change at least one managed field''))
     (bindC (liftR (if get input ''description'' = JUndef then Inr (pt_description current)
                    else requirePolicyText (get input ''description'') ''policy description'' 240 True)) (\<lambda>description.
      let nxt = current\<lparr>pt_description := description,
            pt_versions := pt_versions current @ [\<lparr>pv_version = version, pv_at = now, pv_by = actor, pv_spec = spec\<rparr>], pt_updated := now\<rparr>
      in thenC (put_policy pid nxt now)
        (thenC (audit cfg (audit_note None actor ''policy.version.create'' Outcome_succeeded
             (''Created policy '' @ pt_name nxt @ '' v'' @ int_str version) None
             (Some [(''policyId'', JStr pid), (''version'', jint version)])) now)
        (retC nxt))))))))"

definition previewPolicy :: "registry_config \<Rightarrow> string \<Rightarrow> jsval \<Rightarrow> jsval \<Rightarrow> policy_preview regc" where
  "previewPolicy cfg pid version clawIds =
     bindC (requirePolicy cfg pid) (\<lambda>policy.
     bindC (liftR (requirePolicyVersion policy version)) (\<lambda>selected.
     bindC (liftR (requireUniqueClawIds clawIds)) (\<lambda>ids.
     bindC (mapC (\<lambda>k. bindC (require_claw k) (\<lambda>claw.
       thenC (liftR (assertPolicyTargetMutable claw))
         (retC \<lparr>tg_claw = k, tg_name = d_name (c_desired claw), tg_generation = d_generation (c_desired claw),
               tg_changes = managedPolicyDiff claw (pv_spec selected)\<rparr>))) ids) (\<lambda>targets.
     retC \<lparr>pp_policy = pt_id policy, pp_name = pt_name policy, pp_version = pv_version selected, pp_targets = targets\<rparr>))))"

text \<open>A template literal's \<open>${v ?? "missing"}\<close> for the values JSON can carry there.\<close>

definition shown :: "jsval \<Rightarrow> string" where
  "shown v = (case v of JUndef \<Rightarrow> ''missing'' | JNull \<Rightarrow> ''missing'' | JStr t \<Rightarrow> t | JBool b \<Rightarrow> (if b then ''true'' else ''false'')
     | JNum n \<Rightarrow> jsnum_str n | _ \<Rightarrow> ''[object Object]'')"

definition check_expected :: "jsval \<Rightarrow> claw_record \<Rightarrow> unit result" where
  "check_expected expected claw =
     bindR (assertPolicyTargetMutable claw) (\<lambda>_.
     let v = get expected (c_id claw); d = c_desired claw in
     refuse_if (js_integer v \<noteq> Some (d_generation d))
       (RequestError (''policy preview is stale for '' @ d_name d @ '': expected generation '' @ shown v @
          '', current generation '' @ int_str (d_generation d))))"

definition apply_one :: "registry_config \<Rightarrow> policy_template \<Rightarrow> policy_version \<Rightarrow> string \<Rightarrow> int \<Rightarrow> claw_record \<Rightarrow>
    (claw_record \<times> bool) regc" where
  \<comment> \<open>the record and whether it changed\<close>
  "apply_one cfg policy selected actor now claw =
     bindC (liftR (bindR (managedPolicyPatch (pt_id policy) (pv_version selected) (pv_spec selected)) (\<lambda>patch.
              updateClawRecord (cfg_lib cfg) claw patch now))) (\<lambda>nxt.
     if nxt = claw then retC (claw, False)
     else thenC (put_claw (c_id claw) nxt now)
       (thenC (audit cfg (audit_note (Some (c_id claw)) actor ''policy.apply'' Outcome_requested
            (''Applied '' @ pt_name policy @ '' v'' @ int_str (pv_version selected) @ '' to '' @ d_name (c_desired claw))
            (Some (d_generation (c_desired nxt)))
            (Some [(''policyId'', JStr (pt_id policy)), (''version'', jint (pv_version selected))])) now)
       (retC (nxt, True))))"

definition applyPolicy :: "registry_config \<Rightarrow> string \<Rightarrow> jsval \<Rightarrow> jsval \<Rightarrow> jsval \<Rightarrow> string \<Rightarrow> int \<Rightarrow>
    (policy_template \<times> claw_record list \<times> claw_record list) regc" where
  "applyPolicy cfg pid version clawIds expected actor now = serialize cfg
     (bindC (requirePolicy cfg pid) (\<lambda>policy.
      bindC (liftR (requirePolicyVersion policy version)) (\<lambda>selected.
      bindC (liftR (requireUniqueClawIds clawIds)) (\<lambda>ids.
      bindC (mapC require_claw ids) (\<lambda>current.
      bindC (liftR (mapR (check_expected expected) current)) (\<lambda>_.
      bindC (mapC (apply_one cfg policy selected actor now) current) (\<lambda>done.
      retC (policy, map fst (filter snd done), map fst (filter (\<lambda>p. \<not> snd p) done)))))))))"

subsection \<open>Claws\<close>

definition create_claw :: "registry_config \<Rightarrow> jsval \<Rightarrow> string \<Rightarrow> int \<Rightarrow> claw_record regc" where
  "create_claw cfg input actor now = serialize cfg
     (bindC (randomUUID cfg) (\<lambda>cid.
      bindC (liftR (createClawRecord (cfg_lib cfg) (withDefaultDeployment cfg input) now cid (cfg_router cfg))) (\<lambda>nxt.
      thenC (liftR (assertDeployment cfg (d_deployment (c_desired nxt))))
     (bindC (getC (\<lambda>s. \<exists>e\<in>set (rg_claws s). d_slug (c_desired (e_value e)) = d_slug (c_desired nxt) \<and>
                          ob_phase (c_observed (e_value e)) \<noteq> Deleted)) (\<lambda>duplicate.
      thenC (refuseC duplicate (RequestError (''a claw with slug '' @ d_slug (c_desired nxt) @ '' already exists'')))
     (thenC (put_claw (c_id nxt) nxt now)
     (thenC (audit cfg (audit_note (Some (c_id nxt)) actor ''claw.create'' Outcome_requested
          (''Requested '' @ d_name (c_desired nxt)) (Some (d_generation (c_desired nxt))) None) now)
     (retC nxt))))))))"

definition update_claw :: "registry_config \<Rightarrow> string \<Rightarrow> jsval \<Rightarrow> string \<Rightarrow> int \<Rightarrow> claw_record regc" where
  "update_claw cfg k patch actor now = serialize cfg
     (bindC (require_claw k) (\<lambda>current.
      thenC (refuseC (going current) (RequestError ''cannot update a deleting or deleted claw''))
     (bindC (liftR (updateClawRecord (cfg_lib cfg) current patch now)) (\<lambda>nxt.
      thenC (liftR (assertDeployment cfg (d_deployment (c_desired nxt))))
     (if nxt = current then retC current
      else thenC (refuseC (ob_lifecycle (c_observed current) \<noteq> None \<and> deploymentPlacement nxt \<noteq> deploymentPlacement current)
               (RequestError ''deployment placement is immutable after workspace allocation; replace the claw instead''))
       (thenC (put_claw k nxt now)
       (thenC (audit cfg (audit_note (Some k) actor ''claw.update'' Outcome_requested
            (''Updated desired state for '' @ d_name (c_desired nxt)) (Some (d_generation (c_desired nxt))) None) now)
       (retC nxt))))))))"

definition setEnabled :: "registry_config \<Rightarrow> string \<Rightarrow> bool \<Rightarrow> string \<Rightarrow> int \<Rightarrow> claw_record regc" where
  "setEnabled cfg k enabled actor now = serialize cfg
     (bindC (require_claw k) (\<lambda>current.
      thenC (refuseC (going current) (RequestError ''cannot change a deleting or deleted claw''))
     (let nxt = setClawEnabled current enabled now in
      if nxt = current then retC current
      else thenC (put_claw k nxt now)
       (thenC (audit cfg (audit_note (Some k) actor (if enabled then ''claw.enable'' else ''claw.disable'') Outcome_requested
            ((if enabled then ''Enabled '' else ''Disabled '') @ d_name (c_desired nxt)) (Some (d_generation (c_desired nxt))) None) now)
       (retC nxt)))))"

definition rotateCredentials :: "registry_config \<Rightarrow> string \<Rightarrow> string \<Rightarrow> int \<Rightarrow> claw_record regc" where
  "rotateCredentials cfg k actor now = serialize cfg
     (bindC (require_claw k) (\<lambda>current.
      thenC (refuseC (going current) (RequestError ''cannot rotate credentials for a deleting or deleted claw''))
     (bindC (liftR (rotateClawCredentials current now)) (\<lambda>nxt.
      thenC (put_claw k nxt now)
     (thenC (audit cfg (audit_note (Some k) actor ''claw.rotate-credentials'' Outcome_requested
          (''Requested credential re-delivery for '' @ d_name (c_desired nxt) @ '' (epoch '' @ int_str (clawCredentialsGeneration nxt) @ '')'')
          (Some (d_generation (c_desired nxt))) None) now)
     (retC nxt))))))"

definition removal_record :: "claw_record \<Rightarrow> int \<Rightarrow> claw_record" where
  "removal_record current now = current\<lparr>c_revision := c_revision current + 1,
     c_desired := (c_desired current)\<lparr>d_enabled := False, d_generation := d_generation (c_desired current) + 1\<rparr>,
     c_observed := (c_observed current)\<lparr>ob_phase := Deleting,
        ob_message := ''Removal requested; disabling child ingress before release'',
        ob_deletion := Some \<lparr>ds_stage = Stage_disable, ds_requested = now, ds_attempt = None, ds_drained = None\<rparr>\<rparr>,
     c_updated := now\<rparr>"

definition requestRemoval :: "registry_config \<Rightarrow> string \<Rightarrow> string \<Rightarrow> string \<Rightarrow> int \<Rightarrow> claw_record regc" where
  "requestRemoval cfg k actor confirmation now = serialize cfg
     (bindC (require_claw k) (\<lambda>current.
      thenC (refuseC (confirmation \<noteq> d_name (c_desired current) \<and> confirmation \<noteq> d_slug (c_desired current))
               (RequestError ''typed confirmation must match the claw name or slug''))
     (if ob_phase (c_observed current) = Deleted then retC current
      else if ob_deletion (c_observed current) \<noteq> None then retC current
      else let nxt = removal_record current now in
       thenC (put_claw k nxt now)
      (thenC (audit cfg (audit_note (Some k) actor ''claw.remove'' Outcome_requested
           (''Requested removal of '' @ d_name (c_desired nxt)) (Some (d_generation (c_desired nxt))) None) now)
      (retC nxt)))))"

definition writeObserved :: "registry_config \<Rightarrow> string \<Rightarrow> claw_observed \<Rightarrow> audit_event option \<Rightarrow> int option \<Rightarrow> int \<Rightarrow> claw_record regc" where
  "writeObserved cfg k observed note expected now = serialize cfg
     (bindC (require_claw k) (\<lambda>current.
      thenC (refuseC (expected \<noteq> None \<and> expected \<noteq> Some (c_revision current)) WriteConflict)
     (let nxt = current\<lparr>c_revision := c_revision current + 1, c_observed := observed, c_updated := now\<rparr> in
      thenC (put_claw k nxt now)
     (thenC (case note of None \<Rightarrow> retC () | Some event \<Rightarrow> audit cfg (event\<lparr>ev_claw := Some k\<rparr>) now)
     (retC nxt)))))"

end
