(* ===== verification/Reconciler.thy ===== *)
theory Reconciler
  imports Registry
begin

text \<open>
  src/reconciler.ts: one reconciliation of a claw. The provider and the inference control are parameters:
  a run takes their answers (\<open>answers\<close>; each is asked at most once in a run) and logs the calls it made. A run
  is a computation on the variable \<open>claw\<close> and that log and ends in a \<open>plan\<close>, what it writes to the
  registry; the write itself and what follows it are \<open>commit\<close>, so that anything may happen to the
  registry between reading and writing. An answer whose optional member is absent keeps the observed
  value; members the observed state does not have (\<open>absent\<close>) are dropped.
\<close>

datatype provider_call = Ask_inference | Ask_inspect bool | Ask_disable | Ask_drain | Ask_remove | Ask_revoke | Ask_provision

record removal_result =
  rm_absent :: bool
  rm_message :: string

record answers =
  an_inference :: "inference_observation result"
  an_inspect :: "inspect_result result"
  an_disable :: "disable_result result"
  an_drain :: "drain_result result"
  an_remove :: "removal_result result"
  an_revoke :: "revoke_result result"
  an_provision :: "provision_result result"
  an_now :: int      \<comment> \<open>the clock when the run starts\<close>
  an_later :: int    \<comment> \<open>the clock after the provider answered\<close>

record reconciler_config =
  rc_registry :: registry_config
  rc_quiet :: rat           \<comment> \<open>\<open>drainQuietPeriodMs\<close>\<close>
  rc_inference :: bool      \<comment> \<open>an inference control is configured\<close>

definition reconciler_created :: "jsnum \<Rightarrow> unit result" where
  "reconciler_created quiet = (case quiet of
     Fin q \<Rightarrow> refuse_if (q < 0) (PlainError ''drain quiet period must be a non-negative number'')
   | _ \<Rightarrow> Inl (PlainError ''drain quiet period must be a non-negative number''))"

record run =
  rn_claw :: claw_record
  rn_calls :: "provider_call list"

datatype plan =
    Keep                                                               \<comment> \<open>return the claw as it is\<close>
  | Write claw_observed "audit_event option"
  | Write_then_provision claw_observed "inference_observation option"

type_synonym 'a runc = "(run, 'a) comp"

definition ask :: "provider_call \<Rightarrow> 'a result \<Rightarrow> 'a runc" where
  "ask c answer = (\<lambda>s. (answer, s\<lparr>rn_calls := rn_calls s @ [c]\<rparr>))"

subsection \<open>Observed states\<close>

definition over :: "'a option \<Rightarrow> 'a \<Rightarrow> 'a" where
  "over v old = (case v of None \<Rightarrow> old | Some x \<Rightarrow> x)"

definition over_opt :: "'a option \<Rightarrow> 'a option \<Rightarrow> 'a option" where
  "over_opt v old = (case v of None \<Rightarrow> old | Some x \<Rightarrow> Some x)"

text \<open>\<open>{ ...observed, ...result }\<close>\<close>

definition with_result :: "claw_observed \<Rightarrow> inspect_result \<Rightarrow> claw_observed" where
  "with_result ob r = ob\<lparr>ob_phase := over (in_phase r) (ob_phase ob), ob_message := over (in_message r) (ob_message ob),
     ob_health := over (in_health r) (ob_health ob), ob_lifecycle := over_opt (in_lifecycle r) (ob_lifecycle ob),
     ob_link := over (in_link r) (ob_link ob), ob_gateway := over_opt (in_gateway r) (ob_gateway ob),
     ob_config := over_opt (in_config r) (ob_config ob), ob_probes := over_opt (in_probes r) (ob_probes ob),
     ob_seen := over_opt (in_seen r) (ob_seen ob)\<rparr>"

definition at_stage :: "deletion_state \<Rightarrow> deletion_stage \<Rightarrow> int \<Rightarrow> deletion_state" where
  "at_stage d stage attempt = d\<lparr>ds_stage := stage, ds_attempt := Some attempt\<rparr>"

definition deleting :: "claw_observed \<Rightarrow> string \<Rightarrow> deletion_state \<Rightarrow> claw_observed" where
  "deleting ob message d = ob\<lparr>ob_phase := Deleting, ob_message := message, ob_deletion := Some d\<rparr>"

definition markProviderAbsent :: "claw_observed \<Rightarrow> string \<Rightarrow> int \<Rightarrow> plan" where
  "markProviderAbsent ob message now =
     (let d = (case ob_deletion ob of Some d \<Rightarrow> d | None \<Rightarrow> \<lparr>ds_stage = Stage_revoke, ds_requested = now, ds_attempt = None, ds_drained = None\<rparr>)
      in Write ((deleting ob message (at_stage d Stage_revoke now))\<lparr>ob_health := Offline\<rparr>) None)"

definition reconciler_note :: "string \<Rightarrow> audit_outcome \<Rightarrow> string \<Rightarrow> int \<Rightarrow> (string \<times> jsval) list option \<Rightarrow> audit_event" where
  "reconciler_note action outcome summary generation details =
     audit_note None ''crabhelm-reconciler'' action outcome summary (Some generation) details"

definition markDeleted :: "claw_record \<Rightarrow> string \<Rightarrow> plan" where
  "markDeleted claw message =
     Write ((c_observed claw)\<lparr>ob_generation := d_generation (c_desired claw), ob_phase := Deleted, ob_health := Offline,
              ob_message := message, ob_link := (ob_link (c_observed claw))\<lparr>cl_status := Link_revoked\<rparr>, ob_deletion := None\<rparr>)
       (Some (reconciler_note ''claw.remove'' Outcome_succeeded
          (''Removed '' @ d_name (c_desired claw) @ ''; provider absence confirmed'') (d_generation (c_desired claw)) None))"

definition inferenceResult :: "inference_observation option \<Rightarrow> operational_probes option \<Rightarrow> inference_observation option" where
  "inferenceResult inference probes =
     map_option (\<lambda>i. i\<lparr>io_verified := io_healthy i \<and> io_catalog i \<and>
        (case probes of None \<Rightarrow> False
         | Some p \<Rightarrow> mp_live (pr_model p) \<and> mp_configured (pr_model p) = io_model i \<and> mp_resolved (pr_model p) = Some (io_model i))\<rparr>) inference"

definition workspace_failed :: "js_error \<Rightarrow> bool" where
  "workspace_failed e = (case e of OperationalError c _ \<Rightarrow> c = CRABBOX_WORKSPACE_FAILED | _ \<Rightarrow> False)"

subsection \<open>Removal, stage by stage\<close>

definition disable_stage :: "answers \<Rightarrow> deletion_state \<Rightarrow> plan runc" where
  "disable_stage ans d =
     bindC (getC (\<lambda>s. c_observed (rn_claw s))) (\<lambda>ob.
     bindC (catchC (bindC (ask (Ask_inspect False) (an_inspect ans)) (\<lambda>p. retC (Some p)))
        (\<lambda>e. if workspace_failed e then retC None else throwC e)) (\<lambda>state.
     case state of
       None \<Rightarrow> retC (Write ((deleting ob ''Provider reports a failed workspace; central ingress is closed and runtime drain is next''
                 (at_stage d Stage_drain (an_now ans)))\<lparr>ob_health := Offline\<rparr>) None)
     | Some p \<Rightarrow>
         if in_absent p then retC (markProviderAbsent ob (over (in_message p) ''Provider resource confirmed absent'') (an_later ans))
         else bindC (ask Ask_disable (an_disable ans)) (\<lambda>r.
           thenC (refuseC (\<not> dr_applied r) (PlainError (over (in_message (dr_inspect r)) ''child disable was not applied'')))
             (retC (Write (deleting (with_result ob (dr_inspect r))
                ''Child ingress disabled; waiting for active agent runs to drain'' (at_stage d Stage_drain (an_now ans))) None)))))"

definition drain_stage :: "reconciler_config \<Rightarrow> answers \<Rightarrow> deletion_state \<Rightarrow> plan runc" where
  "drain_stage cfg ans d =
     bindC (getC (\<lambda>s. c_observed (rn_claw s))) (\<lambda>ob.
     bindC (catchC (bindC (ask (Ask_inspect False) (an_inspect ans)) (\<lambda>p. retC (if in_absent p then Some (in_message p) else None)))
        (\<lambda>e. if workspace_failed e then retC None else throwC e)) (\<lambda>gone.
     case gone of
       Some message \<Rightarrow> retC (markProviderAbsent ob (over message ''Provider resource confirmed absent during drain'') (an_later ans))
     | None \<Rightarrow>
         bindC (ask Ask_drain (an_drain ans)) (\<lambda>r.
         retC (if \<not> dn_drained r then
             Write (deleting ob (dn_message r) (d\<lparr>ds_attempt := Some (an_now ans), ds_drained := None\<rparr>)) None
           else (case ds_drained d of
               None \<Rightarrow> Write (deleting ob ''No active child runs; confirming a quiet drain period before release''
                         (d\<lparr>ds_attempt := Some (an_now ans), ds_drained := Some (an_later ans)\<rparr>)) None
             | Some since \<Rightarrow>
                 if of_int (an_later ans - since) < rc_quiet cfg then
                   Write (deleting ob ''No active child runs; quiet drain period is still in progress''
                     (d\<lparr>ds_attempt := Some (an_now ans)\<rparr>)) None
                 else Write (deleting ob ''Child ingress disabled and active runs drained; provider release is next''
                     (at_stage d Stage_release (an_now ans))) None)))))"

definition release_stage :: "answers \<Rightarrow> deletion_state \<Rightarrow> plan runc" where
  "release_stage ans d =
     bindC (getC (\<lambda>s. c_observed (rn_claw s))) (\<lambda>ob.
     bindC (ask Ask_remove (an_remove ans)) (\<lambda>r.
     retC (if rm_absent r then markProviderAbsent ob (rm_message r) (an_later ans)
           else Write (deleting ob (rm_message r) (at_stage d Stage_confirm (an_now ans))) None)))"

definition confirm_stage :: "answers \<Rightarrow> deletion_state \<Rightarrow> plan runc" where
  "confirm_stage ans d =
     bindC (getC (\<lambda>s. c_observed (rn_claw s))) (\<lambda>ob.
     bindC (ask Ask_remove (an_remove ans)) (\<lambda>r.
     retC (if rm_absent r then markProviderAbsent ob (rm_message r) (an_later ans)
           else Write (deleting ob (rm_message r) (d\<lparr>ds_attempt := Some (an_now ans)\<rparr>)) None)))"

definition revoke_stage :: "answers \<Rightarrow> plan runc" where
  "revoke_stage ans =
     bindC (getC rn_claw) (\<lambda>claw.
     bindC (ask Ask_revoke (an_revoke ans)) (\<lambda>r.
     thenC (refuseC (\<not> rv_absent r \<and> \<not> rv_removed r \<and> \<not> rv_rejected r) (PlainError ''native parent pairing absence was not confirmed''))
       (retC (markDeleted claw (ob_message (c_observed claw) @ ''; '' @ rv_message r)))))"

definition removal_step :: "reconciler_config \<Rightarrow> answers \<Rightarrow> deletion_state \<Rightarrow> plan runc" where
  "removal_step cfg ans d =
     (case ds_stage d of Stage_disable \<Rightarrow> disable_stage ans d | Stage_drain \<Rightarrow> drain_stage cfg ans d
      | Stage_release \<Rightarrow> release_stage ans d | Stage_confirm \<Rightarrow> confirm_stage ans d | Stage_revoke \<Rightarrow> revoke_stage ans)"

subsection \<open>Serving a claw\<close>

definition proof_missing :: string where
  "proof_missing = ''ClawRouter configuration is present but live routed inference proof is missing''"

definition disable_claw :: "answers \<Rightarrow> plan runc" where
  "disable_claw ans =
     bindC (getC rn_claw) (\<lambda>claw.
     bindC (ask Ask_disable (an_disable ans)) (\<lambda>r.
     thenC (refuseC (\<not> dr_applied r) (PlainError (over (in_message (dr_inspect r)) ''child disable was not applied'')))
       (retC (Write ((with_result (c_observed claw) (dr_inspect r))\<lparr>ob_generation := d_generation (c_desired claw), ob_phase := Disabled\<rparr>) None))))"

definition verified :: "inference_observation option \<Rightarrow> inference_observation option \<Rightarrow> bool" where
  \<comment> \<open>\<open>!inference || resultInference?.routeVerified === true\<close>\<close>
  "verified inference res \<longleftrightarrow> inference = None \<or> (case res of Some i \<Rightarrow> io_verified i | None \<Rightarrow> False)"

definition provision_claw :: "answers \<Rightarrow> inference_observation option \<Rightarrow> plan runc" where
  "provision_claw ans inference =
     bindC (getC rn_claw) (\<lambda>claw.
     bindC (ask Ask_provision (an_provision ans)) (\<lambda>r.
     let i = inferenceResult inference (pv_probes r); ready = (pv_phase r = Ready \<and> verified inference i);
         unproven = (pv_phase r = Ready \<and> \<not> ready)
     in retC (Write \<lparr>ob_generation = (if ready then d_generation (c_desired claw) else 0),
          ob_phase = (if unproven then Attention else pv_phase r), ob_message = (if unproven then proof_missing else pv_message r),
          ob_health = (if unproven then Degraded else pv_health r), ob_lifecycle = Some (pv_lifecycle r),
          ob_link = over (pv_link r) (ob_link (c_observed claw)), ob_gateway = pv_gateway r, ob_config = pv_config r,
          ob_seen = (if ready then Some (an_later ans) else None), ob_inference = i, ob_probes = pv_probes r,
          ob_deletion = None, ob_access = None\<rparr>
        (if ready then Some (reconciler_note ''claw.create'' Outcome_succeeded (d_name (c_desired claw) @ '' is ready'')
                              (d_generation (c_desired claw)) None) else None))))"

definition link_lost :: "control_link \<Rightarrow> control_link" where
  "link_lost l = l\<lparr>cl_status := Link_offline, cl_seen := None\<rparr>"

definition provider_gone :: "claw_record \<Rightarrow> plan" where
  "provider_gone claw =
     Write ((c_observed claw)\<lparr>ob_generation := 0, ob_phase := Provisioning, ob_health := Offline,
        ob_message := ''Provider resource expired or disappeared; recreating the managed runtime'', ob_lifecycle := None,
        ob_link := link_lost (ob_link (c_observed claw)), ob_gateway := None, ob_config := None, ob_probes := None, ob_seen := None\<rparr>)
       (Some (reconciler_note ''claw.recover'' Outcome_requested
          (d_name (c_desired claw) @ '' provider resource was absent; replacement requested'') (d_generation (c_desired claw)) None))"

definition invalidated :: "claw_observed \<Rightarrow> claw_observed" where
  "invalidated ob = ob\<lparr>ob_generation := 0, ob_link := link_lost (ob_link ob), ob_gateway := None, ob_config := None, ob_probes := None,
     ob_seen := None, ob_inference := map_option (\<lambda>i. i\<lparr>io_verified := False\<rparr>) (ob_inference ob)\<rparr>"

definition inspected :: "js_lib \<Rightarrow> claw_record \<Rightarrow> inference_observation option \<Rightarrow> inspect_result \<Rightarrow> claw_observed" where
  "inspected lib claw inference r =
     (let ready = (in_phase r = Some Ready \<and> in_health r = Some Healthy); i = inferenceResult inference (in_probes r);
          routed = (ready \<and> verified inference i); unproven = (ready \<and> \<not> routed);
          applied = (in_config r = Some (childPolicyHash lib claw));
          previous = (if in_invalidate r then invalidated (c_observed claw) else c_observed claw);
          ob = with_result previous r
      in ob\<lparr>ob_generation := (if routed \<or> applied then d_generation (c_desired claw) else ob_generation previous),
            ob_phase := (if unproven then Attention else over (in_phase r) (ob_phase previous)),
            ob_message := (if unproven then proof_missing else over (in_message r) (ob_message previous)),
            ob_health := (if unproven then Degraded else over (in_health r) (ob_health previous)),
            ob_inference := (case i of Some x \<Rightarrow> Some x | None \<Rightarrow> ob_inference previous)\<rparr>)"

definition inspect_claw :: "reconciler_config \<Rightarrow> answers \<Rightarrow> inference_observation option \<Rightarrow> plan runc" where
  "inspect_claw cfg ans inference =
     bindC (getC rn_claw) (\<lambda>claw.
     bindC (ask (Ask_inspect True) (an_inspect ans)) (\<lambda>r.
     retC (if in_absent r then provider_gone claw
           else Write (inspected (cfg_lib (rc_registry cfg)) claw inference r) None)))"

subsection \<open>A run\<close>

definition serve_claw :: "reconciler_config \<Rightarrow> answers \<Rightarrow> inference_observation option \<Rightarrow> plan runc" where
  "serve_claw cfg ans inference =
     bindC (getC rn_claw) (\<lambda>claw.
     case ob_deletion (c_observed claw) of
       Some d \<Rightarrow> removal_step cfg ans d
     | None \<Rightarrow>
         if \<not> d_enabled (c_desired claw) then disable_claw ans
         else if ob_lifecycle (c_observed claw) = None then
           retC (Write_then_provision ((c_observed claw)\<lparr>ob_phase := Provisioning,
                   ob_message := ''Creating one isolated child workspace''\<rparr>) inference)
         else inspect_claw cfg ans inference)"

definition run_body :: "reconciler_config \<Rightarrow> answers \<Rightarrow> plan runc" where
  "run_body cfg ans =
     bindC (getC rn_claw) (\<lambda>read.
     if ob_phase (c_observed read) = Deleted then retC Keep
     else bindC (case inf_router (d_inference (c_desired read)) of
          Direct \<Rightarrow> retC None
        | Routed _ \<Rightarrow>
            thenC (refuseC (\<not> rc_inference cfg)
              (OperationalError CLAWROUTER_UNCONFIGURED ''ClawRouter desired state has no configured inference control''))
            (bindC (ask Ask_inference (an_inference ans)) (\<lambda>i. retC (Some i)))) (\<lambda>inference.
     thenC (case inference of None \<Rightarrow> retC ()
        | Some i \<Rightarrow> modC (\<lambda>s. s\<lparr>rn_claw := (rn_claw s)\<lparr>c_observed := (c_observed (rn_claw s))\<lparr>ob_inference := Some i\<rparr>\<rparr>\<rparr>))
     (serve_claw cfg ans inference)))"

definition safeReconcileFailure :: "js_error \<Rightarrow> claw_record \<Rightarrow> op_code \<times> string" where
  "safeReconcileFailure e claw =
     (if ob_deletion (c_observed claw) \<noteq> None
      then safeOperationalFailure e (CHILD_REMOVAL_FAILED, ''Child removal did not complete'')
      else if ob_lifecycle (c_observed claw) = None
      then safeOperationalFailure e (CHILD_PROVISION_FAILED, ''Child provisioning did not complete'')
      else safeOperationalFailure e (CHILD_RECONCILE_FAILED, ''Child reconciliation did not complete''))"

definition failure_plan :: "js_error \<Rightarrow> claw_record \<Rightarrow> plan" where
  "failure_plan e claw =
     (let (code, why) = safeReconcileFailure e claw; message = why @ '' ['' @ code_name code @ '']'' in
      Write ((c_observed claw)\<lparr>ob_phase := Attention, ob_health := Degraded, ob_message := slice 500 message\<rparr>)
        (Some (reconciler_note ''claw.reconcile'' Outcome_failed (slice 300 message) (d_generation (c_desired claw))
           (Some [(''code'', JStr (code_name code))]))))"

text \<open>A write that is due: the record it was computed from, the plan, and whether it reports a failure
  (then an error of the write itself ends the run).\<close>

record due =
  du_claw :: claw_record
  du_plan :: plan
  du_failing :: bool

definition plan_of :: "plan result \<times> run \<Rightarrow> due" where
  "plan_of out = (case out of
     (Inr p, s) \<Rightarrow> \<lparr>du_claw = rn_claw s, du_plan = p, du_failing = False\<rparr>
   | (Inl e, s) \<Rightarrow> \<lparr>du_claw = rn_claw s, du_plan = failure_plan e (rn_claw s), du_failing = True\<rparr>)"

definition start_run :: "reconciler_config \<Rightarrow> answers \<Rightarrow> claw_record \<Rightarrow> due" where
  "start_run cfg ans claw = plan_of (run_body cfg ans \<lparr>rn_claw = claw, rn_calls = []\<rparr>)"

definition write_due :: "reconciler_config \<Rightarrow> claw_record \<Rightarrow> claw_observed \<Rightarrow> audit_event option \<Rightarrow> int \<Rightarrow> claw_record regc" where
  "write_due cfg claw ob note now = writeObserved (rc_registry cfg) (c_id claw) ob note (Some (c_revision claw)) now"

text \<open>Carrying out a plan: the write that is due afterwards, or none when the run is over. A write conflict ends the
  run; another error of a write is reported by a further one, unless that was a report already.\<close>

definition commit :: "reconciler_config \<Rightarrow> answers \<Rightarrow> int \<Rightarrow> due \<Rightarrow> due option regc" where
  "commit cfg ans now due =
     (let claw = du_claw due;
          failed = (\<lambda>e. if e = WriteConflict then retC None
            else if du_failing due then throwC e
            else retC (Some \<lparr>du_claw = claw, du_plan = failure_plan e claw, du_failing = True\<rparr>))
      in case du_plan due of
        Keep \<Rightarrow> retC None
      | Write ob note \<Rightarrow> catchC (thenC (write_due cfg claw ob note now) (retC None)) failed
      | Write_then_provision ob inference \<Rightarrow>
          catchC (bindC (write_due cfg claw ob None now) (\<lambda>written.
            retC (Some (plan_of (provision_claw ans inference \<lparr>rn_claw = written, rn_calls = []\<rparr>))))) failed)"

text \<open>A whole run with nothing in between: three writes at most.\<close>

fun finish_run :: "nat \<Rightarrow> reconciler_config \<Rightarrow> answers \<Rightarrow> int \<Rightarrow> due option \<Rightarrow> unit regc" where
  "finish_run 0 cfg ans now due = retC ()"
| "finish_run (Suc n) cfg ans now None = retC ()"
| "finish_run (Suc n) cfg ans now (Some due) = bindC (commit cfg ans now due) (finish_run n cfg ans now)"

definition reconcileOne :: "reconciler_config \<Rightarrow> answers \<Rightarrow> int \<Rightarrow> string \<Rightarrow> claw_record regc" where
  "reconcileOne cfg ans now k =
     bindC (get_claw k) (\<lambda>claw.
       thenC (finish_run 3 cfg ans now (Some (start_run cfg ans claw))) (get_claw k))"

text \<open>\<open>reconcileAll\<close>: every listed claw in turn; the first failure ends the round.\<close>

definition reconcileAll :: "reconciler_config \<Rightarrow> (string \<Rightarrow> answers) \<Rightarrow> int \<Rightarrow> unit regc" where
  "reconcileAll cfg ans now = bindC (getC list_claws) (\<lambda>claws. forC (\<lambda>claw. reconcileOne cfg (ans (c_id claw)) now (c_id claw)) claws)"

end
