(* ===== verification/Registry_Safety.thy ===== *)
theory Registry_Safety
  imports Registry
begin

text \<open>
  Every operation of the registry moves the claws only by \<open>claw_change\<close>: a claw is created, a stored claw is
  changed to what one of the domain operations makes of it, or its observed state is written. The
  contract of optimistic writing (\<open>versioned\<close>) follows: a claw whose revision did not change did not
  change at all.
\<close>

named_theorems moves_rules "how the claws move under a computation"

subsection \<open>Writing a claw\<close>

definition claw_at :: "string \<Rightarrow> reg \<Rightarrow> claw_record option" where
  "claw_at k s = map_option normalizeRecord (mem_lookup k (rg_claws s))"

lemma require_claw_Inr: "require_claw k s = (Inr r, t) \<longleftrightarrow> t = s \<and> requireKey k = Inr () \<and> claw_at k s = Some r"
  by (auto simp: require_claw_def sql_lookup_def claw_at_def mem_lookup_def split: option.splits)

lemma require_claw_state [simp]: "snd (require_claw k s) = s"
  by (simp add: require_claw_def)

lemma put_claw_Inr: "put_claw k r now s = (Inr u, t) \<longleftrightarrow>
    (\<exists>tb. sql_register claws_options k r now (rg_claws s) = Inr tb \<and> t = s\<lparr>rg_claws := tb\<rparr>)"
  by (auto simp: put_claw_def split: sum.splits)

lemma put_claw_Inl: "put_claw k r now s = (Inl e, t) \<Longrightarrow> t = s"
  by (auto simp: put_claw_def split: sum.splits)

lemma put_claw_lookup:
  assumes "table_wf (rg_claws s)" "put_claw k r now s = (Inr u, t)"
  shows "mem_lookup k' (rg_claws t) = (if k' = k then Some r else mem_lookup k' (rg_claws s))"
proof -
  obtain tb where tb: "sql_register claws_options k r now (rg_claws s) = Inr tb" "t = s\<lparr>rg_claws := tb\<rparr>"
    using assms(2) by (auto simp: put_claw_Inr)
  have "\<not> evict_oldest claws_options" by (simp add: claws_options_def)
  then have "k' \<noteq> k \<Longrightarrow> mem_lookup k' tb = mem_lookup k' (rg_claws s)"
    using sql.register_no_loss [OF assms(1) _ tb(1)] by blast
  then show ?thesis using sql.register_same [OF assms(1) tb(1)] tb(2) by simp
qed

lemma put_claw_wf: "table_wf (rg_claws s) \<Longrightarrow> put_claw k r now s = (Inr u, t) \<Longrightarrow> table_wf (rg_claws t)"
  using sql.register_wf by (auto simp: put_claw_Inr)

lemma put_claw_same:
  assumes "put_claw k r now s = (Inr u, t)"
  shows "rg_uuids t = rg_uuids s" "rg_policies t = rg_policies s" "rg_events t = rg_events s"
  using assms by (auto simp: put_claw_Inr)

subsection \<open>How claws change\<close>

text \<open>What the owner of a claw can make of it.\<close>

inductive desired_change :: "registry_config \<Rightarrow> claw_record \<Rightarrow> claw_record \<Rightarrow> bool" for cfg where
  by_update: "updateClawRecord (cfg_lib cfg) r patch now = Inr r' \<Longrightarrow> r' \<noteq> r \<Longrightarrow> \<not> going r \<Longrightarrow> desired_change cfg r r'"
| by_enable: "r' = setClawEnabled r b now \<Longrightarrow> r' \<noteq> r \<Longrightarrow> \<not> going r \<Longrightarrow> desired_change cfg r r'"
| by_rotation: "rotateClawCredentials r now = Inr r' \<Longrightarrow> \<not> going r \<Longrightarrow> desired_change cfg r r'"
| by_removal: "r' = removal_record r now \<Longrightarrow> ob_phase (c_observed r) \<noteq> Deleted \<Longrightarrow> ob_deletion (c_observed r) = None \<Longrightarrow> desired_change cfg r r'"

definition slug_free :: "string \<Rightarrow> reg \<Rightarrow> bool" where
  "slug_free slug s \<longleftrightarrow> (\<forall>e\<in>set (rg_claws s). d_slug (c_desired (e_value e)) = slug \<longrightarrow> ob_phase (c_observed (e_value e)) = Deleted)"

inductive claw_change :: "registry_config \<Rightarrow> (claw_record \<Rightarrow> claw_observed \<Rightarrow> bool) \<Rightarrow> reg \<Rightarrow> reg \<Rightarrow> bool" for cfg W where
  elsewhere: "rg_claws t = rg_claws s \<Longrightarrow> rg_uuids s \<le> rg_uuids t \<Longrightarrow> claw_change cfg W s t"
| created: "createClawRecord (cfg_lib cfg) input now (cfg_uuid cfg (rg_uuids s)) (cfg_router cfg) = Inr r \<Longrightarrow>
    slug_free (d_slug (c_desired r)) s \<Longrightarrow> put_claw (c_id r) r now s = (Inr (), u) \<Longrightarrow>
    rg_claws t = rg_claws u \<Longrightarrow> Suc (rg_uuids s) \<le> rg_uuids t \<Longrightarrow> claw_change cfg W s t"
| changed: "claw_at k s = Some r \<Longrightarrow> desired_change cfg r r' \<Longrightarrow> put_claw k r' now s = (Inr (), t) \<Longrightarrow> claw_change cfg W s t"
| observed: "claw_at k s = Some r \<Longrightarrow> W r ob \<Longrightarrow>
    put_claw k (r\<lparr>c_revision := c_revision r + 1, c_observed := ob, c_updated := now\<rparr>) now s = (Inr (), t) \<Longrightarrow> claw_change cfg W s t"

text \<open>At most \<open>n\<close> changes, not counting steps that leave the claws alone.\<close>

inductive changes :: "registry_config \<Rightarrow> (claw_record \<Rightarrow> claw_observed \<Rightarrow> bool) \<Rightarrow> nat \<Rightarrow> reg \<Rightarrow> reg \<Rightarrow> bool" for cfg W where
  none: "changes cfg W n s s"
| idle: "changes cfg W n s t \<Longrightarrow> rg_claws u = rg_claws t \<Longrightarrow> rg_uuids t \<le> rg_uuids u \<Longrightarrow> changes cfg W n s u"
| more: "changes cfg W n s t \<Longrightarrow> claw_change cfg W t u \<Longrightarrow> changes cfg W (Suc n) s u"

definition moves :: "registry_config \<Rightarrow> (claw_record \<Rightarrow> claw_observed \<Rightarrow> bool) \<Rightarrow> nat \<Rightarrow> reg \<Rightarrow> (reg, 'a) comp \<Rightarrow> bool" where
  "moves cfg W n s m \<longleftrightarrow> changes cfg W n s (snd (m s))"

lemma changes_trans: "changes cfg W n t u \<Longrightarrow> changes cfg W m s t \<Longrightarrow> changes cfg W (m + n) s u"
proof (induction rule: changes.induct)
  case (none n t)
  then show ?case by (induction rule: changes.induct) (auto intro: changes.intros)
qed (auto intro: changes.intros)

lemma changes_uuids: "changes cfg W n s t \<Longrightarrow> rg_uuids s \<le> rg_uuids t"
  by (induction rule: changes.induct) (auto elim!: claw_change.cases dest: put_claw_same)

lemma moves_basic [moves_rules]:
  "moves cfg W n s (retC a)" "moves cfg W n s (throwC e)" "moves cfg W n s (getC f)" "moves cfg W n s (liftR r)"
  "moves cfg W n s (refuseC b e)" "moves cfg W n s (require_claw k)"
  by (simp_all add: moves_def none)

lemma moves_bind_add:
  assumes "moves cfg W m' s m" "\<And>a t. m s = (Inr a, t) \<Longrightarrow> moves cfg W n t (f a)"
  shows "moves cfg W (m' + n) s (bindC m f)"
proof (cases "m s")
  case (Pair res t)
  then have st: "changes cfg W m' s t" using assms(1) by (simp add: moves_def)
  show ?thesis
  proof (cases res)
    case (Inl e)
    then show ?thesis using changes_trans [OF none st] Pair by (simp add: moves_def bindC_def)
  next
    case (Inr a)
    then show ?thesis using changes_trans [OF _ st] assms(2) Pair by (simp add: moves_def bindC_def)
  qed
qed

text \<open>Reading comes first, so that the changes are those of what follows.\<close>

lemma moves_bind:
  assumes "moves cfg W 0 s m" "\<And>a t. m s = (Inr a, t) \<Longrightarrow> moves cfg W n t (f a)"
  shows "moves cfg W n s (bindC m f)"
  using moves_bind_add [of cfg W 0 s m n f] assms by simp

lemma moves_then:
  "moves cfg W 0 s m \<Longrightarrow> (\<And>a t. m s = (Inr a, t) \<Longrightarrow> moves cfg W n t k) \<Longrightarrow> moves cfg W n s (thenC m k)"
  unfolding thenC_def by (rule moves_bind)

lemma moves_if: "(b \<Longrightarrow> moves cfg W n s m) \<Longrightarrow> (\<not> b \<Longrightarrow> moves cfg W n s k) \<Longrightarrow> moves cfg W n s (if b then m else k)"
  by simp

lemma moves_serialize:
  assumes "moves cfg W n s m"
  shows "moves cfg W n s (serialize cfg' m)"
proof (cases "m s")
  case (Pair res t)
  then have st: "changes cfg W n s t" using assms by (simp add: moves_def)
  have "changes cfg W n s (s\<lparr>rg_uuids := rg_uuids t\<rparr>)"
    by (rule idle [OF none]) (simp_all add: changes_uuids [OF st])
  then show ?thesis using Pair st by (cases res) (auto simp: moves_def serialize_def)
qed

lemma moves_uuid [moves_rules]: "moves cfg W n s (randomUUID cfg')"
  by (auto simp: moves_def randomUUID_def intro!: idle [OF none])

lemma moves_put_event [moves_rules]: "moves cfg W n s (put_event k e now)"
  by (auto simp: moves_def put_event_def intro!: idle [OF none] split: sum.splits)

lemma moves_put_policy [moves_rules]: "moves cfg W n s (put_policy k e now)"
  by (auto simp: moves_def put_policy_def intro!: idle [OF none] split: sum.splits)

lemma moves_audit [moves_rules]: "moves cfg W n s (audit cfg' e now)"
  unfolding audit_def by (intro moves_bind moves_uuid moves_put_event)

lemma moves_write:
  assumes "\<And>t. put_claw k r now s = (Inr (), t) \<Longrightarrow> claw_change cfg W s t" "\<And>t. moves cfg W 0 t rest"
  shows "moves cfg W (Suc 0) s (thenC (put_claw k r now) rest)"
proof (cases "put_claw k r now s")
  case (Pair res t)
  show ?thesis
  proof (cases res)
    case (Inl e)
    then show ?thesis using Pair put_claw_Inl [of k r now s e t] by (simp add: moves_def thenC_def bindC_def none)
  next
    case (Inr u)
    then have "changes cfg W (Suc 0) s t" using assms(1) Pair by (intro more [OF none]) simp
    from changes_trans [OF assms(2) [unfolded moves_def] this] show ?thesis
      using Inr Pair by (simp add: moves_def thenC_def bindC_def)
  qed
qed

lemma moves_changed:
  "claw_at k s = Some r \<Longrightarrow> desired_change cfg r r' \<Longrightarrow> (\<And>t. moves cfg W 0 t rest) \<Longrightarrow>
    moves cfg W (Suc 0) s (thenC (put_claw k r' now) rest)"
  by (intro moves_write) (rule changed)

lemma liftR_state: "liftR r s = (Inr a, t) \<longleftrightarrow> t = s \<and> r = Inr a"
  "refuseC b e s = (Inr u, t) \<longleftrightarrow> t = s \<and> \<not> b"
  "getC f s = (Inr v, t) \<longleftrightarrow> t = s \<and> v = f s"
  "retC c s = (Inr v, t) \<longleftrightarrow> t = s \<and> v = c"
  by (auto simp: refuseC_def liftR_def getC_def retC_def throwC_def)

lemmas moves_steps = moves_bind moves_then moves_if moves_basic moves_uuid moves_audit moves_serialize

lemma moves_update: "moves cfg W (Suc 0) s (update_claw cfg k patch actor now)"
  unfolding update_claw_def
  by (intro moves_changed moves_steps) (auto simp: require_claw_Inr liftR_state split: if_splits intro: by_update)

lemma moves_setEnabled: "moves cfg W (Suc 0) s (setEnabled cfg k b actor now)"
  unfolding setEnabled_def Let_def
  by (intro moves_changed moves_steps) (auto simp: require_claw_Inr liftR_state split: if_splits intro: by_enable)

lemma moves_rotate: "moves cfg W (Suc 0) s (rotateCredentials cfg k actor now)"
  unfolding rotateCredentials_def
  by (intro moves_changed moves_steps) (auto simp: require_claw_Inr liftR_state split: if_splits intro: by_rotation)

lemma moves_removal: "moves cfg W (Suc 0) s (requestRemoval cfg k actor confirmation now)"
  unfolding requestRemoval_def Let_def
  by (intro moves_changed moves_steps) (auto simp: require_claw_Inr liftR_state split: if_splits intro: by_removal)

lemma moves_createPolicy: "moves cfg W n s (createPolicy cfg input actor now)"
  unfolding createPolicy_def Let_def requirePolicies_def by (intro moves_steps moves_put_policy)

lemma moves_requirePolicy [moves_rules]: "moves cfg W n s (requirePolicy cfg' pid)"
  unfolding requirePolicy_def requirePolicies_def by (intro moves_then moves_basic) (simp add: moves_def none)

lemma requirePolicy_state: "requirePolicy cfg pid s = (Inr p, t) \<Longrightarrow> t = s"
  by (auto simp: requirePolicy_def requirePolicies_def thenC_def bindC_def refuseC_def retC_def throwC_def split: if_splits)

lemma moves_addPolicyVersion: "moves cfg W n s (addPolicyVersion cfg pid input actor now)"
  unfolding addPolicyVersion_def Let_def by (intro moves_steps moves_put_policy moves_requirePolicy)

lemma bind_uuid: "bindC (randomUUID cfg) f s = f (cfg_uuid cfg (rg_uuids s)) (s\<lparr>rg_uuids := Suc (rg_uuids s)\<rparr>)"
  by (simp add: bindC_def randomUUID_def)

lemma moves_create: "moves cfg W (Suc 0) s (create_claw cfg input actor now)"
proof -
  let ?cid = "cfg_uuid cfg (rg_uuids s)" and ?s1 = "s\<lparr>rg_uuids := Suc (rg_uuids s)\<rparr>"
  let ?h = "\<lambda>r. thenC (put_claw (c_id r) r now) (thenC (audit cfg (audit_note (Some (c_id r)) actor ''claw.create'' Outcome_requested
          (''Requested '' @ d_name (c_desired r)) (Some (d_generation (c_desired r))) None) now) (retC r))"
  let ?g = "\<lambda>cid. bindC (liftR (createClawRecord (cfg_lib cfg) (withDefaultDeployment cfg input) now cid (cfg_router cfg))) (\<lambda>r.
      thenC (liftR (assertDeployment cfg (d_deployment (c_desired r))))
     (bindC (getC (\<lambda>s. \<exists>e\<in>set (rg_claws s). d_slug (c_desired (e_value e)) = d_slug (c_desired r) \<and>
                          ob_phase (c_observed (e_value e)) \<noteq> Deleted)) (\<lambda>duplicate.
      thenC (refuseC duplicate (RequestError (''a claw with slug '' @ d_slug (c_desired r) @ '' already exists''))) (?h r))))"
  have start: "changes cfg W (Suc 0) s ?s1" by (intro idle [OF none]) simp_all
  have "changes cfg W (Suc 0) s (snd (?g ?cid ?s1))"
  proof (cases "snd (?g ?cid ?s1) = ?s1")
    case False
    then obtain r where r: "createClawRecord (cfg_lib cfg) (withDefaultDeployment cfg input) now ?cid (cfg_router cfg) = Inr r"
      and free: "slug_free (d_slug (c_desired r)) s" and h: "snd (?g ?cid ?s1) = snd (?h r ?s1)"
      by (auto simp: bindC_def thenC_def slug_free_def split: sum.splits if_splits)
    obtain res u1 where p: "put_claw (c_id r) r now ?s1 = (res, u1)" by force
    show ?thesis
    proof (cases res)
      case (Inl e)
      then show ?thesis using start put_claw_Inl [of "c_id r" r now ?s1 e u1] p False h by (simp add: thenC_def bindC_def)
    next
      case (Inr un)
      then obtain tb where tb: "sql_register claws_options (c_id r) r now (rg_claws s) = Inr tb" "u1 = ?s1\<lparr>rg_claws := tb\<rparr>"
        using p by (auto simp: put_claw_Inr)
      have put: "put_claw (c_id r) r now s = (Inr (), s\<lparr>rg_claws := tb\<rparr>)" using tb(1) by (simp add: put_claw_def)
      have a: "rg_claws u1 = rg_claws (s\<lparr>rg_claws := tb\<rparr>)" by (simp add: tb(2))
      have b: "Suc (rg_uuids s) \<le> rg_uuids u1" by (simp add: tb(2))
      have "claw_change cfg W s u1" by (rule created [OF r free put a b])
      then have "changes cfg W (Suc 0) s u1" by (intro more [OF none])
      moreover have "moves cfg W 0 u1 (thenC (audit cfg (audit_note (Some (c_id r)) actor ''claw.create'' Outcome_requested
          (''Requested '' @ d_name (c_desired r)) (Some (d_generation (c_desired r))) None) now) (retC r))"
        by (intro moves_steps)
      ultimately show ?thesis using changes_trans [of cfg W 0 u1 _ "Suc 0" s] h p Inr
        by (simp add: moves_def thenC_def bindC_def)
    qed
  qed (use start in simp)
  then have "moves cfg W (Suc 0) s (bindC (randomUUID cfg) ?g)" unfolding moves_def bind_uuid .
  then show ?thesis unfolding create_claw_def by (rule moves_serialize)
qed

lemma apply_one_ok:
  assumes "apply_one cfg policy selected actor now claw s = (Inr res, t)"
  shows "rg_claws t = rg_claws s \<or> (\<exists>nxt u. put_claw (c_id claw) nxt now s = (Inr (), u) \<and> rg_claws t = rg_claws u)"
  using assms
  by (auto simp: apply_one_def bindC_def thenC_def audit_def randomUUID_def put_event_def split: sum.splits prod.splits if_splits)
    blast+

lemma moves_apply_one:
  assumes "claw_at (c_id claw) s = Some claw" "\<not> going claw"
  shows "moves cfg W (Suc 0) s (apply_one cfg policy selected actor now claw)"
  unfolding apply_one_def
  by (intro moves_changed moves_steps) (use assms in \<open>auto simp: liftR_state intro: by_update\<close>)

lemma moves_apply_all:
  assumes "table_wf (rg_claws s)" "\<forall>claw\<in>set cs. claw_at (c_id claw) s = Some claw \<and> \<not> going claw" "distinct (map c_id cs)"
  shows "moves cfg W (length cs) s (mapC (apply_one cfg policy selected actor now) cs)"
  using assms
proof (induction cs arbitrary: s)
  case (Cons claw cs)
  have one: "moves cfg W (Suc 0) s (apply_one cfg policy selected actor now claw)" using Cons.prems by (intro moves_apply_one) auto
  have rest: "moves cfg W (length cs) t (mapC (apply_one cfg policy selected actor now) cs)"
    if "apply_one cfg policy selected actor now claw s = (Inr res, t)" for res t
  proof (rule Cons.IH)
    from apply_one_ok [OF that] show "table_wf (rg_claws t)" using put_claw_wf Cons.prems(1) by auto
    show "\<forall>c\<in>set cs. claw_at (c_id c) t = Some c \<and> \<not> going c"
    proof
      fix c assume c: "c \<in> set cs"
      then have ne: "c_id c \<noteq> c_id claw" using Cons.prems(3) by (metis distinct.simps(2) in_set_conv_nth length_map list.map(2) nth_map nth_mem)
      from apply_one_ok [OF that] have "claw_at (c_id c) t = claw_at (c_id c) s"
        using put_claw_lookup [OF Cons.prems(1)] ne by (auto simp: claw_at_def)
      then show "claw_at (c_id c) t = Some c \<and> \<not> going c" using Cons.prems(2) c by simp
    qed
  qed (use Cons.prems in simp)
  have "moves cfg W (length cs) t (bindC (mapC (apply_one cfg policy selected actor now) cs) (\<lambda>ys. retC (y # ys)))"
    if "apply_one cfg policy selected actor now claw s = (Inr y, t)" for y t
    using moves_bind_add [OF rest [OF that] moves_basic(1), of 0] by simp
  from moves_bind_add [OF one this] show ?case by simp
qed (simp add: moves_basic)

lemma mapC_require:
  assumes "mapC require_claw ids s = (Inr cs, t)"
  shows "t = s \<and> length cs = length ids \<and> (\<forall>i<length ids. claw_at (ids ! i) s = Some (cs ! i))"
  using assms
proof (induction ids arbitrary: cs)
  case (Cons k ids)
  from Cons.prems obtain c cs' where c: "require_claw k s = (Inr c, s)" "mapC require_claw ids s = (Inr cs', t)" "cs = c # cs'"
    by (auto simp: bindC_ok require_claw_Inr)
  show ?case using Cons.IH [OF c(2)] c(1,3) by (auto simp: require_claw_Inr nth_Cons split: nat.splits)
qed auto

lemma moves_mapC_require: "moves cfg W n s (mapC require_claw ids)"
proof -
  have "snd (mapC require_claw ids s) = s"
    by (induction ids) (auto simp: bindC_def require_claw_def split: sum.splits prod.splits)
  then show ?thesis by (simp add: moves_def none)
qed

text \<open>A claw is stored under its own id.\<close>

definition keyed :: "reg \<Rightarrow> bool" where
  "keyed s \<longleftrightarrow> table_wf (rg_claws s) \<and> (\<forall>k r. claw_at k s = Some r \<longrightarrow> c_id r = k)"

lemma unique_ids: "requireUniqueClawIds v = Inr ids \<Longrightarrow> distinct ids \<and> length ids \<le> 100"
  by (auto simp: requireUniqueClawIds_def Let_def split: jsval.splits if_splits)

lemma mapR_check_expected: "mapR (check_expected e) cs = Inr us \<Longrightarrow> \<forall>c\<in>set cs. \<not> going c"
  by (induction cs arbitrary: us) (auto simp: check_expected_def assertPolicyTargetMutable_def Let_def)

lemma moves_apply:
  assumes "keyed s"
  shows "moves cfg W 100 s (applyPolicy cfg pid version clawIds expected actor now)"
proof -
  have all: "moves cfg W 100 t (bindC (mapC (apply_one cfg policy selected actor now) cs) (\<lambda>done. retC (g done)))"
    if "requireUniqueClawIds clawIds = Inr ids" "mapC require_claw ids s = (Inr cs, t)" "mapR (check_expected expected) cs = Inr us"
    for policy selected ids cs us t g
  proof -
    note m = mapC_require [OF that(2)]
    have id: "\<forall>i<length ids. c_id (cs ! i) = ids ! i" using m assms by (auto simp: keyed_def)
    have "map c_id cs = ids" using m id by (intro nth_equalityI) auto
    then have "distinct (map c_id cs)" using unique_ids [OF that(1)] by simp
    moreover have "\<forall>c\<in>set cs. claw_at (c_id c) s = Some c"
      using m id by (metis in_set_conv_nth)
    ultimately have "moves cfg W (length cs) t (mapC (apply_one cfg policy selected actor now) cs)"
      using m assms mapR_check_expected [OF that(3)] by (intro moves_apply_all) (auto simp: keyed_def)
    moreover have "length cs \<le> 100" using m unique_ids [OF that(1)] by simp
    ultimately show ?thesis
      using moves_bind_add [of cfg W "length cs" t _ "100 - length cs", OF _ moves_basic(1)] by simp
  qed
  show ?thesis unfolding applyPolicy_def
    by (rule moves_serialize, rule moves_bind [OF moves_requirePolicy], rule moves_bind [OF moves_basic(4)],
        rule moves_bind [OF moves_basic(4)], rule moves_bind [OF moves_mapC_require], rule moves_bind [OF moves_basic(4)])
      (auto simp: liftR_state dest!: requirePolicy_state intro: all)
qed

subsection \<open>Optimistic writing\<close>

text \<open>The contract behind \<open>expectedRevision\<close>: a step leaves a stored value alone or gives it a later version.\<close>

locale versioned_store =
  fixes look :: "'k \<Rightarrow> 's \<Rightarrow> 'r option"
    and version :: "'r \<Rightarrow> int"
    and step :: "'s \<Rightarrow> 's \<Rightarrow> bool"
  assumes step_grows: "step s t \<Longrightarrow> look k s = Some r \<Longrightarrow> \<exists>r'. look k t = Some r' \<and> (r' = r \<or> version r < version r')"
begin

lemma steps_grow:
  "step\<^sup>*\<^sup>* s t \<Longrightarrow> look k s = Some r \<Longrightarrow> \<exists>r'. look k t = Some r' \<and> (r' = r \<or> version r < version r')"
proof (induction rule: rtranclp_induct)
  case (step t u)
  then obtain r' where "look k t = Some r'" "r' = r \<or> version r < version r'" by blast
  then show ?case using step_grows [OF step.hyps(2)] by fastforce
qed simp

lemma same_version_same:
  assumes "step\<^sup>*\<^sup>* s t" "look k s = Some r" "look k t = Some r'" "version r' = version r"
  shows "r' = r"
  using steps_grow [OF assms(1,2)] assms(3,4) by auto

lemma never_lost: "step\<^sup>*\<^sup>* s t \<Longrightarrow> look k s \<noteq> None \<Longrightarrow> look k t \<noteq> None"
  using steps_grow by fastforce

end

definition cfg_ok :: "registry_config \<Rightarrow> bool" where
  \<comment> \<open>\<open>randomUUID\<close> does not repeat itself; the model map of the fleet is an object\<close>
  "cfg_ok cfg \<longleftrightarrow> inj (cfg_uuid cfg) \<and> opt_ok fleet_ok (cfg_router cfg)"

definition live :: "claw_record \<Rightarrow> bool" where
  "live r \<longleftrightarrow> ob_phase (c_observed r) \<noteq> Deleted"

definition drawn :: "registry_config \<Rightarrow> nat \<Rightarrow> string \<Rightarrow> bool" where
  "drawn cfg n k \<longleftrightarrow> (\<exists>i<n. k = cfg_uuid cfg i)"

lemma drawn_mono: "drawn cfg m k \<Longrightarrow> m \<le> n \<Longrightarrow> drawn cfg n k"
  by (auto simp: drawn_def intro: order.strict_trans2)

lemma drawn_new: "cfg_ok cfg \<Longrightarrow> \<not> drawn cfg n (cfg_uuid cfg n)" "drawn cfg (Suc n) (cfg_uuid cfg n)"
  by (auto simp: drawn_def cfg_ok_def dest: injD)

definition reg_inv :: "registry_config \<Rightarrow> reg \<Rightarrow> bool" where
  "reg_inv cfg s \<longleftrightarrow> cfg_ok cfg \<and> keyed s \<and>
     (\<forall>k r. claw_at k s = Some r \<longrightarrow> claw_wf (cfg_lib cfg) r \<and> drawn cfg (rg_uuids s) k) \<and>
     (\<forall>k k' r r'. claw_at k s = Some r \<longrightarrow> claw_at k' s = Some r' \<longrightarrow> live r \<longrightarrow> live r' \<longrightarrow>
        d_slug (c_desired r) = d_slug (c_desired r') \<longrightarrow> k = k')"

lemma normalizeRecord_simps [simp]:
  "c_id (normalizeRecord r) = c_id r" "c_desired (normalizeRecord r) = c_desired r" "c_observed (normalizeRecord r) = c_observed r"
  "normalizeRecord (normalizeRecord r) = normalizeRecord r"
  by (auto simp: normalizeRecord_def safe_int_def)

lemma claw_wf_cong: "c_id r = c_id r' \<Longrightarrow> c_desired r = c_desired r' \<Longrightarrow> claw_wf lib r = claw_wf lib r'"
  by (simp add: claw_wf_def)

lemma live_cong: "c_observed r = c_observed r' \<Longrightarrow> live r = live r'"
  by (simp add: live_def)

lemma claw_at_put:
  assumes "table_wf (rg_claws s)" "put_claw k r now s = (Inr u, t)" "rg_claws t' = rg_claws t"
  shows "claw_at k' t' = (if k' = k then Some (normalizeRecord r) else claw_at k' s)" "table_wf (rg_claws t')"
  using put_claw_lookup [OF assms(1,2)] put_claw_wf [OF assms(1,2)] by (simp_all add: claw_at_def assms(3))

lemma desired_change_kept:
  assumes "desired_change cfg r r'" "claw_wf (cfg_lib cfg) r"
  shows "claw_wf (cfg_lib cfg) r' \<and> c_id r' = c_id r \<and> d_slug (c_desired r') = d_slug (c_desired r) \<and> live r \<and> live r'"
  using assms
proof (cases rule: desired_change.cases)
  case (by_update patch now)
  then show ?thesis using update_frame [OF assms(2) by_update(1)] by (simp add: live_def going_def)
next
  case (by_enable b now)
  then show ?thesis using assms(2) by (auto simp: setClawEnabled_def claw_wf_def desired_wf_def live_def going_def)
next
  case (by_rotation now)
  then show ?thesis using assms(2)
    by (auto simp: rotateClawCredentials_def Let_def claw_wf_def desired_wf_def live_def going_def split: if_splits)
next
  case (by_removal now)
  then show ?thesis using assms(2) by (simp add: removal_record_def claw_wf_def desired_wf_def live_def)
qed

definition keeps_deleted :: "(claw_record \<Rightarrow> claw_observed \<Rightarrow> bool) \<Rightarrow> bool" where
  "keeps_deleted W \<longleftrightarrow> (\<forall>r ob. W r ob \<longrightarrow> \<not> live r \<longrightarrow> ob_phase ob = Deleted)"

lemma reg_inv_put:
  assumes inv: "reg_inv cfg s" and old: "claw_at k s = Some r" and put: "put_claw k r' now s = (Inr u, t)"
    and new: "claw_wf (cfg_lib cfg) r'" "c_id r' = c_id r" "d_slug (c_desired r') = d_slug (c_desired r)" "live r' \<Longrightarrow> live r"
  shows "reg_inv cfg t"
proof -
  have tw: "table_wf (rg_claws s)" using inv by (simp add: reg_inv_def keyed_def)
  note at = claw_at_put(1) [OF tw put refl] and tw' = claw_at_put(2) [OF tw put refl]
  have un: "rg_uuids t = rg_uuids s" using put_claw_same [OF put] by simp
  have wf: "claw_wf (cfg_lib cfg) (normalizeRecord r')" using new(1) claw_wf_cong [of "normalizeRecord r'" r'] by simp
  have lv: "live (normalizeRecord r') = live r'" by (rule live_cong) simp
  show ?thesis
    unfolding reg_inv_def keyed_def
  proof (intro conjI allI impI)
    show "cfg_ok cfg" "table_wf (rg_claws t)" using inv tw' by (simp_all add: reg_inv_def)
  next
    fix k' q assume "claw_at k' t = Some q"
    then show "c_id q = k'" "claw_wf (cfg_lib cfg) q" "drawn cfg (rg_uuids t) k'"
      using inv old wf new(2) un by (auto simp: at reg_inv_def keyed_def split: if_splits)
  next
    fix k1 k2 q1 q2
    assume "claw_at k1 t = Some q1" "claw_at k2 t = Some q2" "live q1" "live q2" "d_slug (c_desired q1) = d_slug (c_desired q2)"
    then show "k1 = k2" using inv old new(3,4) lv unfolding at reg_inv_def by (auto split: if_splits)
  qed
qed

lemma reg_inv_change:
  assumes "claw_change cfg W s t" "reg_inv cfg s" "keeps_deleted W"
  shows "reg_inv cfg t"
  using assms(1)
proof (cases rule: claw_change.cases)
  case elsewhere
  then have "claw_at k t = claw_at k s" for k by (simp add: claw_at_def)
  then show ?thesis using assms(2) elsewhere by (auto simp: reg_inv_def keyed_def, blast intro: drawn_mono)
next
  case (changed k r r' now)
  have "claw_wf (cfg_lib cfg) r" using assms(2) changed(1) by (simp add: reg_inv_def)
  from desired_change_kept [OF changed(2) this] show ?thesis
    by (intro reg_inv_put [OF assms(2) changed(1,3)]) blast+
next
  case (observed k r ob now)
  have "claw_wf (cfg_lib cfg) r" using assms(2) observed(1) by (simp add: reg_inv_def)
  then show ?thesis using observed(2) assms(3)
    by (intro reg_inv_put [OF assms(2) observed(1,3)]) (auto simp: claw_wf_def live_def keeps_deleted_def)
next
  case (created input now r u)
  have tw: "table_wf (rg_claws s)" using assms(2) by (simp add: reg_inv_def keyed_def)
  note at = claw_at_put(1) [OF tw created(3,4)] and tw' = claw_at_put(2) [OF tw created(3,4)]
  have cfg: "inj (cfg_uuid cfg)" "opt_ok fleet_ok (cfg_router cfg)" using assms(2) by (simp_all add: reg_inv_def cfg_ok_def)
  note made = created_wf [OF created(1) cfg(2)]
  then have wf: "claw_wf (cfg_lib cfg) (normalizeRecord r)" using claw_wf_cong [of "normalizeRecord r" r] by simp
  have cid: "c_id r = cfg_uuid cfg (rg_uuids s)" using made by blast
  have fresh: "d_slug (c_desired q) \<noteq> d_slug (c_desired r)" if "claw_at k' s = Some q" "live q" for k' q
  proof -
    from that(1) obtain v where v: "mem_lookup k' (rg_claws s) = Some v" "q = normalizeRecord v" by (auto simp: claw_at_def)
    then obtain e where "e \<in> set (rg_claws s)" "e_value e = v" using mem_find_iff [OF tw] by blast
    then show ?thesis using created(2) that(2) v(2) by (auto simp: slug_free_def live_def)
  qed
  show ?thesis unfolding reg_inv_def keyed_def
  proof (intro conjI allI impI)
    show "cfg_ok cfg" "table_wf (rg_claws t)" using assms(2) tw' by (simp_all add: reg_inv_def)
  next
    fix k' q assume "claw_at k' t = Some q"
    moreover have "drawn cfg (rg_uuids s) k' \<Longrightarrow> drawn cfg (rg_uuids t) k'" "drawn cfg (rg_uuids t) (cfg_uuid cfg (rg_uuids s))"
      using created(5) drawn_mono drawn_new(2) by (metis Suc_leD, metis)
    ultimately show "c_id q = k'" "claw_wf (cfg_lib cfg) q" "drawn cfg (rg_uuids t) k'"
      using assms(2) wf cid by (auto simp: at reg_inv_def keyed_def split: if_splits)
  next
    fix k1 k2 q1 q2
    assume "claw_at k1 t = Some q1" "claw_at k2 t = Some q2" "live q1" "live q2" "d_slug (c_desired q1) = d_slug (c_desired q2)"
    then show "k1 = k2" using assms(2) fresh [of k1 q1] fresh [of k2 q2] unfolding at reg_inv_def
      by (cases "k1 = c_id r"; cases "k2 = c_id r") auto
  qed
qed

lemma claw_at_idle: "rg_claws t = rg_claws s \<Longrightarrow> claw_at k t = claw_at k s"
  by (simp add: claw_at_def)

lemma reg_inv_changes: "changes cfg W n s t \<Longrightarrow> reg_inv cfg s \<Longrightarrow> keeps_deleted W \<Longrightarrow> reg_inv cfg t"
  by (induction rule: changes.induct) (blast intro: reg_inv_change elsewhere)+

definition revisions_below :: "int \<Rightarrow> reg \<Rightarrow> bool" where
  "revisions_below n s \<longleftrightarrow> (\<forall>k r. claw_at k s = Some r \<longrightarrow> 0 \<le> c_revision r \<and> c_revision r < n)"

lemma desired_change_revision:
  "desired_change cfg r r' \<Longrightarrow> 0 \<le> c_revision r \<Longrightarrow> c_revision r < 9007199254740991 \<Longrightarrow> c_revision r' = c_revision r + 1"
  by (cases rule: desired_change.cases, assumption)
    (auto simp: updateClawRecord_def setClawEnabled_def rotateClawCredentials_def removal_record_def Let_def nextRecordRevision_def safe_int_def
      split: if_splits)

text \<open>What one change does to the claw under a key.\<close>

lemma claw_change_at:
  assumes "claw_change cfg W s t" "reg_inv cfg s" "revisions_below 9007199254740990 s"
  shows "claw_at k t = claw_at k s \<or>
    (claw_at k s = None \<and> (\<exists>cid d now. claw_at k t = Some (fresh_record cid d now))) \<or>
    (\<exists>r r'. claw_at k s = Some r \<and> claw_at k t = Some r' \<and> c_revision r' = c_revision r + 1 \<and>
       (desired_change cfg r r' \<or> (\<exists>ob now. W r ob \<and> r' = r\<lparr>c_revision := c_revision r + 1, c_observed := ob, c_updated := now\<rparr>)))"
  using assms(1)
proof (cases rule: claw_change.cases)
  case elsewhere
  then show ?thesis by (simp add: claw_at_def)
next
  case (created input now r u)
  have tw: "table_wf (rg_claws s)" using assms(2) by (simp add: reg_inv_def keyed_def)
  note at = claw_at_put(1) [OF tw created(3,4)]
  have cfg: "inj (cfg_uuid cfg)" "opt_ok fleet_ok (cfg_router cfg)" using assms(2) by (simp_all add: reg_inv_def cfg_ok_def)
  have f: "r = fresh_record (cfg_uuid cfg (rg_uuids s)) (c_desired r) now" using created_wf [OF created(1) cfg(2)] by blast
  have r: "c_id r = cfg_uuid cfg (rg_uuids s)" "c_revision r = 1" by (subst f, simp)+
  then have nr: "normalizeRecord r = r" by (simp add: normalizeRecord_def safe_int_def)
  have "\<not> drawn cfg (rg_uuids s) (c_id r)" unfolding r(1) using assms(2) by (intro drawn_new(1)) (simp add: reg_inv_def)
  then have "claw_at (c_id r) s = None" using assms(2) by (cases "claw_at (c_id r) s") (auto simp: reg_inv_def)
  then show ?thesis using nr f by (auto simp: at)
next
  case (changed k' r r' now)
  have tw: "table_wf (rg_claws s)" using assms(2) by (simp add: reg_inv_def keyed_def)
  note at = claw_at_put(1) [OF tw changed(3) refl]
  have b: "0 \<le> c_revision r" "c_revision r < 9007199254740990" using assms(3) changed(1) by (auto simp: revisions_below_def)
  then have rev: "c_revision r' = c_revision r + 1" using desired_change_revision [OF changed(2)] by simp
  then have "normalizeRecord r' = r'" using b by (simp add: normalizeRecord_def safe_int_def)
  then show ?thesis using changed rev by (auto simp: at)
next
  case (observed k' r ob now)
  have tw: "table_wf (rg_claws s)" using assms(2) by (simp add: reg_inv_def keyed_def)
  note at = claw_at_put(1) [OF tw observed(3) refl]
  have b: "0 \<le> c_revision r" "c_revision r < 9007199254740990" using assms(3) observed(1) by (auto simp: revisions_below_def)
  then have "normalizeRecord (r\<lparr>c_revision := c_revision r + 1, c_observed := ob, c_updated := now\<rparr>) =
      r\<lparr>c_revision := c_revision r + 1, c_observed := ob, c_updated := now\<rparr>" by (simp add: normalizeRecord_def safe_int_def)
  then show ?thesis using observed by (auto simp: at)
qed

interpretation claws: versioned_store claw_at c_revision
    "\<lambda>s t. claw_change cfg W s t \<and> reg_inv cfg s \<and> revisions_below 9007199254740990 s" for cfg W
proof
  fix s t :: reg and k r
  assume "claw_change cfg W s t \<and> reg_inv cfg s \<and> revisions_below 9007199254740990 s" "claw_at k s = Some r"
  then show "\<exists>r'. claw_at k t = Some r' \<and> (r' = r \<or> c_revision r < c_revision r')"
    using claw_change_at [of cfg W s t k] by auto
qed

abbreviation safe_step :: "registry_config \<Rightarrow> (claw_record \<Rightarrow> claw_observed \<Rightarrow> bool) \<Rightarrow> reg \<Rightarrow> reg \<Rightarrow> bool" where
  "safe_step cfg W s t \<equiv> claw_change cfg W s t \<and> reg_inv cfg s \<and> revisions_below 9007199254740990 s"

lemma revisions_below_mono: "revisions_below b s \<Longrightarrow> b \<le> c \<Longrightarrow> revisions_below c s"
  by (auto simp: revisions_below_def intro: order.strict_trans2)

text \<open>Few enough changes are steps of the contract.\<close>

lemma changes_safe:
  assumes "changes cfg W n s t" "reg_inv cfg s" "keeps_deleted W" "revisions_below b s" "2 \<le> b" "b + int n \<le> 9007199254740990"
  shows "revisions_below (b + int n) t \<and> (safe_step cfg W)\<^sup>*\<^sup>* s t"
  using assms(1,2,4,6)
proof (induction rule: changes.induct)
  case (none n s)
  then show ?case by (auto intro: revisions_below_mono)
next
  case (idle n s t u)
  have "claw_at k u = claw_at k t" for k using idle.hyps(2) by (rule claw_at_idle)
  moreover have ih: "revisions_below (b + int n) t" "(safe_step cfg W)\<^sup>*\<^sup>* s t" using idle by simp_all
  moreover have "safe_step cfg W t u"
    using ih(1) idle.hyps(2,3) idle.prems reg_inv_changes [OF idle.hyps(1) idle.prems(1) assms(3)]
    by (auto intro: elsewhere revisions_below_mono)
  ultimately show ?case by (auto simp: revisions_below_def intro: rtranclp.rtrancl_into_rtrancl)
next
  case (more n s t u)
  then have b: "revisions_below (b + int n) t" and st: "(safe_step cfg W)\<^sup>*\<^sup>* s t" by simp_all
  have inv: "reg_inv cfg t" using reg_inv_changes [OF more.hyps(1) more.prems(1) assms(3)] .
  have lim: "revisions_below 9007199254740990 t" using b more.prems by (auto intro: revisions_below_mono)
  have "revisions_below (b + int (Suc n)) u"
    unfolding revisions_below_def
  proof (intro allI impI)
    fix k r assume "claw_at k u = Some r"
    then show "0 \<le> c_revision r \<and> c_revision r < b + int (Suc n)"
      using claw_change_at [OF more.hyps(2) inv lim, of k] b assms(5) by (fastforce simp: revisions_below_def)
  qed
  moreover have "safe_step cfg W t u" using more.hyps(2) inv lim by blast
  ultimately show ?case using st by (auto intro: rtranclp.rtrancl_into_rtrancl)
qed

subsection \<open>The operations of a client\<close>

datatype reg_op =
    Op_create jsval string
  | Op_update string jsval string
  | Op_enable string bool string
  | Op_rotate string string
  | Op_remove string string string
  | Op_new_policy jsval string
  | Op_new_version string jsval string
  | Op_apply string jsval jsval jsval string

fun run_op :: "registry_config \<Rightarrow> reg_op \<Rightarrow> int \<Rightarrow> reg \<Rightarrow> reg" where
  "run_op cfg (Op_create input actor) now s = snd (create_claw cfg input actor now s)"
| "run_op cfg (Op_update k patch actor) now s = snd (update_claw cfg k patch actor now s)"
| "run_op cfg (Op_enable k b actor) now s = snd (setEnabled cfg k b actor now s)"
| "run_op cfg (Op_rotate k actor) now s = snd (rotateCredentials cfg k actor now s)"
| "run_op cfg (Op_remove k actor confirmation) now s = snd (requestRemoval cfg k actor confirmation now s)"
| "run_op cfg (Op_new_policy input actor) now s = snd (createPolicy cfg input actor now s)"
| "run_op cfg (Op_new_version p input actor) now s = snd (addPolicyVersion cfg p input actor now s)"
| "run_op cfg (Op_apply p version ids expected actor) now s = snd (applyPolicy cfg p version ids expected actor now s)"

lemma changes_weaken: "changes cfg W m s t \<Longrightarrow> m \<le> n \<Longrightarrow> changes cfg W n s t"
  using changes_trans [OF none, of cfg W m s t "n - m"] by simp

lemma op_changes: "keyed s \<Longrightarrow> changes cfg W 100 s (run_op cfg op now s)"
  using moves_create moves_update moves_setEnabled moves_rotate moves_removal moves_createPolicy [of cfg W 100]
    moves_addPolicyVersion [of cfg W 100] moves_apply
  by (cases op) (auto simp: moves_def intro: changes_weaken [of _ _ "Suc 0"])

lemma moves_catch:
  assumes "moves cfg W n s m" "\<And>e t. m s = (Inl e, t) \<Longrightarrow> moves cfg W 0 t (h e)"
  shows "moves cfg W n s (catchC m h)"
proof (cases "m s")
  case (Pair res t)
  then show ?thesis using assms changes_trans [of cfg W 0 t _ n s] by (cases res) (auto simp: moves_def catchC_def)
qed

lemma moves_writeObserved:
  assumes "\<And>r. claw_at k s = Some r \<Longrightarrow> expected = None \<or> expected = Some (c_revision r) \<Longrightarrow> W r ob"
  shows "moves cfg W (Suc 0) s (writeObserved cfg k ob note expected now)"
  unfolding writeObserved_def Let_def
proof (rule moves_serialize, rule moves_bind [OF moves_basic(6)], rule moves_then [OF moves_basic(5)])
  fix r t u t'
  assume "require_claw k s = (Inr r, t)" "refuseC (expected \<noteq> None \<and> expected \<noteq> Some (c_revision r)) WriteConflict t = (Inr u, t')"
  then have r: "claw_at k s = Some r" "t' = s" "expected = None \<or> expected = Some (c_revision r)"
    by (auto simp: require_claw_Inr liftR_state split: if_splits)
  have "W r ob" using assms r(1,3) .
  then have change: "claw_change cfg W s v"
    if "put_claw k (r\<lparr>c_revision := c_revision r + 1, c_observed := ob, c_updated := now\<rparr>) now s = (Inr (), v)" for v
    using that r(1) by (auto intro: observed [where r = r and ob = ob and k = k and now = now])
  show "moves cfg W (Suc 0) t' (thenC (put_claw k (r\<lparr>c_revision := c_revision r + 1, c_observed := ob, c_updated := now\<rparr>) now)
     (thenC (case note of None \<Rightarrow> retC () | Some event \<Rightarrow> audit cfg (event\<lparr>ev_claw := Some k\<rparr>) now)
       (retC (r\<lparr>c_revision := c_revision r + 1, c_observed := ob, c_updated := now\<rparr>))))"
    unfolding r(2)
    by (intro moves_write change moves_then moves_basic, assumption) (auto split: option.splits intro: moves_basic moves_audit)
qed

lemma writeObserved_ok:
  assumes "writeObserved cfg k ob note expected now s = (Inr w, t)" "table_wf (rg_claws s)"
  shows "\<exists>r. claw_at k s = Some r \<and> (expected = None \<or> expected = Some (c_revision r)) \<and>
    w = r\<lparr>c_revision := c_revision r + 1, c_observed := ob, c_updated := now\<rparr> \<and> claw_at k t = Some (normalizeRecord w)"
proof -
  have au: "audit cfg ev now s1 = (res, s2) \<Longrightarrow> rg_claws s2 = rg_claws s1" for ev s1 res s2
    by (auto simp: audit_def bindC_def randomUUID_def put_event_def split: sum.splits)
  let ?nxt = "\<lambda>r. r\<lparr>c_revision := c_revision r + 1, c_observed := ob, c_updated := now\<rparr>"
  obtain r u where r: "claw_at k s = Some r" "expected = None \<or> expected = Some (c_revision r)"
    and p: "put_claw k (?nxt r) now s = (Inr (), u)" and w: "w = ?nxt r" and t: "rg_claws t = rg_claws u"
    using assms(1)
    by (auto simp: writeObserved_def serialize_def Let_def bindC_ok thenC_ok require_claw_Inr liftR_state
        split: sum.splits prod.splits if_splits option.splits dest!: au)
  show ?thesis using claw_at_put(1) [OF assms(2) p t, of k] r w by auto
qed

end
