(* ===== verification/Reconciler_Safety.thy ===== *)
theory Reconciler_Safety
  imports Reconciler Registry_Safety
begin

text \<open>
  The reconciler among everything else that happens: clients operate the registry, any number of claws are
  being reconciled (one run per claw, \<open>#clawTails\<close>), users are paired, the process may lose its runs. The
  transition system \<open>fleet_step\<close> interleaves their registry accesses in any order; its invariants rest
  on the contract of optimistic writing (interpretation \<open>claws\<close>). Then removal, stage by stage, and
  the evidence that a claw reported ready has.
\<close>

subsection \<open>What a run writes\<close>

definition plan_observed :: "plan \<Rightarrow> claw_observed option" where
  "plan_observed p = (case p of Keep \<Rightarrow> None | Write ob _ \<Rightarrow> Some ob | Write_then_provision ob _ \<Rightarrow> Some ob)"

text \<open>The writes a run may have due for the claw \<open>r\<close> it read or wrote last.\<close>

inductive from_run :: "reconciler_config \<Rightarrow> answers \<Rightarrow> claw_record \<Rightarrow> due \<Rightarrow> bool" for cfg ans where
  start: "from_run cfg ans r (start_run cfg ans r)"
| provision: "live r \<Longrightarrow> from_run cfg ans r (plan_of (provision_claw ans inference \<lparr>rn_claw = r, rn_calls = []\<rparr>))"
| failed: "from_run cfg ans r d \<Longrightarrow> live r \<Longrightarrow>
    from_run cfg ans r \<lparr>du_claw = du_claw d, du_plan = failure_plan e (du_claw d), du_failing = True\<rparr>"

text \<open>The variable \<open>claw\<close> of a run differs from the claw read only in its inference observation.\<close>

definition same_claw :: "claw_record \<Rightarrow> claw_record \<Rightarrow> bool" where
  "same_claw r c \<longleftrightarrow> (\<exists>i. c = r\<lparr>c_observed := (c_observed r)\<lparr>ob_inference := i\<rparr>\<rparr>)"

lemma same_claw_inference: "same_claw r (r\<lparr>c_observed := (c_observed r)\<lparr>ob_inference := i\<rparr>\<rparr>)"
  by (auto simp: same_claw_def)

lemma same_claw_refl [simp]: "same_claw r r"
proof -
  have "r = r\<lparr>c_observed := (c_observed r)\<lparr>ob_inference := ob_inference (c_observed r)\<rparr>\<rparr>" by simp
  then show ?thesis unfolding same_claw_def by blast
qed

lemma same_claw_simps:
  assumes "same_claw r c"
  shows "c_id c = c_id r" "c_revision c = c_revision r" "c_desired c = c_desired r" "c_created c = c_created r"
    "ob_phase (c_observed c) = ob_phase (c_observed r)" "ob_deletion (c_observed c) = ob_deletion (c_observed r)"
    "ob_lifecycle (c_observed c) = ob_lifecycle (c_observed r)"
  using assms by (auto simp: same_claw_def)

text \<open>Asking the provider leaves the variable alone.\<close>

definition keeps_claw :: "'a runc \<Rightarrow> bool" where
  "keeps_claw m \<longleftrightarrow> (\<forall>s. rn_claw (snd (m s)) = rn_claw s)"

lemma keeps_claw_basic:
  "keeps_claw (retC a)" "keeps_claw (throwC e)" "keeps_claw (getC f)" "keeps_claw (refuseC b e)" "keeps_claw (ask c x)"
  by (auto simp: keeps_claw_def ask_def refuseC_def)

lemma keeps_claw_bind: "keeps_claw m \<Longrightarrow> (\<And>a. keeps_claw (k a)) \<Longrightarrow> keeps_claw (bindC m k)"
  by (auto simp: keeps_claw_def bindC_def split: prod.splits sum.splits) (metis snd_conv)+

lemma keeps_claw_then: "keeps_claw m \<Longrightarrow> keeps_claw n \<Longrightarrow> keeps_claw (thenC m n)"
  unfolding thenC_def by (rule keeps_claw_bind)

lemma keeps_claw_catch: "keeps_claw m \<Longrightarrow> (\<And>e. keeps_claw (h e)) \<Longrightarrow> keeps_claw (catchC m h)"
  by (auto simp: keeps_claw_def catchC_def split: prod.splits sum.splits) (metis snd_conv)+

lemma keeps_claw_if: "(b \<Longrightarrow> keeps_claw m) \<Longrightarrow> (\<not> b \<Longrightarrow> keeps_claw n) \<Longrightarrow> keeps_claw (if b then m else n)"
  by simp

lemma keeps_claw_option:
  "keeps_claw m \<Longrightarrow> (\<And>a. keeps_claw (f a)) \<Longrightarrow> keeps_claw (case x of None \<Rightarrow> m | Some a \<Rightarrow> f a)"
  by (cases x) simp_all

lemmas keeps_claw_steps = keeps_claw_basic keeps_claw_bind keeps_claw_then keeps_claw_catch keeps_claw_if keeps_claw_option

lemma keeps_claw_removal: "keeps_claw (removal_step cfg ans d)"
  by (cases "ds_stage d"; simp only: removal_step_def deletion_stage.case disable_stage_def drain_stage_def release_stage_def
      confirm_stage_def revoke_stage_def; intro keeps_claw_steps)

lemma keeps_claw_serving: "keeps_claw (disable_claw ans)" "keeps_claw (inspect_claw cfg ans i)" "keeps_claw (provision_claw ans i)"
  unfolding disable_claw_def inspect_claw_def provision_claw_def Let_def by (intro keeps_claw_steps)+

lemma keeps_claw_serve: "keeps_claw (serve_claw cfg ans i)"
  unfolding serve_claw_def by (intro keeps_claw_steps keeps_claw_removal keeps_claw_serving)

text \<open>The run once the inference control has answered.\<close>

definition merged :: "claw_record \<Rightarrow> answers \<Rightarrow> run" where
  "merged r ans =
     (case inf_router (d_inference (c_desired r)) of
        Direct \<Rightarrow> \<lparr>rn_claw = r, rn_calls = []\<rparr>
      | Routed _ \<Rightarrow> \<lparr>rn_claw = r\<lparr>c_observed := (c_observed r)\<lparr>ob_inference := Some (projr (an_inference ans))\<rparr>\<rparr>, rn_calls = [Ask_inference]\<rparr>)"

lemma merged_claw: "same_claw r (rn_claw (merged r ans))" "rn_calls (merged r ans) = [] \<or> rn_calls (merged r ans) = [Ask_inference]"
  by (auto simp: merged_def same_claw_inference split: inference_router.splits)

definition inference_of :: "claw_record \<Rightarrow> answers \<Rightarrow> inference_observation option" where
  "inference_of r ans = (case inf_router (d_inference (c_desired r)) of Direct \<Rightarrow> None | Routed _ \<Rightarrow> Some (projr (an_inference ans)))"

lemma run_body_cases:
  obtains "\<not> live r" "run_body cfg ans \<lparr>rn_claw = r, rn_calls = []\<rparr> = (Inr Keep, \<lparr>rn_claw = r, rn_calls = []\<rparr>)"
  | e t where "live r" "run_body cfg ans \<lparr>rn_claw = r, rn_calls = []\<rparr> = (Inl e, t)" "rn_claw t = r" "set (rn_calls t) \<subseteq> {Ask_inference}"
  | "live r" "run_body cfg ans \<lparr>rn_claw = r, rn_calls = []\<rparr> = serve_claw cfg ans (inference_of r ans) (merged r ans)"
proof (cases "inf_router (d_inference (c_desired r))")
  case Direct
  then show ?thesis using that(1,3)
    by (cases "live r") (simp_all add: run_body_def bindC_eval thenC_eval live_def merged_def inference_of_def)
next
  case (Routed x)
  then show ?thesis using that
    by (cases "live r"; cases "an_inference ans"; cases "rc_inference cfg")
      (simp_all add: run_body_def bindC_eval thenC_eval ask_def live_def merged_def inference_of_def)
qed

lemma run_body_claw: "same_claw r (rn_claw (snd (run_body cfg ans \<lparr>rn_claw = r, rn_calls = []\<rparr>)))"
proof (cases rule: run_body_cases [of r cfg ans])
  case 3
  then show ?thesis using keeps_claw_serve [of cfg ans "inference_of r ans"] merged_claw(1) by (simp add: keeps_claw_def)
qed simp_all

lemma start_run_claw: "same_claw r (du_claw (start_run cfg ans r))"
  using run_body_claw [of r cfg ans]
  by (auto simp: start_run_def plan_of_def split: prod.splits sum.splits)

lemma provision_claw_keeps: "du_claw (plan_of (provision_claw ans i \<lparr>rn_claw = r, rn_calls = []\<rparr>)) = r"
  using keeps_claw_serving(3) [of ans i] by (auto simp: keeps_claw_def plan_of_def split: prod.splits sum.splits) (metis run.select_convs(1) snd_conv)+

lemma from_run_claw: "from_run cfg ans r d \<Longrightarrow> same_claw r (du_claw d)"
  by (induction rule: from_run.induct) (simp_all add: start_run_claw provision_claw_keeps)

lemma start_deleted: "\<not> live r \<Longrightarrow> du_plan (start_run cfg ans r) = Keep"
  by (simp add: start_run_def run_body_def plan_of_def live_def bindC_def)

lemma from_run_live: "from_run cfg ans r d \<Longrightarrow> plan_observed (du_plan d) = Some ob \<Longrightarrow> live r"
  by (induction rule: from_run.induct)
    (auto simp: plan_observed_def split: plan.splits, (metis start_deleted plan.distinct(1,3))+)

text \<open>What a computation returns.\<close>

definition returns :: "('a \<Rightarrow> bool) \<Rightarrow> ('s, 'a) comp \<Rightarrow> bool" where
  "returns P m \<longleftrightarrow> (\<forall>s a t. m s = (Inr a, t) \<longrightarrow> P a)"

lemma returns_ret: "P a \<Longrightarrow> returns P (retC a)"
  by (simp add: returns_def)

lemma returns_bind: "(\<And>a. returns P (k a)) \<Longrightarrow> returns P (bindC m k)"
  by (auto simp: returns_def bindC_ok)

lemma returns_then: "returns P k \<Longrightarrow> returns P (thenC m k)"
  by (auto simp: returns_def thenC_ok)

lemma returns_if: "(b \<Longrightarrow> returns P m) \<Longrightarrow> (\<not> b \<Longrightarrow> returns P n) \<Longrightarrow> returns P (if b then m else n)"
  by simp

lemma returns_option: "(x = None \<Longrightarrow> returns P m) \<Longrightarrow> (\<And>a. x = Some a \<Longrightarrow> returns P (f a)) \<Longrightarrow>
    returns P (case x of None \<Rightarrow> m | Some a \<Rightarrow> f a)"
  by (cases x) simp_all

lemmas returns_steps = returns_bind returns_then returns_if returns_option returns_ret

definition final_write :: "plan \<Rightarrow> bool" where
  "final_write p \<longleftrightarrow> (\<exists>ob note. p = Write ob note)"

lemma final_write_simps [simp]: "final_write (Write ob note)" "final_write (markProviderAbsent ob m n)" "final_write (markDeleted c m)"
  "final_write (provider_gone c)" "final_write (failure_plan e c)"
  by (simp_all add: final_write_def markProviderAbsent_def markDeleted_def provider_gone_def failure_plan_def Let_def split: prod.splits)

lemma returns_removal: "returns final_write (removal_step cfg ans d)"
  by (cases "ds_stage d"; simp only: removal_step_def deletion_stage.case disable_stage_def drain_stage_def release_stage_def
      confirm_stage_def revoke_stage_def; intro returns_steps; simp split: option.split)

lemma returns_serving: "returns final_write (disable_claw ans)" "returns final_write (inspect_claw cfg ans i)"
  "returns final_write (provision_claw ans i)"
  unfolding disable_claw_def inspect_claw_def provision_claw_def Let_def by (intro returns_steps; simp)+

definition plan_shape :: "plan \<Rightarrow> bool" where
  "plan_shape p \<longleftrightarrow> (case p of Write_then_provision ob _ \<Rightarrow> ob_phase ob = Provisioning | _ \<Rightarrow> True)"

lemma final_write_shape: "final_write p \<Longrightarrow> plan_shape p"
  by (auto simp: final_write_def plan_shape_def)

lemma returns_mono: "returns P m \<Longrightarrow> (\<And>a. P a \<Longrightarrow> Q a) \<Longrightarrow> returns Q m"
  by (auto simp: returns_def)

lemma returns_body: "returns plan_shape (run_body cfg ans)"
  unfolding run_body_def serve_claw_def
  by (intro returns_steps returns_mono [OF returns_removal final_write_shape] returns_mono [OF returns_serving(1) final_write_shape]
      returns_mono [OF returns_serving(2) final_write_shape]) (simp_all add: plan_shape_def)

lemma plan_of_shape:
  assumes "returns plan_shape m"
  shows "plan_shape (du_plan (plan_of (m s)))"
  using assms final_write_simps(5) [THEN final_write_shape]
  by (cases "m s"; cases "fst (m s)") (auto simp: plan_of_def returns_def)

lemma from_run_shape: "from_run cfg ans r d \<Longrightarrow> plan_shape (du_plan d)"
proof (induction rule: from_run.induct)
  case (start r)
  show ?case unfolding start_run_def by (rule plan_of_shape [OF returns_body])
next
  case (provision r i)
  show ?case by (rule plan_of_shape [OF returns_mono [OF returns_serving(3) final_write_shape]])
next
  case (failed r d e)
  show ?case using final_write_shape [OF final_write_simps(5)] by simp
qed

subsection \<open>The fleet\<close>

record fleet =
  fl_reg :: reg
  fl_runs :: "(string \<times> answers \<times> due) list"        \<comment> \<open>\<open>#clawTails\<close>: the runs in progress\<close>
  fl_pairs :: "(claw_record \<times> user_access) list"       \<comment> \<open>pairings approved by the child, not yet written\<close>

definition fleet_write :: "reconciler_config \<Rightarrow> claw_record \<Rightarrow> claw_observed \<Rightarrow> bool" where
  "fleet_write cfg r ob \<longleftrightarrow>
     (\<exists>ans d. from_run cfg ans r d \<and> plan_observed (du_plan d) = Some ob) \<or> (\<exists>ua. ob = (c_observed r)\<lparr>ob_access := Some ua\<rparr>)"

inductive fleet_step :: "reconciler_config \<Rightarrow> fleet \<Rightarrow> fleet \<Rightarrow> bool" for cfg where
  operate: "fleet_step cfg f (f\<lparr>fl_reg := run_op (rc_registry cfg) op now (fl_reg f)\<rparr>)"
| begin_run: "k \<notin> fst ` set (fl_runs f) \<Longrightarrow> get_claw k (fl_reg f) = (Inr claw, s) \<Longrightarrow>
    fleet_step cfg f (f\<lparr>fl_reg := s, fl_runs := (k, ans, start_run cfg ans claw) # fl_runs f\<rparr>)"
| commit_run: "fl_runs f = xs @ (k, ans, d) # ys \<Longrightarrow> commit cfg ans now d (fl_reg f) = (res, s) \<Longrightarrow>
    fleet_step cfg f (f\<lparr>fl_reg := s, fl_runs := xs @ (case res of Inr (Some d') \<Rightarrow> [(k, ans, d')] | _ \<Rightarrow> []) @ ys\<rparr>)"
| begin_pairing: "get_claw k (fl_reg f) = (Inr claw, s) \<Longrightarrow>
    fleet_step cfg f (f\<lparr>fl_reg := s, fl_pairs := (claw, ua) # fl_pairs f\<rparr>)"
| commit_pairing: "fl_pairs f = xs @ (claw, ua) # ys \<Longrightarrow>
    writeObserved (rc_registry cfg) (c_id claw) ((c_observed claw)\<lparr>ob_access := Some ua\<rparr>) note (Some (c_revision claw)) now (fl_reg f) = (res, s) \<Longrightarrow>
    fleet_step cfg f (f\<lparr>fl_reg := s, fl_pairs := xs @ ys\<rparr>)"
| restart: "fleet_step cfg f (f\<lparr>fl_runs := [], fl_pairs := []\<rparr>)"

definition empty_fleet :: fleet where
  "empty_fleet = \<lparr>fl_reg = \<lparr>rg_claws = [], rg_events = [], rg_policies = [], rg_uuids = 0\<rparr>, fl_runs = [], fl_pairs = []\<rparr>"

inductive fleet_steps :: "reconciler_config \<Rightarrow> nat \<Rightarrow> fleet \<Rightarrow> fleet \<Rightarrow> bool" for cfg where
  stay: "fleet_steps cfg 0 f f"
| go: "fleet_steps cfg n f g \<Longrightarrow> fleet_step cfg g h \<Longrightarrow> fleet_steps cfg (Suc n) f h"

text \<open>The revision that a run holds is the current one or an old one.\<close>

definition held :: "string \<Rightarrow> claw_record \<Rightarrow> reg \<Rightarrow> bool" where
  "held k r s \<longleftrightarrow> (\<exists>q. claw_at k s = Some q \<and> (q = r \<or> c_revision r < c_revision q))"

definition run_inv :: "reconciler_config \<Rightarrow> reg \<Rightarrow> string \<times> answers \<times> due \<Rightarrow> bool" where
  "run_inv cfg s x \<longleftrightarrow> (case x of (k, ans, d) \<Rightarrow> \<exists>r. from_run cfg ans r d \<and> c_id r = k \<and> held k r s)"

definition fleet_inv :: "reconciler_config \<Rightarrow> int \<Rightarrow> fleet \<Rightarrow> bool" where
  "fleet_inv cfg b f \<longleftrightarrow> reg_inv (rc_registry cfg) (fl_reg f) \<and> revisions_below b (fl_reg f) \<and>
     (\<forall>x\<in>set (fl_runs f). run_inv cfg (fl_reg f) x) \<and> (\<forall>(r, ua)\<in>set (fl_pairs f). held (c_id r) r (fl_reg f)) \<and>
     distinct (map fst (fl_runs f))"

lemma keeps_deleted_fleet: "keeps_deleted (fleet_write cfg)"
  by (auto simp: keeps_deleted_def fleet_write_def live_def dest!: from_run_live)

lemma held_current: "held k r s \<Longrightarrow> claw_at k s = Some q \<Longrightarrow> c_revision q = c_revision r \<Longrightarrow> q = r"
  by (auto simp: held_def)

lemma held_later:
  assumes "(safe_step cfg W)\<^sup>*\<^sup>* s t" "held k r s"
  shows "held k r t"
proof -
  obtain q where "claw_at k s = Some q" "q = r \<or> c_revision r < c_revision q" using assms(2) by (auto simp: held_def)
  then show ?thesis using claws.steps_grow [OF assms(1)] by (fastforce simp: held_def)
qed

lemma run_inv_later: "(safe_step cfg' W)\<^sup>*\<^sup>* s t \<Longrightarrow> run_inv cfg s x \<Longrightarrow> run_inv cfg t x"
  by (cases x) (auto simp: run_inv_def dest: held_later)

text \<open>Carrying out a plan moves the registry by one observed write at most, of what the run computed for the
  record that is stored.\<close>

lemma write_due_moves:
  assumes "from_run cfg ans r d" "held (c_id r) r s" "plan_observed (du_plan d) = Some ob"
  shows "moves (rc_registry cfg) (fleet_write cfg) (Suc 0) s (write_due cfg (du_claw d) ob note now)"
  unfolding write_due_def
proof (rule moves_writeObserved)
  fix q assume "claw_at (c_id (du_claw d)) s = Some q" "Some (c_revision (du_claw d)) = None \<or> Some (c_revision (du_claw d)) = Some (c_revision q)"
  then have "q = r" using same_claw_simps [OF from_run_claw [OF assms(1)]] held_current [OF assms(2)] by simp
  then show "fleet_write cfg q ob" using assms(1,3) by (auto simp: fleet_write_def)
qed

lemma commit_moves:
  assumes "from_run cfg ans r d" "held (c_id r) r s"
  shows "moves (rc_registry cfg) (fleet_write cfg) (Suc 0) s (commit cfg ans now d)"
proof (cases "du_plan d")
  case Keep
  then show ?thesis by (simp add: commit_def moves_basic)
next
  case (Write ob nt)
  then have "plan_observed (du_plan d) = Some ob" by (simp add: plan_observed_def)
  note w = write_due_moves [OF assms this, of nt now]
  show ?thesis unfolding commit_def Let_def Write plan.case
    using moves_bind_add [OF w moves_basic(1), of 0]
    by (intro moves_catch) (auto simp: thenC_def intro: moves_basic)
next
  case (Write_then_provision ob i)
  then have "plan_observed (du_plan d) = Some ob" by (simp add: plan_observed_def)
  note w = write_due_moves [OF assms this, of None now]
  show ?thesis unfolding commit_def Let_def Write_then_provision plan.case
    using moves_bind_add [OF w moves_basic(1), of 0]
    by (intro moves_catch) (auto intro: moves_basic)
qed

lemma commit_next:
  assumes run: "from_run cfg ans r d" "held (c_id r) r s" and inv: "reg_inv (rc_registry cfg) s" "revisions_below 9007199254740990 s"
    and com: "commit cfg ans now d s = (Inr (Some d'), t)" and later: "(safe_step (rc_registry cfg) W)\<^sup>*\<^sup>* s t"
  shows "run_inv cfg t (c_id r, ans, d')"
proof -
  have held: "held (c_id r) r t" using held_later [OF later run(2)] .
  have failed: "run_inv cfg t (c_id r, ans, \<lparr>du_claw = du_claw d, du_plan = failure_plan e (du_claw d), du_failing = True\<rparr>)"
    if "plan_observed (du_plan d) = Some ob" for e ob
    using from_run.failed [OF run(1) from_run_live [OF run(1) that]] held by (auto simp: run_inv_def)
  show ?thesis
  proof (cases "du_plan d")
    case Keep
    then show ?thesis using com by (simp add: commit_def)
  next
    case (Write ob nt)
    then have "plan_observed (du_plan d) = Some ob" by (simp add: plan_observed_def)
    moreover obtain e where "d' = \<lparr>du_claw = du_claw d, du_plan = failure_plan e (du_claw d), du_failing = True\<rparr>"
      using com Write by (auto simp: commit_def Let_def catchC_def thenC_def bindC_def retC_def throwC_def split: prod.splits sum.splits if_splits)
    ultimately show ?thesis using failed by simp
  next
    case (Write_then_provision ob i)
    then have po: "plan_observed (du_plan d) = Some ob" by (simp add: plan_observed_def)
    consider e where "d' = \<lparr>du_claw = du_claw d, du_plan = failure_plan e (du_claw d), du_failing = True\<rparr>"
      | w where "write_due cfg (du_claw d) ob None now s = (Inr w, t)" "d' = plan_of (provision_claw ans i \<lparr>rn_claw = w, rn_calls = []\<rparr>)"
      using com Write_then_provision
      by (auto simp: commit_def Let_def catchC_def bindC_def retC_def throwC_def split: prod.splits sum.splits if_splits)
    then show ?thesis
    proof cases
      case 1
      then show ?thesis using failed [OF po] by simp
    next
      case (2 w)
      note same = same_claw_simps [OF from_run_claw [OF run(1)]]
      have tw: "table_wf (rg_claws s)" using inv(1) by (simp add: reg_inv_def keyed_def)
      obtain q where q: "claw_at (c_id r) s = Some q" "c_revision q = c_revision r"
        and w: "w = q\<lparr>c_revision := c_revision q + 1, c_observed := ob, c_updated := now\<rparr>" and at: "claw_at (c_id r) t = Some (normalizeRecord w)"
        using writeObserved_ok [OF 2(1) [unfolded write_due_def] tw] same by auto
      have qr: "q = r" using held_current [OF run(2) q] .
      have "0 \<le> c_revision q" "c_revision q < 9007199254740990" using inv(2) q(1) by (auto simp: revisions_below_def)
      then have nw: "normalizeRecord w = w" by (simp add: w normalizeRecord_def safe_int_def)
      have "ob_phase ob = Provisioning" using from_run_shape [OF run(1)] Write_then_provision by (simp add: plan_shape_def)
      then have "live w" by (simp add: w live_def)
      then have "from_run cfg ans w d'" unfolding 2(2) by (rule provision)
      moreover have "c_id w = c_id r" by (simp add: w qr)
      moreover have "held (c_id r) w t" using at nw by (simp add: held_def)
      ultimately show ?thesis by (auto simp: run_inv_def)
    qed
  qed
qed

lemma fleet_changes:
  assumes "fleet_step cfg f g" "fleet_inv cfg b f"
  shows "changes (rc_registry cfg) (fleet_write cfg) 100 (fl_reg f) (fl_reg g)"
  using assms(1)
proof (cases rule: fleet_step.cases)
  case (operate op now)
  then show ?thesis using assms(2) by (auto simp: fleet_inv_def reg_inv_def intro: op_changes)
next
  case (begin_run k claw s ans)
  then show ?thesis by (auto simp: get_claw_def require_claw_Inr intro: none)
next
  case (commit_run xs k ans d ys now res s)
  then obtain r where r: "from_run cfg ans r d" "held (c_id r) r (fl_reg f)" using assms(2) by (auto simp: fleet_inv_def run_inv_def)
  from commit_moves [OF this, of now] show ?thesis using commit_run by (auto simp: moves_def intro: changes_weaken)
next
  case (begin_pairing k claw s ua)
  then show ?thesis by (auto simp: get_claw_def require_claw_Inr intro: none)
next
  case (commit_pairing xs claw ua ys nt now res s)
  then have h: "held (c_id claw) claw (fl_reg f)" using assms(2) by (auto simp: fleet_inv_def)
  have "moves (rc_registry cfg) (fleet_write cfg) (Suc 0) (fl_reg f)
      (writeObserved (rc_registry cfg) (c_id claw) ((c_observed claw)\<lparr>ob_access := Some ua\<rparr>) nt (Some (c_revision claw)) now)"
  proof (rule moves_writeObserved)
    fix q assume "claw_at (c_id claw) (fl_reg f) = Some q" "Some (c_revision claw) = None \<or> Some (c_revision claw) = Some (c_revision q)"
    then have "q = claw" using held_current [OF h] by simp
    then show "fleet_write cfg q ((c_observed claw)\<lparr>ob_access := Some ua\<rparr>)" by (auto simp: fleet_write_def)
  qed
  then show ?thesis using commit_pairing by (auto simp: moves_def intro: changes_weaken)
next
  case restart
  then show ?thesis by (auto intro: none)
qed

lemma fleet_inv_step:
  assumes "fleet_step cfg f g" "fleet_inv cfg b f" "2 \<le> b" "b + 100 \<le> 9007199254740990"
  shows "fleet_inv cfg (b + 100) g \<and> (safe_step (rc_registry cfg) (fleet_write cfg))\<^sup>*\<^sup>* (fl_reg f) (fl_reg g)"
proof -
  note ch = fleet_changes [OF assms(1,2)]
  have inv: "reg_inv (rc_registry cfg) (fl_reg f)" "revisions_below b (fl_reg f)" using assms(2) by (simp_all add: fleet_inv_def)
  have lim: "revisions_below 9007199254740990 (fl_reg f)" using inv(2) assms(4) by (auto intro: revisions_below_mono)
  have reg: "reg_inv (rc_registry cfg) (fl_reg g)" by (rule reg_inv_changes [OF ch inv(1) keeps_deleted_fleet])
  have safe: "revisions_below (b + 100) (fl_reg g)" "(safe_step (rc_registry cfg) (fleet_write cfg))\<^sup>*\<^sup>* (fl_reg f) (fl_reg g)"
    using changes_safe [OF ch inv(1) keeps_deleted_fleet inv(2) assms(3)] assms(4) by simp_all
  have runs: "\<forall>x\<in>set (fl_runs f). run_inv cfg (fl_reg g) x"
    using assms(2) run_inv_later [OF safe(2)] by (auto simp: fleet_inv_def)
  have pairs: "\<forall>(r, ua)\<in>set (fl_pairs f). held (c_id r) r (fl_reg g)"
    using assms(2) held_later [OF safe(2)] by (auto simp: fleet_inv_def)
  have dist: "distinct (map fst (fl_runs f))" using assms(2) by (simp add: fleet_inv_def)
  have new: "(\<forall>x\<in>set (fl_runs g). run_inv cfg (fl_reg g) x) \<and> (\<forall>(r, ua)\<in>set (fl_pairs g). held (c_id r) r (fl_reg g)) \<and>
      distinct (map fst (fl_runs g))"
    using assms(1)
  proof (cases rule: fleet_step.cases)
    case (begin_run k claw s ans)
    then have c: "claw_at k (fl_reg f) = Some claw" "s = fl_reg f" by (auto simp: get_claw_def require_claw_Inr)
    then have "c_id claw = k" "held k claw (fl_reg g)" using inv(1) begin_run(1) by (auto simp: reg_inv_def keyed_def held_def)
    then have "run_inv cfg (fl_reg g) (k, ans, start_run cfg ans claw)" using start by (auto simp: run_inv_def)
    then show ?thesis using runs pairs dist begin_run by (simp only: fleet.simps fleet.update_convs set_simps list.map ball_simps distinct.simps) (auto simp: image_iff)
  next
    case (commit_run xs k ans d ys now res s)
    then obtain r where r: "from_run cfg ans r d" "c_id r = k" "held (c_id r) r (fl_reg f)" using assms(2) by (auto simp: fleet_inv_def run_inv_def)
    have "run_inv cfg (fl_reg g) (k, ans, d')" if "res = Inr (Some d')" for d'
      using commit_next [OF r(1,3) inv(1) lim _ safe(2), of now d'] commit_run that r(2) by simp
    then show ?thesis using runs pairs dist commit_run by (auto split: sum.splits option.splits)
  next
    case (begin_pairing k claw s ua)
    then have c: "claw_at k (fl_reg f) = Some claw" "s = fl_reg f" by (auto simp: get_claw_def require_claw_Inr)
    then have "c_id claw = k" "held k claw (fl_reg g)" using inv(1) begin_pairing(1) by (auto simp: reg_inv_def keyed_def held_def)
    then show ?thesis using runs pairs dist begin_pairing by auto
  qed (use runs pairs dist in auto)
  show ?thesis using reg safe new by (simp add: fleet_inv_def)
qed

lemma empty_fleet_inv: "cfg_ok (rc_registry cfg) \<Longrightarrow> fleet_inv cfg 2 empty_fleet"
  by (simp add: fleet_inv_def empty_fleet_def reg_inv_def keyed_def table_wf_def claw_at_def mem_lookup_def revisions_below_def)

text \<open>So many steps that no revision leaves the safe integers: 90 million million.\<close>

definition step_limit :: nat where
  "step_limit = 90071992547409"

lemma fleet_inv_steps:
  assumes "fleet_steps cfg n f g" "fleet_inv cfg b f" "2 \<le> b" "b + 100 * int n \<le> 9007199254740990"
  shows "fleet_inv cfg (b + 100 * int n) g \<and> (safe_step (rc_registry cfg) (fleet_write cfg))\<^sup>*\<^sup>* (fl_reg f) (fl_reg g)"
  using assms
proof (induction rule: fleet_steps.induct)
  case (go n f g h)
  then have ih: "fleet_inv cfg (b + 100 * int n) g" "(safe_step (rc_registry cfg) (fleet_write cfg))\<^sup>*\<^sup>* (fl_reg f) (fl_reg g)" by simp_all
  then show ?case using fleet_inv_step [OF go.hyps(2) ih(1)] go.prems by (auto simp: algebra_simps)
qed simp

end
