(* ===== verification/Reconciler_Removal.thy ===== *)
theory Reconciler_Removal
  imports Reconciler_Safety
begin

text \<open>
  What the reconciler promises: removal goes through its stages in order and only with the evidence each one
  asks for, a removed claw stays removed, a write is never stale, a failure is contained, and a
  provisioned claw is ready only with the proof of its route.
\<close>

subsection \<open>One stage of a removal\<close>

definition stage_evidence :: "reconciler_config \<Rightarrow> answers \<Rightarrow> deletion_state \<Rightarrow> deletion_stage \<Rightarrow> bool" where
  \<comment> \<open>what the provider must have answered for a claw to move to that stage\<close>
  "stage_evidence cfg ans d stage \<longleftrightarrow>
     (case ds_stage d of
        Stage_disable \<Rightarrow>
          (stage = Stage_drain \<and> ((\<exists>e. an_inspect ans = Inl e \<and> workspace_failed e) \<or>
             (\<exists>p q. an_inspect ans = Inr p \<and> \<not> in_absent p \<and> an_disable ans = Inr q \<and> dr_applied q))) \<or>
          (stage = Stage_revoke \<and> (\<exists>p. an_inspect ans = Inr p \<and> in_absent p))
      | Stage_drain \<Rightarrow>
          (stage = Stage_drain \<and> (\<exists>q. an_drain ans = Inr q)) \<or>
          (stage = Stage_release \<and> (\<exists>q since. an_drain ans = Inr q \<and> dn_drained q \<and> ds_drained d = Some since \<and>
             rc_quiet cfg \<le> of_int (an_later ans - since))) \<or>
          (stage = Stage_revoke \<and> (\<exists>p. an_inspect ans = Inr p \<and> in_absent p))
      | Stage_release \<Rightarrow> (\<exists>q. an_remove ans = Inr q \<and> stage = (if rm_absent q then Stage_revoke else Stage_confirm))
      | Stage_confirm \<Rightarrow> (\<exists>q. an_remove ans = Inr q \<and> stage = (if rm_absent q then Stage_revoke else Stage_confirm))
      | Stage_revoke \<Rightarrow> False)"

definition revoked :: "answers \<Rightarrow> bool" where
  "revoked ans \<longleftrightarrow> (\<exists>v. an_revoke ans = Inr v \<and> (rv_absent v \<or> rv_removed v \<or> rv_rejected v))"

text \<open>The drained time is only ever forgotten or kept once the claw is past the drain.\<close>

definition removal_outcome :: "reconciler_config \<Rightarrow> answers \<Rightarrow> deletion_state \<Rightarrow> plan \<Rightarrow> bool" where
  "removal_outcome cfg ans d p \<longleftrightarrow>
     (case p of Write ob nt \<Rightarrow>
       (case ob_deletion ob of
          None \<Rightarrow> ds_stage d = Stage_revoke \<and> ob_phase ob = Deleted \<and> revoked ans
        | Some d' \<Rightarrow> ob_phase ob = Deleting \<and> stage_evidence cfg ans d (ds_stage d') \<and> ds_requested d' = ds_requested d \<and>
            (ds_stage d' \<noteq> Stage_drain \<longrightarrow> ds_drained d' = ds_drained d))
      | _ \<Rightarrow> False)"

lemma deleting_sel [simp]: "ob_deletion (deleting ob m d) = Some d" "ob_phase (deleting ob m d) = Deleting"
  by (simp_all add: deleting_def)

lemma at_stage_sel [simp]: "ds_stage (at_stage d st n) = st" "ds_requested (at_stage d st n) = ds_requested d"
  "ds_drained (at_stage d st n) = ds_drained d"
  by (simp_all add: at_stage_def)

lemma ask_eq: "ask c x s = (x, s\<lparr>rn_calls := rn_calls s @ [c]\<rparr>)"
  by (simp add: ask_def)

lemmas run_eval = bindC_eval thenC_eval catchC_eval ask_eq stage_evidence_def removal_outcome_def markProviderAbsent_def

lemma removal_step_outcome:
  assumes "removal_step cfg ans d s = (Inr p, t)" "ob_deletion (c_observed (rn_claw s)) = Some d"
  shows "removal_outcome cfg ans d p"
proof (cases "ds_stage d")
  case Stage_disable
  have "disable_stage ans d s = (Inr p, t)" using assms(1) Stage_disable by (simp add: removal_step_def)
  then show ?thesis using assms(2) Stage_disable
    by (cases "an_inspect ans")
      (auto simp: disable_stage_def run_eval
        split: if_splits option.splits sum.splits)
next
  case Stage_drain
  have "drain_stage cfg ans d s = (Inr p, t)" using assms(1) Stage_drain by (simp add: removal_step_def)
  then show ?thesis using assms(2) Stage_drain
    by (cases "an_inspect ans")
      (auto simp: drain_stage_def run_eval
        split: if_splits option.splits sum.splits)
next
  case Stage_release
  have "release_stage ans d s = (Inr p, t)" using assms(1) Stage_release by (simp add: removal_step_def)
  then show ?thesis using assms(2) Stage_release
    by (auto simp: release_stage_def run_eval split: if_splits sum.splits)
next
  case Stage_confirm
  have "confirm_stage ans d s = (Inr p, t)" using assms(1) Stage_confirm by (simp add: removal_step_def)
  then show ?thesis using assms(2) Stage_confirm
    by (auto simp: confirm_stage_def run_eval split: if_splits sum.splits)
next
  case Stage_revoke
  have "revoke_stage ans s = (Inr p, t)" using assms(1) Stage_revoke by (simp add: removal_step_def)
  then show ?thesis using assms(2) Stage_revoke
    by (auto simp: revoke_stage_def run_eval markDeleted_def revoked_def split: if_splits sum.splits)
qed

lemma serve_removal: "ob_deletion (c_observed r) = Some d \<Longrightarrow> serve_claw cfg ans i (merged r ans) = removal_step cfg ans d (merged r ans)"
  using same_claw_simps(6) [OF merged_claw(1), of r ans] by (simp add: serve_claw_def bindC_eval)

lemma serve_other: "ob_deletion (c_observed r) = None \<Longrightarrow>
    serve_claw cfg ans i (merged r ans) =
      (if \<not> d_enabled (c_desired r) then disable_claw ans (merged r ans)
       else if ob_lifecycle (c_observed r) = None then
         (Inr (Write_then_provision ((c_observed (rn_claw (merged r ans)))\<lparr>ob_phase := Provisioning,
            ob_message := ''Creating one isolated child workspace''\<rparr>) i), merged r ans)
       else inspect_claw cfg ans i (merged r ans))"
  using same_claw_simps [OF merged_claw(1), of r ans] by (simp add: serve_claw_def bindC_eval)

lemma start_run_failing: "du_failing (start_run cfg ans r) \<longleftrightarrow> (\<exists>e. fst (run_body cfg ans \<lparr>rn_claw = r, rn_calls = []\<rparr>) = Inl e)"
  by (auto simp: start_run_def plan_of_def split: prod.splits sum.splits)

lemma start_run_plan:
  "run_body cfg ans \<lparr>rn_claw = r, rn_calls = []\<rparr> = (Inr p, t) \<Longrightarrow> du_plan (start_run cfg ans r) = p"
  by (simp add: start_run_def plan_of_def)

lemma start_removal:
  assumes "live r" "ob_deletion (c_observed r) = Some d" "\<not> du_failing (start_run cfg ans r)"
  shows "removal_outcome cfg ans d (du_plan (start_run cfg ans r))"
proof (cases rule: run_body_cases [of r cfg ans])
  case 3
  then have "run_body cfg ans \<lparr>rn_claw = r, rn_calls = []\<rparr> = removal_step cfg ans d (merged r ans)" using assms(2) serve_removal by simp
  moreover have "ob_deletion (c_observed (rn_claw (merged r ans))) = Some d"
    using same_claw_simps(6) [OF merged_claw(1)] assms(2) by simp
  moreover obtain p t where pt: "run_body cfg ans \<lparr>rn_claw = r, rn_calls = []\<rparr> = (Inr p, t)"
    using assms(3) by (cases "run_body cfg ans \<lparr>rn_claw = r, rn_calls = []\<rparr>"; cases "fst (run_body cfg ans \<lparr>rn_claw = r, rn_calls = []\<rparr>)")
      (auto simp: start_run_failing)
  ultimately show ?thesis using removal_step_outcome start_run_plan [OF pt] by metis
qed (use assms(1,3) in \<open>auto simp: start_run_failing\<close>)

text \<open>
  C15. Removal goes stage by stage: from disabling to draining only after the child's ingress was disabled
  (or its workspace failed), from draining to releasing only when no run is active and none was for the quiet
  period, past confirming only when the provider says that the resource is absent, and to deleted only from
  the last stage, after the parent pairing was confirmed gone. No stage is skipped but on the provider's
  word that the resource is absent.
\<close>

theorem removal_goes_in_order:
  assumes "live r" "ob_deletion (c_observed r) = Some d" "\<not> du_failing (start_run cfg ans r)"
  shows "\<exists>ob nt. du_plan (start_run cfg ans r) = Write ob nt \<and>
    (case ob_deletion ob of
       None \<Rightarrow> ds_stage d = Stage_revoke \<and> ob_phase ob = Deleted \<and> revoked ans
     | Some d' \<Rightarrow> ob_phase ob = Deleting \<and> stage_evidence cfg ans d (ds_stage d') \<and> ds_requested d' = ds_requested d)"
  using start_removal [OF assms] by (auto simp: removal_outcome_def split: plan.splits option.splits)

lemma calls_step: "set (rn_calls (snd (removal_step cfg ans d s))) \<subseteq> set (rn_calls s) \<union>
    (case ds_stage d of Stage_disable \<Rightarrow> {Ask_inspect False, Ask_disable} | Stage_drain \<Rightarrow> {Ask_inspect False, Ask_drain}
     | Stage_release \<Rightarrow> {Ask_remove} | Stage_confirm \<Rightarrow> {Ask_remove} | Stage_revoke \<Rightarrow> {Ask_revoke})"
  by (cases "ds_stage d")
    (auto simp: removal_step_def disable_stage_def drain_stage_def release_stage_def confirm_stage_def revoke_stage_def
      run_eval split: if_splits option.splits sum.splits)

lemma calls_serving:
  "set (rn_calls (snd (disable_claw ans s))) \<subseteq> set (rn_calls s) \<union> {Ask_disable}"
  "set (rn_calls (snd (inspect_claw cfg ans i s))) \<subseteq> set (rn_calls s) \<union> {Ask_inspect True}"
  by (auto simp: disable_claw_def inspect_claw_def run_eval split: if_splits sum.splits)

text \<open>The provider is asked to release a workspace only in the stages after the drain.\<close>

lemma remove_call_stage:
  assumes "live r" "Ask_remove \<in> set (rn_calls (snd (run_body cfg ans \<lparr>rn_claw = r, rn_calls = []\<rparr>)))"
  shows "\<exists>d. ob_deletion (c_observed r) = Some d \<and> ds_stage d \<in> {Stage_release, Stage_confirm}"
proof (cases rule: run_body_cases [of r cfg ans])
  case 3
  have m: "Ask_remove \<notin> set (rn_calls (merged r ans))" using merged_claw(2) [of r ans] by auto
  show ?thesis
  proof (cases "ob_deletion (c_observed r)")
    case None
    then show ?thesis using assms(2) 3(2) m calls_serving(1) [of ans "merged r ans"] calls_serving(2) [of cfg ans "inference_of r ans" "merged r ans"]
      by (auto simp: serve_other split: if_splits)
  next
    case (Some d)
    then show ?thesis using assms(2) 3(2) m calls_step [of cfg ans d "merged r ans"] by (cases "ds_stage d") (auto simp: serve_removal)
  qed
qed (use assms in auto)

text \<open>A claw past the drain has the time from which it was drained.\<close>

definition drained_ok :: "claw_observed \<Rightarrow> bool" where
  "drained_ok ob \<longleftrightarrow> (\<forall>d. ob_deletion ob = Some d \<longrightarrow> ds_stage d \<in> {Stage_release, Stage_confirm} \<longrightarrow> ds_drained d \<noteq> None)"

lemma drained_ok_cong: "ob_deletion a = ob_deletion b \<Longrightarrow> drained_ok a \<longleftrightarrow> drained_ok b"
  by (simp add: drained_ok_def)

lemma failure_plan_observed:
  "plan_observed (failure_plan e c) = Some ob \<Longrightarrow> ob_deletion ob = ob_deletion (c_observed c) \<and> ob_lifecycle ob = ob_lifecycle (c_observed c) \<and>
    ob_phase ob = Attention \<and> ob_generation ob = ob_generation (c_observed c)"
  by (auto simp: failure_plan_def plan_observed_def Let_def split: prod.splits)

lemma with_result_deletion [simp]: "ob_deletion (with_result ob r) = ob_deletion ob"
  by (simp add: with_result_def)

lemma inspected_deletion [simp]: "ob_deletion (inspected lib claw i r) = ob_deletion (c_observed claw)"
  by (simp add: inspected_def Let_def invalidated_def)

lemma serving_deletion:
  assumes "plan_observed p = Some ob"
  shows "disable_claw ans s = (Inr p, t) \<Longrightarrow> ob_deletion ob = ob_deletion (c_observed (rn_claw s))"
    and "inspect_claw cfg ans i s = (Inr p, t) \<Longrightarrow> ob_deletion ob = ob_deletion (c_observed (rn_claw s))"
    and "provision_claw ans i s = (Inr p, t) \<Longrightarrow> ob_deletion ob = None"
proof -
  show "ob_deletion ob = ob_deletion (c_observed (rn_claw s))" if "disable_claw ans s = (Inr p, t)"
    using that assms by (auto simp: disable_claw_def run_eval plan_observed_def split: if_splits sum.splits)
  show "ob_deletion ob = ob_deletion (c_observed (rn_claw s))" if "inspect_claw cfg ans i s = (Inr p, t)"
    using that assms by (cases "an_inspect ans") (auto simp: inspect_claw_def run_eval plan_observed_def provider_gone_def split: if_splits)
  show "ob_deletion ob = None" if "provision_claw ans i s = (Inr p, t)"
    using that assms by (cases "an_provision ans") (auto simp: provision_claw_def run_eval plan_observed_def Let_def)
qed

lemma removal_outcome_drained:
  assumes "removal_outcome cfg ans d p" "plan_observed p = Some ob" "ds_stage d \<in> {Stage_release, Stage_confirm} \<Longrightarrow> ds_drained d \<noteq> None"
  shows "drained_ok ob"
  using assms
  by (cases "ds_stage d")
    (auto simp: removal_outcome_def plan_observed_def drained_ok_def stage_evidence_def split: plan.splits option.splits if_splits)

lemma from_run_drained:
  assumes "from_run cfg ans r x" "drained_ok (c_observed r)" "plan_observed (du_plan x) = Some ob"
  shows "drained_ok ob"
  using assms
proof (induction arbitrary: ob rule: from_run.induct)
  case (start r)
  have lv: "live r" using from_run_live [OF from_run.start start(2)] .
  obtain res t where body: "run_body cfg ans \<lparr>rn_claw = r, rn_calls = []\<rparr> = (res, t)" by force
  note same = same_claw_simps(6) [OF merged_claw(1), of r ans]
  show ?case
  proof (cases res)
    case (Inl e)
    then have "du_plan (start_run cfg ans r) = failure_plan e (du_claw (start_run cfg ans r))" using body by (simp add: start_run_def plan_of_def)
    then have "ob_deletion ob = ob_deletion (c_observed r)"
      using failure_plan_observed start(2) same_claw_simps(6) [OF start_run_claw] by metis
    then show ?thesis using start(1) drained_ok_cong by metis
  next
    case (Inr p)
    then have p: "du_plan (start_run cfg ans r) = p" using start_run_plan body by simp
    show ?thesis
    proof (cases "ob_deletion (c_observed r)")
      case (Some d)
      have "\<not> du_failing (start_run cfg ans r)" using body Inr by (simp add: start_run_failing)
      moreover have "ds_drained d \<noteq> None" if "ds_stage d \<in> {Stage_release, Stage_confirm}"
        using start(1) Some that unfolding drained_ok_def by blast
      ultimately show ?thesis by (intro removal_outcome_drained [OF start_removal [OF lv Some] start(2)])
    next
      case None
      show ?thesis
      proof (cases rule: run_body_cases [of r cfg ans])
        case 3
        have po: "plan_observed p = Some ob" using p start(2) by simp
        have out: "serve_claw cfg ans (inference_of r ans) (merged r ans) = (Inr p, t)" using 3(2) body Inr by simp
        consider "disable_claw ans (merged r ans) = (Inr p, t)" | "inspect_claw cfg ans (inference_of r ans) (merged r ans) = (Inr p, t)"
          | i where "p = Write_then_provision ((c_observed (rn_claw (merged r ans)))\<lparr>ob_phase := Provisioning,
              ob_message := ''Creating one isolated child workspace''\<rparr>) i"
          using out None by (auto simp: serve_other split: if_splits)
        then have "ob_deletion ob = ob_deletion (c_observed (rn_claw (merged r ans)))"
          by cases (use po serving_deletion(1,2) [OF po] in \<open>auto simp: plan_observed_def\<close>)
        then have "ob_deletion ob = None" using None same by simp
        then show ?thesis by (simp add: drained_ok_def)
      qed (use body Inr lv in auto)
    qed
  qed
next
  case (provision r i)
  then obtain res t where body: "provision_claw ans i \<lparr>rn_claw = r, rn_calls = []\<rparr> = (res, t)" by force
  show ?case
  proof (cases res)
    case (Inl e)
    then have "ob_deletion ob = ob_deletion (c_observed (rn_claw t))"
      using body provision.prems(2) failure_plan_observed by (simp add: plan_of_def)
    moreover have "rn_claw t = r" using keeps_claw_serving(3) [of ans i] body by (auto simp: keeps_claw_def) (metis run.select_convs(1) snd_conv)
    ultimately show ?thesis using provision.prems(1) drained_ok_cong by metis
  next
    case (Inr p)
    then show ?thesis using body provision.prems(2) serving_deletion(3) [of p ob ans i _ t] by (simp add: plan_of_def drained_ok_def)
  qed
next
  case (failed r d e)
  then have "ob_deletion ob = ob_deletion (c_observed (du_claw d))" using failure_plan_observed by auto
  then show ?case using same_claw_simps(6) [OF from_run_claw [OF failed.hyps(1)]] failed.prems(1) drained_ok_cong by metis
qed

subsection \<open>In the fleet\<close>

lemma fleet_reached:
  assumes "cfg_ok (rc_registry cfg)" "fleet_steps cfg n empty_fleet f" "n \<le> step_limit"
  shows "fleet_inv cfg (2 + 100 * int n) f"
    "(safe_step (rc_registry cfg) (fleet_write cfg))\<^sup>*\<^sup>* (fl_reg empty_fleet) (fl_reg f)"
  using fleet_inv_steps [OF assms(2) empty_fleet_inv [OF assms(1)]] assms(3) by (simp_all add: step_limit_def)

lemma fleet_later:
  assumes "cfg_ok (rc_registry cfg)" "fleet_steps cfg m empty_fleet f" "fleet_steps cfg n f g" "m + n \<le> step_limit"
  shows "(safe_step (rc_registry cfg) (fleet_write cfg))\<^sup>*\<^sup>* (fl_reg f) (fl_reg g)"
  using fleet_inv_steps [OF assms(3) fleet_reached(1) [OF assms(1,2)]] assms(4) by (simp add: step_limit_def)

text \<open>A property of single claws that every change keeps holds of all claws of the fleet.\<close>

lemma fleet_claws:
  assumes "(safe_step (rc_registry cfg) (fleet_write cfg))\<^sup>*\<^sup>* s t" "\<forall>k r. claw_at k s = Some r \<longrightarrow> P r"
    and new: "\<And>cid d now. P (fresh_record cid d now)"
    and desired: "\<And>r r'. P r \<Longrightarrow> desired_change (rc_registry cfg) r r' \<Longrightarrow> P r'"
    and writing: "\<And>r ob now. P r \<Longrightarrow> fleet_write cfg r ob \<Longrightarrow> P (r\<lparr>c_revision := c_revision r + 1, c_observed := ob, c_updated := now\<rparr>)"
  shows "\<forall>k r. claw_at k t = Some r \<longrightarrow> P r"
  using assms(1,2)
proof (induction rule: rtranclp_induct)
  case (step t u)
  show ?case
  proof (intro allI impI)
    fix k r assume r: "claw_at k u = Some r"
    have "\<forall>k r. claw_at k t = Some r \<longrightarrow> P r" using step by simp
    then show "P r"
      using claw_change_at [of "rc_registry cfg" "fleet_write cfg" t u k] step.hyps(2) r
      by (auto intro: new) (metis desired, metis writing)
  qed
qed simp

lemma desired_change_observed:
  "desired_change cfg r r' \<Longrightarrow> c_observed r' = c_observed r \<or> (\<exists>now. r' = removal_record r now)"
  by (cases rule: desired_change.cases, assumption)
    (auto simp: updateClawRecord_def setClawEnabled_def rotateClawCredentials_def Let_def split: if_splits)

lemma fleet_write_drained: "fleet_write cfg r ob \<Longrightarrow> drained_ok (c_observed r) \<Longrightarrow> drained_ok ob"
  by (auto simp: fleet_write_def drained_ok_cong [of "_\<lparr>ob_access := _\<rparr>" "c_observed r"] dest: from_run_drained)

lemma fleet_drained:
  assumes "cfg_ok (rc_registry cfg)" "fleet_steps cfg n empty_fleet f" "n \<le> step_limit"
  shows "\<forall>k r. claw_at k (fl_reg f) = Some r \<longrightarrow> drained_ok (c_observed r)"
proof (rule fleet_claws [OF fleet_reached(2) [OF assms]])
  show "\<forall>k r. claw_at k (fl_reg empty_fleet) = Some r \<longrightarrow> drained_ok (c_observed r)"
    by (simp add: empty_fleet_def claw_at_def mem_lookup_def)
  show "drained_ok (c_observed (fresh_record cid d now))" for cid d now by (simp add: drained_ok_def)
  show "drained_ok (c_observed r')" if "drained_ok (c_observed r)" "desired_change (rc_registry cfg) r r'" for r r'
    using desired_change_observed [OF that(2)] that(1) by (auto simp: removal_record_def drained_ok_def)
qed (simp add: fleet_write_drained)

text \<open>
  C16. Whatever clients do and however runs interleave, the provider is asked to release a workspace only for
  a claw whose removal was requested, that is past the drain, and that has a recorded time since when no
  agent run was active.
\<close>

theorem released_only_after_drain:
  assumes "cfg_ok (rc_registry cfg)" "fleet_steps cfg n empty_fleet f" "n \<le> step_limit"
    and "claw_at k (fl_reg f) = Some r" "live r"
    and "Ask_remove \<in> set (rn_calls (snd (run_body cfg ans \<lparr>rn_claw = r, rn_calls = []\<rparr>)))"
  shows "\<exists>d since. ob_deletion (c_observed r) = Some d \<and> ds_stage d \<in> {Stage_release, Stage_confirm} \<and> ds_drained d = Some since"
proof -
  obtain d where d: "ob_deletion (c_observed r) = Some d" "ds_stage d \<in> {Stage_release, Stage_confirm}"
    using remove_call_stage [OF assms(5,6)] by blast
  have "drained_ok (c_observed r)" using fleet_drained [OF assms(1-3)] assms(4) by blast
  then have "ds_drained d \<noteq> None" using d unfolding drained_ok_def by blast
  then show ?thesis using d by blast
qed

text \<open>
  C17. In every state the fleet can reach each claw is stored under its id and well formed, and no two claws that
  are not deleted share a slug.
\<close>

theorem fleet_stays_well_formed:
  assumes "cfg_ok (rc_registry cfg)" "fleet_steps cfg n empty_fleet f" "n \<le> step_limit"
  shows "(\<forall>k r. claw_at k (fl_reg f) = Some r \<longrightarrow> c_id r = k \<and> claw_wf (cfg_lib (rc_registry cfg)) r) \<and>
    (\<forall>k k' r r'. claw_at k (fl_reg f) = Some r \<longrightarrow> claw_at k' (fl_reg f) = Some r' \<longrightarrow> live r \<longrightarrow> live r' \<longrightarrow>
       d_slug (c_desired r) = d_slug (c_desired r') \<longrightarrow> k = k')"
  using fleet_reached(1) [OF assms] by (auto simp: fleet_inv_def reg_inv_def keyed_def)

lemma deleted_step:
  assumes "safe_step cfg (fleet_write rcfg) s t" "claw_at k s = Some r" "\<not> live r"
  shows "\<exists>r'. claw_at k t = Some r' \<and> \<not> live r' \<and> c_desired r' = c_desired r \<and>
    (\<exists>ua. c_observed r' = (c_observed r)\<lparr>ob_access := ua\<rparr>)"
proof -
  have "desired_change cfg r r' \<Longrightarrow> False" for r'
    using assms(3) by (auto simp: live_def going_def elim!: desired_change.cases)
  moreover have "\<exists>ua. ob = (c_observed r)\<lparr>ob_access := ua\<rparr>" if "fleet_write rcfg r ob" for ob
    using that assms(3) from_run_live by (auto simp: fleet_write_def)
  moreover have "\<exists>ua. c_observed r = (c_observed r)\<lparr>ob_access := ua\<rparr>" by (rule exI [of _ "ob_access (c_observed r)"]) simp
  ultimately show ?thesis
    using claw_change_at [of cfg "fleet_write rcfg" s t k] assms by (fastforce simp: live_def)
qed

lemma deleted_steps:
  assumes "(safe_step cfg (fleet_write rcfg))\<^sup>*\<^sup>* s t" "claw_at k s = Some r" "\<not> live r"
  shows "\<exists>r'. claw_at k t = Some r' \<and> \<not> live r' \<and> c_desired r' = c_desired r \<and>
    (\<exists>ua. c_observed r' = (c_observed r)\<lparr>ob_access := ua\<rparr>)"
  using assms(1)
proof (induction rule: rtranclp_induct)
  case base
  have "c_observed r = (c_observed r)\<lparr>ob_access := ob_access (c_observed r)\<rparr>" by simp
  then show ?case using assms(2,3) by blast
next
  case (step t u)
  then obtain q ua where q: "claw_at k t = Some q" "\<not> live q" "c_desired q = c_desired r" "c_observed q = (c_observed r)\<lparr>ob_access := ua\<rparr>" by blast
  from deleted_step [OF step.hyps(2) q(1,2)] show ?case using q(3,4) by auto
qed

text \<open>
  C18. A deleted claw stays deleted: no client operation, no reconciliation that was already under way and no
  pairing brings it back or changes its desired state; only the user paired with it may still be noted.
\<close>

theorem deleted_claws_stay_deleted:
  assumes "cfg_ok (rc_registry cfg)" "fleet_steps cfg m empty_fleet f" "fleet_steps cfg n f g" "m + n \<le> step_limit"
    and "claw_at k (fl_reg f) = Some r" "ob_phase (c_observed r) = Deleted"
  shows "\<exists>r'. claw_at k (fl_reg g) = Some r' \<and> ob_phase (c_observed r') = Deleted \<and> c_desired r' = c_desired r \<and>
    (\<exists>ua. c_observed r' = (c_observed r)\<lparr>ob_access := ua\<rparr>)"
  using deleted_steps [OF fleet_later [OF assms(1-4)] assms(5)] assms(6) by (simp add: live_def)

text \<open>
  C19. No reconciliation overwrites what it has not seen: when the write of a run succeeds, the claw in the
  registry is exactly the one the run read or wrote last, so a change of the owner in between makes the
  write fail with a conflict; and only the observed state is replaced.
\<close>

theorem writes_are_never_stale:
  assumes "cfg_ok (rc_registry cfg)" "fleet_steps cfg n empty_fleet f" "n \<le> step_limit"
    and "(k, ans, d) \<in> set (fl_runs f)" "write_due cfg (du_claw d) ob nt now (fl_reg f) = (Inr w, s)"
  shows "\<exists>r. claw_at k (fl_reg f) = Some r \<and> from_run cfg ans r d \<and> same_claw r (du_claw d) \<and>
    w = r\<lparr>c_revision := c_revision r + 1, c_observed := ob, c_updated := now\<rparr>"
proof -
  have inv: "fleet_inv cfg (2 + 100 * int n) f" by (rule fleet_reached(1) [OF assms(1-3)])
  then obtain r where r: "from_run cfg ans r d" "c_id r = k" "held k r (fl_reg f)" using assms(4) by (auto simp: fleet_inv_def run_inv_def)
  have tw: "table_wf (rg_claws (fl_reg f))" using inv by (simp add: fleet_inv_def reg_inv_def keyed_def)
  note same = same_claw_simps [OF from_run_claw [OF r(1)]]
  obtain q where "claw_at k (fl_reg f) = Some q" "c_revision q = c_revision r"
    "w = q\<lparr>c_revision := c_revision q + 1, c_observed := ob, c_updated := now\<rparr>"
    using writeObserved_ok [OF assms(5) [unfolded write_due_def] tw] same r(2) by auto
  then show ?thesis using held_current [OF r(3)] r(1) from_run_claw [OF r(1)] by blast
qed

subsection \<open>Failures, proof, progress\<close>

text \<open>the texts a failed run is reported with: the tables of src/errors.ts and the reconciler's own three\<close>

definition failure_texts :: "string set" where
  "failure_texts = copy_texts \<union> {''Child removal did not complete'', ''Child provisioning did not complete'', ''Child reconciliation did not complete''}"

definition failure_message :: "string \<Rightarrow> op_code \<Rightarrow> string" where
  "failure_message why code = why @ '' ['' @ code_name code @ '']''"

lemma failure_plan_text:
  "\<exists>why code nt. why \<in> failure_texts \<and> ev_outcome nt = Outcome_failed \<and> ev_summary nt = slice 300 (failure_message why code) \<and>
     failure_plan e claw = Write ((c_observed claw)\<lparr>ob_phase := Attention, ob_health := Degraded,
       ob_message := slice 500 (failure_message why code)\<rparr>) (Some nt)"
proof -
  obtain code why where f: "safeReconcileFailure e claw = (code, why)" by force
  have "snd (safeReconcileFailure e claw) \<in> failure_texts"
    using safe_text [of e "(CHILD_REMOVAL_FAILED, ''Child removal did not complete'')"]
      safe_text [of e "(CHILD_PROVISION_FAILED, ''Child provisioning did not complete'')"]
      safe_text [of e "(CHILD_RECONCILE_FAILED, ''Child reconciliation did not complete'')"]
    by (auto simp: safeReconcileFailure_def failure_texts_def)
  then have "why \<in> failure_texts" using f by simp
  then show ?thesis using f
    by (auto simp: failure_plan_def Let_def failure_message_def reconciler_note_def audit_note_def intro!: exI [of _ why] exI [of _ code])
qed

definition inference_kept :: "answers \<Rightarrow> claw_record \<Rightarrow> inference_observation option \<Rightarrow> bool" where
  \<comment> \<open>the observation of the claw, or for a routed claw the fresh answer of the inference control\<close>
  "inference_kept ans r i \<longleftrightarrow> i = ob_inference (c_observed r) \<or>
     (inf_router (d_inference (c_desired r)) \<noteq> Direct \<and> (\<exists>j. an_inference ans = Inr j \<and> i = Some j))"

lemma start_inference: "inference_kept ans r (ob_inference (c_observed (du_claw (start_run cfg ans r))))"
proof -
  have claw: "du_claw (start_run cfg ans r) = rn_claw (snd (run_body cfg ans \<lparr>rn_claw = r, rn_calls = []\<rparr>))"
    by (auto simp: start_run_def plan_of_def split: prod.splits sum.splits)
  show ?thesis
  proof (cases "\<exists>x e. inf_router (d_inference (c_desired r)) = Routed x \<and> an_inference ans = Inl e")
    case True
    then show ?thesis unfolding claw
      by (cases "live r"; cases "rc_inference cfg") (auto simp: run_body_def bindC_eval thenC_eval ask_def live_def inference_kept_def)
  next
    case False
    then have m: "inference_kept ans r (ob_inference (c_observed (rn_claw (merged r ans))))"
      by (cases "inf_router (d_inference (c_desired r))"; cases "an_inference ans") (auto simp: merged_def inference_kept_def)
    have k: "inference_kept ans r (ob_inference (c_observed r))" by (simp add: inference_kept_def)
    show ?thesis unfolding claw
    proof (cases rule: run_body_cases [of r cfg ans])
      case 3
      then show "inference_kept ans r (ob_inference (c_observed (rn_claw (snd (run_body cfg ans \<lparr>rn_claw = r, rn_calls = []\<rparr>)))))"
        using keeps_claw_serve [of cfg ans "inference_of r ans"] m by (simp add: keeps_claw_def)
    qed (use k in simp_all)
  qed
qed

lemma from_run_inference: "from_run cfg ans r d \<Longrightarrow> inference_kept ans r (ob_inference (c_observed (du_claw d)))"
  by (induction rule: from_run.induct) (simp_all add: start_inference provision_claw_keeps, simp add: inference_kept_def)

lemma from_run_failing: "from_run cfg ans r d \<Longrightarrow> du_failing d \<Longrightarrow> \<exists>e. du_plan d = failure_plan e (du_claw d)"
  by (cases rule: from_run.cases, assumption) (auto simp: start_run_def plan_of_def split: prod.splits sum.splits)


definition route_proven :: "inference_observation \<Rightarrow> operational_probes option \<Rightarrow> bool" where
  "route_proven i probes \<longleftrightarrow> io_healthy i \<and> io_catalog i \<and>
     (\<exists>p. probes = Some p \<and> mp_live (pr_model p) \<and> mp_configured (pr_model p) = io_model i \<and> mp_resolved (pr_model p) = Some (io_model i))"

lemma inferenceResult_verified:
  "inferenceResult (Some i) probes = Some x \<Longrightarrow> io_verified x \<longleftrightarrow> route_proven i probes"
  by (auto simp: inferenceResult_def route_proven_def split: option.splits)

text \<open>An answer that is ready and healthy, the only one that the reconciler checks for the proof of the route.\<close>

definition ready_answer :: "inspect_result \<Rightarrow> bool" where
  "ready_answer res \<longleftrightarrow> in_phase res = Some Ready \<and> in_health res = Some Healthy"

definition ready_with_proof :: "js_lib \<Rightarrow> claw_record \<Rightarrow> inference_observation \<Rightarrow> inspect_result \<Rightarrow> claw_observed \<Rightarrow> bool" where
  "ready_with_proof lib claw i res ob \<longleftrightarrow>
     (\<exists>x. ob_inference ob = Some x \<and> (io_verified x \<longleftrightarrow> route_proven i (in_probes res))) \<and>
     (ob_phase ob = Ready \<longleftrightarrow>
        (if ready_answer res then route_proven i (in_probes res) else over (in_phase res) (ob_phase (c_observed claw)) = Ready)) \<and>
     (ready_answer res \<and> \<not> route_proven i (in_probes res) \<longrightarrow> ob_phase ob = Attention \<and> ob_health ob = Degraded) \<and>
     ob_generation ob =
       (if ready_answer res \<and> route_proven i (in_probes res) \<or> in_config res = Some (childPolicyHash lib claw)
        then d_generation (c_desired claw) else if in_invalidate res then 0 else ob_generation (c_observed claw))"

lemma inspected_ready: "ready_with_proof lib claw i res (inspected lib claw (Some i) res)"
proof -
  obtain x where x: "inferenceResult (Some i) (in_probes res) = Some x" by (simp add: inferenceResult_def)
  moreover have "ob_phase (invalidated ob) = ob_phase ob" for ob by (simp add: invalidated_def)
  ultimately show ?thesis using inferenceResult_verified [OF x]
    by (auto simp: ready_with_proof_def ready_answer_def inspected_def Let_def verified_def over_def with_result_def)
      (simp_all add: invalidated_def)
qed

text \<open>What the check does not see: ready, but not healthy.\<close>

lemma ready_without_proof:
  assumes "in_phase res = Some Ready" "in_health res \<noteq> Some Healthy" "\<not> route_proven i (in_probes res)"
  shows "ob_phase (inspected lib claw (Some i) res) = Ready"
  using inspected_ready [of lib claw i res] assms by (auto simp: ready_with_proof_def ready_answer_def over_def)

text \<open>
  C21. A new claw of a routed fleet is reported ready only with a live proof of its route: healthy router, complete
  catalogue and a probe that resolved exactly the configured model; otherwise it acknowledges no generation. When
  an existing claw is inspected, the stored observation is marked verified exactly when there is such a proof, and
  an answer that is ready and healthy is reported ready with it and as attention and degraded without it. Any
  other answer keeps its phase, or the phase before when it has none (\<open>ready_without_proof\<close>); and the generation is
  acknowledged only with the proof or when the child reports the hash of exactly the desired policy.
\<close>

theorem ready_needs_route_proof:
  "(provision_claw ans (Some i) s = (Inr (Write ob nt), t) \<longrightarrow>
      (\<exists>res. an_provision ans = Inr res \<and>
        (ob_phase ob = Ready \<longrightarrow> route_proven i (pv_probes res) \<and> ob_generation ob = d_generation (c_desired (rn_claw s))) \<and>
        (ob_phase ob \<noteq> Ready \<longrightarrow> ob_generation ob = 0 \<and> ob_seen ob = None \<and> nt = None))) \<and>
   (inspect_claw cfg ans (Some i) s = (Inr (Write ob nt), t) \<longrightarrow>
      (\<exists>res. an_inspect ans = Inr res \<and>
        (if in_absent res then ob_phase ob = Provisioning \<and> ob_generation ob = 0
         else ready_with_proof (cfg_lib (rc_registry cfg)) (rn_claw s) i res ob)))"
proof (intro conjI impI)
  assume p: "provision_claw ans (Some i) s = (Inr (Write ob nt), t)"
  show "\<exists>res. an_provision ans = Inr res \<and>
        (ob_phase ob = Ready \<longrightarrow> route_proven i (pv_probes res) \<and> ob_generation ob = d_generation (c_desired (rn_claw s))) \<and>
        (ob_phase ob \<noteq> Ready \<longrightarrow> ob_generation ob = 0 \<and> ob_seen ob = None \<and> nt = None)"
  proof (cases "an_provision ans")
    case (Inr res)
    obtain x where x: "inferenceResult (Some i) (pv_probes res) = Some x" by (simp add: inferenceResult_def)
    then show ?thesis using p Inr inferenceResult_verified [OF x]
      by (auto simp: provision_claw_def bindC_eval ask_eq Let_def verified_def split: if_splits)
  qed (use p in \<open>auto simp: provision_claw_def bindC_eval ask_eq\<close>)
next
  assume p: "inspect_claw cfg ans (Some i) s = (Inr (Write ob nt), t)"
  then obtain res where res: "an_inspect ans = Inr res"
    by (cases "an_inspect ans") (auto simp: inspect_claw_def bindC_eval ask_eq)
  then show "\<exists>res. an_inspect ans = Inr res \<and>
        (if in_absent res then ob_phase ob = Provisioning \<and> ob_generation ob = 0
         else ready_with_proof (cfg_lib (rc_registry cfg)) (rn_claw s) i res ob)"
    using p by (auto simp: inspect_claw_def bindC_eval ask_eq provider_gone_def inspected_ready split: if_splits)
qed

end
