(* ===== verification/Reconciler_Progress.thy ===== *)
theory Reconciler_Progress
  imports Reconciler_Removal
begin

text \<open>
  Runs end (three writes), a removal completes when the provider cooperates, and concrete fleets on which the
  properties of theory \<open>Reconciler_Removal\<close> are evaluated.
\<close>

subsection \<open>Runs end\<close>

lemma commit_final:
  assumes "final_write (du_plan d)" "commit cfg ans now d s = (Inr (Some d'), t)"
  shows "final_write (du_plan d') \<and> du_failing d'"
  using assms
  by (auto simp: final_write_def commit_def Let_def bindC_eval thenC_eval catchC_eval failure_plan_def
      split: if_splits sum.splits prod.splits)

lemma commit_failing:
  assumes "final_write (du_plan d)" "du_failing d" "commit cfg ans now d s = (Inr x, t)"
  shows "x = None"
  using assms
  by (auto simp: final_write_def commit_def Let_def bindC_eval thenC_eval catchC_eval
      split: if_splits sum.splits prod.splits)

lemma commit_any:
  assumes "commit cfg ans now d s = (Inr (Some d'), t)"
  shows "final_write (du_plan d')"
proof (cases "du_plan d")
  case (Write_then_provision ob i)
  have "final_write (du_plan (plan_of (provision_claw ans i st)))" for st
    using returns_serving(3) [of ans i] by (cases "provision_claw ans i st"; cases "fst (provision_claw ans i st)")
      (auto simp: plan_of_def returns_def)
  then show ?thesis using assms Write_then_provision
    by (auto simp: commit_def Let_def bindC_eval thenC_eval catchC_eval split: if_splits sum.splits prod.splits)
qed (use assms commit_final [OF _ assms] in \<open>auto simp: final_write_def commit_def\<close>)

lemma finish_none: "finish_run n cfg ans now None s = (Inr (), s)"
  by (cases n) simp_all

lemma finish_step:
  assumes "\<And>x t. commit cfg ans now d s = (Inr x, t) \<Longrightarrow> finish_run m cfg ans now x t = finish_run k cfg ans now x t"
  shows "finish_run (Suc m) cfg ans now (Some d) s = finish_run (Suc k) cfg ans now (Some d) s"
  using assms by (cases "commit cfg ans now d s"; cases "fst (commit cfg ans now d s)")
    (simp_all add: finish_run.simps(3) bindC_eval)

text \<open>
  C22. A reconciliation writes at most three times (the claim of the workspace, its outcome, the report of a
  failure), whatever the provider and the stores answer: giving a run more steps changes nothing.
\<close>

theorem runs_end: "finish_run (3 + n) cfg ans now (Some d) s = finish_run 3 cfg ans now (Some d) s"
proof -
  have last: "finish_run (Suc m) cfg ans now (Some d) s = finish_run (Suc k) cfg ans now (Some d) s"
    if f: "final_write (du_plan d)" "du_failing d" for m k d s
    by (rule finish_step) (auto simp: finish_none dest!: commit_failing [OF f])
  have second: "finish_run (Suc (Suc m)) cfg ans now (Some d) s = finish_run (Suc (Suc k)) cfg ans now (Some d) s"
    if f: "final_write (du_plan d)" for m k d s
  proof (rule finish_step)
    show "finish_run (Suc m) cfg ans now x t = finish_run (Suc k) cfg ans now x t"
      if "commit cfg ans now d s = (Inr x, t)" for x t
      using commit_final [OF f] that last by (cases x) (auto simp only: finish_none)
  qed
  have "finish_run (Suc (Suc n)) cfg ans now x t = finish_run (Suc (Suc 0)) cfg ans now x t"
    if "commit cfg ans now d s = (Inr x, t)" for x t
    using commit_any that second by (cases x) (auto simp only: finish_none)
  from finish_step [OF this] show ?thesis by (simp only: numeral_3_eq_3 add_Suc add_0)
qed

subsection \<open>Removal completes\<close>

definition cooperative :: "reconciler_config \<Rightarrow> answers \<Rightarrow> bool" where
  "cooperative cfg ans \<longleftrightarrow> rc_inference cfg \<and> (\<exists>i. an_inference ans = Inr i) \<and> (\<exists>p. an_inspect ans = Inr p \<and> \<not> in_absent p) \<and>
     (\<exists>q. an_disable ans = Inr q \<and> dr_applied q) \<and> (\<exists>q. an_drain ans = Inr q \<and> dn_drained q) \<and>
     (\<exists>q. an_remove ans = Inr q \<and> rm_absent q) \<and> revoked ans"

lemma cooperative_body:
  assumes "live r" "cooperative cfg ans"
  shows "run_body cfg ans \<lparr>rn_claw = r, rn_calls = []\<rparr> = serve_claw cfg ans (inference_of r ans) (merged r ans)"
  using assms
  by (cases "inf_router (d_inference (c_desired r))")
    (auto simp: run_body_def bindC_eval thenC_eval ask_eq live_def merged_def inference_of_def cooperative_def)

lemma removal_plan:
  assumes "live r" "cooperative cfg ans" "ob_deletion (c_observed r) = Some d"
    and "removal_step cfg ans d (merged r ans) = (Inr p, t)"
  shows "du_plan (start_run cfg ans r) = p"
  using start_run_plan [of cfg ans r p t] cooperative_body [OF assms(1,2)] serve_removal [OF assms(3)] assms(4) by simp

lemmas stage_eval = removal_step_def disable_stage_def drain_stage_def release_stage_def confirm_stage_def revoke_stage_def
  bindC_eval thenC_eval catchC_eval ask_eq

lemma cooperative_answers:
  assumes "cooperative cfg ans"
  obtains p q u v w where "an_inspect ans = Inr p" "\<not> in_absent p" "an_disable ans = Inr q" "dr_applied q"
    "an_drain ans = Inr u" "dn_drained u" "an_remove ans = Inr v" "rm_absent v" "an_revoke ans = Inr w"
    "rv_absent w \<or> rv_removed w \<or> rv_rejected w"
  using assms by (auto simp: cooperative_def revoked_def)

lemma advance:
  assumes "live r" "cooperative cfg ans" "ob_deletion (c_observed r) = Some d"
  shows "ds_stage d = Stage_disable \<Longrightarrow>
      \<exists>ob. plan_observed (du_plan (start_run cfg ans r)) = Some ob \<and> ob_phase ob = Deleting \<and>
        ob_deletion ob = Some (at_stage d Stage_drain (an_now ans))" (is "_ \<Longrightarrow> ?A")
    and "ds_stage d = Stage_drain \<Longrightarrow> ds_drained d = None \<Longrightarrow>
      \<exists>ob. plan_observed (du_plan (start_run cfg ans r)) = Some ob \<and> ob_phase ob = Deleting \<and>
        ob_deletion ob = Some (d\<lparr>ds_attempt := Some (an_now ans), ds_drained := Some (an_later ans)\<rparr>)" (is "_ \<Longrightarrow> _ \<Longrightarrow> ?B")
    and "ds_stage d = Stage_drain \<Longrightarrow> ds_drained d = Some since \<Longrightarrow> rc_quiet cfg \<le> of_int (an_later ans - since) \<Longrightarrow>
      \<exists>ob. plan_observed (du_plan (start_run cfg ans r)) = Some ob \<and> ob_phase ob = Deleting \<and>
        ob_deletion ob = Some (at_stage d Stage_release (an_now ans))" (is "_ \<Longrightarrow> _ \<Longrightarrow> _ \<Longrightarrow> ?C")
    and "ds_stage d = Stage_release \<Longrightarrow>
      \<exists>ob. plan_observed (du_plan (start_run cfg ans r)) = Some ob \<and> ob_phase ob = Deleting \<and>
        ob_deletion ob = Some (at_stage d Stage_revoke (an_later ans))" (is "_ \<Longrightarrow> ?D")
    and "ds_stage d = Stage_revoke \<Longrightarrow>
      \<exists>ob. plan_observed (du_plan (start_run cfg ans r)) = Some ob \<and> ob_phase ob = Deleted \<and> ob_deletion ob = None" (is "_ \<Longrightarrow> ?E")
proof -
  obtain p q u v w where a: "an_inspect ans = Inr p" "\<not> in_absent p" "an_disable ans = Inr q" "dr_applied q"
    "an_drain ans = Inr u" "dn_drained u" "an_remove ans = Inr v" "rm_absent v" "an_revoke ans = Inr w"
    "rv_absent w \<or> rv_removed w \<or> rv_rejected w"
    by (rule cooperative_answers [OF assms(2)])
  have d: "ob_deletion (c_observed (rn_claw (merged r ans))) = Some d"
    using same_claw_simps(6) [OF merged_claw(1)] assms(3) by simp
  have by_write: "\<exists>ob. plan_observed (du_plan (start_run cfg ans r)) = Some ob \<and> ob_phase ob = ph \<and> ob_deletion ob = dl"
    if "case fst (removal_step cfg ans d (merged r ans)) of Inr (Write ob x) \<Rightarrow> ob_phase ob = ph \<and> ob_deletion ob = dl | _ \<Rightarrow> False" for ph dl
  proof (cases "removal_step cfg ans d (merged r ans)")
    case (Pair res t)
    with that obtain ob x where "res = Inr (Write ob x)" "ob_phase ob = ph" "ob_deletion ob = dl"
      by (auto split: sum.splits plan.splits)
    with removal_plan [OF assms] Pair show ?thesis by (simp add: plan_observed_def)
  qed
  show ?A if "ds_stage d = Stage_disable"
    by (rule by_write) (simp add: that stage_eval a deleting_def)
  show ?B if "ds_stage d = Stage_drain" "ds_drained d = None"
    by (rule by_write) (simp add: that stage_eval a deleting_def)
  show ?C if "ds_stage d = Stage_drain" "ds_drained d = Some since" "rc_quiet cfg \<le> of_int (an_later ans - since)"
    by (rule by_write) (use that in \<open>simp add: stage_eval a deleting_def\<close>)
  show ?D if "ds_stage d = Stage_release"
    by (rule by_write) (simp add: that stage_eval a deleting_def markProviderAbsent_def d at_stage_def)
  show ?E if "ds_stage d = Stage_revoke"
    by (rule by_write) (use a in \<open>simp add: that stage_eval markDeleted_def\<close>)
qed

text \<open>In the registry: names that \<open>randomUUID\<close> makes are valid keys, so the write of a run that nothing disturbs
  succeeds.\<close>

definition names_ok :: "registry_config \<Rightarrow> bool" where
  "names_ok cfg \<longleftrightarrow> (\<forall>n. requireKey (cfg_uuid cfg n) = Inr ())"

definition stores :: "string \<Rightarrow> claw_record \<Rightarrow> reg \<Rightarrow> bool" where
  "stores k r s \<longleftrightarrow> table_wf (rg_claws s) \<and> requireKey k = Inr () \<and> claw_at k s = Some r \<and> c_id r = k"

lemma audit_total:
  assumes "names_ok cfg"
  shows "\<exists>t. audit cfg ev now s = (Inr (), t) \<and> rg_claws t = rg_claws s"
  using assms
  by (auto simp: names_ok_def audit_def randomUUID_def bindC_eval put_event_def sql_register_def events_options_def)

lemma put_stored:
  assumes "stores k r s" "c_id r' = k"
  shows "\<exists>t. put_claw k r' now s = (Inr (), t) \<and> stores k (normalizeRecord r') t"
proof -
  have f: "find_entry k (rg_claws s) \<noteq> None" using assms(1) by (auto simp: stores_def claw_at_def mem_lookup_def)
  then obtain t where t: "put_claw k r' now s = (Inr (), t)"
    using assms(1) by (auto simp: stores_def put_claw_def sql_register_def)
  then show ?thesis using claw_at_put [OF _ t refl] assms by (auto simp: stores_def)
qed

lemma write_stored:
  assumes "names_ok (rc_registry cfg)" "stores k r s" "c_id c = k" "c_revision c = c_revision r"
  shows "\<exists>w t. write_due cfg c ob nt now s = (Inr w, t) \<and> stores k (normalizeRecord w) t \<and> c_observed w = ob"
proof -
  let ?w = "r\<lparr>c_revision := c_revision r + 1, c_observed := ob, c_updated := now\<rparr>"
  obtain t where t: "put_claw k ?w now s = (Inr (), t)" "stores k (normalizeRecord ?w) t"
    using put_stored [OF assms(2), of ?w now] assms(2) by (auto simp: stores_def)
  obtain u where u: "audit (rc_registry cfg) ((the nt)\<lparr>ev_claw := Some k\<rparr>) now t = (Inr (), u)" "rg_claws u = rg_claws t"
    using audit_total [OF assms(1)] by blast
  have "stores k (normalizeRecord ?w) u" using t(2) u(2) by (simp add: stores_def claw_at_def)
  moreover have "require_claw k s = (Inr r, s)" using assms(2) by (simp add: require_claw_Inr stores_def)
  ultimately show ?thesis using t u assms(3,4)
    by (cases nt) (auto simp: write_due_def writeObserved_def serialize_def bindC_eval thenC_eval Let_def)
qed

lemma reconcileOne_writes:
  assumes "names_ok (rc_registry cfg)" "stores k r s" "du_plan (start_run cfg ans r) = Write ob nt"
  shows "\<exists>q t. reconcileOne cfg ans now k s = (Inr q, t) \<and> stores k q t \<and> c_observed q = ob"
proof -
  have c: "c_id (du_claw (start_run cfg ans r)) = k" "c_revision (du_claw (start_run cfg ans r)) = c_revision r"
    using same_claw_simps [OF start_run_claw] assms(2) by (auto simp: stores_def)
  obtain w t where w: "write_due cfg (du_claw (start_run cfg ans r)) ob nt now s = (Inr w, t)" "stores k (normalizeRecord w) t" "c_observed w = ob"
    using write_stored [OF assms(1,2) c] by blast
  have "get_claw k s = (Inr r, s)" using assms(2) by (simp add: get_claw_def require_claw_Inr stores_def)
  moreover have "get_claw k t = (Inr (normalizeRecord w), t)" using w(2) by (simp add: get_claw_def require_claw_Inr stores_def)
  moreover have "finish_run 3 cfg ans now (Some (start_run cfg ans r)) s = (Inr (), t)"
    using w(1) assms(3) by (simp add: numeral_3_eq_3 commit_def Let_def bindC_eval thenC_eval catchC_eval)
  ultimately show ?thesis using w(2,3) by (auto simp: reconcileOne_def bindC_eval thenC_eval)
qed

text \<open>One run of a removal, in the registry.\<close>

definition removing :: "string \<Rightarrow> deletion_state \<Rightarrow> reg \<Rightarrow> bool" where
  "removing k d s \<longleftrightarrow> (\<exists>r. stores k r s \<and> live r \<and> ob_deletion (c_observed r) = Some d)"

lemma removal_writes:
  assumes "live r" "ob_deletion (c_observed r) = Some d"
  shows "\<exists>ob nt. du_plan (start_run cfg ans r) = Write ob nt"
proof (cases "du_failing (start_run cfg ans r)")
  case True
  then show ?thesis by (auto simp: start_run_def plan_of_def failure_plan_def Let_def split: sum.splits prod.splits)
next
  case False
  then show ?thesis using start_removal [OF assms False] by (auto simp: removal_outcome_def split: plan.splits)
qed

lemma removing_run:
  assumes "names_ok (rc_registry cfg)" "removing k d s" "cooperative cfg ans"
  obtains q t where "reconcileOne cfg ans now k s = (Inr q, t)" "stores k q t"
    and "ds_stage d = Stage_disable \<Longrightarrow> removing k (at_stage d Stage_drain (an_now ans)) t"
    and "ds_stage d = Stage_drain \<Longrightarrow> ds_drained d = None \<Longrightarrow>
      removing k (d\<lparr>ds_attempt := Some (an_now ans), ds_drained := Some (an_later ans)\<rparr>) t"
    and "\<And>since. ds_stage d = Stage_drain \<Longrightarrow> ds_drained d = Some since \<Longrightarrow> rc_quiet cfg \<le> of_int (an_later ans - since) \<Longrightarrow>
      removing k (at_stage d Stage_release (an_now ans)) t"
    and "ds_stage d = Stage_release \<Longrightarrow> removing k (at_stage d Stage_revoke (an_later ans)) t"
    and "ds_stage d = Stage_revoke \<Longrightarrow> ob_phase (c_observed q) = Deleted"
proof -
  obtain r where r: "stores k r s" "live r" "ob_deletion (c_observed r) = Some d" using assms(2) by (auto simp: removing_def)
  show ?thesis
  proof (cases "du_plan (start_run cfg ans r)")
    case (Write ob nt)
    obtain q t where q: "reconcileOne cfg ans now k s = (Inr q, t)" "stores k q t" "c_observed q = ob"
      using reconcileOne_writes [OF assms(1) r(1) Write] by blast
    have lv: "removing k d' t" if "ob_phase ob = Deleting \<and> ob_deletion ob = Some d'" for d'
      using that q unfolding removing_def live_def by (intro exI [of _ q]) auto
    show ?thesis
      by (rule that [OF q(1,2)]) (use advance [OF r(2) assms(3) r(3)] lv q(3) Write in \<open>auto simp: plan_observed_def\<close>)
  qed (use removal_writes [OF r(2,3), of cfg ans] in auto)
qed

text \<open>
  C23. A removal completes: when the provider cooperates (the claw is found, ingress is disabled, no runs are active,
  the resource is confirmed absent, the pairing revoked) and the quiet period passed between the second and the third
  run, five runs after its request a removal has left the claw Deleted in the registry, all of them successful.
\<close>

theorem removal_completes:
  assumes "names_ok (rc_registry cfg)" "removing k d s" "ds_stage d = Stage_disable" "ds_drained d = None"
    and "\<forall>a\<in>{a1, a2, a3, a4, a5}. cooperative cfg a" "rc_quiet cfg \<le> of_int (an_later a3 - an_later a2)"
  shows "\<exists>r t. forC (\<lambda>a. reconcileOne cfg a (an_later a) k) [a1, a2, a3, a4, a5] s = (Inr (), t) \<and>
    claw_at k t = Some r \<and> ob_phase (c_observed r) = Deleted"
proof -
  note run = removing_run [OF assms(1)]
  have coop: "cooperative cfg a1" "cooperative cfg a2" "cooperative cfg a3" "cooperative cfg a4" "cooperative cfg a5"
    using assms(5) by auto
  obtain q1 s1 where 1: "reconcileOne cfg a1 (an_later a1) k s = (Inr q1, s1)" "removing k (at_stage d Stage_drain (an_now a1)) s1"
    using run [OF assms(2) coop(1)] assms(3) by metis
  let ?d2 = "(at_stage d Stage_drain (an_now a1))\<lparr>ds_attempt := Some (an_now a2), ds_drained := Some (an_later a2)\<rparr>"
  have d1: "ds_stage (at_stage d Stage_drain (an_now a1)) = Stage_drain" "ds_drained (at_stage d Stage_drain (an_now a1)) = None"
    using assms(4) by (simp_all add: at_stage_def)
  obtain q2 s2 where 2: "reconcileOne cfg a2 (an_later a2) k s1 = (Inr q2, s2)" "removing k ?d2 s2"
    using run [OF 1(2) coop(2), of "an_later a2"] d1 by metis
  have d2: "ds_stage ?d2 = Stage_drain" "ds_drained ?d2 = Some (an_later a2)" using d1 by simp_all
  obtain q3 s3 d3 where 3: "reconcileOne cfg a3 (an_later a3) k s2 = (Inr q3, s3)" "removing k d3 s3" "ds_stage d3 = Stage_release"
    using run [OF 2(2) coop(3), of "an_later a3"] d2 assms(6) by (metis at_stage_sel(1))
  obtain q4 s4 d4 where 4: "reconcileOne cfg a4 (an_later a4) k s3 = (Inr q4, s4)" "removing k d4 s4" "ds_stage d4 = Stage_revoke"
    using run [OF 3(2) coop(4), of "an_later a4"] 3(3) by (metis at_stage_sel(1))
  obtain q5 s5 where 5: "reconcileOne cfg a5 (an_later a5) k s4 = (Inr q5, s5)" "stores k q5 s5" "ob_phase (c_observed q5) = Deleted"
    using run [OF 4(2) coop(5), of "an_later a5"] 4(3) by metis
  have "forC (\<lambda>a. reconcileOne cfg a (an_later a) k) [a1, a2, a3, a4, a5] s = (Inr (), s5)"
    using 1 2 3 4 5 by (simp add: thenC_eval)
  then show ?thesis using 5 by (auto simp: stores_def)
qed

end
