(* ===== verification/Reconciler_Demo.thy ===== *)
theory Reconciler_Demo
  imports Reconciler_Progress
begin

text \<open>
  Concrete fleets, played move by move, on which the properties of theories \<open>Reconciler_Removal\<close> and
  \<open>Reconciler_Progress\<close> are evaluated: a claw is created, its removal is requested and carried out.
\<close>

subsection \<open>Playing a fleet\<close>

datatype fleet_move = Operate reg_op int | Begin_run string answers | Commit_run int

fun play :: "reconciler_config \<Rightarrow> fleet_move \<Rightarrow> fleet \<Rightarrow> fleet" where
  "play cfg (Operate op now) f = f\<lparr>fl_reg := run_op (rc_registry cfg) op now (fl_reg f)\<rparr>"
| "play cfg (Begin_run k ans) f =
     (if k \<in> fst ` set (fl_runs f) then f
      else case get_claw k (fl_reg f) of
        (Inr claw, s) \<Rightarrow> f\<lparr>fl_reg := s, fl_runs := (k, ans, start_run cfg ans claw) # fl_runs f\<rparr>
      | (Inl _, s) \<Rightarrow> f)"
| "play cfg (Commit_run now) f =
     (case fl_runs f of
        [] \<Rightarrow> f
      | (k, ans, d) # runs \<Rightarrow> (case commit cfg ans now d (fl_reg f) of
          (res, s) \<Rightarrow> f\<lparr>fl_reg := s, fl_runs := (case res of Inr (Some d') \<Rightarrow> [(k, ans, d')] | _ \<Rightarrow> []) @ runs\<rparr>))"

lemma play_step: "play cfg m f = f \<or> fleet_step cfg f (play cfg m f)"
proof (cases m)
  case (Commit_run now)
  show ?thesis
  proof (cases "fl_runs f")
    case (Cons x runs)
    obtain k ans d where x: "x = (k, ans, d)" by (cases x)
    obtain res s where c: "commit cfg ans now d (fl_reg f) = (res, s)" by force
    show ?thesis using commit_run [of f "[]" k ans d runs cfg now res s] Cons x c Commit_run by (simp add: play.simps)
  qed (simp add: Commit_run play.simps)
qed (auto intro: operate begin_run split: prod.splits sum.splits)

declare play.simps [simp del]

lemma play_steps: "\<exists>n\<le>length ms. fleet_steps cfg n f (fold (play cfg) ms f)"
proof (induction ms rule: rev_induct)
  case Nil
  show ?case by (auto intro: fleet_steps.stay)
next
  case (snoc m ms)
  then obtain n where n: "n \<le> length ms" "fleet_steps cfg n f (fold (play cfg) ms f)" by blast
  show ?case
  proof (cases "play cfg m (fold (play cfg) ms f) = fold (play cfg) ms f")
    case True
    then show ?thesis using n by (auto intro!: exI [of _ n])
  next
    case False
    then show ?thesis using n play_step [of cfg m "fold (play cfg) ms f"] by (auto intro!: exI [of _ "Suc n"] fleet_steps.go)
  qed
qed

subsection \<open>A removal\<close>

definition demo_uuid :: "nat \<Rightarrow> string" where
  "demo_uuid n = ''claw-'' @ nat_str n"

definition demo_registry :: "(nat \<Rightarrow> string) \<Rightarrow> registry_config" where
  "demo_registry uuid = \<lparr>cfg_targets = None, cfg_default = None, cfg_policies = True, cfg_transaction = True,
     cfg_router = None, cfg_lib = demo_lib, cfg_uuid = uuid\<rparr>"

definition demo_cfg :: "(nat \<Rightarrow> string) \<Rightarrow> reconciler_config" where
  "demo_cfg uuid = \<lparr>rc_registry = demo_registry uuid, rc_quiet = 1000, rc_inference = True\<rparr>"

lemma demo_cfg_ok: "cfg_ok (rc_registry (demo_cfg demo_uuid))"
  by (auto simp: cfg_ok_def demo_cfg_def demo_registry_def opt_ok_def demo_uuid_def inj_def nat_str_inj)

definition demo_inference :: inference_observation where
  "demo_inference = \<lparr>io_checked = 1, io_base = ''https://router.example'', io_model = ''clawrouter/a/m1'', io_providers = [''anthropic''],
     io_policy = ''p'', io_credential = ''c'', io_generation = 1, io_policy_active = True, io_credential_active = True,
     io_healthy = True, io_catalog = True, io_verified = False,
     io_budget = \<lparr>bg_configured = False, bg_limit = None, bg_spent = None, bg_remaining = None\<rparr>, io_usage = None\<rparr>"

definition demo_inspect :: inspect_result where
  "demo_inspect = \<lparr>in_phase = None, in_message = Some ''found'', in_health = Some Healthy, in_lifecycle = None, in_link = None,
     in_gateway = None, in_config = None, in_probes = None, in_absent = False, in_invalidate = False, in_seen = None\<rparr>"

definition demo_provision :: provision_result where
  "demo_provision = \<lparr>pv_phase = Ready, pv_message = ''up'', pv_health = Healthy,
     pv_lifecycle = \<lparr>lc_workspace = ''w'', lc_resource = None, lc_digest = ''d''\<rparr>, pv_link = None, pv_gateway = None,
     pv_config = None, pv_probes = None\<rparr>"

text \<open>A provider that cooperates, at time \<open>n\<close>.\<close>

definition demo_answers :: "int \<Rightarrow> answers" where
  "demo_answers n = \<lparr>an_inference = Inr demo_inference, an_inspect = Inr demo_inspect,
     an_disable = Inr \<lparr>dr_inspect = demo_inspect, dr_applied = True\<rparr>,
     an_drain = Inr \<lparr>dn_drained = True, dn_active = 0, dn_checked = n, dn_message = ''drained''\<rparr>,
     an_remove = Inr \<lparr>rm_absent = True, rm_message = ''gone''\<rparr>,
     an_revoke = Inr \<lparr>rv_removed = True, rv_rejected = False, rv_absent = False, rv_message = ''revoked''\<rparr>,
     an_provision = Inr demo_provision, an_now = n, an_later = n + 5\<rparr>"

definition demo_key :: string where
  "demo_key = ''claw-0''"

definition demo_run :: "int \<Rightarrow> fleet_move list" where
  "demo_run n = [Begin_run demo_key (demo_answers n), Commit_run (n + 6)]"

definition demo_request :: "fleet_move list" where
  "demo_request = [Operate (Op_create (demo_input ''openai/m'') ''ada'') 5, Operate (Op_remove demo_key ''ada'' ''Ada's Claw'') 10]"

text \<open>Up to the release, and up to the end.\<close>

definition demo_drained :: fleet where
  "demo_drained = fold (play (demo_cfg demo_uuid)) (demo_request @ demo_run 20 @ demo_run 30 @ demo_run 2000) empty_fleet"

definition demo_begun :: fleet where
  "demo_begun = fold (play (demo_cfg demo_uuid)) [Begin_run demo_key (demo_answers 2010)] demo_drained"

definition demo_removed :: fleet where
  "demo_removed = fold (play (demo_cfg demo_uuid)) (demo_run 2010 @ demo_run 2020) demo_drained"

lemma play_within:
  assumes "length ms \<le> m"
  shows "\<exists>n\<le>m. fleet_steps cfg n f (fold (play cfg) ms f)"
  using play_steps [of ms cfg f] assms le_trans by blast

lemma demo_lengths: "length demo_request = 2" "length (demo_run n) = 2"
  by (simp_all add: demo_request_def demo_run_def)

lemma demo_reached: "\<exists>n\<le>8. fleet_steps (demo_cfg demo_uuid) n empty_fleet demo_drained"
  unfolding demo_drained_def by (rule play_within) (simp add: demo_lengths)

lemma demo_removed_all: "demo_removed = fold (play (demo_cfg demo_uuid))
    (demo_request @ demo_run 20 @ demo_run 30 @ demo_run 2000 @ demo_run 2010 @ demo_run 2020) empty_fleet"
  by (simp only: demo_removed_def demo_drained_def fold_append o_apply)

lemma demo_begun_all: "demo_begun = fold (play (demo_cfg demo_uuid))
    (demo_request @ demo_run 20 @ demo_run 30 @ demo_run 2000 @ [Begin_run demo_key (demo_answers 2010)]) empty_fleet"
  by (simp only: demo_begun_def demo_drained_def fold_append o_apply)

lemma demo_reached_removed: "\<exists>n\<le>12. fleet_steps (demo_cfg demo_uuid) n empty_fleet demo_removed"
  unfolding demo_removed_all by (rule play_within) (simp add: demo_lengths)

lemma demo_reached_begun: "\<exists>n\<le>9. fleet_steps (demo_cfg demo_uuid) n empty_fleet demo_begun"
  unfolding demo_begun_all by (rule play_within) (simp add: demo_lengths)

lemma demo_limit: "n \<le> 100 \<Longrightarrow> n \<le> step_limit"
  by (simp add: step_limit_def)

theorem released_only_after_drain_witness:
  "\<exists>r d since. claw_at demo_key (fl_reg demo_drained) = Some r \<and> ob_deletion (c_observed r) = Some d \<and>
     ds_stage d = Stage_release \<and> ds_drained d = Some since"
proof -
  have "case claw_at demo_key (fl_reg demo_drained) of None \<Rightarrow> False | Some r \<Rightarrow> live r \<and>
      Ask_remove \<in> set (rn_calls (snd (run_body (demo_cfg demo_uuid) (demo_answers 2010) \<lparr>rn_claw = r, rn_calls = []\<rparr>))) \<and>
      (case ob_deletion (c_observed r) of None \<Rightarrow> False | Some d \<Rightarrow> ds_stage d = Stage_release)"
    by code_simp
  then obtain r where r: "claw_at demo_key (fl_reg demo_drained) = Some r" "live r"
    "Ask_remove \<in> set (rn_calls (snd (run_body (demo_cfg demo_uuid) (demo_answers 2010) \<lparr>rn_claw = r, rn_calls = []\<rparr>)))"
    "case ob_deletion (c_observed r) of None \<Rightarrow> False | Some d \<Rightarrow> ds_stage d = Stage_release"
    by (auto split: option.splits)
  obtain n where n: "n \<le> 8" "fleet_steps (demo_cfg demo_uuid) n empty_fleet demo_drained" using demo_reached by blast
  from released_only_after_drain [OF demo_cfg_ok n(2) _ r(1-3)] n(1) r(1,4) show ?thesis
    by (auto simp: step_limit_def)
qed

theorem fleet_stays_well_formed_witness:
  "\<exists>r. claw_at demo_key (fl_reg demo_removed) = Some r \<and> claw_wf demo_lib r"
proof -
  have "case claw_at demo_key (fl_reg demo_removed) of None \<Rightarrow> False | Some r \<Rightarrow> True" by code_simp
  moreover obtain n where n: "n \<le> 12" "fleet_steps (demo_cfg demo_uuid) n empty_fleet demo_removed" using demo_reached_removed by blast
  ultimately show ?thesis using fleet_stays_well_formed [OF demo_cfg_ok n(2)] n(1) demo_limit [of n]
    by (auto simp: demo_cfg_def demo_registry_def split: option.splits)
qed

definition demo_later :: fleet where
  "demo_later = fold (play (demo_cfg demo_uuid)) [Operate (Op_update demo_key (JObj []) ''ada'') 3000, Operate (Op_enable demo_key True ''ada'') 3001] demo_removed"

theorem deleted_claws_stay_deleted_witness:
  "\<exists>r. claw_at demo_key (fl_reg demo_later) = Some r \<and> ob_phase (c_observed r) = Deleted"
proof -
  have "case claw_at demo_key (fl_reg demo_removed) of None \<Rightarrow> False | Some r \<Rightarrow> ob_phase (c_observed r) = Deleted" by code_simp
  then obtain r where r: "claw_at demo_key (fl_reg demo_removed) = Some r" "ob_phase (c_observed r) = Deleted"
    by (auto split: option.splits)
  obtain m where m: "m \<le> 12" "fleet_steps (demo_cfg demo_uuid) m empty_fleet demo_removed" using demo_reached_removed by blast
  obtain n where n: "n \<le> 2" "fleet_steps (demo_cfg demo_uuid) n demo_removed demo_later"
    using play_within [of "[Operate (Op_update demo_key (JObj []) ''ada'') 3000, Operate (Op_enable demo_key True ''ada'') 3001]" 2
        "demo_cfg demo_uuid" demo_removed] by (auto simp only: demo_later_def list.size numeral_2_eq_2 add_0 add_Suc order_refl simp_thms)
  have "m + n \<le> step_limit" using m(1) n(1) by (simp add: step_limit_def)
  from deleted_claws_stay_deleted [OF demo_cfg_ok m(2) n(2) this r] show ?thesis by blast
qed

theorem writes_are_never_stale_witness:
  "\<exists>(d :: due) r ob w s. write_due (demo_cfg demo_uuid) (du_claw d) ob None 2016 (fl_reg demo_begun) = (Inr w, s) \<and>
     claw_at demo_key (fl_reg demo_begun) = Some r \<and> same_claw r (du_claw d) \<and> c_revision w = c_revision r + 1"
proof -
  have "case fl_runs demo_begun of (k, ans, d) # _ \<Rightarrow> k = demo_key \<and>
      (case write_due (demo_cfg demo_uuid) (du_claw d) (c_observed (du_claw d)) None 2016 (fl_reg demo_begun) of (Inr w, s) \<Rightarrow> True | _ \<Rightarrow> False)
    | _ \<Rightarrow> False" by code_simp
  then obtain ans d w s where run: "(demo_key, ans, d) \<in> set (fl_runs demo_begun)"
    and w: "write_due (demo_cfg demo_uuid) (du_claw d) (c_observed (du_claw d)) None 2016 (fl_reg demo_begun) = (Inr w, s)"
    by (auto split: list.splits sum.splits prod.splits)
  obtain n where n: "n \<le> 9" "fleet_steps (demo_cfg demo_uuid) n empty_fleet demo_begun"
    using demo_reached_begun by blast
  have "n \<le> step_limit" using n(1) by (simp add: step_limit_def)
  from writes_are_never_stale [OF demo_cfg_ok n(2) this run w]
  obtain r where "claw_at demo_key (fl_reg demo_begun) = Some r" "same_claw r (du_claw d)" "c_revision w = c_revision r + 1" by auto
  with w show ?thesis by blast
qed

theorem removal_goes_in_order_witness:
  "\<exists>ob nt. du_plan (start_run (demo_cfg demo_uuid) (demo_answers 20) (removal_record direct_claw 9)) = Write ob nt \<and> ob_phase ob = Deleting"
proof -
  let ?r = "removal_record direct_claw 9"
  have "live ?r" "\<not> du_failing (start_run (demo_cfg demo_uuid) (demo_answers 20) ?r)" by code_simp+
  moreover have "ob_deletion (c_observed ?r) = Some \<lparr>ds_stage = Stage_disable, ds_requested = 9, ds_attempt = None, ds_drained = None\<rparr>"
    by (simp add: removal_record_def)
  ultimately show ?thesis using removal_goes_in_order [of ?r _ "demo_cfg demo_uuid" "demo_answers 20"]
    by (auto split: option.splits)
qed

text \<open>A provider that is down: the run of the drain fails and has its report due.\<close>

definition demo_down :: fleet where
  "demo_down = fold (play (demo_cfg demo_uuid))
     (demo_request @ demo_run 20 @ [Begin_run demo_key ((demo_answers 30)\<lparr>an_inspect := Inl (PlainError ''secret'')\<rparr>)]) empty_fleet"


definition unproven_run :: run where
  "unproven_run = \<lparr>rn_claw = direct_claw, rn_calls = []\<rparr>"

definition unproven_answers :: answers where
  "unproven_answers = (demo_answers 20)\<lparr>an_inspect := Inr (demo_inspect\<lparr>in_phase := Some Ready\<rparr>)\<rparr>"

theorem ready_needs_route_proof_witness:
  "(\<exists>ob nt t. provision_claw unproven_answers (Some demo_inference) unproven_run = (Inr (Write ob nt), t) \<and> ob_generation ob = 0) \<and>
   (\<exists>ob nt t. inspect_claw (demo_cfg demo_uuid) unproven_answers (Some demo_inference) unproven_run = (Inr (Write ob nt), t) \<and>
      ob_phase ob = Attention)"
proof
  have "case fst (provision_claw unproven_answers (Some demo_inference) unproven_run) of
      Inr (Write ob nt) \<Rightarrow> ob_phase ob \<noteq> Ready | _ \<Rightarrow> False" by code_simp
  then obtain ob nt where w: "provision_claw unproven_answers (Some demo_inference) unproven_run =
      (Inr (Write ob nt), snd (provision_claw unproven_answers (Some demo_inference) unproven_run))" "ob_phase ob \<noteq> Ready"
    by (cases "provision_claw unproven_answers (Some demo_inference) unproven_run") (auto split: sum.splits plan.splits)
  note both = ready_needs_route_proof [of unproven_answers demo_inference unproven_run ob nt _ "demo_cfg demo_uuid"]
  have "ob_generation ob = 0" using both w by blast
  with w show "\<exists>ob nt t. provision_claw unproven_answers (Some demo_inference) unproven_run = (Inr (Write ob nt), t) \<and> ob_generation ob = 0"
    by blast
next
  let ?c = "inspect_claw (demo_cfg demo_uuid) unproven_answers (Some demo_inference) unproven_run"
  have "case fst ?c of Inr (Write ob nt) \<Rightarrow> True | _ \<Rightarrow> False" by code_simp
  then obtain ob nt where w: "?c = (Inr (Write ob nt), snd ?c)" by (cases ?c) (auto split: sum.splits plan.splits)
  have "\<not> route_proven demo_inference (in_probes (demo_inspect\<lparr>in_phase := Some Ready\<rparr>))"
    by (simp add: route_proven_def demo_inspect_def)
  then have "ob_phase ob = Attention"
    using ready_needs_route_proof [of unproven_answers demo_inference unproven_run ob nt "snd ?c" "demo_cfg demo_uuid"] w
    by (simp add: unproven_answers_def ready_with_proof_def ready_answer_def demo_inspect_def)
  with w show "\<exists>ob nt t. ?c = (Inr (Write ob nt), t) \<and> ob_phase ob = Attention" by blast
qed

text \<open>Names of valid length, for the removal that completes.\<close>

definition short_uuid :: "nat \<Rightarrow> string" where
  "short_uuid n = replicate (n mod 400 + 1) (CHR ''u'')"

definition demo_requested :: reg where
  "demo_requested = fl_reg (fold (play (demo_cfg short_uuid))
     [Operate (Op_create (demo_input ''openai/m'') ''ada'') 5, Operate (Op_remove ''u'' ''ada'' ''Ada's Claw'') 10] empty_fleet)"

theorem removal_completes_witness:
  "\<exists>r t. forC (\<lambda>a. reconcileOne (demo_cfg short_uuid) a (an_later a) ''u'')
       [demo_answers 20, demo_answers 30, demo_answers 2000, demo_answers 2010, demo_answers 2020] demo_requested = (Inr (), t) \<and>
     claw_at ''u'' t = Some r \<and> ob_phase (c_observed r) = Deleted"
proof -
  have "n mod 400 < 400" for n :: nat by simp
  then have names: "names_ok (rc_registry (demo_cfg short_uuid))"
    by (simp add: names_ok_def demo_cfg_def demo_registry_def short_uuid_def requireKey_def less_imp_le Suc_leI not_less)
  have "distinct (keys_of (rg_claws demo_requested))" "requireKey ''u'' = Inr ()" by code_simp+
  moreover have "case claw_at ''u'' demo_requested of None \<Rightarrow> False | Some r \<Rightarrow> c_id r = ''u'' \<and> live r \<and>
      ob_deletion (c_observed r) = Some \<lparr>ds_stage = Stage_disable, ds_requested = 10, ds_attempt = None, ds_drained = None\<rparr>"
    by code_simp
  ultimately have "removing ''u'' \<lparr>ds_stage = Stage_disable, ds_requested = 10, ds_attempt = None, ds_drained = None\<rparr> demo_requested"
    by (auto simp: removing_def stores_def table_wf_def split: option.splits)
  from removal_completes [OF names this, of "demo_answers 20" "demo_answers 30" "demo_answers 2000" "demo_answers 2010" "demo_answers 2020"]
  show ?thesis by (simp add: cooperative_def demo_cfg_def demo_answers_def demo_inspect_def revoked_def)
qed

end
