(* ===== verification/Governance_Types.thy ===== *)
theory Governance_Types
  imports Types
begin

text \<open>
  The data of src/governance-types.ts. String unions that decide what an operation does are datatypes (with
  the strings they stand for); timestamps are numbers of milliseconds. Members that the code copies
  unchecked from a request (\<open>enabled\<close> of a persona, \<open>confirmationId\<close> of an invocation) keep their raw value.
\<close>

datatype principal_kind = Human | Service_account

record principal_record =
  gp_id :: string
  gp_revision :: int
  gp_subject :: string
  gp_label :: string
  gp_kind :: principal_kind
  gp_source :: string
  gp_roles :: "string list"
  gp_departments :: "string list"
  gp_created :: int
  gp_updated :: int

datatype persona_kind = Personal | Shared | Profile

datatype actor_mode = Invoker | As_service | Invoker_or_service

record actor_policy =
  am_mode :: actor_mode
  am_service :: "string option"

record persona_binding =
  bd_surface :: string
  bd_workspace :: "string option"
  bd_channel :: "string option"

record published_context =
  pc_label :: string
  pc_text :: string
  pc_url :: "string option"

record persona_instructions =
  pi_identity :: string
  pi_soul :: string
  pi_agents :: string

record persona_record =
  pe_id :: string
  pe_revision :: int
  pe_name :: string
  pe_slug :: string
  pe_kind :: persona_kind
  pe_owner :: string
  pe_claw :: string
  pe_policy :: actor_policy
  pe_bindings :: "persona_binding list"
  pe_capabilities :: "string list"
  pe_skills :: "string list"
  pe_instructions :: persona_instructions
  pe_context :: "published_context list"
  pe_enabled :: jsval
  pe_created :: int
  pe_updated :: int

record capability =
  cap_id :: string
  cap_provider :: string
  cap_action :: string
  cap_label :: string
  cap_description :: string
  cap_risk :: string
  cap_always_confirm :: bool
  cap_modes :: "actor_mode list"
  cap_scopes :: "string list"

datatype skill_status = Draft | Approved_skill | Revoked_skill

record skill_file =
  sf_path :: string
  sf_content :: string
  sf_sha :: string

record skill_record =
  sk_id :: string
  sk_revision :: int
  sk_name :: string
  sk_slug :: string
  sk_description :: string
  sk_version :: int
  sk_status :: skill_status
  sk_departments :: "string list"
  sk_files :: "skill_file list"
  sk_digest :: string
  sk_by :: string
  sk_approver :: "string option"
  sk_created :: int
  sk_updated :: int

record oauth_connection =
  oc_id :: string
  oc_revision :: int
  oc_principal :: string
  oc_provider :: string
  oc_label :: string
  oc_scopes :: "string list"
  oc_vault :: string
  oc_active :: bool
  oc_created :: int
  oc_updated :: int

record oauth_state =
  os_id :: string
  os_principal :: string
  os_provider :: string
  os_created :: int
  os_expires :: int

datatype confirmation_status = Pending | Approved | Denied | Used | Expired

text \<open>What a confirmation is about, and what an invocation must agree with.\<close>

record confirmed_action =
  ca_requester :: string
  ca_persona :: string
  ca_actor :: string
  ca_capability :: string
  ca_target :: string
  ca_digest :: string

record confirmation_record =
  cf_id :: string
  cf_action :: confirmed_action
  cf_summary :: string
  cf_status :: confirmation_status
  cf_expires :: int
  cf_decided :: "int option"
  cf_created :: int

datatype invocation_status = Issued | Running | Succeeded | Failed | Invocation_expired

record invocation_record =
  iv_id :: string
  iv_claw :: string
  iv_action :: confirmed_action
  iv_mode :: actor_mode
  iv_fallback :: bool
  iv_policy :: int
  iv_confirmation :: jsval
  iv_status :: invocation_status
  iv_issued :: int
  iv_expires :: int
  iv_completed :: "int option"

record governance_event =
  ge_id :: string
  ge_at :: int
  ge_correlation :: string
  ge_claw :: "string option"
  ge_requester :: "string option"
  ge_persona :: "string option"
  ge_actor :: "string option"
  ge_mode :: "actor_mode option"
  ge_fallback :: "bool option"
  ge_runtime :: "string option"
  ge_capability :: "string option"
  ge_target :: "string option"
  ge_policy :: "int option"
  ge_confirmation :: jsval
  ge_action :: string
  ge_outcome :: string
  ge_summary :: string

record skill_summary =
  ss_id :: string
  ss_name :: string
  ss_slug :: string
  ss_version :: int
  ss_digest :: string
  ss_files :: "skill_file list"

record managed_spec =
  ms_generated :: int
  ms_claw :: string
  ms_persona :: string
  ms_name :: string
  ms_slug :: string
  ms_kind :: persona_kind
  ms_owner :: string
  ms_policy :: actor_policy
  ms_revision :: int
  ms_capabilities :: "string list"
  ms_instructions :: persona_instructions
  ms_context :: "published_context list"
  ms_level :: string
  ms_otel :: otel_policy
  ms_skills :: "skill_summary list"

record governance_snapshot =
  gs_principals :: "principal_record list"
  gs_personas :: "persona_record list"
  gs_capabilities :: "capability list"
  gs_skills :: "skill_record list"
  gs_connections :: "oauth_connection list"
  gs_confirmations :: "confirmation_record list"
  gs_invocations :: "invocation_record list"
  gs_events :: "governance_event list"

subsection \<open>Strings and JSON\<close>

definition kind_name :: "persona_kind \<Rightarrow> string" where
  "kind_name k = (case k of Personal \<Rightarrow> ''personal'' | Shared \<Rightarrow> ''shared'' | Profile \<Rightarrow> ''profile'')"

definition kind_of :: "jsval \<Rightarrow> persona_kind option" where
  "kind_of v = (if v = JStr ''personal'' then Some Personal else if v = JStr ''shared'' then Some Shared
     else if v = JStr ''profile'' then Some Profile else None)"

definition mode_name :: "actor_mode \<Rightarrow> string" where
  "mode_name m = (case m of Invoker \<Rightarrow> ''invoker'' | As_service \<Rightarrow> ''service''
     | Invoker_or_service \<Rightarrow> ''invoker-with-service-fallback'')"

definition mode_of :: "jsval \<Rightarrow> actor_mode option" where
  "mode_of v = (if v = JStr ''invoker'' then Some Invoker else if v = JStr ''service'' then Some As_service
     else if v = JStr ''invoker-with-service-fallback'' then Some Invoker_or_service else None)"

definition js_actor_policy :: "actor_policy \<Rightarrow> jsval" where
  "js_actor_policy p = JObj ([(''mode'', JStr (mode_name (am_mode p)))] @ js_opt ''servicePrincipalId'' JStr (am_service p))"

definition js_binding :: "persona_binding \<Rightarrow> jsval" where
  "js_binding b = JObj ([(''surface'', JStr (bd_surface b))] @ js_opt ''workspaceId'' JStr (bd_workspace b) @
     js_opt ''channelId'' JStr (bd_channel b))"

definition js_instructions :: "persona_instructions \<Rightarrow> jsval" where
  "js_instructions i = JObj [(''identity'', JStr (pi_identity i)), (''soul'', JStr (pi_soul i)), (''agents'', JStr (pi_agents i))]"

definition js_context :: "published_context \<Rightarrow> jsval" where
  "js_context c = JObj ([(''label'', JStr (pc_label c)), (''value'', JStr (pc_text c))] @ js_opt ''url'' JStr (pc_url c))"

definition js_persona :: "persona_record \<Rightarrow> jsval" where
  "js_persona p = JObj [(''id'', JStr (pe_id p)), (''revision'', jint (pe_revision p)), (''name'', JStr (pe_name p)),
     (''slug'', JStr (pe_slug p)), (''kind'', JStr (kind_name (pe_kind p))), (''ownerPrincipalId'', JStr (pe_owner p)),
     (''clawId'', JStr (pe_claw p)), (''actorPolicy'', js_actor_policy (pe_policy p)),
     (''bindings'', JArr (map js_binding (pe_bindings p))), (''capabilityIds'', js_strings (pe_capabilities p)),
     (''skillIds'', js_strings (pe_skills p)), (''instructions'', js_instructions (pe_instructions p)),
     (''publishedContext'', JArr (map js_context (pe_context p))), (''enabled'', pe_enabled p),
     (''createdAt'', jint (pe_created p)), (''updatedAt'', jint (pe_updated p))]"

definition js_skill_file :: "skill_file \<Rightarrow> jsval" where
  "js_skill_file f = JObj [(''path'', JStr (sf_path f)), (''content'', JStr (sf_content f)), (''sha256'', JStr (sf_sha f))]"

lemma kind_of_name [simp]: "kind_of (JStr (kind_name k)) = Some k"
  by (cases k) (simp_all add: kind_of_def kind_name_def)

lemma mode_of_name [simp]: "mode_of (JStr (mode_name m)) = Some m"
  by (cases m) (simp_all add: mode_of_def mode_name_def)

end
