(* ===== verification/Governance.thy ===== *)
theory Governance
  imports Governance_Types Domain
begin

text \<open>
  src/governance.ts: principals, personas, skills and capabilities; who acts for whom; the digest of an
  invocation. A request is a raw value; \<open>randomUUID\<close> and the clock are arguments.
\<close>

subsection \<open>Patterns and texts\<close>

definition safe_name_char :: "char \<Rightarrow> bool" where
  "safe_name_char c \<longleftrightarrow> is_alnum c \<or> c \<in> set ''._-''"

definition skillPathPattern :: "string \<Rightarrow> bool" where
  \<comment> \<open>\<open>/^(?:[A-Za-z0-9._-]+\/)*[A-Za-z0-9._-]+$/\<close>\<close>
  "skillPathPattern s \<longleftrightarrow> list_all (\<lambda>w. w \<noteq> [] \<and> list_all safe_name_char w) (split_on (CHR ''/'') s)"

definition capabilityIdPattern :: "string \<Rightarrow> bool" where
  \<comment> \<open>\<open>/^[a-z][a-z0-9.-]{2,119}$/\<close>\<close>
  "capabilityIdPattern s \<longleftrightarrow> 3 \<le> length s \<and> head_tail is_lower (\<lambda>c. is_lower_alnum c \<or> c \<in> set ''.-'') 119 s"

definition departmentPattern :: "string \<Rightarrow> bool" where
  \<comment> \<open>\<open>/^[A-Za-z0-9][A-Za-z0-9 _.-]{0,79}$/\<close>\<close>
  "departmentPattern s = head_tail is_alnum (\<lambda>c. is_alnum c \<or> c \<in> set '' _.-'') 79 s"

definition argumentNamePattern :: "string \<Rightarrow> bool" where
  \<comment> \<open>\<open>/^[A-Za-z][A-Za-z0-9_]{0,79}$/\<close>\<close>
  "argumentNamePattern s = head_tail (\<lambda>c. is_lower c \<or> is_upper c) (\<lambda>c. is_alnum c \<or> c = CHR ''_'') 79 s"

definition githubTargetPattern :: "string \<Rightarrow> bool" where
  \<comment> \<open>\<open>/^[A-Za-z0-9_.-]{1,100}\/[A-Za-z0-9_.-]{1,100}$/\<close>\<close>
  "githubTargetPattern s \<longleftrightarrow>
     (case split_on (CHR ''/'') s of [a, b] \<Rightarrow> class_range safe_name_char 1 100 a \<and> class_range safe_name_char 1 100 b | _ \<Rightarrow> False)"

fun contains_text :: "string \<Rightarrow> string \<Rightarrow> bool" where
  "contains_text [] w = (w = [])"
| "contains_text (c # s) w = (prefix_of w (c # s) \<or> contains_text s w)"

definition refused :: "string \<Rightarrow> js_error" where
  "refused m = PlainError m"

text \<open>The function \<open>text\<close>.\<close>

definition governed_text :: "jsval \<Rightarrow> string \<Rightarrow> nat \<Rightarrow> string result" where
  "governed_text v label limit =
     (case v of
        JStr t \<Rightarrow>
          let clean = trim t in
          if clean = [] \<or> limit < utf8_length clean
          then Inl (refused (label @ '' must be between 1 and '' @ nat_str limit @ '' bytes'')) else Inr clean
      | _ \<Rightarrow> Inl (refused (label @ '' is required'')))"

definition optionalText :: "jsval \<Rightarrow> string \<Rightarrow> nat \<Rightarrow> string result" where
  "optionalText v label limit =
     (if v = JUndef \<or> v = JNull \<or> v = JStr [] then Inr []
      else case v of
        JStr t \<Rightarrow> if limit < utf8_length t then Inl (refused (label @ '' must be at most '' @ nat_str limit @ '' bytes'')) else Inr t
      | _ \<Rightarrow> Inl (refused (label @ '' must be at most '' @ nat_str limit @ '' bytes'')))"

definition unique_texts :: "jsval \<Rightarrow> string \<Rightarrow> nat \<Rightarrow> string list result" where
  "unique_texts v label limit =
     (case v of
        JArr vs \<Rightarrow>
          if limit < length vs then Inl (refused (label @ '' exceed '' @ nat_str limit @ '' entries''))
          else bindR (mapR (\<lambda>x. governed_text x label 240) vs) (\<lambda>clean.
            if distinct clean then Inr clean else Inl (refused (label @ '' must be unique'')))
      | _ \<Rightarrow> Inl (refused (label @ '' exceed '' @ nat_str limit @ '' entries'')))"

definition departments_of :: "jsval \<Rightarrow> string list result" where
  "departments_of v =
     bindR (unique_texts (coalesce v (JArr [])) ''departments'' 50) (\<lambda>items.
     bindR (refuse_if (\<exists>d\<in>set items. \<not> departmentPattern d) (refused ''department name is invalid'')) (\<lambda>_. Inr items))"

subsection \<open>Capabilities\<close>

definition all_modes :: "actor_mode list" where
  "all_modes = [Invoker, As_service, Invoker_or_service]"

definition DEFAULT_CAPABILITIES :: "capability list" where
  "DEFAULT_CAPABILITIES =
    [\<lparr>cap_id = ''github.repository.read'', cap_provider = ''github'', cap_action = ''repository.read'',
      cap_label = ''Read GitHub repository metadata'',
      cap_description = ''Read bounded metadata for one explicitly named GitHub repository.'',
      cap_risk = ''read'', cap_always_confirm = False, cap_modes = all_modes, cap_scopes = [''repo:read'']\<rparr>,
     \<lparr>cap_id = ''github.issue.read'', cap_provider = ''github'', cap_action = ''issue.read'',
      cap_label = ''Read GitHub issue or pull request'',
      cap_description = ''Read one issue or pull request from one explicitly named repository.'',
      cap_risk = ''read'', cap_always_confirm = False, cap_modes = all_modes, cap_scopes = [''repo:read'']\<rparr>,
     \<lparr>cap_id = ''github.issue.comment'', cap_provider = ''github'', cap_action = ''issue.comment'',
      cap_label = ''Comment on GitHub issue or pull request'',
      cap_description = ''Post one bounded comment after requester confirmation.'',
      cap_risk = ''external'', cap_always_confirm = True, cap_modes = all_modes, cap_scopes = [''repo:write'']\<rparr>]"

definition capabilityById :: "string \<Rightarrow> capability result" where
  "capabilityById k = (case find (\<lambda>c. cap_id c = k) DEFAULT_CAPABILITIES of
     Some c \<Rightarrow> Inr c | None \<Rightarrow> Inl (refused (''capability is not configured: '' @ k)))"

definition capability_ids :: "jsval \<Rightarrow> string list result" where
  "capability_ids v =
     bindR (unique_texts (coalesce v (JArr [])) ''persona capability ids'' 100) (\<lambda>ids.
     bindR (mapR capabilityById ids) (\<lambda>_. Inr ids))"

subsection \<open>Principals\<close>

definition SYSTEM_OPERATOR_PRINCIPAL_ID :: string where
  "SYSTEM_OPERATOR_PRINCIPAL_ID = ''principal:operator''"

definition createSystemOperator :: "int \<Rightarrow> principal_record" where
  "createSystemOperator now = \<lparr>gp_id = SYSTEM_OPERATOR_PRINCIPAL_ID, gp_revision = 1, gp_subject = ''operator:cloudflare'',
     gp_label = ''Crabhelm operator'', gp_kind = Human, gp_source = ''operator'', gp_roles = [''administrator'', ''member''],
     gp_departments = [''platform''], gp_created = now, gp_updated = now\<rparr>"

definition principal_sources :: "string list" where
  "principal_sources = [''operator'', ''github'', ''slack'', ''email'', ''oidc'', ''manual'']"

definition principal_source :: "jsval \<Rightarrow> string result" where
  "principal_source v = (case coalesce v (JStr ''manual'') of
     JStr s \<Rightarrow> if s \<in> set principal_sources then Inr s else Inl (refused ''principal source is invalid'')
   | _ \<Rightarrow> Inl (refused ''principal source is invalid''))"

definition principal_kind_of :: "jsval \<Rightarrow> principal_kind result" where
  "principal_kind_of v =
     (let k = coalesce v (JStr ''human'') in
      if k = JStr ''human'' then Inr Human else if k = JStr ''service'' then Inr Service_account
      else Inl (refused ''principal kind must be human or service''))"

definition principal_roles :: "jsval \<Rightarrow> string list result" where
  "principal_roles v =
     bindR (unique_texts (coalesce v (JArr [JStr ''member''])) ''principal roles'' 2) (\<lambda>roles.
     if roles = [] \<or> (\<exists>r\<in>set roles. r \<noteq> ''administrator'' \<and> r \<noteq> ''member'')
     then Inl (refused ''principal roles must contain member or administrator'') else Inr roles)"

definition createPrincipalRecord :: "jsval \<Rightarrow> string \<Rightarrow> int \<Rightarrow> principal_record result" where
  "createPrincipalRecord input uid now =
     bindR (governed_text (get input ''subject'') ''principal subject'' 200) (\<lambda>subject.
     bindR (refuse_if (\<not> subjectPattern subject) (refused ''principal subject contains unsupported characters'')) (\<lambda>_.
     bindR (principal_source (get input ''source'')) (\<lambda>source.
     bindR (principal_kind_of (get input ''kind'')) (\<lambda>kind.
     bindR (principal_roles (get input ''roles'')) (\<lambda>roles.
     bindR (governed_text (get input ''label'') ''principal label'' 120) (\<lambda>label.
     bindR (departments_of (get input ''departments'')) (\<lambda>departments.
     Inr \<lparr>gp_id = uid, gp_revision = 1, gp_subject = subject, gp_label = label, gp_kind = kind, gp_source = source,
          gp_roles = roles, gp_departments = departments, gp_created = now, gp_updated = now\<rparr>)))))))"

subsection \<open>Personas\<close>

definition normalizeActorPolicy :: "persona_kind \<Rightarrow> jsval \<Rightarrow> actor_policy result" where
  "normalizeActorPolicy kind input =
     (case mode_of (coalesce (get input ''mode'') (JStr ''invoker'')) of
        None \<Rightarrow> Inl (refused ''persona actor mode is invalid'')
      | Some mode \<Rightarrow>
          if kind = Profile \<and> mode \<noteq> Invoker then Inl (refused ''profile assistants must use invoker actor mode'')
          else if mode \<noteq> Invoker then
            bindR (governed_text (get input ''servicePrincipalId'') ''service principal'' 200) (\<lambda>service.
            Inr \<lparr>am_mode = mode, am_service = Some service\<rparr>)
          else Inr \<lparr>am_mode = mode, am_service = None\<rparr>)"

text \<open>\<open>...(v ? { k: text(v, ..) } : {})\<close>\<close>

definition optional_governed :: "jsval \<Rightarrow> string \<Rightarrow> nat \<Rightarrow> string option result" where
  "optional_governed v label limit = (if truthy v then bindR (governed_text v label limit) (\<lambda>t. Inr (Some t)) else Inr None)"

definition normalizeBinding :: "jsval \<Rightarrow> persona_binding result" where
  "normalizeBinding b =
     (case get b ''surface'' of
        JStr surface \<Rightarrow>
          if surface \<notin> {''slack'', ''web'', ''api''} then Inl (refused ''persona binding surface is invalid'')
          else if surface = ''slack'' \<and> (\<not> truthy (get b ''workspaceId'') \<or> \<not> truthy (get b ''channelId''))
          then Inl (refused ''Slack persona binding requires workspace and channel ids'')
          else bindR (optional_governed (get b ''workspaceId'') ''binding workspace'' 100) (\<lambda>workspace.
            bindR (optional_governed (get b ''channelId'') ''binding channel'' 100) (\<lambda>channel.
            Inr \<lparr>bd_surface = surface, bd_workspace = workspace, bd_channel = channel\<rparr>))
      | _ \<Rightarrow> Inl (refused ''persona binding surface is invalid''))"

text \<open>\<open>if (!input) return []; if (!Array.isArray(input) || input.length > 50) throw ..; return input.map(f)\<close>\<close>

definition listed :: "string \<Rightarrow> (jsval \<Rightarrow> 'a result) \<Rightarrow> jsval \<Rightarrow> 'a list result" where
  "listed label f v =
     (if \<not> truthy v then Inr []
      else case v of
        JArr vs \<Rightarrow> if 50 < length vs then Inl (refused label) else mapR f vs
      | _ \<Rightarrow> Inl (refused label))"

definition normalizeBindings :: "jsval \<Rightarrow> persona_binding list result" where
  "normalizeBindings v = listed ''persona bindings exceed 50 entries'' normalizeBinding v"

definition normalizeInstructions :: "jsval \<Rightarrow> persona_instructions result" where
  "normalizeInstructions v =
     bindR (optionalText (get v ''identity'') ''IDENTITY.md'' 16384) (\<lambda>identity.
     bindR (optionalText (get v ''soul'') ''SOUL.md'' 16384) (\<lambda>soul.
     bindR (optionalText (get v ''agents'') ''AGENTS.md'' 32768) (\<lambda>agents.
     Inr \<lparr>pi_identity = identity, pi_soul = soul, pi_agents = agents\<rparr>)))"

definition normalizeContext :: "jsval \<Rightarrow> published_context result" where
  "normalizeContext e =
     bindR (optional_governed (get e ''url'') ''published context URL'' 500) (\<lambda>url.
     bindR (refuse_if (case url of Some u \<Rightarrow> \<not> prefix_of ''https://'' u | None \<Rightarrow> False)
              (refused ''published context URL must use HTTPS'')) (\<lambda>_.
     bindR (governed_text (get e ''label'') ''published context label'' 120) (\<lambda>label.
     bindR (governed_text (get e ''value'') ''published context value'' 2000) (\<lambda>body.
     Inr \<lparr>pc_label = label, pc_text = body, pc_url = url\<rparr>))))"

definition normalizePublishedContext :: "jsval \<Rightarrow> published_context list result" where
  "normalizePublishedContext v = listed ''published context exceeds 50 entries'' normalizeContext v"

definition persona_slug :: "jsval \<Rightarrow> string \<Rightarrow> string result" where
  "persona_slug v name =
     bindR (if truthy v then governed_text v ''persona slug'' 63 else Inr (slugify name)) (\<lambda>slug.
     bindR (refuse_if (\<not> slugPattern slug) (refused ''persona slug must be a lowercase DNS label'')) (\<lambda>_. Inr slug))"

definition createPersonaRecord :: "jsval \<Rightarrow> string \<Rightarrow> int \<Rightarrow> persona_record result" where
  "createPersonaRecord input uid now =
     bindR (governed_text (get input ''name'') ''persona name'' 80) (\<lambda>name.
     bindR (persona_slug (get input ''slug'') name) (\<lambda>slug.
     case kind_of (get input ''kind'') of
       None \<Rightarrow> Inl (refused ''persona kind must be personal, shared, or profile'')
     | Some kind \<Rightarrow>
         bindR (normalizeActorPolicy kind (get input ''actorPolicy'')) (\<lambda>policy.
         bindR (governed_text (get input ''ownerPrincipalId'') ''persona owner'' 200) (\<lambda>owner.
         bindR (governed_text (get input ''clawId'') ''persona claw'' 200) (\<lambda>claw.
         bindR (normalizeBindings (get input ''bindings'')) (\<lambda>bindings.
         bindR (capability_ids (get input ''capabilityIds'')) (\<lambda>capabilities.
         bindR (unique_texts (coalesce (get input ''skillIds'') (JArr [])) ''persona skill ids'' 100) (\<lambda>skills.
         bindR (normalizeInstructions (get input ''instructions'')) (\<lambda>instructions.
         bindR (normalizePublishedContext (get input ''publishedContext'')) (\<lambda>published.
         Inr \<lparr>pe_id = uid, pe_revision = 1, pe_name = name, pe_slug = slug, pe_kind = kind, pe_owner = owner,
              pe_claw = claw, pe_policy = policy, pe_bindings = bindings, pe_capabilities = capabilities,
              pe_skills = skills, pe_instructions = instructions, pe_context = published, pe_enabled = JBool True,
              pe_created = now, pe_updated = now\<rparr>))))))))))"

definition persona_input :: "persona_record \<Rightarrow> jsval \<Rightarrow> jsval" where
  "persona_input r input = JObj
     [(''name'', coalesce (get input ''name'') (JStr (pe_name r))),
      (''slug'', coalesce (get input ''slug'') (JStr (pe_slug r))),
      (''kind'', coalesce (get input ''kind'') (JStr (kind_name (pe_kind r)))),
      (''ownerPrincipalId'', coalesce (get input ''ownerPrincipalId'') (JStr (pe_owner r))),
      (''clawId'', JStr (pe_claw r)),
      (''actorPolicy'', spread (js_actor_policy (pe_policy r)) (get input ''actorPolicy'')),
      (''bindings'', coalesce (get input ''bindings'') (JArr (map js_binding (pe_bindings r)))),
      (''capabilityIds'', coalesce (get input ''capabilityIds'') (js_strings (pe_capabilities r))),
      (''skillIds'', coalesce (get input ''skillIds'') (js_strings (pe_skills r))),
      (''instructions'', spread (js_instructions (pe_instructions r)) (get input ''instructions'')),
      (''publishedContext'', coalesce (get input ''publishedContext'') (JArr (map js_context (pe_context r))))]"

definition updatePersonaRecord :: "persona_record \<Rightarrow> jsval \<Rightarrow> int \<Rightarrow> persona_record result" where
  "updatePersonaRecord r input now =
     (if nullish input then Inl type_error
      else bindR (createPersonaRecord (persona_input r input) (pe_id r) now) (\<lambda>rebuilt.
        let desired = rebuilt\<lparr>pe_created := pe_created r, pe_enabled := coalesce (get input ''enabled'') (pe_enabled r)\<rparr>;
            comparable = desired\<lparr>pe_revision := pe_revision r, pe_updated := pe_updated r\<rparr>
        in Inr (if canonicalJson (js_persona comparable) = canonicalJson (js_persona r) then r
                else desired\<lparr>pe_revision := pe_revision r + 1, pe_updated := now\<rparr>)))"

definition mayInvokePersona :: "persona_record \<Rightarrow> string \<Rightarrow> bool \<Rightarrow> bool" where
  "mayInvokePersona persona requester administrator \<longleftrightarrow> administrator \<or> pe_owner persona = requester \<or> pe_kind persona = Profile"

definition selectSlackPersona :: "persona_record list \<Rightarrow> string \<Rightarrow> string \<Rightarrow> persona_record option" where
  "selectSlackPersona personas workspace channel =
     find (\<lambda>p. truthy (pe_enabled p) \<and> (\<exists>b\<in>set (pe_bindings p). bd_surface b = ''slack'' \<and>
       bd_workspace b = Some workspace \<and> bd_channel b = Some channel)) personas"

subsection \<open>Skills\<close>

fun skill_files :: "js_lib \<Rightarrow> string list \<Rightarrow> nat \<Rightarrow> jsval list \<Rightarrow> (skill_file list \<times> nat) result" where
  \<comment> \<open>the callback of \<open>input.files.map\<close> with its variables \<open>seen\<close> and \<open>totalBytes\<close>\<close>
  "skill_files lib seen sum_bytes [] = Inr ([], sum_bytes)"
| "skill_files lib seen sum_bytes (v # vs) =
     bindR (governed_text (get v ''path'') ''skill file path'' 240) (\<lambda>path.
     if \<not> skillPathPattern path \<or> prefix_of ''.'' path \<or> contains_text path ''..''
     then Inl (refused (''skill file path is unsafe: '' @ path))
     else if path \<in> set seen then Inl (refused (''skill file path is duplicated: '' @ path))
     else
       let content = (case get v ''content'' of JStr t \<Rightarrow> t | _ \<Rightarrow> []); bytes = utf8_length content in
       if 65536 < bytes then Inl (refused (''skill file exceeds 64 KiB: '' @ path))
       else bindR (skill_files lib (path # seen) (sum_bytes + bytes) vs) (\<lambda>(files, t).
         Inr (\<lparr>sf_path = path, sf_content = content, sf_sha = lib_sha256 lib content\<rparr> # files, t)))"

definition skill_slug :: "jsval \<Rightarrow> string \<Rightarrow> string result" where
  "skill_slug v name =
     bindR (if truthy v then governed_text v ''skill slug'' 63 else Inr (slugify name)) (\<lambda>slug.
     bindR (refuse_if (\<not> slugPattern slug) (refused ''skill slug must be a lowercase DNS label'')) (\<lambda>_. Inr slug))"

definition files_digest :: "js_lib \<Rightarrow> skill_file list \<Rightarrow> string" where
  "files_digest lib files = lib_sha256 lib (canonicalJson (JArr (map js_skill_file files)))"

definition createSkillRecord :: "js_lib \<Rightarrow> jsval \<Rightarrow> string \<Rightarrow> string \<Rightarrow> int \<Rightarrow> skill_record result" where
  "createSkillRecord lib input by uid now =
     bindR (governed_text (get input ''name'') ''skill name'' 80) (\<lambda>name.
     bindR (skill_slug (get input ''slug'') name) (\<lambda>slug.
     case get input ''files'' of
       JArr vs \<Rightarrow>
         if vs = [] \<or> 50 < length vs then Inl (refused ''skill files must contain between 1 and 50 files'')
         else bindR (skill_files lib [] 0 vs) (\<lambda>(files, sum_bytes).
           bindR (refuse_if (262144 < sum_bytes) (refused ''skill files exceed 256 KiB total'')) (\<lambda>_.
           bindR (refuse_if (''SKILL.md'' \<notin> sf_path ` set files) (refused ''skill requires SKILL.md'')) (\<lambda>_.
           bindR (optionalText (get input ''description'') ''skill description'' 240) (\<lambda>description.
           bindR (departments_of (get input ''departments'')) (\<lambda>departments.
           bindR (governed_text (JStr by) ''skill creator'' 200) (\<lambda>creator.
           Inr \<lparr>sk_id = uid, sk_revision = 1, sk_name = name, sk_slug = slug, sk_description = description, sk_version = 1,
                sk_status = Draft, sk_departments = departments, sk_files = files, sk_digest = files_digest lib files,
                sk_by = creator, sk_approver = None, sk_created = now, sk_updated = now\<rparr>))))))
     | _ \<Rightarrow> Inl (refused ''skill files must contain between 1 and 50 files'')))"

definition approveSkillRecord :: "skill_record \<Rightarrow> string \<Rightarrow> int \<Rightarrow> skill_record result" where
  "approveSkillRecord r by now =
     (case sk_status r of
        Revoked_skill \<Rightarrow> Inl (refused ''revoked skill cannot be approved'')
      | Approved_skill \<Rightarrow> Inr r
      | Draft \<Rightarrow> bindR (governed_text (JStr by) ''skill approver'' 200) (\<lambda>approver.
          Inr (r\<lparr>sk_revision := sk_revision r + 1, sk_status := Approved_skill, sk_approver := Some approver, sk_updated := now\<rparr>)))"

subsection \<open>Acting\<close>

definition findConnection :: "oauth_connection list \<Rightarrow> string \<Rightarrow> capability \<Rightarrow> oauth_connection option" where
  "findConnection connections who cap =
     find (\<lambda>c. oc_active c \<and> oc_principal c = who \<and> oc_provider c = cap_provider cap \<and>
       (\<forall>scope\<in>set (cap_scopes cap). scope \<in> set (oc_scopes c))) connections"

record resolved_actor =
  ra_actor :: principal_record
  ra_connection :: oauth_connection
  ra_mode :: actor_mode
  ra_fallback :: bool

definition resolveInvocationActor :: "principal_record \<Rightarrow> persona_record \<Rightarrow> capability \<Rightarrow> principal_record list \<Rightarrow>
    oauth_connection list \<Rightarrow> resolved_actor result" where
  "resolveInvocationActor requester persona cap principals connections =
     (let mode = am_mode (pe_policy persona); own = findConnection connections (gp_id requester) cap in
      if \<not> truthy (pe_enabled persona) then Inl (refused ''persona is disabled'')
      else if cap_id cap \<notin> set (pe_capabilities persona) then Inl (refused ''persona is not allowed to use this capability'')
      else if mode \<notin> set (cap_modes cap) then Inl (refused ''persona actor mode is not allowed for this capability'')
      else if pe_kind persona = Profile \<and> mode \<noteq> Invoker then Inl (refused ''profile assistants must act as the requester'')
      else if mode = Invoker then
        (case own of None \<Rightarrow> Inl (refused ''requester has no compatible OAuth connection'')
         | Some c \<Rightarrow> Inr \<lparr>ra_actor = requester, ra_connection = c, ra_mode = Invoker, ra_fallback = False\<rparr>)
      else case find (\<lambda>p. Some (gp_id p) = am_service (pe_policy persona)) principals of
        None \<Rightarrow> Inl (refused ''persona service actor is unavailable'')
      | Some service \<Rightarrow>
          if gp_kind service \<noteq> Service_account then Inl (refused ''persona service actor is unavailable'')
          else let shared = findConnection connections (gp_id service) cap in
            if mode = As_service then
              (case shared of None \<Rightarrow> Inl (refused ''service actor has no compatible OAuth connection'')
               | Some c \<Rightarrow> Inr \<lparr>ra_actor = service, ra_connection = c, ra_mode = As_service, ra_fallback = False\<rparr>)
            else (case own of
                Some c \<Rightarrow> Inr \<lparr>ra_actor = requester, ra_connection = c, ra_mode = Invoker_or_service, ra_fallback = False\<rparr>
              | None \<Rightarrow> (case shared of
                  None \<Rightarrow> Inl (refused ''neither requester nor service actor has a compatible OAuth connection'')
                | Some c \<Rightarrow> Inr \<lparr>ra_actor = service, ra_connection = c, ra_mode = Invoker_or_service, ra_fallback = True\<rparr>)))"

definition skill_selected :: "principal_record \<Rightarrow> skill_record list \<Rightarrow> string \<Rightarrow> skill_summary result" where
  "skill_selected owner skills k =
     (case find (\<lambda>s. sk_id s = k) skills of
        None \<Rightarrow> Inl (refused (''persona skill is not approved: '' @ k))
      | Some s \<Rightarrow>
          if sk_status s \<noteq> Approved_skill then Inl (refused (''persona skill is not approved: '' @ k))
          else if sk_departments s \<noteq> [] \<and> (\<forall>d\<in>set (sk_departments s). d \<notin> set (gp_departments owner))
          then Inl (refused (''persona owner is not eligible for skill '' @ sk_name s))
          else Inr \<lparr>ss_id = sk_id s, ss_name = sk_name s, ss_slug = sk_slug s, ss_version = sk_version s,
                    ss_digest = sk_digest s, ss_files = sk_files s\<rparr>)"

definition buildManagedAgentSpec :: "persona_record \<Rightarrow> principal_record \<Rightarrow> skill_record list \<Rightarrow> observability_policy \<Rightarrow>
    int \<Rightarrow> managed_spec result" where
  "buildManagedAgentSpec p owner skills observability now =
     bindR (mapR (skill_selected owner skills) (pe_skills p)) (\<lambda>selected.
     Inr \<lparr>ms_generated = now, ms_claw = pe_claw p, ms_persona = pe_id p, ms_name = pe_name p, ms_slug = pe_slug p,
          ms_kind = pe_kind p, ms_owner = pe_owner p, ms_policy = pe_policy p, ms_revision = pe_revision p,
          ms_capabilities = pe_capabilities p, ms_instructions = pe_instructions p, ms_context = pe_context p,
          ms_level = ob_level observability, ms_otel = ob_otel observability, ms_skills = selected\<rparr>)"

subsection \<open>Invocations\<close>

definition normalizeGithubTarget :: "jsval \<Rightarrow> string result" where
  "normalizeGithubTarget v =
     bindR (governed_text v ''GitHub target'' 220) (\<lambda>target.
     bindR (refuse_if (\<not> githubTargetPattern target) (refused ''GitHub target must use owner/repository form'')) (\<lambda>_. Inr target))"

definition check_argument :: "string \<times> jsval \<Rightarrow> (string \<times> jsval) result" where
  "check_argument kv =
     (let (k, v) = kv in
      if \<not> argumentNamePattern k then Inl (refused (''tool argument name is invalid: '' @ k))
      else case v of
        JNull \<Rightarrow> Inr kv
      | JBool _ \<Rightarrow> Inr kv
      | JStr t \<Rightarrow> if 16384 < utf8_length t then Inl (refused (''tool argument exceeds 16 KiB: '' @ k)) else Inr kv
      | JNum n \<Rightarrow> (case n of Fin _ \<Rightarrow> Inr kv | _ \<Rightarrow> Inl (refused (''tool argument number is invalid: '' @ k)))
      | _ \<Rightarrow> Inl (refused (''tool argument must be scalar: '' @ k)))"

definition normalizeInvocationArguments :: "jsval \<Rightarrow> (string \<times> jsval) list result" where
  "normalizeInvocationArguments v =
     (case v of
        JObj kvs \<Rightarrow>
          if 20 < length kvs then Inl (refused ''tool arguments exceed 20 fields'') else mapR check_argument kvs
      | _ \<Rightarrow> Inl (refused ''tool arguments must be an object''))"

definition invocationArgumentsDigest :: "js_lib \<Rightarrow> jsval \<Rightarrow> jsval \<Rightarrow> jsval \<Rightarrow> string result" where
  "invocationArgumentsDigest lib cap target args =
     bindR (governed_text cap ''capability id'' 120) (\<lambda>capability.
     bindR (refuse_if (\<not> capabilityIdPattern capability) (refused ''capability id is invalid'')) (\<lambda>_.
     bindR (normalizeGithubTarget target) (\<lambda>clean.
     bindR (normalizeInvocationArguments args) (\<lambda>normal.
     Inr (lib_sha256 lib (canonicalJson
       (JObj [(''capabilityId'', JStr capability), (''target'', JStr clean), (''arguments'', JObj normal)])))))))"

end
