(* ===== verification/Governance_Registry.thy ===== *)
theory Governance_Registry
  imports Governance Registry
begin

text \<open>
  src/governance-registry.ts: the stores of principals, personas, skills, connections, OAuth states,
  confirmations, invocations and events, with the options that worker/control-plane-service.ts gives them.
  As in theory \<open>Registry\<close> an operation is a computation on the state of the stores, serialised by \<open>#tail\<close>
  and undone by the transaction when it throws; it reads the clock once, and \<open>randomUUID\<close> is a supply of
  names. A store refuses a key that is not a string; which error it throws then is not distinguished.
\<close>

record governance_config =
  gc_transaction :: bool
  gc_lib :: js_lib
  gc_uuid :: "nat \<Rightarrow> string"

record gov =
  gv_principals :: "principal_record entry list"
  gv_personas :: "persona_record entry list"
  gv_skills :: "skill_record entry list"
  gv_connections :: "oauth_connection entry list"
  gv_states :: "oauth_state entry list"
  gv_confirmations :: "confirmation_record entry list"
  gv_invocations :: "invocation_record entry list"
  gv_events :: "governance_event entry list"
  gv_uuids :: nat

type_synonym 'a govc = "(gov, 'a) comp"

definition keeping :: "nat \<Rightarrow> store_options" where
  "keeping n = \<lparr>max_entries = n, evict_oldest = False\<rparr>"

definition evicting :: "nat \<Rightarrow> store_options" where
  "evicting n = \<lparr>max_entries = n, evict_oldest = True\<rparr>"

subsection \<open>Stores\<close>

text \<open>A store is a member of the state: the selector and the update of its record field.\<close>

definition put_in :: "(gov \<Rightarrow> 'v entry list) \<Rightarrow> (('v entry list \<Rightarrow> 'v entry list) \<Rightarrow> gov \<Rightarrow> gov) \<Rightarrow> store_options \<Rightarrow>
    string \<Rightarrow> 'v \<Rightarrow> int \<Rightarrow> unit govc" where
  "put_in sel upd opts k v now = (\<lambda>s. case sql_register opts k v now (sel s) of
     Inl e \<Rightarrow> (Inl e, s) | Inr t \<Rightarrow> (Inr (), upd (\<lambda>_. t) s))"

definition look_in :: "(gov \<Rightarrow> 'v entry list) \<Rightarrow> string \<Rightarrow> 'v option govc" where
  "look_in sel k = (\<lambda>s. (sql_lookup k (sel s), s))"

definition require_in :: "(gov \<Rightarrow> 'v entry list) \<Rightarrow> string \<Rightarrow> string \<Rightarrow> 'v govc" where
  "require_in sel label k = bindC (look_in sel k) (\<lambda>found. case found of None \<Rightarrow> throwC (refused label) | Some v \<Rightarrow> retC v)"

definition gov_values :: "(gov \<Rightarrow> 'v entry list) \<Rightarrow> gov \<Rightarrow> 'v list" where
  "gov_values sel s = map e_value (sql_entries (sel s))"

definition new_uuid :: "governance_config \<Rightarrow> string govc" where
  "new_uuid cfg = (\<lambda>s. (Inr (gc_uuid cfg (gv_uuids s)), s\<lparr>gv_uuids := Suc (gv_uuids s)\<rparr>))"

definition gov_serialize :: "governance_config \<Rightarrow> 'a govc \<Rightarrow> 'a govc" where
  "gov_serialize cfg op = (\<lambda>s. case op s of
     (Inl e, t) \<Rightarrow> (Inl e, if gc_transaction cfg then s\<lparr>gv_uuids := gv_uuids t\<rparr> else t)
   | (Inr a, t) \<Rightarrow> (Inr a, t))"

definition put_principal :: "principal_record \<Rightarrow> int \<Rightarrow> unit govc" where
  "put_principal p now = put_in gv_principals gv_principals_update (keeping 10000) (gp_id p) p now"

definition put_persona :: "persona_record \<Rightarrow> int \<Rightarrow> unit govc" where
  "put_persona p now = put_in gv_personas gv_personas_update (keeping 10000) (pe_id p) p now"

definition put_skill :: "skill_record \<Rightarrow> int \<Rightarrow> unit govc" where
  "put_skill r now = put_in gv_skills gv_skills_update (keeping 10000) (sk_id r) r now"

definition put_connection :: "oauth_connection \<Rightarrow> int \<Rightarrow> unit govc" where
  "put_connection c now = put_in gv_connections gv_connections_update (keeping 20000) (oc_id c) c now"

definition put_state :: "oauth_state \<Rightarrow> int \<Rightarrow> unit govc" where
  "put_state x now = put_in gv_states gv_states_update (evicting 10000) (os_id x) x now"

definition put_confirmation :: "confirmation_record \<Rightarrow> int \<Rightarrow> unit govc" where
  "put_confirmation c now = put_in gv_confirmations gv_confirmations_update (evicting 50000) (cf_id c) c now"

definition put_invocation :: "invocation_record \<Rightarrow> int \<Rightarrow> unit govc" where
  "put_invocation i now = put_in gv_invocations gv_invocations_update (evicting 50000) (iv_id i) i now"

subsection \<open>Events\<close>

definition gov_note :: "string \<Rightarrow> string \<Rightarrow> string \<Rightarrow> string \<Rightarrow> governance_event" where
  "gov_note requester action outcome summary =
     \<lparr>ge_id = [], ge_at = 0, ge_correlation = [], ge_claw = None, ge_requester = Some requester, ge_persona = None, ge_actor = None,
      ge_mode = None, ge_fallback = None, ge_runtime = None, ge_capability = None, ge_target = None, ge_policy = None,
      ge_confirmation = JUndef, ge_action = action, ge_outcome = outcome, ge_summary = summary\<rparr>"

definition acted :: "string \<Rightarrow> governance_event \<Rightarrow> governance_event" where
  "acted actor e = e\<lparr>ge_actor := Some actor\<rparr>"

definition gov_audit :: "governance_config \<Rightarrow> governance_event \<Rightarrow> string option \<Rightarrow> int \<Rightarrow> governance_event govc" where
  "gov_audit cfg event correlation now =
     bindC (new_uuid cfg) (\<lambda>eid.
     bindC (case correlation of Some c \<Rightarrow> retC c | None \<Rightarrow> new_uuid cfg) (\<lambda>c.
     let e = event\<lparr>ge_id := eid, ge_at := now, ge_correlation := c\<rparr> in
     thenC (put_in gv_events gv_events_update (evicting 50000) eid e now) (retC e)))"

subsection \<open>Principals\<close>

definition requirePrincipal :: "string \<Rightarrow> principal_record govc" where
  "requirePrincipal k = require_in gv_principals ''principal not found'' k"

definition requirePersona :: "string \<Rightarrow> persona_record govc" where
  "requirePersona k = require_in gv_personas ''persona not found'' k"

definition requireConnection :: "string \<Rightarrow> oauth_connection govc" where
  "requireConnection k = require_in gv_connections ''connection not found'' k"

definition requireConfirmation :: "string \<Rightarrow> confirmation_record govc" where
  "requireConfirmation k = require_in gv_confirmations ''confirmation not found'' k"

definition ensureSystem :: "int \<Rightarrow> principal_record govc" where
  "ensureSystem now =
     bindC (look_in gv_principals SYSTEM_OPERATOR_PRINCIPAL_ID) (\<lambda>existing.
     case existing of Some p \<Rightarrow> retC p
     | None \<Rightarrow> let operator = createSystemOperator now in thenC (put_principal operator now) (retC operator))"

definition createPrincipal :: "governance_config \<Rightarrow> jsval \<Rightarrow> string \<Rightarrow> int \<Rightarrow> principal_record govc" where
  "createPrincipal cfg input actor now = gov_serialize cfg
     (bindC (new_uuid cfg) (\<lambda>uid.
      bindC (liftR (createPrincipalRecord input uid now)) (\<lambda>nxt.
      bindC (getC (gov_values gv_principals)) (\<lambda>known.
      thenC (refuseC (\<exists>p\<in>set known. gp_subject p = gp_subject nxt) (refused ''principal subject already exists''))
     (thenC (put_principal nxt now)
     (thenC (gov_audit cfg (acted actor (gov_note actor ''principal.create'' ''succeeded'' (''Created principal '' @ gp_label nxt))) None now)
     (retC nxt)))))))"

definition refreshed :: "principal_record \<Rightarrow> principal_record \<Rightarrow> int \<Rightarrow> principal_record" where
  "refreshed current candidate now =
     (let keep = (gp_source current = ''oidc'' \<and> gp_source candidate \<noteq> ''oidc''); from = (if keep then current else candidate) in
      current\<lparr>gp_revision := gp_revision current + 1, gp_label := gp_label from, gp_source := gp_source from,
        gp_roles := gp_roles from, gp_departments := gp_departments from, gp_updated := now\<rparr>)"

definition ensureExternalPrincipal :: "governance_config \<Rightarrow> jsval \<Rightarrow> int \<Rightarrow> principal_record govc" where
  "ensureExternalPrincipal cfg input now = gov_serialize cfg
     (bindC (new_uuid cfg) (\<lambda>uid.
      bindC (liftR (createPrincipalRecord input uid now)) (\<lambda>candidate.
      bindC (getC (gov_values gv_principals)) (\<lambda>known.
      case find (\<lambda>p. gp_subject p = gp_subject candidate) known of
        None \<Rightarrow>
          thenC (put_principal candidate now)
         (thenC (gov_audit cfg (acted (gp_id candidate) (gov_note (gp_id candidate) ''principal.login'' ''succeeded''
             (''Created '' @ gp_source candidate @ '' principal '' @ gp_label candidate))) None now)
         (retC candidate))
      | Some current \<Rightarrow>
          let nxt = refreshed current candidate now in
          thenC (put_in gv_principals gv_principals_update (keeping 10000) (gp_id current) nxt now) (retC nxt)))))"

definition principalBySubject :: "string \<Rightarrow> gov \<Rightarrow> principal_record option" where
  "principalBySubject subject s = find (\<lambda>p. gp_subject p = subject) (gov_values gv_principals s)"

subsection \<open>Personas\<close>

definition validatePersona :: "persona_record \<Rightarrow> unit govc" where
  "validatePersona p =
     thenC (case am_service (pe_policy p) of
         None \<Rightarrow> retC ()
       | Some k \<Rightarrow> bindC (requirePrincipal k) (\<lambda>service.
           refuseC (gp_kind service \<noteq> Service_account) (refused ''persona service actor must be a service principal'')))
    (forC (\<lambda>k. bindC (look_in gv_skills k) (\<lambda>skill.
       refuseC (case skill of None \<Rightarrow> True | Some r \<Rightarrow> sk_status r \<noteq> Approved_skill)
         (refused (''persona skill is not approved: '' @ k)))) (pe_skills p))"

definition requireOwner :: "jsval \<Rightarrow> principal_record govc" where
  "requireOwner v = (case v of JStr k \<Rightarrow> requirePrincipal k | _ \<Rightarrow> throwC (refused ''principal not found''))"

definition createPersona :: "governance_config \<Rightarrow> jsval \<Rightarrow> string \<Rightarrow> int \<Rightarrow> persona_record govc" where
  "createPersona cfg input actor now = gov_serialize cfg
     (thenC (refuseC (nullish input) type_error)
     (thenC (requireOwner (get input ''ownerPrincipalId''))
     (bindC (new_uuid cfg) (\<lambda>uid.
      bindC (liftR (createPersonaRecord input uid now)) (\<lambda>p.
      bindC (getC (gov_values gv_personas)) (\<lambda>known.
      thenC (refuseC (\<exists>q\<in>set known. pe_slug q = pe_slug p) (refused ''persona slug already exists''))
     (thenC (validatePersona p)
     (thenC (put_persona p now)
     (thenC (gov_audit cfg ((gov_note actor ''persona.create'' ''succeeded'' (''Created persona '' @ pe_name p))
        \<lparr>ge_claw := Some (pe_claw p), ge_persona := Some (pe_id p)\<rparr>) None now)
     (retC p))))))))))"

definition updatePersona :: "governance_config \<Rightarrow> string \<Rightarrow> jsval \<Rightarrow> string \<Rightarrow> int \<Rightarrow> persona_record govc" where
  "updatePersona cfg k input actor now = gov_serialize cfg
     (bindC (requirePersona k) (\<lambda>current.
      bindC (liftR (updatePersonaRecord current input now)) (\<lambda>nxt.
      thenC (requirePrincipal (pe_owner nxt))
     (thenC (validatePersona nxt)
     (thenC (put_in gv_personas gv_personas_update (keeping 10000) k nxt now)
     (thenC (gov_audit cfg ((gov_note actor ''persona.update'' ''succeeded'' (''Updated persona '' @ pe_name nxt))
        \<lparr>ge_claw := Some (pe_claw nxt), ge_persona := Some k\<rparr>) None now)
     (retC nxt)))))))"

definition newline :: string where
  "newline = [CHR 0x0A]"

definition bootstrap_input :: "claw_record \<Rightarrow> string \<Rightarrow> jsval" where
  "bootstrap_input claw owner = JObj
     [(''name'', JStr (d_name (c_desired claw))), (''slug'', JStr (d_slug (c_desired claw))), (''kind'', JStr ''personal''),
      (''ownerPrincipalId'', JStr owner), (''clawId'', JStr (c_id claw)),
      (''capabilityIds'', js_strings (map cap_id DEFAULT_CAPABILITIES)),
      (''instructions'', JObj
        [(''identity'', JStr (''# Identity'' @ newline @ newline @ ''You are '' @ d_name (c_desired claw) @
            '', an OpenClaw teammate managed by Crabhelm.'')),
         (''soul'', JStr (''# Operating principles'' @ newline @ newline @
            ''Respect requester authority, least privilege, confirmation, and attribution.'')),
         (''agents'', JStr (''# Managed runtime'' @ newline @ newline @
            ''Use only governed capabilities. Never request, store, or expose durable credentials.''))])]"

definition ensureOwner :: "governance_config \<Rightarrow> owner_ref \<Rightarrow> int \<Rightarrow> principal_record govc" where
  \<comment> \<open>the principal of a claw's owner, created when there is none\<close>
  "ensureOwner cfg owner now =
     bindC (getC (gov_values gv_principals)) (\<lambda>known.
     case find (\<lambda>p. gp_subject p = o_subject owner) known of
       Some p \<Rightarrow> retC p
     | None \<Rightarrow>
         bindC (new_uuid cfg) (\<lambda>uid.
         bindC (liftR (createPrincipalRecord (js_owner owner) uid now)) (\<lambda>p.
         thenC (put_principal p now) (retC p))))"

definition ensurePersonaForClaw :: "governance_config \<Rightarrow> claw_record \<Rightarrow> int \<Rightarrow> persona_record govc" where
  "ensurePersonaForClaw cfg claw now = gov_serialize cfg
     (thenC (ensureSystem now)
     (bindC (ensureOwner cfg (d_owner (c_desired claw)) now) (\<lambda>owner.
      bindC (getC (gov_values gv_personas)) (\<lambda>known.
      case find (\<lambda>p. pe_claw p = c_id claw) known of
        Some p \<Rightarrow> retC p
      | None \<Rightarrow>
          bindC (new_uuid cfg) (\<lambda>uid.
          bindC (liftR (createPersonaRecord (bootstrap_input claw (gp_id owner)) uid now)) (\<lambda>p.
          thenC (put_persona p now)
         (thenC (gov_audit cfg ((gov_note SYSTEM_OPERATOR_PRINCIPAL_ID ''persona.bootstrap'' ''succeeded''
             (''Created personal persona for '' @ d_name (c_desired claw)))\<lparr>ge_claw := Some (c_id claw), ge_persona := Some (pe_id p)\<rparr>) None now)
         (retC p))))))))"

definition managedSpecForClaw :: "governance_config \<Rightarrow> claw_record \<Rightarrow> int \<Rightarrow> managed_spec govc" where
  "managedSpecForClaw cfg claw now =
     bindC (ensurePersonaForClaw cfg claw now) (\<lambda>p.
     bindC (requirePrincipal (pe_owner p)) (\<lambda>owner.
     bindC (getC (gov_values gv_skills)) (\<lambda>skills.
     liftR (buildManagedAgentSpec p owner skills (d_observability (c_desired claw)) now))))"

subsection \<open>Skills\<close>

definition createSkill :: "governance_config \<Rightarrow> jsval \<Rightarrow> string \<Rightarrow> int \<Rightarrow> skill_record govc" where
  "createSkill cfg input actor now = gov_serialize cfg
     (bindC (new_uuid cfg) (\<lambda>uid.
      bindC (liftR (createSkillRecord (gc_lib cfg) input actor uid now)) (\<lambda>r.
      bindC (getC (gov_values gv_skills)) (\<lambda>known.
      thenC (refuseC (\<exists>q\<in>set known. sk_slug q = sk_slug r) (refused ''skill slug already exists''))
     (thenC (put_skill r now)
     (thenC (gov_audit cfg (acted actor (gov_note actor ''skill.create'' ''succeeded'' (''Created draft skill '' @ sk_name r))) None now)
     (retC r)))))))"

definition approveSkill :: "governance_config \<Rightarrow> string \<Rightarrow> string \<Rightarrow> int \<Rightarrow> skill_record govc" where
  "approveSkill cfg k actor now = gov_serialize cfg
     (bindC (require_in gv_skills ''skill not found'' k) (\<lambda>current.
      bindC (liftR (approveSkillRecord current actor now)) (\<lambda>r.
      thenC (put_in gv_skills gv_skills_update (keeping 10000) k r now)
     (thenC (gov_audit cfg (acted actor (gov_note actor ''skill.approve'' ''succeeded'' (''Approved skill '' @ sk_name r))) None now)
     (retC r)))))"

subsection \<open>Connections and OAuth states\<close>

definition connection_text :: "jsval \<Rightarrow> string \<Rightarrow> nat \<Rightarrow> string result" where
  "connection_text v label limit =
     (case v of
        JStr t \<Rightarrow> if trim t = [] \<or> limit < utf8_length (trim t) then Inl (refused (label @ '' is invalid'')) else Inr (trim t)
      | _ \<Rightarrow> Inl (refused (label @ '' is invalid'')))"

definition connection_scopes :: "jsval \<Rightarrow> string \<Rightarrow> nat \<Rightarrow> string list result" where
  "connection_scopes v label limit =
     (case v of
        JArr vs \<Rightarrow>
          if vs = [] \<or> limit < length vs
          then Inl (refused (label @ '' must contain between 1 and '' @ nat_str limit @ '' entries''))
          else bindR (mapR (\<lambda>x. connection_text x label 120) vs) (\<lambda>clean.
            if distinct clean then Inr clean else Inl (refused (label @ '' must be unique'')))
      | _ \<Rightarrow> Inl (refused (label @ '' must contain between 1 and '' @ nat_str limit @ '' entries'')))"

definition registerConnection :: "governance_config \<Rightarrow> string \<Rightarrow> string \<Rightarrow> jsval \<Rightarrow> jsval \<Rightarrow> string \<Rightarrow> string \<Rightarrow> string \<Rightarrow> int \<Rightarrow>
    oauth_connection govc" where
  "registerConnection cfg who provider label scopes vault actor cid now = gov_serialize cfg
     (thenC (requirePrincipal who)
     (bindC (liftR (connection_text label ''connection label'' 120)) (\<lambda>lb.
      bindC (liftR (connection_scopes scopes ''connection scopes'' 30)) (\<lambda>sc.
      let c = \<lparr>oc_id = cid, oc_revision = 1, oc_principal = who, oc_provider = provider, oc_label = lb, oc_scopes = sc,
               oc_vault = vault, oc_active = True, oc_created = now, oc_updated = now\<rparr> in
      thenC (put_connection c now)
     (thenC (gov_audit cfg (acted actor (gov_note actor ''connection.create'' ''succeeded'' (''Connected '' @ lb))) None now)
     (retC c))))))"

definition revokeConnection :: "governance_config \<Rightarrow> string \<Rightarrow> string \<Rightarrow> int \<Rightarrow> oauth_connection govc" where
  "revokeConnection cfg k actor now = gov_serialize cfg
     (bindC (requireConnection k) (\<lambda>current.
      let c = current\<lparr>oc_revision := oc_revision current + 1, oc_active := False, oc_updated := now\<rparr> in
      thenC (put_in gv_connections gv_connections_update (keeping 20000) k c now)
     (thenC (gov_audit cfg (acted actor (gov_note actor ''connection.revoke'' ''succeeded'' (''Revoked '' @ oc_label c))) None now)
     (retC c))))"

definition createOAuthState :: "governance_config \<Rightarrow> string \<Rightarrow> int \<Rightarrow> oauth_state govc" where
  "createOAuthState cfg who now =
     thenC (requirePrincipal who)
     (bindC (new_uuid cfg) (\<lambda>uid.
      let x = \<lparr>os_id = uid, os_principal = who, os_provider = ''github'', os_created = now, os_expires = now + 600000\<rparr> in
      thenC (put_state x now) (retC x)))"

definition consumeOAuthState :: "governance_config \<Rightarrow> string \<Rightarrow> string \<Rightarrow> int \<Rightarrow> oauth_state govc" where
  "consumeOAuthState cfg k who now = gov_serialize cfg
     (bindC (look_in gv_states k) (\<lambda>found.
      case found of
        None \<Rightarrow> throwC (refused ''OAuth state is invalid or expired'')
      | Some x \<Rightarrow>
          if os_principal x \<noteq> who \<or> os_expires x \<le> now then throwC (refused ''OAuth state is invalid or expired'')
          else thenC (modC (\<lambda>s. s\<lparr>gv_states := drop_key k (gv_states s)\<rparr>)) (retC x)))"

subsection \<open>Confirmations and invocations\<close>

definition createConfirmation :: "governance_config \<Rightarrow> confirmed_action \<Rightarrow> string \<Rightarrow> int \<Rightarrow> int \<Rightarrow> confirmation_record govc" where
  "createConfirmation cfg action summary expires now =
     bindC (new_uuid cfg) (\<lambda>uid.
     let c = \<lparr>cf_id = uid, cf_action = action, cf_summary = summary, cf_status = Pending, cf_expires = expires,
              cf_decided = None, cf_created = now\<rparr> in
     thenC (put_confirmation c now) (retC c))"

definition decideConfirmation :: "governance_config \<Rightarrow> string \<Rightarrow> string \<Rightarrow> bool \<Rightarrow> int \<Rightarrow> confirmation_record govc" where
  "decideConfirmation cfg k requester approve now = gov_serialize cfg
     (bindC (requireConfirmation k) (\<lambda>current.
      thenC (refuseC (ca_requester (cf_action current) \<noteq> requester) (refused ''only the requester may decide confirmation''))
     (thenC (refuseC (cf_status current \<noteq> Pending) (refused ''confirmation is no longer pending''))
     (if cf_expires current \<le> now then
        thenC (put_in gv_confirmations gv_confirmations_update (evicting 50000) k (current\<lparr>cf_status := Expired, cf_decided := Some now\<rparr>) now)
          (throwC (refused ''confirmation expired''))
      else
        let c = current\<lparr>cf_status := (if approve then Approved else Denied), cf_decided := Some now\<rparr>; a = cf_action c in
        thenC (put_in gv_confirmations gv_confirmations_update (evicting 50000) k c now)
       (thenC (gov_audit cfg ((acted (ca_actor a) (gov_note requester ''confirmation.decide'' (if approve then ''succeeded'' else ''denied'')
            (if approve then cf_summary c else ''Denied: '' @ cf_summary c)))
              \<lparr>ge_persona := Some (ca_persona a), ge_capability := Some (ca_capability a), ge_target := Some (ca_target a),
               ge_confirmation := JStr k\<rparr>) None now)
       (retC c))))))"

definition useConfirmation :: "governance_config \<Rightarrow> string \<Rightarrow> confirmed_action \<Rightarrow> int \<Rightarrow> confirmation_record govc" where
  "useConfirmation cfg k expected now = gov_serialize cfg
     (bindC (requireConfirmation k) (\<lambda>current.
      thenC (refuseC (cf_status current \<noteq> Approved \<or> cf_expires current \<le> now) (refused ''approved confirmation is required''))
     (thenC (refuseC (cf_action current \<noteq> expected) (refused ''confirmation does not match the requested action''))
     (let c = current\<lparr>cf_status := Used\<rparr> in
      thenC (put_in gv_confirmations gv_confirmations_update (evicting 50000) k c now) (retC c)))))"

definition saveInvocation :: "invocation_record \<Rightarrow> int \<Rightarrow> unit govc" where
  "saveInvocation i now = put_invocation i now"

text \<open>The patches of \<open>updateInvocation\<close>: a status and, at the end, the time of completion.\<close>

definition invocation_open :: "invocation_status \<Rightarrow> bool" where
  "invocation_open st \<longleftrightarrow> st = Issued \<or> st = Running"

definition updateInvocation :: "governance_config \<Rightarrow> string \<Rightarrow> invocation_status option \<Rightarrow> int option \<Rightarrow> int \<Rightarrow> invocation_record govc" where
  "updateInvocation cfg k status completed now = gov_serialize cfg
     (bindC (require_in gv_invocations ''invocation not found'' k) (\<lambda>current.
      if \<not> invocation_open (iv_status current) then
        thenC (refuseC (case status of Some st \<Rightarrow> st \<noteq> iv_status current | None \<Rightarrow> False) (refused ''invocation outcome is final''))
          (retC current)
      else
        let i = current\<lparr>iv_status := (case status of Some st \<Rightarrow> st | None \<Rightarrow> iv_status current),
              iv_completed := (case completed of Some t \<Rightarrow> Some t | None \<Rightarrow> iv_completed current)\<rparr> in
        thenC (put_in gv_invocations gv_invocations_update (evicting 50000) k i now) (retC i)))"

subsection \<open>Snapshot\<close>

definition by_time :: "('a \<Rightarrow> int) \<Rightarrow> 'a list \<Rightarrow> 'a list" where
  \<comment> \<open>\<open>(a, b) => b.at.localeCompare(a.at)\<close> on ISO timestamps: latest first\<close>
  "by_time f xs = sort_key (\<lambda>x. - f x) xs"

definition redacted :: "oauth_connection \<Rightarrow> oauth_connection" where
  "redacted c = c\<lparr>oc_vault := ''redacted''\<rparr>"

definition gov_snapshot :: "int \<Rightarrow> governance_snapshot govc" where
  "gov_snapshot now =
     thenC (ensureSystem now)
     (getC (\<lambda>s. \<lparr>gs_principals = sort_key (\<lambda>p. locale_key (gp_label p)) (gov_values gv_principals s),
        gs_personas = sort_key (\<lambda>p. locale_key (pe_name p)) (gov_values gv_personas s),
        gs_capabilities = DEFAULT_CAPABILITIES,
        gs_skills = by_time sk_updated (gov_values gv_skills s),
        gs_connections = map redacted (by_time oc_updated (gov_values gv_connections s)),
        gs_confirmations = take 200 (by_time cf_created (gov_values gv_confirmations s)),
        gs_invocations = take 200 (by_time iv_issued (gov_values gv_invocations s)),
        gs_events = take 300 (by_time ge_at (gov_values gv_events s))\<rparr>))"

end
