(* ===== verification/Governance_Rules.thy ===== *)
theory Governance_Rules
  imports Governance Domain_Rules Json_Parse
begin

text \<open>
  What the rules of theory \<open>Governance\<close> promise: the form of a persona and of a skill that creation accepts,
  an update that changes nothing, who an invocation may act as, and what the digest of its arguments binds.
\<close>

subsection \<open>Texts and lists\<close>

definition bounded_text :: "nat \<Rightarrow> string \<Rightarrow> bool" where
  "bounded_text n t \<longleftrightarrow> t \<noteq> [] \<and> utf8_length t \<le> n \<and> trim t = t"

lemma governed_text_text [normal_form]: "governed_text v l n = Inr t \<Longrightarrow> bounded_text n t"
  by (auto simp: governed_text_def bounded_text_def Let_def split: jsval.splits if_splits)

lemma governed_text_id [normalised]: "bounded_text n t \<Longrightarrow> governed_text (JStr t) l n = Inr t"
  by (simp add: governed_text_def bounded_text_def)

lemma bounded_text_mono: "bounded_text m t \<Longrightarrow> m \<le> n \<Longrightarrow> bounded_text n t"
  by (simp add: bounded_text_def)

lemma utf8_length_ascii: "\<forall>c\<in>set s. code_unit c < 128 \<Longrightarrow> utf8_length s = length s"
  by (induction s) (auto simp: utf8_length_def)

lemma slug_bounded: "slugPattern s \<Longrightarrow> bounded_text 63 s"
proof -
  assume s: "slugPattern s"
  then have "\<forall>c\<in>set s. code_unit c < 128"
    by (auto simp: slugPattern_def list_all_iff slug_char_def char_class_defs)
  with slug_text [OF s] show ?thesis by (simp add: bounded_text_def text_ok_def utf8_length_ascii)
qed

lemma optional_governed_ok [normal_form]: "optional_governed v l n = Inr t \<Longrightarrow> opt_ok (bounded_text n) t"
  by (auto simp: optional_governed_def opt_ok_def intro: governed_text_text split: if_splits)

lemma optional_governed_id [normalised]:
  "opt_ok (bounded_text n) t \<Longrightarrow> optional_governed (case t of None \<Rightarrow> JUndef | Some x \<Rightarrow> JStr x) l n = Inr t"
  by (cases t) (auto simp: optional_governed_def opt_ok_def governed_text_id, simp add: bounded_text_def)

lemma optionalText_ok [normal_form]: "optionalText v l n = Inr t \<Longrightarrow> utf8_length t \<le> n"
  by (auto simp: optionalText_def split: if_splits jsval.splits)

lemma optionalText_id [normalised]: "utf8_length t \<le> n \<Longrightarrow> optionalText (JStr t) l n = Inr t"
  by (simp add: optionalText_def)

definition unique_list :: "nat \<Rightarrow> string list \<Rightarrow> bool" where
  "unique_list n xs \<longleftrightarrow> length xs \<le> n \<and> distinct xs \<and> (\<forall>x\<in>set xs. bounded_text 240 x)"

lemma mapR_all: "mapR f xs = Inr ys \<Longrightarrow> (\<And>x y. f x = Inr y \<Longrightarrow> P y) \<Longrightarrow> \<forall>y\<in>set ys. P y"
  using mapR_set by metis

lemma mapR_id: "(\<And>x. x \<in> set xs \<Longrightarrow> f (g x) = Inr x) \<Longrightarrow> mapR f (map g xs) = Inr xs"
  by (induction xs) auto

lemma unique_texts_ok [normal_form]: "unique_texts v l n = Inr xs \<Longrightarrow> unique_list n xs"
  by (auto simp: unique_texts_def unique_list_def dest: mapR_length mapR_all [where P = "bounded_text 240"] governed_text_text
      split: jsval.splits if_splits)

lemma unique_texts_id [normalised]: "unique_list n xs \<Longrightarrow> unique_texts (js_strings xs) l n = Inr xs"
  by (simp add: unique_texts_def unique_list_def js_strings_def mapR_id governed_text_id)

subsection \<open>Personas\<close>

definition actor_policy_ok :: "persona_kind \<Rightarrow> actor_policy \<Rightarrow> bool" where
  "actor_policy_ok kind p \<longleftrightarrow> (kind = Profile \<longrightarrow> am_mode p = Invoker) \<and>
     (if am_mode p = Invoker then am_service p = None else (\<exists>k. am_service p = Some k \<and> bounded_text 200 k))"

lemma normalizeActorPolicy_ok [normal_form]: "normalizeActorPolicy kind v = Inr p \<Longrightarrow> actor_policy_ok kind p"
  by (auto simp: normalizeActorPolicy_def actor_policy_ok_def split: option.splits if_splits intro: governed_text_text)

lemma normalizeActorPolicy_id [normalised]: "actor_policy_ok kind p \<Longrightarrow> normalizeActorPolicy kind (js_actor_policy p) = Inr p"
  by (cases p) (auto simp: normalizeActorPolicy_def actor_policy_ok_def js_actor_policy_def get_JObj js_opt_def governed_text_id)

definition binding_ok :: "persona_binding \<Rightarrow> bool" where
  "binding_ok b \<longleftrightarrow> bd_surface b \<in> {''slack'', ''web'', ''api''} \<and> opt_ok (bounded_text 100) (bd_workspace b) \<and>
     opt_ok (bounded_text 100) (bd_channel b) \<and> (bd_surface b = ''slack'' \<longrightarrow> bd_workspace b \<noteq> None \<and> bd_channel b \<noteq> None)"

lemma optional_governed_Some: "optional_governed v l n = Inr t \<Longrightarrow> truthy v \<Longrightarrow> \<exists>x. t = Some x"
  by (auto simp: optional_governed_def split: if_splits)

lemma normalizeBinding_ok: "normalizeBinding v = Inr b \<Longrightarrow> binding_ok b"
  by (auto simp: normalizeBinding_def binding_ok_def split: jsval.splits if_splits dest: optional_governed_ok optional_governed_Some)

lemma get_js_binding:
  "get (js_binding b) ''surface'' = JStr (bd_surface b)"
  "get (js_binding b) ''workspaceId'' = (case bd_workspace b of None \<Rightarrow> JUndef | Some x \<Rightarrow> JStr x)"
  "get (js_binding b) ''channelId'' = (case bd_channel b of None \<Rightarrow> JUndef | Some x \<Rightarrow> JStr x)"
  by (auto simp: js_binding_def get_JObj js_opt_def split: option.splits)

lemma bounded_not_empty: "bounded_text n t \<Longrightarrow> t \<noteq> []"
  by (simp add: bounded_text_def)

lemma normalizeBinding_id: "binding_ok b \<Longrightarrow> normalizeBinding (js_binding b) = Inr b"
  by (cases b; cases "bd_workspace b"; cases "bd_channel b")
    (auto simp: normalizeBinding_def binding_ok_def get_js_binding optional_governed_def opt_ok_def governed_text_id dest: bounded_not_empty)

definition context_ok :: "published_context \<Rightarrow> bool" where
  "context_ok c \<longleftrightarrow> bounded_text 120 (pc_label c) \<and> bounded_text 2000 (pc_text c) \<and>
     opt_ok (\<lambda>u. bounded_text 500 u \<and> prefix_of ''https://'' u) (pc_url c)"

lemma normalizeContext_ok:
  assumes "normalizeContext v = Inr c"
  shows "context_ok c"
proof -
  obtain url label body where "optional_governed (get v ''url'') ''published context URL'' 500 = Inr url"
    and "\<not> (case url of Some u \<Rightarrow> \<not> prefix_of ''https://'' u | None \<Rightarrow> False)"
    and "governed_text (get v ''label'') ''published context label'' 120 = Inr label"
    and "governed_text (get v ''value'') ''published context value'' 2000 = Inr body"
    and "c = \<lparr>pc_label = label, pc_text = body, pc_url = url\<rparr>"
    using assms by (auto simp: normalizeContext_def)
  then show ?thesis using optional_governed_ok [of _ _ 500 url] governed_text_text
    by (cases url) (auto simp: context_ok_def opt_ok_def)
qed

lemma get_js_context:
  "get (js_context c) ''label'' = JStr (pc_label c)" "get (js_context c) ''value'' = JStr (pc_text c)"
  "get (js_context c) ''url'' = (case pc_url c of None \<Rightarrow> JUndef | Some x \<Rightarrow> JStr x)"
  by (auto simp: js_context_def get_JObj js_opt_def split: option.splits)

lemma normalizeContext_id: "context_ok c \<Longrightarrow> normalizeContext (js_context c) = Inr c"
  by (cases c; cases "pc_url c")
    (auto simp: normalizeContext_def context_ok_def get_js_context optional_governed_def opt_ok_def governed_text_id refuse_if_def
      dest: bounded_not_empty)

lemma listed_ok: "listed l f v = Inr xs \<Longrightarrow> (\<And>x y. f x = Inr y \<Longrightarrow> P y) \<Longrightarrow> length xs \<le> 50 \<and> (\<forall>x\<in>set xs. P x)"
  by (auto simp: listed_def split: jsval.splits if_splits dest: mapR_length) (metis mapR_all)+

lemma listed_id: "length xs \<le> 50 \<Longrightarrow> (\<And>x. x \<in> set xs \<Longrightarrow> f (g x) = Inr x) \<Longrightarrow> listed l f (JArr (map g xs)) = Inr xs"
  by (simp add: listed_def mapR_id)

lemma normalizeBindings_ok: "normalizeBindings v = Inr bs \<Longrightarrow> length bs \<le> 50 \<and> (\<forall>b\<in>set bs. binding_ok b)"
  unfolding normalizeBindings_def by (erule listed_ok) (rule normalizeBinding_ok)

lemma normalizePublishedContext_ok: "normalizePublishedContext v = Inr cs \<Longrightarrow> length cs \<le> 50 \<and> (\<forall>c\<in>set cs. context_ok c)"
  unfolding normalizePublishedContext_def by (erule listed_ok) (rule normalizeContext_ok)

lemma mapR_units: "mapR f xs = Inr ys \<Longrightarrow> \<forall>x\<in>set xs. \<exists>y. f x = Inr y"
  by (induction xs arbitrary: ys) auto

lemma mapR_total: "\<forall>x\<in>set xs. \<exists>y. f x = Inr y \<Longrightarrow> \<exists>ys. mapR f xs = Inr ys"
  by (induction xs) auto

definition capabilities_ok :: "string list \<Rightarrow> bool" where
  "capabilities_ok xs \<longleftrightarrow> unique_list 100 xs \<and> (\<forall>x\<in>set xs. \<exists>c. capabilityById x = Inr c)"

lemma capability_ids_ok [normal_form]: "capability_ids v = Inr xs \<Longrightarrow> capabilities_ok xs"
  by (auto simp: capability_ids_def capabilities_ok_def dest: unique_texts_ok mapR_units)

lemma capability_ids_id [normalised]: "capabilities_ok xs \<Longrightarrow> capability_ids (js_strings xs) = Inr xs"
  using mapR_total [of xs capabilityById]
  by (auto simp: capability_ids_def capabilities_ok_def unique_texts_id js_strings_def [symmetric] coalesce_def nullish_def)
    (auto simp: js_strings_def)

definition instructions_ok :: "persona_instructions \<Rightarrow> bool" where
  "instructions_ok i \<longleftrightarrow> utf8_length (pi_identity i) \<le> 16384 \<and> utf8_length (pi_soul i) \<le> 16384 \<and> utf8_length (pi_agents i) \<le> 32768"

lemma normalizeInstructions_ok [normal_form]: "normalizeInstructions v = Inr i \<Longrightarrow> instructions_ok i"
  by (auto simp: normalizeInstructions_def instructions_ok_def dest: optionalText_ok)

lemma normalizeInstructions_id [normalised]: "instructions_ok i \<Longrightarrow> normalizeInstructions (js_instructions i) = Inr i"
  by (simp add: normalizeInstructions_def instructions_ok_def js_instructions_def get_JObj optionalText_id)

definition persona_wf :: "persona_record \<Rightarrow> bool" where
  "persona_wf p \<longleftrightarrow> bounded_text 80 (pe_name p) \<and> slugPattern (pe_slug p) \<and> actor_policy_ok (pe_kind p) (pe_policy p) \<and>
     bounded_text 200 (pe_owner p) \<and> bounded_text 200 (pe_claw p) \<and>
     length (pe_bindings p) \<le> 50 \<and> (\<forall>b\<in>set (pe_bindings p). binding_ok b) \<and>
     capabilities_ok (pe_capabilities p) \<and> unique_list 100 (pe_skills p) \<and> instructions_ok (pe_instructions p) \<and>
     length (pe_context p) \<le> 50 \<and> (\<forall>c\<in>set (pe_context p). context_ok c) \<and> \<not> nullish (pe_enabled p)"

lemma persona_slug_ok: "persona_slug v name = Inr s \<Longrightarrow> slugPattern s"
  by (auto simp: persona_slug_def)

lemma persona_slug_id: "slugPattern s \<Longrightarrow> persona_slug (JStr s) name = Inr s"
  by (simp add: persona_slug_def governed_text_id slug_bounded refuse_if_def) (simp add: slugPattern_def)

lemma created_persona:
  assumes "createPersonaRecord input uid now = Inr p"
  shows "persona_wf p" "pe_id p = uid" "pe_revision p = 1" "pe_enabled p = JBool True"
    "pe_created p = now" "pe_updated p = now"
proof -
  show "persona_wf p"
    using assms
    by (auto simp: createPersonaRecord_def persona_wf_def nullish_def
        split: option.splits dest!: governed_text_text persona_slug_ok normalizeActorPolicy_ok capability_ids_ok unique_texts_ok
        normalizeInstructions_ok normalizeBindings_ok normalizePublishedContext_ok)
qed (use assms in \<open>auto simp: createPersonaRecord_def split: option.splits\<close>)

lemma recreate_persona:
  assumes "persona_wf p"
  shows "createPersonaRecord (persona_input p (JObj [])) uid now =
    Inr (p\<lparr>pe_id := uid, pe_revision := 1, pe_enabled := JBool True, pe_created := now, pe_updated := now\<rparr>)"
proof -
  have c: "coalesce (js_strings xs) v = js_strings xs" for xs v by (simp add: js_strings_def)
  have b: "normalizeBindings (JArr (map js_binding (pe_bindings p))) = Inr (pe_bindings p)"
    unfolding normalizeBindings_def using assms by (intro listed_id normalizeBinding_id) (auto simp: persona_wf_def)
  have x: "normalizePublishedContext (JArr (map js_context (pe_context p))) = Inr (pe_context p)"
    unfolding normalizePublishedContext_def using assms by (intro listed_id normalizeContext_id) (auto simp: persona_wf_def)
  have s: "spread (js_actor_policy q) JUndef = js_actor_policy q" "spread (js_instructions i) JUndef = js_instructions i" for q i
    by (simp_all add: js_actor_policy_def js_instructions_def)
  show ?thesis using assms
    by (simp add: createPersonaRecord_def persona_input_def get_JObj persona_wf_def governed_text_id persona_slug_id s b x c
        normalizeActorPolicy_id capability_ids_id unique_texts_id normalizeInstructions_id)
qed

lemma updated_persona:
  assumes "updatePersonaRecord p input now = Inr q" "persona_wf p"
  shows "persona_wf q \<and> pe_id q = pe_id p \<and> pe_claw q = pe_claw p \<and> pe_created q = pe_created p \<and>
    (q = p \<or> pe_revision q = pe_revision p + 1)"
proof -
  obtain r where r: "createPersonaRecord (persona_input p input) (pe_id p) now = Inr r"
    using assms(1) by (auto simp: updatePersonaRecord_def split: if_splits)
  have claw: "pe_claw r = pe_claw p"
    using r assms(2) by (auto simp: createPersonaRecord_def persona_input_def get_JObj persona_wf_def governed_text_id split: option.splits)
  have e: "\<not> nullish (coalesce (get input ''enabled'') (pe_enabled p))"
    using assms(2) by (simp add: coalesce_def persona_wf_def)
  show ?thesis using assms r claw e created_persona [OF r]
    by (auto simp: updatePersonaRecord_def Let_def persona_wf_def split: if_splits)
qed

text \<open>
  An update without changes returns the stored persona itself, not a new revision; every update keeps
  the persona well formed, keeps its id, claw and creation time, and moves its revision by one when it changes
  anything.
\<close>

theorem persona_update:
  assumes "persona_wf p"
  shows "updatePersonaRecord p (JObj []) now = Inr p \<and>
    (\<forall>input q. updatePersonaRecord p input now = Inr q \<longrightarrow> persona_wf q \<and> pe_id q = pe_id p \<and> pe_claw q = pe_claw p \<and>
       pe_created q = pe_created p \<and> (q = p \<or> pe_revision q = pe_revision p + 1))"
proof (intro conjI allI impI)
  show "updatePersonaRecord p (JObj []) now = Inr p"
    using recreate_persona [OF assms, of "pe_id p" now] by (simp add: updatePersonaRecord_def nullish_def)
qed (use updated_persona [OF _ assms] in blast)+

definition demo_persona_create :: "persona_record result" where
  "demo_persona_create = createPersonaRecord (JObj [(''name'', JStr '' Release Helper ''), (''kind'', JStr ''shared''),
     (''ownerPrincipalId'', JStr ''p-1''), (''clawId'', JStr ''c-1''), (''capabilityIds'', js_strings [''github.issue.comment'']),
     (''actorPolicy'', JObj [(''mode'', JStr ''invoker-with-service-fallback''), (''servicePrincipalId'', JStr ''bot'')]),
     (''bindings'', JArr [JObj [(''surface'', JStr ''slack''), (''workspaceId'', JStr ''T1''), (''channelId'', JStr ''C1'')]])]) ''pe-1'' 7"

definition demo_persona :: persona_record where
  "demo_persona = projr demo_persona_create"

lemma demo_persona: "demo_persona_create = Inr demo_persona"
proof -
  have "case demo_persona_create of Inl _ \<Rightarrow> False | Inr _ \<Rightarrow> True" by code_simp
  from evaluated_Inr [OF this] show ?thesis unfolding demo_persona_def by blast
qed

lemma demo_persona_wf: "persona_wf demo_persona"
  using created_persona(1) [OF demo_persona [unfolded demo_persona_create_def]] .

theorem persona_update_witness: "updatePersonaRecord demo_persona (JObj []) 9 = Inr demo_persona"
  using persona_update [OF demo_persona_wf] by blast

subsection \<open>Who acts\<close>

lemma findConnection_Some:
  "findConnection connections who cap = Some c \<Longrightarrow> c \<in> set connections \<and> oc_active c \<and> oc_principal c = who \<and>
     oc_provider c = cap_provider cap \<and> set (cap_scopes cap) \<subseteq> set (oc_scopes c)"
  by (auto simp: findConnection_def find_Some_iff)

text \<open>
  C27. An invocation acts with authority that was given: the persona is enabled and allowed the capability; the
  connection is an active one of the acting principal, for the capability's provider and with all its scopes; the
  actor is the requester or the service account the persona names, never the latter for a profile or in the
  mode "invoker"; and the fallback is used exactly when the requester has no such connection.
\<close>

theorem acting_is_authorised:
  assumes "resolveInvocationActor requester persona cap principals connections = Inr a"
  shows "truthy (pe_enabled persona) \<and> cap_id cap \<in> set (pe_capabilities persona) \<and> ra_mode a = am_mode (pe_policy persona) \<and>
    ra_connection a \<in> set connections \<and> oc_active (ra_connection a) \<and> oc_principal (ra_connection a) = gp_id (ra_actor a) \<and>
    oc_provider (ra_connection a) = cap_provider cap \<and> set (cap_scopes cap) \<subseteq> set (oc_scopes (ra_connection a)) \<and>
    (ra_actor a = requester \<or>
      ra_actor a \<in> set principals \<and> gp_kind (ra_actor a) = Service_account \<and> am_service (pe_policy persona) = Some (gp_id (ra_actor a)) \<and>
      pe_kind persona \<noteq> Profile \<and> am_mode (pe_policy persona) \<noteq> Invoker) \<and>
    (ra_fallback a \<longleftrightarrow> am_mode (pe_policy persona) = Invoker_or_service \<and> findConnection connections (gp_id requester) cap = None)"
proof (cases "am_mode (pe_policy persona)")
  case Invoker
  then show ?thesis using assms
    by (auto simp: resolveInvocationActor_def Let_def split: if_splits option.splits dest!: findConnection_Some)
next
  case As_service
  then show ?thesis using assms
    by (auto simp: resolveInvocationActor_def Let_def find_Some_iff split: if_splits option.splits dest!: findConnection_Some)
next
  case Invoker_or_service
  then show ?thesis using assms
    by (auto simp: resolveInvocationActor_def Let_def find_Some_iff split: if_splits option.splits dest: findConnection_Some)
      (use findConnection_Some in blast)+
qed

definition demo_bot :: principal_record where
  "demo_bot = (createSystemOperator 0)\<lparr>gp_id := ''bot'', gp_subject := ''bot'', gp_kind := Service_account\<rparr>"

definition demo_connection :: oauth_connection where
  "demo_connection = \<lparr>oc_id = ''oc-1'', oc_revision = 1, oc_principal = ''bot'', oc_provider = ''github'', oc_label = ''GitHub @bot'',
     oc_scopes = [''repo:read'', ''repo:write''], oc_vault = ''v'', oc_active = True, oc_created = 0, oc_updated = 0\<rparr>"

theorem acting_is_authorised_witness:
  "\<exists>a cap. capabilityById ''github.issue.comment'' = Inr cap \<and>
     resolveInvocationActor (createSystemOperator 0) demo_persona cap [demo_bot] [demo_connection] = Inr a \<and> ra_fallback a \<and>
     oc_principal (ra_connection a) = gp_id (ra_actor a)"
proof -
  let ?cap = "projr (capabilityById ''github.issue.comment'')"
  let ?r = "resolveInvocationActor (createSystemOperator 0) demo_persona ?cap [demo_bot] [demo_connection]"
  have "case capabilityById ''github.issue.comment'' of Inl _ \<Rightarrow> False | Inr _ \<Rightarrow> True" by code_simp
  from evaluated_Inr [OF this] have cap: "capabilityById ''github.issue.comment'' = Inr ?cap" by blast
  have "case ?r of Inl _ \<Rightarrow> False | Inr a \<Rightarrow> ra_fallback a" by code_simp
  from evaluated_Inr [OF this] have r: "?r = Inr (projr ?r)" "ra_fallback (projr ?r)" by blast+
  from acting_is_authorised [OF r(1)] r cap show ?thesis by blast
qed

subsection \<open>The digest of the arguments\<close>

lemma check_argument_same: "check_argument kv = Inr kv' \<Longrightarrow> kv' = kv \<and> scalar (snd kv)"
  by (auto simp: check_argument_def scalar_def Let_def split: prod.splits jsval.splits if_splits jsnum.splits)

lemma mapR_check: "mapR check_argument kvs = Inr kvs' \<Longrightarrow> kvs' = kvs \<and> (\<forall>p\<in>set kvs. scalar (snd p))"
  by (induction kvs arbitrary: kvs') (auto dest: check_argument_same)

lemma normal_arguments: "normalizeInvocationArguments v = Inr kvs \<Longrightarrow> v = JObj kvs \<and> (\<forall>p\<in>set kvs. scalar (snd p))"
  by (auto simp: normalizeInvocationArguments_def split: jsval.splits if_splits dest: mapR_check)

lemma sorted_by_key_unique:
  assumes "map_of xs = map_of ys" "distinct (map fst xs)" "distinct (map fst ys)"
  shows "sort_key (\<lambda>p. locale_key (fst p)) xs = sort_key (\<lambda>p. locale_key (fst p)) ys"
proof -
  let ?f = "\<lambda>p :: string \<times> 'a. locale_key (fst p)"
  have set: "set xs = set ys" using assms by (simp add: map_of_inject_set)
  have inj: "inj_on ?f (set xs)"
    using assms(2) by (auto simp: inj_on_def distinct_map dest!: locale_key_inj)
  have d: "distinct (map ?f (sort_key ?f zs))" if "set zs = set xs" "distinct (map fst zs)" for zs
    using that inj by (simp add: distinct_map)
  have "map ?f (sort_key ?f xs) = map ?f (sort_key ?f ys)"
    by (rule sorted_distinct_set_unique) (use d [of xs] d [of ys] set assms in simp_all)
  then show ?thesis using inj set by (intro map_inj_on [of ?f]) simp_all
qed

lemma canonical_scalars:
  assumes "json_data (JObj xs)" "json_data (JObj ys)" "\<forall>p\<in>set xs. scalar (snd p)" "\<forall>p\<in>set ys. scalar (snd p)"
  shows "sort_keys (JObj xs) = sort_keys (JObj ys) \<longleftrightarrow> map_of xs = map_of ys"
proof
  assume "sort_keys (JObj xs) = sort_keys (JObj ys)"
  then have "map_of (sort_key (\<lambda>p. locale_key (fst p)) xs) = map_of (sort_key (\<lambda>p. locale_key (fst p)) ys)"
    using assms(3,4) by (simp add: sort_keys_scalars del: sort_keys.simps)
  then show "map_of xs = map_of ys" using assms(1,2) by (simp add: map_of_sort_key)
next
  assume "map_of xs = map_of ys"
  then show "sort_keys (JObj xs) = sort_keys (JObj ys)"
    using assms sorted_by_key_unique [of xs ys] by (simp add: sort_keys_scalars del: sort_keys.simps)
qed


definition clean_text :: "jsval \<Rightarrow> string" where
  "clean_text v = (case v of JStr t \<Rightarrow> trim t | _ \<Rightarrow> [])"

lemma governed_clean: "governed_text v l n = Inr t \<Longrightarrow> t = clean_text v"
  by (auto simp: governed_text_def clean_text_def Let_def split: jsval.splits if_splits)

definition digest_object :: "string \<Rightarrow> string \<Rightarrow> (string \<times> jsval) list \<Rightarrow> jsval" where
  "digest_object cap target kvs = JObj [(''capabilityId'', JStr cap), (''target'', JStr target), (''arguments'', JObj kvs)]"

lemma digest_inputs:
  assumes "invocationArgumentsDigest lib cap target args = Inr d"
  shows "\<exists>kvs. args = JObj kvs \<and> (\<forall>p\<in>set kvs. scalar (snd p)) \<and>
    d = lib_sha256 lib (canonicalJson (digest_object (clean_text cap) (clean_text target) kvs))"
  using assms
  by (auto simp: invocationArgumentsDigest_def normalizeGithubTarget_def digest_object_def
      dest!: governed_clean normal_arguments)

lemma digest_object_eq:
  assumes "json_data (JObj xs)" "json_data (JObj ys)" "\<forall>p\<in>set xs. scalar (snd p)" "\<forall>p\<in>set ys. scalar (snd p)"
  shows "canonicalJson (digest_object c t xs) = canonicalJson (digest_object c' t' ys) \<longleftrightarrow>
    c = c' \<and> t = t' \<and> map_of xs = map_of ys"
proof -
  have plain: "json_data (digest_object c t xs)" "json_data (digest_object c' t' ys)"
    using assms(1,2) by (simp_all add: digest_object_def)
  have keys: "map_of (Json.fields (sort_keys (digest_object c t zs))) k =
      map_of [(''capabilityId'', JStr c), (''target'', JStr t), (''arguments'', sort_keys (JObj zs))] k" for c t zs k
    by (simp add: digest_object_def Json.fields_def map_of_sort_key del: sort_keys.simps(2) add: sort_keys.simps(2) [of "[_, _, _]"])
  have "sort_keys (digest_object c t xs) = sort_keys (digest_object c' t' ys) \<longleftrightarrow>
      c = c' \<and> t = t' \<and> sort_keys (JObj xs) = sort_keys (JObj ys)"
  proof
    assume e: "sort_keys (digest_object c t xs) = sort_keys (digest_object c' t' ys)"
    show "c = c' \<and> t = t' \<and> sort_keys (JObj xs) = sort_keys (JObj ys)"
      using keys [of c t xs "''capabilityId''"] keys [of c' t' ys "''capabilityId''"] keys [of c t xs "''target''"]
        keys [of c' t' ys "''target''"] keys [of c t xs "''arguments''"] keys [of c' t' ys "''arguments''"] e
      by (simp del: sort_keys.simps)
  qed (simp add: digest_object_def)
  moreover have "canonicalJson (digest_object c t xs) = canonicalJson (digest_object c' t' ys) \<longleftrightarrow>
      sort_keys (digest_object c t xs) = sort_keys (digest_object c' t' ys)"
    using canonicalJson_inj [OF json_data_plain [OF plain(1)] json_data_plain [OF plain(2)]] by (auto simp: canonicalJson_def)
  ultimately show ?thesis using canonical_scalars [OF assms] by simp
qed

text \<open>
  C28. What a confirmation and a grant are bound to: with a collision-free SHA-256 the digests of two invocations
  agree exactly when they are for the same capability and target (up to surrounding space) and the same arguments,
  in whatever order these were given.
\<close>

theorem argument_digest_binds:
  assumes "inj (lib_sha256 lib)" "json_data args" "json_data args'"
    and "invocationArgumentsDigest lib cap target args = Inr d" "invocationArgumentsDigest lib cap' target' args' = Inr d'"
  shows "d = d' \<longleftrightarrow> clean_text cap = clean_text cap' \<and> clean_text target = clean_text target' \<and>
    map_of (Json.fields args) = map_of (Json.fields args')"
proof -
  obtain xs where x: "args = JObj xs" "\<forall>p\<in>set xs. scalar (snd p)"
    "d = lib_sha256 lib (canonicalJson (digest_object (clean_text cap) (clean_text target) xs))" using digest_inputs [OF assms(4)] by blast
  obtain ys where y: "args' = JObj ys" "\<forall>p\<in>set ys. scalar (snd p)"
    "d' = lib_sha256 lib (canonicalJson (digest_object (clean_text cap') (clean_text target') ys))" using digest_inputs [OF assms(5)] by blast
  show ?thesis using digest_object_eq [of xs ys] assms(1-3) x y by (simp add: inj_eq Json.fields_def)
qed

theorem argument_digest_binds_witness:
  "\<exists>d d'. invocationArgumentsDigest demo_lib (JStr ''github.issue.comment'') (JStr '' openclaw/crabhelm '')
       (JObj [(''issueNumber'', jint 7), (''body'', JStr ''hi'')]) = Inr d \<and>
     invocationArgumentsDigest demo_lib (JStr ''github.issue.comment'') (JStr ''openclaw/crabhelm'')
       (JObj [(''body'', JStr ''hi''), (''issueNumber'', jint 8)]) = Inr d' \<and> d \<noteq> d'"
proof -
  let ?cap = "JStr ''github.issue.comment''" and ?t = "JStr '' openclaw/crabhelm ''" and ?u = "JStr ''openclaw/crabhelm''"
  let ?x = "JObj [(''issueNumber'', jint 7), (''body'', JStr ''hi'')]" and ?y = "JObj [(''body'', JStr ''hi''), (''issueNumber'', jint 8)]"
  have "case invocationArgumentsDigest demo_lib ?cap ?t ?x of Inl _ \<Rightarrow> False | Inr _ \<Rightarrow> True"
    "case invocationArgumentsDigest demo_lib ?cap ?u ?y of Inl _ \<Rightarrow> False | Inr _ \<Rightarrow> True" by code_simp+
  from this [THEN evaluated_Inr] obtain d d' where d: "invocationArgumentsDigest demo_lib ?cap ?t ?x = Inr d"
    "invocationArgumentsDigest demo_lib ?cap ?u ?y = Inr d'" by blast
  have "json_data ?x" "json_data ?y" using decimal_of_int [of 7] decimal_of_int [of 8] by (simp_all add: jint_def)
  moreover have "inj (lib_sha256 demo_lib)" by (simp add: demo_lib_def)
  moreover have "map_of (Json.fields ?x) ''issueNumber'' \<noteq> map_of (Json.fields ?y) ''issueNumber''" by (simp add: Json.fields_def jint_def)
  ultimately show ?thesis using argument_digest_binds [OF _ _ _ d] d by metis
qed

subsection \<open>Skills\<close>

definition safe_path :: "string \<Rightarrow> bool" where
  "safe_path p \<longleftrightarrow> bounded_text 240 p \<and> skillPathPattern p \<and> \<not> prefix_of ''.'' p \<and> \<not> contains_text p ''..''"

definition files_size :: "skill_file list \<Rightarrow> nat" where
  "files_size files = sum_list (map (\<lambda>f. utf8_length (sf_content f)) files)"

lemma skill_files_ok:
  "skill_files lib seen n vs = Inr (files, m) \<Longrightarrow> length files = length vs \<and> m = n + files_size files \<and>
     distinct (map sf_path files) \<and> set (map sf_path files) \<inter> set seen = {} \<and>
     (\<forall>f\<in>set files. safe_path (sf_path f) \<and> utf8_length (sf_content f) \<le> 65536 \<and> sf_sha f = lib_sha256 lib (sf_content f))"
proof (induction vs arbitrary: seen n files m)
  case (Cons v vs)
  then show ?case
    by (fastforce simp: files_size_def Let_def safe_path_def split: if_splits prod.splits dest: governed_text_text)
qed (simp add: files_size_def)

lemma js_skill_file_inj: "js_skill_file f = js_skill_file g \<Longrightarrow> f = g"
  by (cases f; cases g) (simp add: js_skill_file_def)

lemma sorted_skill_file: "sort_keys (js_skill_file f) = sort_keys (js_skill_file g) \<Longrightarrow> f = g"
proof -
  assume e: "sort_keys (js_skill_file f) = sort_keys (js_skill_file g)"
  have k: "get (sort_keys (js_skill_file h)) ''path'' = JStr (sf_path h)" "get (sort_keys (js_skill_file h)) ''content'' = JStr (sf_content h)"
    "get (sort_keys (js_skill_file h)) ''sha256'' = JStr (sf_sha h)" for h
    unfolding js_skill_file_def by (subst get_sort_keys; simp add: get_JObj)+
  have "sf_path f = sf_path g" "sf_content f = sf_content g" "sf_sha f = sf_sha g"
    using k [of f] k [of g] unfolding e by simp_all
  then show ?thesis by simp
qed

text \<open>the text a bundle of skill files is hashed as\<close>

definition files_text :: "skill_file list \<Rightarrow> string" where
  "files_text fs = canonicalJson (JArr (map js_skill_file fs))"

lemma files_digest_inj:
  assumes h: "lib_sha256 lib (files_text fs) = lib_sha256 lib (files_text gs) \<Longrightarrow> files_text fs = files_text gs"
    and d: "files_digest lib fs = files_digest lib gs"
  shows "fs = gs"
proof -
  have p: "plain_json (JArr (map js_skill_file hs))" for hs by (simp add: js_skill_file_def)
  have "canonicalJson (JArr (map js_skill_file fs)) = canonicalJson (JArr (map js_skill_file gs))"
    using h d by (simp add: files_digest_def files_text_def)
  from canonicalJson_inj [OF p p this] have "map (sort_keys \<circ> js_skill_file) fs = map (sort_keys \<circ> js_skill_file) gs" by simp
  moreover have "inj (sort_keys \<circ> js_skill_file)" using sorted_skill_file by (auto intro: injI)
  ultimately show ?thesis by (simp add: inj_map_eq_map)
qed

text \<open>
  C29. A skill that creation accepts is a bounded bundle: 1 to 50 files with distinct paths that neither start
  with a dot or a slash nor contain two dots in a row, each at most 64 KiB and together at most 256 KiB, SKILL.md
  among them, stored as a draft; and unless the hash collides on the two bundles, no other bundle has its digest,
  so an approval is for exactly these files.
\<close>

theorem skill_is_bounded:
  assumes "createSkillRecord lib input by uid now = Inr r"
  shows "1 \<le> length (sk_files r) \<and> length (sk_files r) \<le> 50 \<and> distinct (map sf_path (sk_files r)) \<and>
    ''SKILL.md'' \<in> sf_path ` set (sk_files r) \<and> files_size (sk_files r) \<le> 262144 \<and> sk_status r = Draft \<and> slugPattern (sk_slug r) \<and>
    (\<forall>f\<in>set (sk_files r). safe_path (sf_path f) \<and> hd (sf_path f) \<notin> {CHR ''.'', CHR ''/''} \<and> utf8_length (sf_content f) \<le> 65536) \<and>
    (\<forall>fs. (lib_sha256 lib (files_text fs) = lib_sha256 lib (files_text (sk_files r)) \<longrightarrow> files_text fs = files_text (sk_files r)) \<longrightarrow>
       sk_digest r = files_digest lib fs \<longrightarrow> fs = sk_files r)"
proof -
  have hd: "hd p \<notin> {CHR ''.'', CHR ''/''}" if "safe_path p" for p
    using that by (cases p) (auto simp: safe_path_def prefix_of_def skillPathPattern_def bounded_text_def)
  obtain name slug where slug: "skill_slug (get input ''slug'') name = Inr slug"
    and rest: "(case get input ''files'' of
       JArr vs \<Rightarrow>
         if vs = [] \<or> 50 < length vs then Inl (refused ''skill files must contain between 1 and 50 files'')
         else bindR (skill_files lib [] 0 vs) (\<lambda>(files, total).
           bindR (refuse_if (262144 < total) (refused ''skill files exceed 256 KiB total'')) (\<lambda>_.
           bindR (refuse_if (''SKILL.md'' \<notin> sf_path ` set files) (refused ''skill requires SKILL.md'')) (\<lambda>_.
           bindR (optionalText (get input ''description'') ''skill description'' 240) (\<lambda>description.
           bindR (departments_of (get input ''departments'')) (\<lambda>departments.
           bindR (governed_text (JStr by) ''skill creator'' 200) (\<lambda>creator.
           Inr \<lparr>sk_id = uid, sk_revision = 1, sk_name = name, sk_slug = slug, sk_description = description, sk_version = 1,
                sk_status = Draft, sk_departments = departments, sk_files = files, sk_digest = files_digest lib files,
                sk_by = creator, sk_approver = None, sk_created = now, sk_updated = now\<rparr>))))))
     | _ \<Rightarrow> Inl (refused ''skill files must contain between 1 and 50 files'')) = Inr r"
    using assms unfolding createSkillRecord_def bindR_eq_Inr by blast
  then obtain vs files m where f: "get input ''files'' = JArr vs" "vs \<noteq> []" "length vs \<le> 50" "skill_files lib [] 0 vs = Inr (files, m)"
    "m \<le> 262144" "''SKILL.md'' \<in> sf_path ` set files" and r: "sk_files r = files" "sk_digest r = files_digest lib files"
    "sk_status r = Draft" "sk_slug r = slug"
    by (cases "get input ''files''") (auto split: if_splits prod.splits)
  have s: "slugPattern (sk_slug r)" using slug r(4) by (auto simp: skill_slug_def)
  note ok = skill_files_ok [OF f(4)]
  have "1 \<le> length (sk_files r)" "length (sk_files r) \<le> 50" using ok f(2,3) r(1) by (simp_all add: Suc_le_eq)
  moreover have "distinct (map sf_path (sk_files r))" "files_size (sk_files r) \<le> 262144" using ok f(5) r(1) by simp_all
  moreover have "\<forall>f\<in>set (sk_files r). safe_path (sf_path f) \<and> hd (sf_path f) \<notin> {CHR ''.'', CHR ''/''} \<and> utf8_length (sf_content f) \<le> 65536"
    using ok r(1) hd by blast
  moreover have "(lib_sha256 lib (files_text fs) = lib_sha256 lib (files_text (sk_files r)) \<longrightarrow> files_text fs = files_text (sk_files r)) \<longrightarrow>
      sk_digest r = files_digest lib fs \<longrightarrow> fs = sk_files r" for fs
    using files_digest_inj [of lib fs files] r(1,2) by auto
  ultimately show ?thesis using f(6) r(1,3) s by (intro conjI allI) simp_all
qed

theorem skill_is_bounded_witness:
  "\<exists>r. createSkillRecord demo_lib (JObj [(''name'', JStr ''Triage''), (''files'', JArr [JObj [(''path'', JStr ''SKILL.md''),
       (''content'', JStr ''# Triage'')]])]) ''p-1'' ''sk-1'' 3 = Inr r \<and> length (sk_files r) \<le> 50 \<and>
     (\<forall>fs. sk_digest r = files_digest demo_lib fs \<longleftrightarrow> fs = sk_files r)"
proof -
  let ?i = "JObj [(''name'', JStr ''Triage''), (''files'', JArr [JObj [(''path'', JStr ''SKILL.md''), (''content'', JStr ''# Triage'')]])]"
  let ?r = "createSkillRecord demo_lib ?i ''p-1'' ''sk-1'' 3"
  have "case ?r of Inl _ \<Rightarrow> False | Inr r \<Rightarrow> sk_digest r = files_digest demo_lib (sk_files r)" by code_simp
  from evaluated_Inr [OF this]
  have r: "?r = Inr (projr ?r)" and d: "sk_digest (projr ?r) = files_digest demo_lib (sk_files (projr ?r))" by blast+
  note ok = skill_is_bounded [OF r]
  have "length (sk_files (projr ?r)) \<le> 50" using ok by (elim conjE)
  moreover have "fs = sk_files (projr ?r)" if "sk_digest (projr ?r) = files_digest demo_lib fs" for fs
    using ok that by (simp add: demo_lib_def)
  ultimately show ?thesis using r d by (intro exI [of _ "projr ?r"] conjI) metis+
qed

end
