(* ===== verification/Governance_Changes.thy ===== *)
theory Governance_Changes
  imports Governance_Registry Governance_Rules
begin

text \<open>
  What an operation of the governance registry may do to its stores: a sequence of changes
  (\<open>gov_change\<close>), each with the condition under which the code makes it. Every operation is shown to make
  only such changes, once, and the properties of theory \<open>Governance_Safety\<close> are proved of the changes.
\<close>

subsection \<open>Writes\<close>

lemma kept_put:
  assumes "sql_register (keeping n) k v now t = Inr t'" "table_wf t"
  shows "mem_lookup k' t' = (if k' = k then Some v else mem_lookup k' t)" "table_wf t'"
proof -
  have e: "\<not> evict_oldest (keeping n)" by (simp add: keeping_def)
  show "table_wf t'" by (rule sql_register_wf [OF assms(2,1)])
  show "mem_lookup k' t' = (if k' = k then Some v else mem_lookup k' t)"
    using sql_register_same [OF assms(1)] sql.register_no_loss [OF assms(2) e assms(1), of k'] by simp
qed

lemma evicting_put:
  assumes "sql_register opts k v now t = Inr t'" "table_wf t"
  shows "mem_lookup k t' = Some v" "k' \<noteq> k \<Longrightarrow> mem_lookup k' t' = mem_lookup k' t \<or> mem_lookup k' t' = None" "table_wf t'"
  using sql_register_same [OF assms(1)] sql_register_other [OF assms(1)] sql_register_wf assms by auto

lemma put_in_Inr: "put_in sel upd opts k v now s = (Inr u, t) \<longleftrightarrow> (\<exists>tb. sql_register opts k v now (sel s) = Inr tb \<and> t = upd (\<lambda>_. tb) s)"
  by (auto simp: put_in_def split: sum.splits)

lemma look_in_Inr: "look_in sel k s = (Inr x, t) \<longleftrightarrow> t = s \<and> requireKey k = Inr () \<and> x = mem_lookup k (sel s)"
  by (auto simp: look_in_def sql_lookup_def mem_lookup_def)

lemma require_in_Inr: "require_in sel m k s = (Inr x, t) \<longleftrightarrow> t = s \<and> requireKey k = Inr () \<and> mem_lookup k (sel s) = Some x"
  by (auto simp: require_in_def bindC_ok look_in_Inr split: option.splits)

lemma new_uuid_Inr: "new_uuid cfg s = (Inr x, t) \<longleftrightarrow> x = gc_uuid cfg (gv_uuids s) \<and> t = s\<lparr>gv_uuids := Suc (gv_uuids s)\<rparr>"
  by (auto simp: new_uuid_def)

lemma refuseC_Inr: "refuseC b e s = (Inr u, t) \<longleftrightarrow> \<not> b \<and> t = s"
  by auto

lemma gov_values_iff: "table_wf (sel s) \<Longrightarrow> v \<in> set (gov_values sel s) \<longleftrightarrow> (\<exists>k. mem_lookup k (sel s) = Some v)"
  by (auto simp: gov_values_def sql_entries_def mem_find_iff)

text \<open>What an event leaves alone.\<close>

definition only_events :: "gov \<Rightarrow> gov \<Rightarrow> bool" where
  "only_events s t \<longleftrightarrow> (\<exists>e n. gv_uuids s \<le> n \<and> t = s\<lparr>gv_events := e, gv_uuids := n\<rparr>)"

lemma only_eventsI: "gv_uuids s \<le> n \<Longrightarrow> only_events s (s\<lparr>gv_uuids := n, gv_events := e\<rparr>)"
  unfolding only_events_def by (intro exI [of _ e] exI [of _ n]) simp

lemma gov_audit_events:
  assumes "gov_audit cfg e c now s = (Inr x, t)"
  shows "only_events s t"
  using assms
  by (cases c) (auto simp: gov_audit_def bindC_ok thenC_ok Let_def new_uuid_Inr put_in_Inr intro!: only_eventsI)

lemma serialized_Inr: "gov_serialize cfg m s = (Inr x, t) \<longleftrightarrow> m s = (Inr x, t)"
  by (auto simp: gov_serialize_def split: prod.splits sum.splits)

lemma serialized_Inl:
  "gc_transaction cfg \<Longrightarrow> gov_serialize cfg m s = (Inl e, t) \<Longrightarrow> \<exists>u. m s = (Inl e, u) \<and> t = s\<lparr>gv_uuids := gv_uuids u\<rparr>"
  by (auto simp: gov_serialize_def split: prod.splits sum.splits)

subsection \<open>Names only grow\<close>

lemma grows_stores:
  assumes "\<And>f s. gv_uuids (upd f s) = gv_uuids s"
  shows "preserves (\<lambda>s. n \<le> gv_uuids s) (put_in sel upd opts k v now)"
  using assms by (auto simp: preserves_def put_in_def split: sum.splits)

lemma grows_basic [preserves_rules]:
  "preserves P (look_in sel k)" "preserves P (require_in sel m k)"
  "preserves (\<lambda>s. n \<le> gv_uuids s) (new_uuid cfg)"
  by (auto simp: preserves_def look_in_def require_in_def bindC_def new_uuid_def split: prod.splits sum.splits option.splits)

lemma grows_put [preserves_rules]:
  "preserves (\<lambda>s. n \<le> gv_uuids s) (put_in gv_principals gv_principals_update opts k p now)"
  "preserves (\<lambda>s. n \<le> gv_uuids s) (put_in gv_personas gv_personas_update opts k q now)"
  "preserves (\<lambda>s. n \<le> gv_uuids s) (put_in gv_skills gv_skills_update opts k r now)"
  "preserves (\<lambda>s. n \<le> gv_uuids s) (put_in gv_connections gv_connections_update opts k c now)"
  "preserves (\<lambda>s. n \<le> gv_uuids s) (put_in gv_states gv_states_update opts k x now)"
  "preserves (\<lambda>s. n \<le> gv_uuids s) (put_in gv_confirmations gv_confirmations_update opts k y now)"
  "preserves (\<lambda>s. n \<le> gv_uuids s) (put_in gv_invocations gv_invocations_update opts k i now)"
  "preserves (\<lambda>s. n \<le> gv_uuids s) (put_in gv_events gv_events_update opts k e now)"
  by (intro grows_stores; simp)+

lemma grows_let [preserves_rules]: "preserves P (f x) \<Longrightarrow> preserves P (let y = x in f y)"
  by (simp add: Let_def)

lemma grows_audit [preserves_rules]: "preserves (\<lambda>s. n \<le> gv_uuids s) (gov_audit cfg e c now)"
  unfolding gov_audit_def by (intro preserves_rules)

lemma grown: "(\<And>n. preserves (\<lambda>s. n \<le> gv_uuids s) m) \<Longrightarrow> m s = (x, t) \<Longrightarrow> gv_uuids s \<le> gv_uuids t"
  using preservesD [of "\<lambda>u. gv_uuids s \<le> gv_uuids u"] by blast

subsection \<open>Changes\<close>

definition owned :: "gov \<Rightarrow> persona_record \<Rightarrow> bool" where
  \<comment> \<open>the owner was looked up, by the text of a request or as a principal just found or made\<close>
  "owned s p \<longleftrightarrow> (\<exists>k. mem_lookup k (gv_principals s) \<noteq> None \<and> (pe_owner p = k \<or> pe_owner p = trim k)) \<or>
     (\<exists>q\<in>set (gov_values gv_principals s). pe_owner p = trim (gp_id q))"

definition backed :: "gov \<Rightarrow> persona_record \<Rightarrow> bool" where
  "backed s p \<longleftrightarrow> (\<forall>k. am_service (pe_policy p) = Some k \<longrightarrow> (\<exists>q. mem_lookup k (gv_principals s) = Some q \<and> gp_kind q = Service_account)) \<and>
     (\<forall>k\<in>set (pe_skills p). \<exists>r. mem_lookup k (gv_skills s) = Some r \<and> sk_status r = Approved_skill)"

definition supported :: "gov \<Rightarrow> persona_record \<Rightarrow> bool" where
  "supported s p \<longleftrightarrow> owned s p \<and> backed s p"

inductive gov_change :: "governance_config \<Rightarrow> gov \<Rightarrow> gov \<Rightarrow> bool" for cfg where
  aside: "gv_uuids s \<le> n \<Longrightarrow> gov_change cfg s (s\<lparr>gv_uuids := n, gv_connections := c, gv_states := x, gv_events := e\<rparr>)"
| operator: "mem_lookup SYSTEM_OPERATOR_PRINCIPAL_ID (gv_principals s) = None \<Longrightarrow>
    sql_register (keeping 10000) SYSTEM_OPERATOR_PRINCIPAL_ID (createSystemOperator now) now (gv_principals s) = Inr tb \<Longrightarrow>
    gov_change cfg s (s\<lparr>gv_principals := tb\<rparr>)"
| principal_new: "gp_id p = gc_uuid cfg (gv_uuids s) \<Longrightarrow> \<forall>q\<in>set (gov_values gv_principals s). gp_subject q \<noteq> gp_subject p \<Longrightarrow>
    sql_register (keeping 10000) (gp_id p) p now (gv_principals s) = Inr tb \<Longrightarrow>
    gov_change cfg s (s\<lparr>gv_uuids := Suc (gv_uuids s), gv_principals := tb\<rparr>)"
| principal_again: "q \<in> set (gov_values gv_principals s) \<Longrightarrow> gp_id p = gp_id q \<Longrightarrow> gp_subject p = gp_subject q \<Longrightarrow> gp_kind p = gp_kind q \<Longrightarrow>
    sql_register (keeping 10000) (gp_id q) p now (gv_principals s) = Inr tb \<Longrightarrow>
    gov_change cfg s (s\<lparr>gv_principals := tb\<rparr>)"
| persona_new: "pe_id p = gc_uuid cfg (gv_uuids s) \<Longrightarrow> persona_wf p \<Longrightarrow> supported s p \<Longrightarrow>
    sql_register (keeping 10000) (pe_id p) p now (gv_personas s) = Inr tb \<Longrightarrow>
    gov_change cfg s (s\<lparr>gv_uuids := Suc (gv_uuids s), gv_personas := tb\<rparr>)"
| persona_again: "mem_lookup k (gv_personas s) = Some q \<Longrightarrow> pe_id q = pe_id p \<Longrightarrow> persona_wf q \<longrightarrow> persona_wf p \<Longrightarrow> supported s p \<Longrightarrow>
    sql_register (keeping 10000) k p now (gv_personas s) = Inr tb \<Longrightarrow>
    gov_change cfg s (s\<lparr>gv_personas := tb\<rparr>)"
| skill_new: "sk_id r = gc_uuid cfg (gv_uuids s) \<Longrightarrow> sk_status r = Draft \<Longrightarrow>
    \<forall>q\<in>set (gov_values gv_skills s). sk_slug q \<noteq> sk_slug r \<Longrightarrow>
    sql_register (keeping 10000) (sk_id r) r now (gv_skills s) = Inr tb \<Longrightarrow>
    gov_change cfg s (s\<lparr>gv_uuids := Suc (gv_uuids s), gv_skills := tb\<rparr>)"
| skill_approved: "mem_lookup k (gv_skills s) = Some q \<Longrightarrow> approveSkillRecord q who now = Inr r \<Longrightarrow>
    sql_register (keeping 10000) k r now (gv_skills s) = Inr tb \<Longrightarrow>
    gov_change cfg s (s\<lparr>gv_skills := tb\<rparr>)"
| confirmation_new: "cf_id c = gc_uuid cfg (gv_uuids s) \<Longrightarrow> cf_status c = Pending \<Longrightarrow>
    sql_register (evicting 50000) (cf_id c) c now (gv_confirmations s) = Inr tb \<Longrightarrow>
    gov_change cfg s (s\<lparr>gv_uuids := Suc (gv_uuids s), gv_confirmations := tb\<rparr>)"
| confirmation_decided: "mem_lookup k (gv_confirmations s) = Some c \<Longrightarrow> cf_status c = Pending \<Longrightarrow> st = Approved \<or> st = Denied \<Longrightarrow>
    now < cf_expires c \<Longrightarrow> sql_register (evicting 50000) k (c\<lparr>cf_status := st, cf_decided := Some now\<rparr>) now (gv_confirmations s) = Inr tb \<Longrightarrow>
    gov_change cfg s (s\<lparr>gv_confirmations := tb\<rparr>)"
| confirmation_used: "mem_lookup k (gv_confirmations s) = Some c \<Longrightarrow> cf_status c = Approved \<Longrightarrow> now < cf_expires c \<Longrightarrow>
    sql_register (evicting 50000) k (c\<lparr>cf_status := Used\<rparr>) now (gv_confirmations s) = Inr tb \<Longrightarrow>
    gov_change cfg s (s\<lparr>gv_confirmations := tb\<rparr>)"
| invocation_new: "iv_id i = gc_uuid cfg (gv_uuids s) \<Longrightarrow> iv_status i = Issued \<Longrightarrow>
    sql_register (evicting 50000) (iv_id i) i now (gv_invocations s) = Inr tb \<Longrightarrow>
    gov_change cfg s (s\<lparr>gv_uuids := Suc (gv_uuids s), gv_invocations := tb\<rparr>)"
| invocation_moved: "mem_lookup k (gv_invocations s) = Some i \<Longrightarrow> invocation_open (iv_status i) \<Longrightarrow>
    sql_register (evicting 50000) k (i\<lparr>iv_status := st, iv_completed := fin\<rparr>) now (gv_invocations s) = Inr tb \<Longrightarrow>
    gov_change cfg s (s\<lparr>gv_invocations := tb\<rparr>)"

abbreviation gov_changes :: "governance_config \<Rightarrow> gov \<Rightarrow> gov \<Rightarrow> bool" where
  "gov_changes cfg \<equiv> (gov_change cfg)\<^sup>*\<^sup>*"

lemma aside_uuids: "gv_uuids s \<le> n \<Longrightarrow> gov_changes cfg s (s\<lparr>gv_uuids := n\<rparr>)"
  using aside [where s = s and n = n and c = "gv_connections s" and x = "gv_states s" and e = "gv_events s"] by auto

lemma aside_events:
  assumes "only_events s t"
  shows "gov_changes cfg s t"
proof -
  obtain e n where t: "gv_uuids s \<le> n" "t = s\<lparr>gv_events := e, gv_uuids := n\<rparr>" using assms by (auto simp: only_events_def)
  have "s\<lparr>gv_uuids := n, gv_connections := gv_connections s, gv_states := gv_states s, gv_events := e\<rparr> = t" using t(2) by simp
  then show ?thesis using aside [OF t(1), where c = "gv_connections s" and x = "gv_states s" and e = e, of cfg] by auto
qed

lemma aside_connections: "gov_changes cfg s (s\<lparr>gv_connections := c\<rparr>)"
  using aside [where s = s and n = "gv_uuids s" and c = c and x = "gv_states s" and e = "gv_events s"] by auto

lemma aside_states: "gov_changes cfg s (s\<lparr>gv_states := x\<rparr>)"
  using aside [where s = s and n = "gv_uuids s" and c = "gv_connections s" and x = x and e = "gv_events s"] by auto

text \<open>A serialised operation makes the changes of its success, or none.\<close>

definition makes :: "governance_config \<Rightarrow> 'a govc \<Rightarrow> bool" where
  "makes cfg m \<longleftrightarrow> (\<forall>s x t. m s = (x, t) \<longrightarrow> gov_changes cfg s t)"

lemma makes_serialized:
  assumes "gc_transaction cfg" "\<And>n. preserves (\<lambda>s. n \<le> gv_uuids s) m"
    and "\<And>s x t. m s = (Inr x, t) \<Longrightarrow> gov_changes cfg s t"
  shows "makes cfg (gov_serialize cfg m)"
  unfolding makes_def
proof (intro allI impI)
  fix s x t assume r: "gov_serialize cfg m s = (x, t)"
  show "gov_changes cfg s t"
  proof (cases x)
    case (Inl e)
    then obtain u where u: "m s = (Inl e, u)" "t = s\<lparr>gv_uuids := gv_uuids u\<rparr>" using serialized_Inl [OF assms(1)] r by blast
    then show ?thesis using aside_uuids [OF grown [OF assms(2) u(1)]] by simp
  next
    case (Inr a)
    then show ?thesis using r assms(3) by (simp add: serialized_Inr)
  qed
qed

end
