(* ===== verification/Governance_Steps.thy ===== *)
theory Governance_Steps
  imports Governance_Changes
begin

text \<open>
  Every operation of src/governance-registry.ts makes only the changes of theory \<open>Governance_Changes\<close>
  (\<open>makes cfg op\<close>): what the operation looked up before it wrote is the condition of the change it makes.
\<close>

subsection \<open>What holds after a success\<close>

definition after :: "('s, 'a) comp \<Rightarrow> 's \<Rightarrow> ('a \<Rightarrow> 's \<Rightarrow> bool) \<Rightarrow> bool" where
  "after m s Q \<longleftrightarrow> (\<forall>x t. m s = (Inr x, t) \<longrightarrow> Q x t)"

named_theorems after_simps \<open>what a computation that succeeds leads to\<close>

lemma afterD: "after m s Q \<Longrightarrow> m s = (Inr x, t) \<Longrightarrow> Q x t"
  by (simp add: after_def)

lemma after_basic [after_simps]:
  "after (retC a) s Q \<longleftrightarrow> Q a s"
  "after (throwC e) s Q"
  "after (getC f) s Q \<longleftrightarrow> Q (f s) s"
  "after (liftR r) s Q \<longleftrightarrow> (\<forall>a. r = Inr a \<longrightarrow> Q a s)"
  "after (if b then m else k) s Q \<longleftrightarrow> (if b then after m s Q else after k s Q)"
  by (auto simp: after_def)

lemma after_unit [after_simps]:
  "after (modC g) s Q \<longleftrightarrow> Q () (g s)"
  "after (refuseC b e) s Q \<longleftrightarrow> (\<not> b \<longrightarrow> Q () s)"
  by (auto simp: after_def)

lemma after_bind [after_simps]:
  "after (bindC m f) s Q \<longleftrightarrow> after m s (\<lambda>a u. after (f a) u Q)"
  "after (thenC m k) s Q \<longleftrightarrow> after m s (\<lambda>a u. after k u Q)"
  by (auto simp: after_def comp_ok)

lemma after_option [after_simps]:
  "after (case x of None \<Rightarrow> m | Some a \<Rightarrow> h a) s Q \<longleftrightarrow> (x = None \<longrightarrow> after m s Q) \<and> (\<forall>a. x = Some a \<longrightarrow> after (h a) s Q)"
  by (cases x) auto

lemma after_stores [after_simps]:
  "after (new_uuid cfg) s Q \<longleftrightarrow> Q (gc_uuid cfg (gv_uuids s)) (s\<lparr>gv_uuids := Suc (gv_uuids s)\<rparr>)"
  "after (put_in sel upd opts k v now) s Q' \<longleftrightarrow> (\<forall>tb. sql_register opts k v now (sel s) = Inr tb \<longrightarrow> Q' () (upd (\<lambda>_. tb) s))"
  "after (look_in sel k) s R \<longleftrightarrow> (requireKey k = Inr () \<longrightarrow> R (mem_lookup k (sel s)) s)"
  "after (require_in sel m k) s R' \<longleftrightarrow> (\<forall>v. requireKey k = Inr () \<longrightarrow> mem_lookup k (sel s) = Some v \<longrightarrow> R' v s)"
  by (auto simp: after_def new_uuid_Inr put_in_Inr look_in_Inr require_in_Inr)

lemma after_named [after_simps]:
  "requirePrincipal k = require_in gv_principals ''principal not found'' k"
  "requirePersona k = require_in gv_personas ''persona not found'' k"
  "requireConnection k = require_in gv_connections ''connection not found'' k"
  "requireConfirmation k = require_in gv_confirmations ''confirmation not found'' k"
  "put_principal p now = put_in gv_principals gv_principals_update (keeping 10000) (gp_id p) p now"
  "put_persona q now = put_in gv_personas gv_personas_update (keeping 10000) (pe_id q) q now"
  "put_skill r now = put_in gv_skills gv_skills_update (keeping 10000) (sk_id r) r now"
  "put_connection c now = put_in gv_connections gv_connections_update (keeping 20000) (oc_id c) c now"
  "put_state x now = put_in gv_states gv_states_update (evicting 10000) (os_id x) x now"
  "put_confirmation f now = put_in gv_confirmations gv_confirmations_update (evicting 50000) (cf_id f) f now"
  "put_invocation i now = put_in gv_invocations gv_invocations_update (evicting 50000) (iv_id i) i now"
  by (simp_all add: requirePrincipal_def requirePersona_def requireConnection_def requireConfirmation_def put_principal_def
      put_persona_def put_skill_def put_connection_def put_state_def put_confirmation_def put_invocation_def)

lemma gov_values_other [after_simps]:
  "gov_values gv_principals (s\<lparr>gv_uuids := n\<rparr>) = gov_values gv_principals s"
  "gov_values gv_personas (s\<lparr>gv_uuids := n\<rparr>) = gov_values gv_personas s"
  "gov_values gv_skills (s\<lparr>gv_uuids := n\<rparr>) = gov_values gv_skills s"
  "owned (s\<lparr>gv_uuids := n\<rparr>) p = owned s p"
  "backed (s\<lparr>gv_uuids := n\<rparr>) p = backed s p"
  by (simp_all add: gov_values_def owned_def backed_def)

text \<open>An event after the changes so far is one more change.\<close>

lemma after_audit:
  assumes "gov_changes cfg r s"
    and "\<And>e c u. only_events s u \<Longrightarrow> gov_changes cfg r u \<Longrightarrow> Q e u"
  shows "after (gov_audit cfg event corr now) s Q"
  unfolding after_def
proof (intro allI impI)
  fix x t assume "gov_audit cfg event corr now s = (Inr x, t)"
  then have "only_events s t" by (rule gov_audit_events)
  then show "Q x t" using assms aside_events [of s t cfg] by (meson rtranclp_trans)
qed

lemma after_audit_step: "gov_change cfg r s \<Longrightarrow> after (gov_audit cfg event corr now) s (\<lambda>e u. gov_changes cfg r u)"
  by (rule after_audit) auto

lemma makes_after:
  assumes "gc_transaction cfg" "\<And>n. preserves (\<lambda>s. n \<le> gv_uuids s) m"
    and "\<And>s. after m s (\<lambda>x t. gov_changes cfg s t)"
  shows "makes cfg (gov_serialize cfg m)"
  using assms by (intro makes_serialized) (auto simp: after_def)

subsection \<open>Principals\<close>

lemma operator_id: "gp_id (createSystemOperator now) = SYSTEM_OPERATOR_PRINCIPAL_ID"
  by (simp add: createSystemOperator_def)

lemma operator_key: "requireKey SYSTEM_OPERATOR_PRINCIPAL_ID = Inr ()"
  by code_simp

lemma operator_change:
  assumes "find_entry SYSTEM_OPERATOR_PRINCIPAL_ID (gv_principals s) = None"
    "sql_register (keeping 10000) SYSTEM_OPERATOR_PRINCIPAL_ID (createSystemOperator now) now (gv_principals s) = Inr tb"
  shows "gov_change cfg s (s\<lparr>gv_principals := tb\<rparr>)"
  by (rule gov_change.operator [OF _ assms(2)]) (simp add: assms(1) mem_lookup_def)


lemma created_principal:
  assumes "createPrincipalRecord input uid now = Inr p"
  shows "gp_id p = uid" 
  using assms by (auto simp: createPrincipalRecord_def Let_def)

lemma makes_createPrincipal: "gc_transaction cfg \<Longrightarrow> makes cfg (createPrincipal cfg input actor now)"
  unfolding createPrincipal_def put_principal_def
  by (rule makes_after, assumption, intro preserves_rules)
    (auto simp: after_simps dest: created_principal intro!: after_audit_step principal_new)

lemma refreshed_same: "gp_id (refreshed p q now) = gp_id p" "gp_subject (refreshed p q now) = gp_subject p" "gp_kind (refreshed p q now) = gp_kind p"
  by (simp_all add: refreshed_def Let_def)

lemma skip_uuid:
  assumes "gov_change cfg (s\<lparr>gv_uuids := Suc (gv_uuids s)\<rparr>) t"
  shows "gov_changes cfg s t"
  using rtranclp.rtrancl_into_rtrancl [OF aside_uuids assms] by simp

lemma refreshed_change:
  assumes "find P (gov_values gv_principals s) = Some q" "sql_register (keeping 10000) (gp_id q) (refreshed q c now) now (gv_principals s) = Inr tb"
  shows "gov_change cfg s (s\<lparr>gv_principals := tb\<rparr>)"
proof -
  have "q \<in> set (gov_values gv_principals s)" using assms(1) by (auto simp: find_Some_iff)
  then show ?thesis by (rule principal_again [OF _ _ _ _ assms(2)]) (simp_all add: refreshed_same)
qed

lemma refreshed_later:
  assumes "find P (gov_values gv_principals s) = Some q" "sql_register (keeping 10000) (gp_id q) (refreshed q c now) now (gv_principals s) = Inr tb"
  shows "gov_changes cfg s (s\<lparr>gv_uuids := Suc (gv_uuids s), gv_principals := tb\<rparr>)"
  by (rule skip_uuid, rule refreshed_change [where P = P and c = c and now = now]) (use assms in \<open>simp_all add: after_simps\<close>)

lemma makes_ensureExternalPrincipal: "gc_transaction cfg \<Longrightarrow> makes cfg (ensureExternalPrincipal cfg input now)"
  unfolding ensureExternalPrincipal_def put_principal_def
  by (rule makes_after, assumption, intro preserves_rules)
    (auto simp: after_simps Let_def find_None_iff dest: created_principal
      intro!: after_audit_step principal_new intro: refreshed_later)

lemma ensureSystem_result:
  assumes "ensureSystem now s = (x, t)"
  shows "gov_changes cfg s t \<and> gv_uuids t = gv_uuids s"
proof -
  from assms consider "t = s"
    | tb where "find_entry SYSTEM_OPERATOR_PRINCIPAL_ID (gv_principals s) = None" "t = s\<lparr>gv_principals := tb\<rparr>"
        "sql_register (keeping 10000) SYSTEM_OPERATOR_PRINCIPAL_ID (createSystemOperator now) now (gv_principals s) = Inr tb"
    by (cases "find_entry SYSTEM_OPERATOR_PRINCIPAL_ID (gv_principals s)";
        cases "sql_register (keeping 10000) SYSTEM_OPERATOR_PRINCIPAL_ID (createSystemOperator now) now (gv_principals s)")
      (auto simp: ensureSystem_def comp_simps Let_def look_in_def sql_lookup_def operator_key put_principal_def put_in_def operator_id)
  then show ?thesis by cases (auto intro: r_into_rtranclp operator_change)
qed

lemma makes_ensureSystem: "makes cfg (ensureSystem now)"
  unfolding makes_def by (intro allI impI conjunct1 [OF ensureSystem_result])

lemma after_ensureSystem:
  assumes "\<And>x t. gov_changes cfg s t \<Longrightarrow> Q x t"
  shows "after (ensureSystem now) s Q"
  unfolding after_def
proof (intro allI impI)
  fix x t assume "ensureSystem now s = (Inr x, t)"
  then show "Q x t" using assms conjunct1 [OF ensureSystem_result] by metis
qed

subsection \<open>Personas\<close>

lemma after_service:
  "(\<And>v. gp_kind v = Service_account \<Longrightarrow> mem_lookup k (gv_principals s) = Some v \<Longrightarrow> Q () s) \<Longrightarrow>
   after (bindC (requirePrincipal k) (\<lambda>service. refuseC (gp_kind service \<noteq> Service_account) e)) s Q"
  by (auto simp: after_simps)

lemma after_skills:
  assumes "\<forall>k\<in>set ks. \<exists>r. mem_lookup k (gv_skills s) = Some r \<and> sk_status r = Approved_skill \<Longrightarrow> Q () s"
  shows "after (forC (\<lambda>k. bindC (look_in gv_skills k) (\<lambda>skill.
       refuseC (case skill of None \<Rightarrow> True | Some r \<Rightarrow> sk_status r \<noteq> Approved_skill) (e k))) ks) s Q"
  using assms by (induction ks) (auto simp: after_simps split: option.splits)

lemma after_validate: "(backed s p \<Longrightarrow> Q () s) \<Longrightarrow> after (validatePersona p) s Q"
  unfolding validatePersona_def
  by (cases "am_service (pe_policy p)") (auto simp: after_simps backed_def intro!: after_skills)

lemma preserves_validate [preserves_rules]: "preserves P (validatePersona p)"
  unfolding validatePersona_def requirePrincipal_def by (intro preserves_rules)

lemma preserves_owner [preserves_rules]: "preserves P (requireOwner v)"
  unfolding requireOwner_def requirePrincipal_def by (cases v) (auto intro!: preserves_rules)

lemma preserves_require [preserves_rules]:
  "preserves P (requirePrincipal k)" "preserves P (requirePersona k)" "preserves P (requireConnection k)" "preserves P (requireConfirmation k)"
  by (simp_all add: after_named preserves_rules)

lemma after_owner: "(\<And>k p. v = JStr k \<Longrightarrow> mem_lookup k (gv_principals s) = Some p \<Longrightarrow> Q p s) \<Longrightarrow> after (requireOwner v) s Q"
  by (cases v) (auto simp: requireOwner_def after_simps)

lemma created_persona_owner: "createPersonaRecord input uid now = Inr p \<Longrightarrow> pe_owner p = clean_text (get input ''ownerPrincipalId'')"
  by (auto simp: createPersonaRecord_def split: option.splits dest!: governed_clean)

lemma created_owned:
  "createPersonaRecord input uid now = Inr p \<Longrightarrow> get input ''ownerPrincipalId'' = JStr k \<Longrightarrow> mem_lookup k (gv_principals s) = Some q \<Longrightarrow> owned s p"
  by (drule created_persona_owner) (auto simp: owned_def clean_text_def)

lemma persona_made:
  assumes "createPersonaRecord input (gc_uuid cfg (gv_uuids s)) now = Inr p" "owned s p" "backed s p"
    and "sql_register (keeping 10000) (pe_id p) p now (gv_personas s) = Inr tb"
  shows "gov_change cfg s (s\<lparr>gv_uuids := Suc (gv_uuids s), gv_personas := tb\<rparr>)"
  by (rule persona_new [OF created_persona(2,1) [OF assms(1)] _ assms(4)]) (simp add: supported_def assms(2,3))

lemma makes_createPersona: "gc_transaction cfg \<Longrightarrow> makes cfg (createPersona cfg input actor now)"
  unfolding createPersona_def put_persona_def
  by (rule makes_after, assumption, intro preserves_rules)
    (auto simp: after_simps intro!: after_owner after_validate after_audit_step intro: persona_made created_owned)

lemma updated_same:
  assumes "updatePersonaRecord r input now = Inr q"
  shows "pe_id r = pe_id q" "persona_wf r \<longrightarrow> persona_wf q"
proof -
  obtain c where "createPersonaRecord (persona_input r input) (pe_id r) now = Inr c" "q = r \<or> pe_id q = pe_id c"
    using assms by (auto simp: updatePersonaRecord_def Let_def split: if_splits)
  then show "pe_id r = pe_id q" using created_persona(2) by metis
  show "persona_wf r \<longrightarrow> persona_wf q" using updated_persona [OF assms] by simp
qed

lemma persona_remade:
  assumes "mem_lookup k (gv_personas s) = Some p" "updatePersonaRecord p input now = Inr q" "mem_lookup (pe_owner q) (gv_principals s) = Some o'"
    and "backed s q" "sql_register (keeping 10000) k q now (gv_personas s) = Inr tb"
  shows "gov_change cfg s (s\<lparr>gv_personas := tb\<rparr>)"
  using assms updated_same [OF assms(2)] by (intro persona_again [OF assms(1) _ _ _ assms(5)]) (auto simp: supported_def owned_def)

lemma makes_updatePersona: "gc_transaction cfg \<Longrightarrow> makes cfg (updatePersona cfg k input actor now)"
  unfolding updatePersona_def
  by (rule makes_after, assumption, intro preserves_rules)
    (auto simp: after_simps intro!: after_validate after_audit_step intro: persona_remade)


lemma after_found_or_made:
  assumes subject: "trim (o_subject owner) = o_subject owner"
    and Q: "\<And>p t. gov_changes cfg s t \<Longrightarrow> (\<exists>q\<in>set (gov_values gv_principals t). p = q) \<or> mem_lookup (gp_id p) (gv_principals t) \<noteq> None \<Longrightarrow> Q p t"
  shows "after (ensureOwner cfg owner now) s Q"
  unfolding ensureOwner_def after_simps
proof (intro conjI allI impI)
  fix p assume "find (\<lambda>p. gp_subject p = o_subject owner) (gov_values gv_principals s) = Some p"
  then show "Q p s" by (intro Q) (auto simp: find_Some_iff)
next
  fix p tb
  assume none: "find (\<lambda>p. gp_subject p = o_subject owner) (gov_values gv_principals s) = None"
    and p: "createPrincipalRecord (js_owner owner) (gc_uuid cfg (gv_uuids s)) now = Inr p"
    and r: "sql_register (keeping 10000) (gp_id p) p now (gv_principals (s\<lparr>gv_uuids := Suc (gv_uuids s)\<rparr>)) = Inr tb"
  have "gp_subject p = clean_text (get (js_owner owner) ''subject'')"
    using p by (auto simp: createPrincipalRecord_def Let_def dest!: governed_clean)
  then have "gp_subject p = o_subject owner" using subject by (simp add: clean_text_def js_owner_def get_JObj)
  then have "gov_change cfg s (s\<lparr>gv_uuids := Suc (gv_uuids s), gv_principals := tb\<rparr>)"
    using none p r by (intro principal_new) (auto simp: find_None_iff dest: created_principal)
  then show "Q p (gv_principals_update (\<lambda>_. tb) (s\<lparr>gv_uuids := Suc (gv_uuids s)\<rparr>))"
    using sql_register_same [OF r] by (intro Q) auto
qed

lemma later_audited:
  "gov_changes cfg r s \<Longrightarrow> gov_change cfg s t \<Longrightarrow> after (gov_audit cfg event corr now) t (\<lambda>e u. gov_changes cfg r u)"
  by (rule after_audit) auto

lemma bootstrap_owned:
  assumes "createPersonaRecord (bootstrap_input claw (gp_id o')) uid now = Inr p"
    and "(\<exists>q\<in>set (gov_values gv_principals s). o' = q) \<or> mem_lookup (gp_id o') (gv_principals s) \<noteq> None"
  shows "owned s p"
  using created_persona_owner [OF assms(1)] assms(2) by (auto simp: bootstrap_input_def get_JObj clean_text_def owned_def)

lemma bootstrap_backed:
  assumes "createPersonaRecord (bootstrap_input claw who) uid now = Inr p"
  shows "backed s p"
proof -
  have "am_service (pe_policy p) = None \<and> pe_skills p = []"
    using assms by (auto simp: createPersonaRecord_def bootstrap_input_def get_JObj kind_of_def normalizeActorPolicy_def mode_of_def unique_texts_def
        split: option.splits if_splits)
  then show ?thesis by (simp add: backed_def)
qed

lemma bootstrap_made:
  assumes "gov_changes cfg r s" "createPersonaRecord (bootstrap_input claw (gp_id o')) (gc_uuid cfg (gv_uuids s)) now = Inr p"
    and "(\<exists>q\<in>set (gov_values gv_principals s). o' = q) \<or> mem_lookup (gp_id o') (gv_principals s) \<noteq> None"
    and "sql_register (keeping 10000) (pe_id p) p now (gv_personas s) = Inr tb"
  shows "after (gov_audit cfg event corr now) (s\<lparr>gv_uuids := Suc (gv_uuids s), gv_personas := tb\<rparr>) (\<lambda>e u. gov_changes cfg r u)"
  by (rule later_audited [OF assms(1) persona_made [OF assms(2) bootstrap_owned [OF assms(2,3)] bootstrap_backed [OF assms(2)] assms(4)]])

lemma makes_ensurePersonaForClaw:
  assumes "gc_transaction cfg" "trim (o_subject (d_owner (c_desired claw))) = o_subject (d_owner (c_desired claw))"
  shows "makes cfg (ensurePersonaForClaw cfg claw now)"
  unfolding ensurePersonaForClaw_def
proof (rule makes_after [OF assms(1)], goal_cases)
  case (1 n)
  then show ?case unfolding ensureSystem_def ensureOwner_def put_principal_def put_persona_def by (intro preserves_rules)
next
  case (2 s)
  show ?case
    by (simp only: after_bind, intro after_ensureSystem after_found_or_made [OF assms(2)])
      (auto simp: after_simps intro!: bootstrap_made [OF rtranclp_trans])
qed

lemma makes_managedSpecForClaw:
  assumes "gc_transaction cfg" "trim (o_subject (d_owner (c_desired claw))) = o_subject (d_owner (c_desired claw))"
  shows "makes cfg (managedSpecForClaw cfg claw now)"
  using makes_ensurePersonaForClaw [OF assms]
  by (auto simp: makes_def managedSpecForClaw_def bindC_def requirePrincipal_def require_in_def look_in_def
      split: prod.splits sum.splits option.splits)

subsection \<open>Skills\<close>

lemma created_skill: "createSkillRecord lib input by uid now = Inr r \<Longrightarrow> sk_id r = uid \<and> sk_status r = Draft"
  by (cases "get input ''files''") (auto simp: createSkillRecord_def split: if_splits)

lemma makes_createSkill: "gc_transaction cfg \<Longrightarrow> makes cfg (createSkill cfg input actor now)"
  unfolding createSkill_def put_skill_def
  by (rule makes_after, assumption, intro preserves_rules)
    (auto simp: after_simps dest: created_skill intro!: after_audit_step intro: skill_new)

lemma makes_approveSkill: "gc_transaction cfg \<Longrightarrow> makes cfg (approveSkill cfg k actor now)"
  unfolding approveSkill_def
  by (rule makes_after, assumption, intro preserves_rules)
    (auto simp: after_simps intro!: after_audit_step intro: skill_approved)

subsection \<open>Connections and OAuth states\<close>

lemma aside_connection: "gov_change cfg s (s\<lparr>gv_connections := c\<rparr>)"
  using aside [where s = s and n = "gv_uuids s" and c = c and x = "gv_states s" and e = "gv_events s"] by auto

lemma makes_registerConnection: "gc_transaction cfg \<Longrightarrow> makes cfg (registerConnection cfg who provider label scopes vault actor cid now)"
  unfolding registerConnection_def put_connection_def Let_def
  by (rule makes_after, assumption, intro preserves_rules)
    (auto simp: after_simps intro!: after_audit_step aside_connection)

lemma makes_revokeConnection: "gc_transaction cfg \<Longrightarrow> makes cfg (revokeConnection cfg k actor now)"
  unfolding revokeConnection_def Let_def
  by (rule makes_after, assumption, intro preserves_rules)
    (auto simp: after_simps intro!: after_audit_step aside_connection)

lemma makes_consumeOAuthState: "gc_transaction cfg \<Longrightarrow> makes cfg (consumeOAuthState cfg k who now)"
  unfolding consumeOAuthState_def
  by (rule makes_after, assumption, intro preserves_rules)
    (auto simp: after_simps aside_states intro!: preserves_modC)


lemma run_stores:
  "put_in sel upd opts k v now s = (case sql_register opts k v now (sel s) of Inl e \<Rightarrow> (Inl e, s) | Inr t \<Rightarrow> (Inr (), upd (\<lambda>_. t) s))"
  "new_uuid cfg s = (Inr (gc_uuid cfg (gv_uuids s)), s\<lparr>gv_uuids := Suc (gv_uuids s)\<rparr>)"
  "look_in sel k s = (sql_lookup k (sel s), s)"
  "require_in sel m k s = (case sql_lookup k (sel s) of Inl e \<Rightarrow> (Inl e, s) | Inr None \<Rightarrow> (Inl (refused m), s) | Inr (Some x) \<Rightarrow> (Inr x, s))"
  by (auto simp: put_in_def new_uuid_def look_in_def require_in_def comp_simps split: sum.splits option.splits)

lemma one_change: "gov_change cfg s t \<Longrightarrow> gov_changes cfg s t"
  by (rule r_into_rtranclp)

text \<open>An operation that is not serialised fails before it writes.\<close>

lemma makes_open:
  assumes "\<And>s. after m s (\<lambda>x t. gov_changes cfg s t)"
    and "\<And>s e t. m s = (Inl e, t) \<Longrightarrow> t \<in> {s, s\<lparr>gv_uuids := Suc (gv_uuids s)\<rparr>, s\<lparr>gv_uuids := Suc (Suc (gv_uuids s))\<rparr>}"
  shows "makes cfg m"
  unfolding makes_def
proof (intro allI impI)
  fix s x t assume r: "m s = (x, t)"
  show "gov_changes cfg s t"
  proof (cases x)
    case (Inl e)
    then show ?thesis using assms(2) [of s e t] r aside_uuids [of s "Suc (gv_uuids s)"] aside_uuids [of s "Suc (Suc (gv_uuids s))"] by auto
  next
    case (Inr a)
    then show ?thesis using assms(1) r by (auto simp: after_def)
  qed
qed

lemma aside_state: "gov_change cfg s (s\<lparr>gv_uuids := Suc (gv_uuids s), gv_states := x\<rparr>)"
  using aside [where s = s and n = "Suc (gv_uuids s)" and c = "gv_connections s" and x = x and e = "gv_events s"] by auto

lemma makes_createOAuthState: "makes cfg (createOAuthState cfg who now)"
  unfolding createOAuthState_def Let_def
  by (rule makes_open)
    (auto simp: after_simps run_stores comp_simps intro!: one_change [OF aside_state]
      split: sum.splits option.splits prod.splits if_splits)

subsection \<open>Confirmations and invocations\<close>

lemma confirmation_made:
  "sql_register (evicting 50000) (gc_uuid cfg (gv_uuids s)) c now (gv_confirmations s) = Inr tb \<Longrightarrow>
   cf_id c = gc_uuid cfg (gv_uuids s) \<Longrightarrow> cf_status c = Pending \<Longrightarrow>
   gov_changes cfg s (s\<lparr>gv_uuids := Suc (gv_uuids s), gv_confirmations := tb\<rparr>)"
  by (rule one_change, rule confirmation_new) auto

lemma makes_createConfirmation: "makes cfg (createConfirmation cfg action summary expires now)"
  unfolding createConfirmation_def Let_def
  by (rule makes_open)
    (auto simp: after_simps run_stores comp_simps elim: confirmation_made split: sum.splits)

lemma decided_change:
  assumes "mem_lookup k (gv_confirmations s) = Some c" "cf_status c = Pending" "\<not> cf_expires c \<le> now"
    and "sql_register (evicting 50000) k (c\<lparr>cf_status := (if approve then Approved else Denied), cf_decided := Some now\<rparr>) now (gv_confirmations s) = Inr tb"
  shows "gov_change cfg s (s\<lparr>gv_confirmations := tb\<rparr>)"
  by (rule confirmation_decided [OF assms(1,2) _ _ assms(4)]) (use assms(3) in auto)

lemma makes_decideConfirmation: "gc_transaction cfg \<Longrightarrow> makes cfg (decideConfirmation cfg k requester approve now)"
  unfolding decideConfirmation_def Let_def
  by (rule makes_after, assumption, intro preserves_rules)
    (simp add: after_simps del: if_split, intro allI impI conjI after_audit_step, auto elim: decided_change)

lemma used_change:
  assumes "mem_lookup k (gv_confirmations s) = Some c" "cf_status c = Approved" "\<not> cf_expires c \<le> now"
    and "sql_register (evicting 50000) k (c\<lparr>cf_status := Used\<rparr>) now (gv_confirmations s) = Inr tb"
  shows "gov_changes cfg s (s\<lparr>gv_confirmations := tb\<rparr>)"
  by (rule one_change, rule confirmation_used [OF assms(1,2) _ assms(4)]) (use assms(3) in simp)

lemma makes_useConfirmation: "gc_transaction cfg \<Longrightarrow> makes cfg (useConfirmation cfg k action now)"
  unfolding useConfirmation_def Let_def
  by (rule makes_after, assumption, intro preserves_rules)
    (auto simp: after_simps intro: used_change)

text \<open>An invocation is saved under a name of its own: the caller draws the name before it builds the record.\<close>

definition saveNewInvocation :: "governance_config \<Rightarrow> invocation_record \<Rightarrow> int \<Rightarrow> invocation_record govc" where
  "saveNewInvocation cfg i now = bindC (new_uuid cfg) (\<lambda>uid. let j = i\<lparr>iv_id := uid, iv_status := Issued\<rparr> in thenC (saveInvocation j now) (retC j))"

lemma invocation_made:
  "sql_register (evicting 50000) (gc_uuid cfg (gv_uuids s)) i now (gv_invocations s) = Inr tb \<Longrightarrow>
   iv_id i = gc_uuid cfg (gv_uuids s) \<Longrightarrow> iv_status i = Issued \<Longrightarrow>
   gov_changes cfg s (s\<lparr>gv_uuids := Suc (gv_uuids s), gv_invocations := tb\<rparr>)"
  by (rule one_change, rule invocation_new) auto

lemma makes_saveNewInvocation: "makes cfg (saveNewInvocation cfg i now)"
  unfolding saveNewInvocation_def saveInvocation_def Let_def
  by (rule makes_open)
    (auto simp: after_simps run_stores comp_simps elim: invocation_made split: sum.splits)

lemma makes_updateInvocation: "gc_transaction cfg \<Longrightarrow> makes cfg (updateInvocation cfg k status completed now)"
  unfolding updateInvocation_def Let_def
  by (rule makes_after, assumption, intro preserves_rules)
    (auto simp: after_simps intro: one_change [OF invocation_moved])

lemma makes_gov_audit: "makes cfg (gov_audit cfg e c now)"
proof (rule makes_open)
  show "after (gov_audit cfg e c now) s (\<lambda>x t. gov_changes cfg s t)" for s by (rule after_audit) auto
  show "gov_audit cfg e c now s = (Inl x, t) \<Longrightarrow>
      t \<in> {s, s\<lparr>gv_uuids := Suc (gv_uuids s)\<rparr>, s\<lparr>gv_uuids := Suc (Suc (gv_uuids s))\<rparr>}" for s x t
    by (cases c) (auto simp: gov_audit_def comp_simps new_uuid_def Let_def put_in_def split: sum.splits)
qed

end
