(* ===== verification/Governance_Safety.thy ===== *)
theory Governance_Safety
  imports Governance_Steps
begin

text \<open>
  What the governance stores keep true whatever operations are run on them, in any order and with any input:
  the invariant \<open>gov_inv\<close>, the history of a record under its name (\<open>named_records\<close>, interpreted for every
  table), and the life of an approval.
\<close>

subsection \<open>Records under names that are given once\<close>

locale named_records =
  fixes inv :: "'s \<Rightarrow> bool"
    and step :: "'s \<Rightarrow> 's \<Rightarrow> bool"
    and find :: "'s \<Rightarrow> 'k \<Rightarrow> 'v option"
    and taken :: "'s \<Rightarrow> 'k \<Rightarrow> bool"
    and moves :: "'v \<Rightarrow> 'v \<Rightarrow> bool"
  assumes inv_step: "inv s \<Longrightarrow> step s t \<Longrightarrow> inv t"
    and found_taken: "inv s \<Longrightarrow> find s k = Some v \<Longrightarrow> taken s k"
    and taken_step: "step s t \<Longrightarrow> taken s k \<Longrightarrow> taken t k"
    and moved: "inv s \<Longrightarrow> step s t \<Longrightarrow> find s k = Some v \<Longrightarrow> find t k = Some w \<Longrightarrow> w = v \<or> moves v w"
    and not_revived: "inv s \<Longrightarrow> step s t \<Longrightarrow> taken s k \<Longrightarrow> find s k = None \<Longrightarrow> find t k = None"
begin

lemma inv_steps: "step\<^sup>*\<^sup>* s t \<Longrightarrow> inv s \<Longrightarrow> inv t"
  by (induction rule: rtranclp_induct) (auto intro: inv_step)

lemma taken_steps: "step\<^sup>*\<^sup>* s t \<Longrightarrow> taken s k \<Longrightarrow> taken t k"
  by (induction rule: rtranclp_induct) (auto intro: taken_step)

lemma gone_for_good: "step\<^sup>*\<^sup>* s t \<Longrightarrow> inv s \<Longrightarrow> taken s k \<Longrightarrow> find s k = None \<Longrightarrow> find t k = None"
  by (induction rule: rtranclp_induct) (auto intro: not_revived inv_steps taken_steps)

lemma history:
  assumes "step\<^sup>*\<^sup>* s t" "inv s" "find s k = Some v" "find t k = Some w"
  shows "moves\<^sup>*\<^sup>* v w"
  using assms
proof (induction arbitrary: w rule: rtranclp_induct)
  case (step t u)
  have i: "inv t" "taken t k"
    using inv_steps [OF step.hyps(1) step.prems(1)] taken_steps [OF step.hyps(1) found_taken [OF step.prems(1,2)]] by simp_all
  obtain x where x: "find t k = Some x" using not_revived [OF i(1) step.hyps(2) i(2)] step.prems(3) by (cases "find t k") auto
  then show ?case using step.IH [OF step.prems(1,2) x] moved [OF i(1) step.hyps(2) x step.prems(3)] by auto
qed simp

text \<open>A record in a state with no move out of it stays as it is while it is in the table.\<close>

lemma final: "step\<^sup>*\<^sup>* s t \<Longrightarrow> inv s \<Longrightarrow> find s k = Some v \<Longrightarrow> \<forall>w. \<not> moves v w \<Longrightarrow> find t k = None \<or> find t k = Some v"
  using history by (metis converse_rtranclpE not_Some_eq)

end

text \<open>A table that evicts nothing.\<close>

locale kept_records = named_records +
  assumes kept: "inv s \<Longrightarrow> step s t \<Longrightarrow> find s k = Some v \<Longrightarrow> find t k \<noteq> None"
begin

lemma kept_history:
  assumes "step\<^sup>*\<^sup>* s t" "inv s" "find s k = Some v"
  shows "\<exists>w. find t k = Some w \<and> moves\<^sup>*\<^sup>* v w"
  using assms
proof (induction rule: rtranclp_induct)
  case (step t u)
  then obtain x where x: "find t k = Some x" "moves\<^sup>*\<^sup>* v x" by auto
  have i: "inv t" using inv_steps step by blast
  obtain w where w: "find u k = Some w" using kept [OF i step.hyps(2) x(1)] by auto
  then show ?case using moved [OF i step.hyps(2) x(1) w] x(2) by auto
qed auto

end

subsection \<open>The invariant\<close>

definition gov_drawn :: "governance_config \<Rightarrow> nat \<Rightarrow> string \<Rightarrow> bool" where
  "gov_drawn cfg n k \<longleftrightarrow> (\<exists>m<n. k = gc_uuid cfg m)"

lemma gov_drawn_mono: "gov_drawn cfg m k \<Longrightarrow> m \<le> n \<Longrightarrow> gov_drawn cfg n k"
  unfolding gov_drawn_def using order.strict_trans2 by blast

lemma gov_drawn_Suc: "gov_drawn cfg n k \<Longrightarrow> gov_drawn cfg (Suc n) k"
  by (erule gov_drawn_mono) simp

lemma gov_drawn_now: "gov_drawn cfg (Suc n) (gc_uuid cfg n)"
  by (auto simp: gov_drawn_def)

text \<open>Names that do not repeat, are not the operator's, and have no blanks around them.\<close>

definition names_fit :: "governance_config \<Rightarrow> bool" where
  "names_fit cfg \<longleftrightarrow> inj (gc_uuid cfg) \<and> (\<forall>n. gc_uuid cfg n \<noteq> SYSTEM_OPERATOR_PRINCIPAL_ID \<and> trim (gc_uuid cfg n) = gc_uuid cfg n)"

lemma not_gov_drawn: "names_fit cfg \<Longrightarrow> \<not> gov_drawn cfg n (gc_uuid cfg n)"
  by (auto simp: names_fit_def gov_drawn_def dest: injD)

definition named_table :: "('v \<Rightarrow> string) \<Rightarrow> (string \<Rightarrow> bool) \<Rightarrow> 'v entry list \<Rightarrow> bool" where
  "named_table name ok t \<longleftrightarrow> table_wf t \<and> (\<forall>k v. mem_lookup k t = Some v \<longrightarrow> name v = k \<and> ok k)"

lemma named_table_put:
  assumes "named_table name ok t" "sql_register opts k v now t = Inr t'" "name v = k" "ok' k" "\<And>x. ok x \<Longrightarrow> ok' x"
  shows "named_table name ok' t'"
  unfolding named_table_def
proof (intro conjI allI impI)
  show "table_wf t'" using assms(1,2) by (auto simp: named_table_def intro: sql_register_wf)
  fix x w assume w: "mem_lookup x t' = Some w"
  have "x = k \<and> w = v \<or> mem_lookup x t = Some w"
    using sql_register_same [OF assms(2)] sql_register_other [OF assms(2), of x] w by (cases "x = k") auto
  then show "name w = x" "ok' x" using assms by (auto simp: named_table_def)
qed

lemma named_table_mono: "named_table name ok t \<Longrightarrow> (\<And>x. ok x \<Longrightarrow> ok' x) \<Longrightarrow> named_table name ok' t"
  by (auto simp: named_table_def)

text \<open>A member that no two records of a table share.\<close>

definition unique_member :: "('v \<Rightarrow> 'a) \<Rightarrow> 'v entry list \<Rightarrow> bool" where
  "unique_member f t \<longleftrightarrow> (\<forall>k k' v v'. mem_lookup k t = Some v \<longrightarrow> mem_lookup k' t = Some v' \<longrightarrow> f v = f v' \<longrightarrow> k = k')"

lemma unique_member_new:
  assumes "unique_member f t" "table_wf t" "sql_register (keeping n) k v now t = Inr t'"
    and "\<And>x w. mem_lookup x t = Some w \<Longrightarrow> f w \<noteq> f v"
  shows "unique_member f t'"
  using assms(1,4) unfolding unique_member_def kept_put(1) [OF assms(3,2)] by (metis option.inject)

lemma unique_member_again:
  assumes "unique_member f t" "table_wf t" "sql_register (keeping n) k v now t = Inr t'" "mem_lookup k t = Some u" "f v = f u"
  shows "unique_member f t'"
  using assms(1,4,5) unfolding unique_member_def kept_put(1) [OF assms(3,2)] by (metis option.inject)

definition gov_inv :: "governance_config \<Rightarrow> gov \<Rightarrow> bool" where
  "gov_inv cfg s \<longleftrightarrow>
     named_table gp_id (\<lambda>k. k = SYSTEM_OPERATOR_PRINCIPAL_ID \<or> gov_drawn cfg (gv_uuids s) k) (gv_principals s) \<and>
     named_table pe_id (gov_drawn cfg (gv_uuids s)) (gv_personas s) \<and>
     named_table sk_id (gov_drawn cfg (gv_uuids s)) (gv_skills s) \<and>
     named_table cf_id (gov_drawn cfg (gv_uuids s)) (gv_confirmations s) \<and>
     named_table iv_id (gov_drawn cfg (gv_uuids s)) (gv_invocations s) \<and>
     mem_lookup SYSTEM_OPERATOR_PRINCIPAL_ID (gv_principals s) \<noteq> None \<and>
     unique_member gp_subject (gv_principals s) \<and> unique_member sk_slug (gv_skills s) \<and>
     (\<forall>k p. mem_lookup k (gv_personas s) = Some p \<longrightarrow>
        persona_wf p \<and> mem_lookup (pe_owner p) (gv_principals s) \<noteq> None \<and> backed s p)"

lemma gov_invD:
  assumes "gov_inv cfg s"
  shows "named_table gp_id (\<lambda>k. k = SYSTEM_OPERATOR_PRINCIPAL_ID \<or> gov_drawn cfg (gv_uuids s) k) (gv_principals s)"
    "named_table pe_id (gov_drawn cfg (gv_uuids s)) (gv_personas s)" "named_table sk_id (gov_drawn cfg (gv_uuids s)) (gv_skills s)"
    "named_table cf_id (gov_drawn cfg (gv_uuids s)) (gv_confirmations s)" "named_table iv_id (gov_drawn cfg (gv_uuids s)) (gv_invocations s)"
    "mem_lookup SYSTEM_OPERATOR_PRINCIPAL_ID (gv_principals s) \<noteq> None"
    "unique_member gp_subject (gv_principals s)" "unique_member sk_slug (gv_skills s)"
    "mem_lookup k (gv_personas s) = Some p \<Longrightarrow> persona_wf p \<and> mem_lookup (pe_owner p) (gv_principals s) \<noteq> None \<and> backed s p"
  using assms by (simp_all add: gov_inv_def)

lemma gov_inv_wf:
  assumes "gov_inv cfg s"
  shows "table_wf (gv_principals s)" "table_wf (gv_personas s)" "table_wf (gv_skills s)" "table_wf (gv_confirmations s)" "table_wf (gv_invocations s)"
  using gov_invD [OF assms] by (simp_all add: named_table_def)

subsection \<open>What a change does to each table\<close>

lemma new_name_free:
  assumes "names_fit cfg" "gov_inv cfg s"
  shows "mem_lookup (gc_uuid cfg (gv_uuids s)) (gv_principals s) = None" "mem_lookup (gc_uuid cfg (gv_uuids s)) (gv_personas s) = None"
    "mem_lookup (gc_uuid cfg (gv_uuids s)) (gv_skills s) = None" "mem_lookup (gc_uuid cfg (gv_uuids s)) (gv_confirmations s) = None"
    "mem_lookup (gc_uuid cfg (gv_uuids s)) (gv_invocations s) = None"
  using not_gov_drawn [OF assms(1)] gov_invD(1-5) [OF assms(2)] assms(1) unfolding named_table_def names_fit_def
  by (metis not_Some_eq)+

lemma value_at:
  assumes "named_table name ok (sel s)" "v \<in> set (gov_values sel s)"
  shows "mem_lookup (name v) (sel s) = Some v"
  using assms by (auto simp: named_table_def gov_values_iff)

lemma principals_moved:
  assumes "names_fit cfg" "gov_inv cfg s" "gov_change cfg s t" "mem_lookup k (gv_principals s) = Some p"
  shows "\<exists>q. mem_lookup k (gv_principals t) = Some q \<and> (q = p \<or> gp_kind q = gp_kind p \<and> gp_subject q = gp_subject p)"
  using assms(3,4)
proof cases
  case (principal_again q p' now tb)
  then show ?thesis
    using assms(4) value_at [where sel = gv_principals, OF gov_invD(1) [OF assms(2)] principal_again(2)] kept_put(1) [OF principal_again(6) gov_inv_wf(1) [OF assms(2)], of k]
    by auto
next
  case (principal_new p' now tb)
  then show ?thesis
    using assms(4) new_name_free(1) [OF assms(1,2)] kept_put(1) [OF principal_new(4) gov_inv_wf(1) [OF assms(2)], of k] by auto
next
  case (operator now tb)
  then show ?thesis using gov_invD(6) [OF assms(2)] by simp
qed (use assms(4) in auto)

lemma personas_kept:
  assumes "names_fit cfg" "gov_inv cfg s" "gov_change cfg s t" "mem_lookup k (gv_personas s) = Some p"
  shows "\<exists>q. mem_lookup k (gv_personas t) = Some q"
  using assms(3,4)
proof cases
  case (persona_new p' now tb)
  then show ?thesis using assms(4) kept_put(1) [OF persona_new(5) gov_inv_wf(2) [OF assms(2)], of k] by auto
next
  case (persona_again k' q p' now tb)
  then show ?thesis using assms(4) kept_put(1) [OF persona_again(6) gov_inv_wf(2) [OF assms(2)], of k] by auto
qed (use assms(4) in auto)

definition skill_moves :: "skill_record \<Rightarrow> skill_record \<Rightarrow> bool" where
  "skill_moves r q \<longleftrightarrow> (\<exists>by now. approveSkillRecord r by now = Inr q)"

lemma skills_moved:
  assumes "names_fit cfg" "gov_inv cfg s" "gov_change cfg s t" "mem_lookup k (gv_skills s) = Some r"
  shows "\<exists>q. mem_lookup k (gv_skills t) = Some q \<and> (q = r \<or> skill_moves r q)"
  using assms(3,4)
proof cases
  case (skill_new r' now tb)
  then show ?thesis
    using assms(4) new_name_free(3) [OF assms(1,2)] kept_put(1) [OF skill_new(5) gov_inv_wf(3) [OF assms(2)], of k] by auto
next
  case (skill_approved k' q who now r' tb)
  then show ?thesis
    using assms(4) kept_put(1) [OF skill_approved(4) gov_inv_wf(3) [OF assms(2)], of k] by (auto simp: skill_moves_def)
qed (use assms(4) in auto)

definition confirmation_moves :: "confirmation_record \<Rightarrow> confirmation_record \<Rightarrow> bool" where
  "confirmation_moves c d \<longleftrightarrow> (\<exists>now. now < cf_expires c \<and>
     (cf_status c = Pending \<and> (\<exists>st\<in>{Approved, Denied}. d = c\<lparr>cf_status := st, cf_decided := Some now\<rparr>) \<or>
      cf_status c = Approved \<and> d = c\<lparr>cf_status := Used\<rparr>))"

lemma evicting_put_cases:
  assumes "sql_register opts k v now t = Inr t'" "mem_lookup x t' = Some w"
  shows "x = k \<and> w = v \<or> x \<noteq> k \<and> mem_lookup x t = Some w"
  using sql_register_same [OF assms(1)] sql_register_other [OF assms(1), of x] assms(2) by (cases "x = k") auto

lemma confirmations_moved:
  assumes "names_fit cfg" "gov_inv cfg s" "gov_change cfg s t" "mem_lookup k (gv_confirmations t) = Some d"
  shows "k = gc_uuid cfg (gv_uuids s) \<or> (\<exists>c. mem_lookup k (gv_confirmations s) = Some c \<and> (d = c \<or> confirmation_moves c d))"
  using assms(3,4)
proof cases
  case (confirmation_new c now tb)
  then show ?thesis using evicting_put_cases [OF confirmation_new(4), of k d] assms(4) by auto
next
  case (confirmation_decided k' c st now tb)
  then show ?thesis using evicting_put_cases [OF confirmation_decided(6), of k d] assms(4) by (auto simp: confirmation_moves_def)
next
  case (confirmation_used k' c now tb)
  then show ?thesis using evicting_put_cases [OF confirmation_used(5), of k d] assms(4) by (auto simp: confirmation_moves_def)
qed (use assms(4) in auto)

definition invocation_moves :: "invocation_record \<Rightarrow> invocation_record \<Rightarrow> bool" where
  "invocation_moves i j \<longleftrightarrow> invocation_open (iv_status i) \<and> (\<exists>st fin. j = i\<lparr>iv_status := st, iv_completed := fin\<rparr>)"

lemma invocations_moved:
  assumes "names_fit cfg" "gov_inv cfg s" "gov_change cfg s t" "mem_lookup k (gv_invocations t) = Some j"
  shows "k = gc_uuid cfg (gv_uuids s) \<or> (\<exists>i. mem_lookup k (gv_invocations s) = Some i \<and> (j = i \<or> invocation_moves i j))"
  using assms(3,4)
proof cases
  case (invocation_new i now tb)
  then show ?thesis using evicting_put_cases [OF invocation_new(4), of k j] assms(4) by auto
next
  case (invocation_moved k' i st fin now tb)
  then show ?thesis using evicting_put_cases [OF invocation_moved(4), of k j] assms(4) by (auto simp: invocation_moves_def)
qed (use assms(4) in auto)

lemma names_grow: "gov_change cfg s t \<Longrightarrow> gv_uuids s \<le> gv_uuids t"
  by (cases rule: gov_change.cases) auto

subsection \<open>Every change keeps the invariant\<close>

lemma backed_later:
  assumes "names_fit cfg" "gov_inv cfg s" "gov_change cfg s t" "backed s p"
  shows "backed t p"
  unfolding backed_def
proof (intro conjI allI impI ballI)
  fix k assume "am_service (pe_policy p) = Some k"
  then obtain q where "mem_lookup k (gv_principals s) = Some q" "gp_kind q = Service_account" using assms(4) by (auto simp: backed_def)
  then show "\<exists>q. mem_lookup k (gv_principals t) = Some q \<and> gp_kind q = Service_account"
    using principals_moved [OF assms(1-3)] by metis
next
  fix k assume "k \<in> set (pe_skills p)"
  then obtain r where r: "mem_lookup k (gv_skills s) = Some r" "sk_status r = Approved_skill" using assms(4) by (auto simp: backed_def)
  obtain q where q: "mem_lookup k (gv_skills t) = Some q" "q = r \<or> skill_moves r q" using skills_moved [OF assms(1-3) r(1)] by auto
  then show "\<exists>r. mem_lookup k (gv_skills t) = Some r \<and> sk_status r = Approved_skill"
    using r(2) by (auto simp: skill_moves_def approveSkillRecord_def)
qed

lemma owner_found:
  assumes "names_fit cfg" "gov_inv cfg s" "owned s p"
  shows "mem_lookup (pe_owner p) (gv_principals s) \<noteq> None"
proof -
  have clean: "trim k = k" if "mem_lookup k (gv_principals s) = Some q" for k q
  proof -
    have "k = SYSTEM_OPERATOR_PRINCIPAL_ID \<or> gov_drawn cfg (gv_uuids s) k" using gov_invD(1) [OF assms(2)] that by (auto simp: named_table_def)
    moreover have "trim SYSTEM_OPERATOR_PRINCIPAL_ID = SYSTEM_OPERATOR_PRINCIPAL_ID" by code_simp
    ultimately show ?thesis using assms(1) by (auto simp: names_fit_def gov_drawn_def)
  qed
  from assms(3) consider k where "mem_lookup k (gv_principals s) \<noteq> None" "pe_owner p = k \<or> pe_owner p = trim k"
    | q where "q \<in> set (gov_values gv_principals s)" "pe_owner p = trim (gp_id q)" by (auto simp: owned_def)
  then show ?thesis
  proof cases
    case 1 then show ?thesis using clean by auto
  next
    case 2 then show ?thesis using clean value_at [where sel = gv_principals, OF gov_invD(1) [OF assms(2)] 2(1)] by auto
  qed
qed

lemma personas_supported:
  assumes "names_fit cfg" "gov_inv cfg s" "gov_change cfg s t" "mem_lookup k (gv_personas t) = Some p"
  shows "persona_wf p \<and> mem_lookup (pe_owner p) (gv_principals t) \<noteq> None \<and> backed t p"
proof -
  have "persona_wf p \<and> mem_lookup (pe_owner p) (gv_principals s) \<noteq> None \<and> backed s p"
    using assms(3)
  proof cases
    case (persona_new p' now tb)
    then show ?thesis
      using assms(4) evicting_put_cases [OF persona_new(5), of k p] gov_invD(9) [OF assms(2)] owner_found [OF assms(1,2)] by (auto simp: supported_def)
  next
    case (persona_again k' q p' now tb)
    then show ?thesis
      using assms(4) evicting_put_cases [OF persona_again(6), of k p] gov_invD(9) [OF assms(2)] owner_found [OF assms(1,2)] by (auto simp: supported_def)
  qed (use assms(4) gov_invD(9) [OF assms(2)] in auto)
  then show ?thesis using backed_later [OF assms(1-3)] principals_moved [OF assms(1-3)] by blast
qed

lemma unique_subjects:
  assumes "names_fit cfg" "gov_inv cfg s" "gov_change cfg s t"
  shows "unique_member gp_subject (gv_principals t)"
  using assms(3)
proof cases
  case (principal_new p now tb)
  have "gp_subject q \<noteq> gp_subject p" if "mem_lookup x (gv_principals s) = Some q" for x q
    using principal_new(3) that gov_inv_wf(1) [OF assms(2)] by (auto simp: gov_values_iff)
  then show ?thesis using unique_member_new [OF gov_invD(7) [OF assms(2)] gov_inv_wf(1) [OF assms(2)] principal_new(4)] principal_new(1) by simp
next
  case (principal_again q p now tb)
  then show ?thesis
    using unique_member_again [OF gov_invD(7) [OF assms(2)] gov_inv_wf(1) [OF assms(2)] principal_again(6) value_at [where sel = gv_principals, OF gov_invD(1) [OF assms(2)]]]
    by simp
next
  case (operator now tb)
  then show ?thesis using gov_invD(6) [OF assms(2)] by simp
qed (use gov_invD(7) [OF assms(2)] in simp_all)

lemma unique_slugs:
  assumes "names_fit cfg" "gov_inv cfg s" "gov_change cfg s t"
  shows "unique_member sk_slug (gv_skills t)"
  using assms(3)
proof cases
  case (skill_new r now tb)
  have "sk_slug q \<noteq> sk_slug r" if "mem_lookup x (gv_skills s) = Some q" for x q
    using skill_new(4) that gov_inv_wf(3) [OF assms(2)] by (auto simp: gov_values_iff)
  then show ?thesis using unique_member_new [OF gov_invD(8) [OF assms(2)] gov_inv_wf(3) [OF assms(2)] skill_new(5)] skill_new(1) by simp
next
  case (skill_approved k q who now r tb)
  have "sk_slug r = sk_slug q" using skill_approved(3) by (auto simp: approveSkillRecord_def split: skill_status.splits)
  then show ?thesis
    using unique_member_again [OF gov_invD(8) [OF assms(2)] gov_inv_wf(3) [OF assms(2)] skill_approved(4,2)] skill_approved(1) by simp
qed (use gov_invD(8) [OF assms(2)] in simp_all)

lemma named_tables:
  assumes "gov_inv cfg s" "gov_change cfg s t"
  shows "named_table gp_id (\<lambda>k. k = SYSTEM_OPERATOR_PRINCIPAL_ID \<or> gov_drawn cfg (gv_uuids t) k) (gv_principals t)"
    "named_table pe_id (gov_drawn cfg (gv_uuids t)) (gv_personas t)" "named_table sk_id (gov_drawn cfg (gv_uuids t)) (gv_skills t)"
    "named_table cf_id (gov_drawn cfg (gv_uuids t)) (gv_confirmations t)" "named_table iv_id (gov_drawn cfg (gv_uuids t)) (gv_invocations t)"
proof -
  note D = gov_invD(1-5) [OF assms(1)]
  have up: "gov_drawn cfg (gv_uuids s) k \<Longrightarrow> gov_drawn cfg (gv_uuids t) k" for k
    using names_grow [OF assms(2)] gov_drawn_mono by blast
  have mono1: "named_table gp_id (\<lambda>k. k = SYSTEM_OPERATOR_PRINCIPAL_ID \<or> gov_drawn cfg (gv_uuids t) k) (gv_principals s)"
    by (rule named_table_mono [OF D(1)]) (use up in blast)
  have same: "mem_lookup k (gv_personas s) = Some p \<Longrightarrow> pe_id p = k \<and> gov_drawn cfg (gv_uuids s) k"
    "mem_lookup k (gv_skills s) = Some r \<Longrightarrow> sk_id r = k \<and> gov_drawn cfg (gv_uuids s) k"
    "mem_lookup k (gv_confirmations s) = Some c \<Longrightarrow> cf_id c = k \<and> gov_drawn cfg (gv_uuids s) k"
    "mem_lookup k (gv_invocations s) = Some i \<Longrightarrow> iv_id i = k \<and> gov_drawn cfg (gv_uuids s) k" for k p r c i
    using D by (simp_all add: named_table_def)
  show "named_table gp_id (\<lambda>k. k = SYSTEM_OPERATOR_PRINCIPAL_ID \<or> gov_drawn cfg (gv_uuids t) k) (gv_principals t)"
    using assms(2)
  proof cases
    case (principal_new p now tb)
    then show ?thesis
      using named_table_put [OF D(1) principal_new(4), where ok' = "\<lambda>k. k = SYSTEM_OPERATOR_PRINCIPAL_ID \<or> gov_drawn cfg (gv_uuids t) k"] up
      by (auto simp: gov_drawn_now)
  next
    case (principal_again q p now tb)
    have "mem_lookup (gp_id q) (gv_principals s) = Some q" by (rule value_at [where sel = gv_principals, OF D(1) principal_again(2)])
    then have "gp_id q = SYSTEM_OPERATOR_PRINCIPAL_ID \<or> gov_drawn cfg (gv_uuids t) (gp_id q)" using D(1) up unfolding named_table_def by blast
    then have "named_table gp_id (\<lambda>k. k = SYSTEM_OPERATOR_PRINCIPAL_ID \<or> gov_drawn cfg (gv_uuids t) k) tb"
      using up by (intro named_table_put [OF D(1) principal_again(6) principal_again(3)]) blast+
    then show ?thesis by (simp add: principal_again(1))
  next
    case (operator now tb)
    then show ?thesis using gov_invD(6) [OF assms(1)] by simp
  qed (use mono1 in auto)
  show "named_table pe_id (gov_drawn cfg (gv_uuids t)) (gv_personas t)"
    using assms(2)
  proof cases
    case (persona_new p now tb)
    then show ?thesis using named_table_put [OF D(2) persona_new(5)] up by (auto simp: gov_drawn_now)
  next
    case (persona_again k q p now tb)
    then show ?thesis using named_table_put [OF D(2) persona_again(6)] same(1) [OF persona_again(2)] up by auto
  qed (use named_table_mono [OF D(2)] up in auto)
  show "named_table sk_id (gov_drawn cfg (gv_uuids t)) (gv_skills t)"
    using assms(2)
  proof cases
    case (skill_new p now tb)
    then show ?thesis using named_table_put [OF D(3) skill_new(5)] up by (auto simp: gov_drawn_now)
  next
    case (skill_approved k q who now r tb)
    have "sk_id r = sk_id q" using skill_approved(3) by (auto simp: approveSkillRecord_def split: skill_status.splits)
    then show ?thesis using named_table_put [OF D(3) skill_approved(4)] skill_approved(1) same(2) [OF skill_approved(2)] up by auto
  qed (use named_table_mono [OF D(3)] up in auto)
  show "named_table cf_id (gov_drawn cfg (gv_uuids t)) (gv_confirmations t)"
    using assms(2)
  proof cases
    case (confirmation_new p now tb)
    then show ?thesis using named_table_put [OF D(4) confirmation_new(4)] up by (auto simp: gov_drawn_now)
  next
    case (confirmation_decided k c st now tb)
    then show ?thesis using named_table_put [OF D(4) confirmation_decided(6)] same(3) [OF confirmation_decided(2)] up by auto
  next
    case (confirmation_used k c now tb)
    then show ?thesis using named_table_put [OF D(4) confirmation_used(5)] same(3) [OF confirmation_used(2)] up by auto
  qed (use named_table_mono [OF D(4)] up in auto)
  show "named_table iv_id (gov_drawn cfg (gv_uuids t)) (gv_invocations t)"
    using assms(2)
  proof cases
    case (invocation_new i now tb)
    then show ?thesis using named_table_put [OF D(5) invocation_new(4)] up by (auto simp: gov_drawn_now)
  next
    case (invocation_moved k i st fin now tb)
    then show ?thesis using named_table_put [OF D(5) invocation_moved(4)] same(4) [OF invocation_moved(2)] up by auto
  qed (use named_table_mono [OF D(5)] up in auto)
qed

lemma gov_inv_step:
  assumes "names_fit cfg" "gov_inv cfg s" "gov_change cfg s t"
  shows "gov_inv cfg t"
proof -
  have "mem_lookup SYSTEM_OPERATOR_PRINCIPAL_ID (gv_principals t) \<noteq> None"
    using gov_invD(6) [OF assms(2)] principals_moved [OF assms] by auto
  then show ?thesis
    unfolding gov_inv_def
    using named_tables [OF assms(2,3)] unique_subjects [OF assms] unique_slugs [OF assms] personas_supported [OF assms] by simp
qed

subsection \<open>Histories\<close>

text \<open>The five tables are tables of named records under the changes, in a state with the invariant and fit names.\<close>

definition gov_state :: "governance_config \<Rightarrow> gov \<Rightarrow> bool" where
  "gov_state cfg s \<longleftrightarrow> names_fit cfg \<and> gov_inv cfg s"

lemma taken_free:
  assumes "gov_state cfg s" "gov_drawn cfg (gv_uuids s) k"
  shows "k \<noteq> gc_uuid cfg (gv_uuids s)"
  using assms not_gov_drawn by (auto simp: gov_state_def)

interpretation invocations: named_records "gov_state cfg" "gov_change cfg" "\<lambda>s k. mem_lookup k (gv_invocations s)"
  "\<lambda>s. gov_drawn cfg (gv_uuids s)" invocation_moves for cfg
proof (unfold_locales, goal_cases)
  case (1 s t) then show ?case using gov_inv_step by (auto simp: gov_state_def)
next
  case (2 s k v) then show ?case using gov_invD(5) by (auto simp: gov_state_def named_table_def)
next
  case (3 s t k) then show ?case using names_grow gov_drawn_mono by blast
next
  case (4 s t k v w)
  then have "k \<noteq> gc_uuid cfg (gv_uuids s)" using new_name_free(5) [of cfg s] by (auto simp: gov_state_def)
  then show ?case using 4 invocations_moved [of cfg s t k w] by (auto simp: gov_state_def)
next
  case (5 s t k)
  then show ?case using taken_free [OF 5(1,3)] invocations_moved [of cfg s t k] by (cases "mem_lookup k (gv_invocations t)") (auto simp: gov_state_def)
qed

interpretation confirmations: named_records "gov_state cfg" "gov_change cfg" "\<lambda>s k. mem_lookup k (gv_confirmations s)"
  "\<lambda>s. gov_drawn cfg (gv_uuids s)" confirmation_moves for cfg
proof (unfold_locales, goal_cases)
  case (1 s t) then show ?case by (rule invocations.inv_step)
next
  case (2 s k v) then show ?case using gov_invD(4) by (auto simp: gov_state_def named_table_def)
next
  case (3 s t k) then show ?case by (rule invocations.taken_step)
next
  case (4 s t k v w)
  then have "k \<noteq> gc_uuid cfg (gv_uuids s)" using new_name_free(4) [of cfg s] by (auto simp: gov_state_def)
  then show ?case using 4 confirmations_moved [of cfg s t k w] by (auto simp: gov_state_def)
next
  case (5 s t k)
  then show ?case using taken_free [OF 5(1,3)] confirmations_moved [of cfg s t k] by (cases "mem_lookup k (gv_confirmations t)") (auto simp: gov_state_def)
qed

text \<open>A skill's table evicts nothing.\<close>

lemma skills_new_name:
  assumes "gov_change cfg s t" "mem_lookup k (gv_skills s) = None" "mem_lookup k (gv_skills t) = Some r"
  shows "k = gc_uuid cfg (gv_uuids s)"
  using assms(1)
proof cases
  case (skill_new r' now tb)
  then show ?thesis using evicting_put_cases [OF skill_new(5), of k r] assms by auto
next
  case (skill_approved k' q who now r' tb)
  then show ?thesis using evicting_put_cases [OF skill_approved(4), of k r] assms by auto
qed (use assms in auto)

interpretation skills: kept_records "gov_state cfg" "gov_change cfg" "\<lambda>s k. mem_lookup k (gv_skills s)"
  "\<lambda>s. gov_drawn cfg (gv_uuids s)" skill_moves for cfg
proof (unfold_locales, goal_cases)
  case (1 s t) then show ?case by (rule invocations.inv_step)
next
  case (2 s k v) then show ?case using gov_invD(3) by (auto simp: gov_state_def named_table_def)
next
  case (3 s t k) then show ?case by (rule invocations.taken_step)
next
  case (4 s t k v w)
  then show ?case using skills_moved [of cfg s t k v] by (auto simp: gov_state_def)
next
  case (5 s t k)
  then show ?case using taken_free [OF 5(1,3)] skills_new_name [OF 5(2,4)] by (cases "mem_lookup k (gv_skills t)") auto
next
  case (6 s t k v)
  then show ?case using skills_moved [of cfg s t k v] by (auto simp: gov_state_def)
qed

end
