(* ===== verification/Governance_Life.thy ===== *)
theory Governance_Life
  imports Governance_Safety
begin

text \<open>
  The governance registry in use: any sequence of its operations, with any input, at any times. What such a
  run keeps of the stores, and the life of an approval over the log of a run.
\<close>

subsection \<open>Operations\<close>

datatype gov_op =
    Ensure_system int
  | Create_principal jsval string int
  | Ensure_external jsval int
  | Create_persona jsval string int
  | Update_persona string jsval string int
  | Ensure_persona claw_record int
  | Create_skill jsval string int
  | Approve_skill string string int
  | Register_connection string string jsval jsval string string string int
  | Revoke_connection string string int
  | Create_oauth string int
  | Consume_oauth string string int
  | Ask_confirmation confirmed_action string int int
  | Decide_confirmation string string bool int
  | Use_confirmation string confirmed_action int
  | Save_invocation invocation_record int
  | Update_invocation string "invocation_status option" "int option" int
  | Audit_event governance_event "string option" int

fun run_op :: "governance_config \<Rightarrow> gov_op \<Rightarrow> gov \<Rightarrow> gov" where
  "run_op cfg (Ensure_system now) s = snd (ensureSystem now s)"
| "run_op cfg (Create_principal i a now) s = snd (createPrincipal cfg i a now s)"
| "run_op cfg (Ensure_external i now) s = snd (ensureExternalPrincipal cfg i now s)"
| "run_op cfg (Create_persona i a now) s = snd (createPersona cfg i a now s)"
| "run_op cfg (Update_persona k i a now) s = snd (updatePersona cfg k i a now s)"
| "run_op cfg (Ensure_persona c now) s = snd (ensurePersonaForClaw cfg c now s)"
| "run_op cfg (Create_skill i a now) s = snd (createSkill cfg i a now s)"
| "run_op cfg (Approve_skill k a now) s = snd (approveSkill cfg k a now s)"
| "run_op cfg (Register_connection w p l sc v a k now) s = snd (registerConnection cfg w p l sc v a k now s)"
| "run_op cfg (Revoke_connection k a now) s = snd (revokeConnection cfg k a now s)"
| "run_op cfg (Create_oauth w now) s = snd (createOAuthState cfg w now s)"
| "run_op cfg (Consume_oauth k w now) s = snd (consumeOAuthState cfg k w now s)"
| "run_op cfg (Ask_confirmation a t e now) s = snd (createConfirmation cfg a t e now s)"
| "run_op cfg (Decide_confirmation k w b now) s = snd (decideConfirmation cfg k w b now s)"
| "run_op cfg (Use_confirmation k a now) s = snd (useConfirmation cfg k a now s)"
| "run_op cfg (Save_invocation i now) s = snd (saveNewInvocation cfg i now s)"
| "run_op cfg (Update_invocation k st fin now) s = snd (updateInvocation cfg k st fin now s)"
| "run_op cfg (Audit_event e c now) s = snd (gov_audit cfg e c now s)"

text \<open>The subject of a claw's owner is a normalised text, as src/domain.ts makes it.\<close>

definition op_fits :: "gov_op \<Rightarrow> bool" where
  "op_fits op \<longleftrightarrow> (case op of Ensure_persona c now \<Rightarrow> trim (o_subject (d_owner (c_desired c))) = o_subject (d_owner (c_desired c)) | _ \<Rightarrow> True)"

definition run_ops :: "governance_config \<Rightarrow> gov_op list \<Rightarrow> gov \<Rightarrow> gov" where
  "run_ops cfg ops s = fold (run_op cfg) ops s"

lemma makes_snd: "makes cfg m \<Longrightarrow> gov_changes cfg s (snd (m s))"
  by (cases "m s") (simp add: makes_def)

lemmas all_makes = makes_ensureSystem makes_createPrincipal makes_ensureExternalPrincipal makes_createPersona makes_updatePersona
  makes_ensurePersonaForClaw makes_createSkill makes_approveSkill makes_registerConnection makes_revokeConnection
  makes_createOAuthState makes_consumeOAuthState makes_createConfirmation makes_decideConfirmation makes_useConfirmation
  makes_saveNewInvocation makes_updateInvocation makes_gov_audit

lemma run_op_changes: "gc_transaction cfg \<Longrightarrow> op_fits op \<Longrightarrow> gov_changes cfg s (run_op cfg op s)"
  by (cases op) (simp_all add: op_fits_def makes_snd all_makes)

lemma run_ops_changes:
  assumes "gc_transaction cfg" "\<forall>op\<in>set ops. op_fits op"
  shows "gov_changes cfg s (run_ops cfg ops s)"
  using assms(2) unfolding run_ops_def
proof (induction ops arbitrary: s)
  case (Cons op ops)
  then show ?case using run_op_changes [OF assms(1), of op s] by (auto intro: rtranclp_trans)
qed simp

lemma run_ops_inv:
  "gc_transaction cfg \<Longrightarrow> names_fit cfg \<Longrightarrow> \<forall>op\<in>set ops. op_fits op \<Longrightarrow> gov_inv cfg s \<Longrightarrow> gov_inv cfg (run_ops cfg ops s)"
  using invocations.inv_steps [OF run_ops_changes, of cfg ops s] by (simp add: gov_state_def)

text \<open>
  C30. The stores stay consistent. From any state with the invariant (the state after the operator was made has
  it) every run of operations leads to one: each record lies under its own id, a name that was drawn; no two
  principals share a subject and no two skills a slug; every persona is well formed, its owner exists, its
  service principal is a service account and its skills are approved.
\<close>

theorem governance_stays_consistent:
  assumes "gc_transaction cfg" "names_fit cfg" "\<forall>op\<in>set ops. op_fits op" "gov_inv cfg s"
  shows "gov_inv cfg (run_ops cfg ops s)"
  using assms by (rule run_ops_inv)

lemma skill_moves_approved: "skill_moves\<^sup>*\<^sup>* r q \<Longrightarrow> sk_status r = Approved_skill \<Longrightarrow> q = r"
  by (induction rule: rtranclp_induct) (auto simp: skill_moves_def approveSkillRecord_def)

lemma skill_moves_files: "skill_moves\<^sup>*\<^sup>* r q \<Longrightarrow> sk_files q = sk_files r \<and> sk_digest q = sk_digest r \<and> sk_by q = sk_by r"
  by (induction rule: rtranclp_induct) (auto simp: skill_moves_def approveSkillRecord_def split: skill_status.splits)

text \<open>
  C31. Decisions are final. Whatever operations follow, an approved skill stays as it is, the files and the digest
  of a skill never change, and an invocation that succeeded, failed or expired keeps its record as long as the
  table holds it.
\<close>

theorem decided_records_are_final:
  assumes "gc_transaction cfg" "names_fit cfg" "\<forall>op\<in>set ops. op_fits op" "gov_inv cfg s"
  shows "(\<forall>r. mem_lookup k (gv_skills s) = Some r \<and> sk_status r = Approved_skill \<longrightarrow> mem_lookup k (gv_skills (run_ops cfg ops s)) = Some r) \<and>
    (\<forall>r. mem_lookup k (gv_skills s) = Some r \<longrightarrow> (\<exists>q. mem_lookup k (gv_skills (run_ops cfg ops s)) = Some q \<and> sk_files q = sk_files r \<and> sk_digest q = sk_digest r)) \<and>
    (\<forall>i. mem_lookup k (gv_invocations s) = Some i \<and> \<not> invocation_open (iv_status i) \<longrightarrow>
       mem_lookup k (gv_invocations (run_ops cfg ops s)) \<in> {None, Some i})"
proof -
  note c = run_ops_changes [OF assms(1,3), of s]
  have g: "gov_state cfg s" using assms(2,4) by (simp add: gov_state_def)
  show ?thesis
    using skills.kept_history [OF c g] skill_moves_approved skill_moves_files invocations.final [OF c g]
    by (auto simp: invocation_moves_def) (metis+)?
qed

subsection \<open>The life of an approval\<close>

datatype approval_fact =
    Asked string confirmed_action int
  | Decided string string bool int
  | Spent string confirmed_action int

fun about :: "string \<Rightarrow> approval_fact \<Rightarrow> bool" where
  "about k (Asked x _ _) = (x = k)"
| "about k (Decided x _ _ _) = (x = k)"
| "about k (Spent x _ _) = (x = k)"

text \<open>What an operation that succeeds adds to the log.\<close>

fun facts :: "governance_config \<Rightarrow> gov_op \<Rightarrow> gov \<Rightarrow> approval_fact list" where
  "facts cfg (Ask_confirmation a txt e now) s =
     (case fst (createConfirmation cfg a txt e now s) of Inr c \<Rightarrow> [Asked (cf_id c) a e] | Inl _ \<Rightarrow> [])"
| "facts cfg (Decide_confirmation k who b now) s =
     (case fst (decideConfirmation cfg k who b now s) of Inr c \<Rightarrow> [Decided k who b now] | Inl _ \<Rightarrow> [])"
| "facts cfg (Use_confirmation k a now) s =
     (case fst (useConfirmation cfg k a now s) of Inr c \<Rightarrow> [Spent k a now] | Inl _ \<Rightarrow> [])"
| "facts cfg _ s = []"

fun gov_log :: "governance_config \<Rightarrow> gov_op list \<Rightarrow> gov \<Rightarrow> approval_fact list" where
  "gov_log cfg [] s = []"
| "gov_log cfg (op # ops) s = facts cfg op s @ gov_log cfg ops (run_op cfg op s)"

definition approval_life :: "string \<Rightarrow> approval_fact list \<Rightarrow> bool" where
  "approval_life k l \<longleftrightarrow> l = [] \<or> (\<exists>a e.
     l = [Asked k a e] \<or>
     (\<exists>b t. l = [Asked k a e, Decided k (ca_requester a) b t] \<and> t < e) \<or>
     (\<exists>t u. l = [Asked k a e, Decided k (ca_requester a) True t, Spent k a u] \<and> t < e \<and> u < e))"

definition life_of :: "string \<Rightarrow> confirmation_record option \<Rightarrow> approval_fact list \<Rightarrow> bool" where
  \<comment> \<open>how the facts about a confirmation and its record agree\<close>
  "life_of k found l \<longleftrightarrow> (case found of None \<Rightarrow> approval_life k l
   | Some c \<Rightarrow>
      (let asked = Asked k (cf_action c) (cf_expires c); by = ca_requester (cf_action c) in
       case cf_status c of
         Pending \<Rightarrow> l = [asked]
       | Approved \<Rightarrow> \<exists>t. l = [asked, Decided k by True t] \<and> t < cf_expires c
       | Denied \<Rightarrow> \<exists>t. l = [asked, Decided k by False t] \<and> t < cf_expires c
       | Used \<Rightarrow> \<exists>t u. l = [asked, Decided k by True t, Spent k (cf_action c) u] \<and> t < cf_expires c \<and> u < cf_expires c
       | Expired \<Rightarrow> False))"

lemma life_of_life: "life_of k found l \<Longrightarrow> approval_life k l"
  by (auto simp: life_of_def approval_life_def Let_def split: option.splits confirmation_status.splits)

lemma life_of_evicted: "life_of k found l \<Longrightarrow> found' = found \<or> found' = None \<Longrightarrow> life_of k found' l"
  using life_of_life by (auto simp: life_of_def [of k None])

definition life_inv :: "governance_config \<Rightarrow> string \<Rightarrow> approval_fact list \<Rightarrow> gov \<Rightarrow> bool" where
  "life_inv cfg k l s \<longleftrightarrow> life_of k (mem_lookup k (gv_confirmations s)) (filter (about k) l) \<and>
     (\<not> gov_drawn cfg (gv_uuids s) k \<longrightarrow> filter (about k) l = [])"

lemma life_inv_same:
  assumes "life_inv cfg k l s" "mem_lookup k (gv_confirmations t) \<in> {mem_lookup k (gv_confirmations s), None}"
    "gv_uuids s \<le> gv_uuids t" "filter (about k) l' = []"
  shows "life_inv cfg k (l @ l') t"
proof -
  have "filter (about k) (l @ l') = filter (about k) l" using assms(4) by simp
  then show ?thesis
    using assms(1,2) gov_drawn_mono [OF _ assms(3)] life_of_evicted [of k "mem_lookup k (gv_confirmations s)"]
    unfolding life_inv_def by (metis insertE singletonD)
qed

lemma life_inv_quiet:
  "life_inv cfg k l s \<Longrightarrow> gv_confirmations t = gv_confirmations s \<Longrightarrow> gv_uuids s \<le> gv_uuids t \<Longrightarrow> life_inv cfg k l t"
  using life_inv_same [of cfg k l s t "[]"] by simp

text \<open>The operations on confirmations.\<close>

lemma created_confirmation:
  "createConfirmation cfg a txt e now s =
     (let k = gc_uuid cfg (gv_uuids s);
          c = \<lparr>cf_id = k, cf_action = a, cf_summary = txt, cf_status = Pending, cf_expires = e, cf_decided = None, cf_created = now\<rparr> in
      case sql_register (evicting 50000) k c now (gv_confirmations s) of
        Inl err \<Rightarrow> (Inl err, s\<lparr>gv_uuids := Suc (gv_uuids s)\<rparr>)
      | Inr tb \<Rightarrow> (Inr c, s\<lparr>gv_uuids := Suc (gv_uuids s), gv_confirmations := tb\<rparr>))"
  by (simp add: createConfirmation_def comp_simps run_stores Let_def put_confirmation_def split: sum.splits)

lemma serialized_failed: "gc_transaction cfg \<Longrightarrow> fst (gov_serialize cfg m s) = Inl e \<Longrightarrow> gv_confirmations (snd (gov_serialize cfg m s)) = gv_confirmations s"
  by (auto simp: gov_serialize_def split: prod.splits sum.splits)

lemma decide_failed:
  "gc_transaction cfg \<Longrightarrow> fst (decideConfirmation cfg k who b now s) = Inl e \<Longrightarrow>
   gv_confirmations (snd (decideConfirmation cfg k who b now s)) = gv_confirmations s"
  unfolding decideConfirmation_def by (rule serialized_failed)

lemma use_failed:
  "gc_transaction cfg \<Longrightarrow> fst (useConfirmation cfg k a now s) = Inl e \<Longrightarrow>
   gv_confirmations (snd (useConfirmation cfg k a now s)) = gv_confirmations s"
  unfolding useConfirmation_def by (rule serialized_failed)

lemma decided_confirmation:
  assumes "decideConfirmation cfg k who b now s = (Inr d, t)"
  shows "\<exists>c tb. mem_lookup k (gv_confirmations s) = Some c \<and> ca_requester (cf_action c) = who \<and> cf_status c = Pending \<and> now < cf_expires c \<and>
    sql_register (evicting 50000) k (c\<lparr>cf_status := (if b then Approved else Denied), cf_decided := Some now\<rparr>) now (gv_confirmations s) = Inr tb \<and>
    gv_confirmations t = tb"
proof -
  have ev: "gv_confirmations t = gv_confirmations u" if "gov_audit cfg e c now u = (Inr x, t)" for e c u x
    using gov_audit_events [OF that] by (auto simp: only_events_def)
  show ?thesis
    using assms ev
    by (auto simp: decideConfirmation_def serialized_Inr comp_ok Let_def requireConfirmation_def require_in_Inr put_in_Inr not_le split: if_splits)
qed

lemma used_confirmation:
  assumes "useConfirmation cfg k a now s = (Inr d, t)"
  shows "\<exists>c tb. mem_lookup k (gv_confirmations s) = Some c \<and> cf_action c = a \<and> cf_status c = Approved \<and> now < cf_expires c \<and>
    sql_register (evicting 50000) k (c\<lparr>cf_status := Used\<rparr>) now (gv_confirmations s) = Inr tb \<and> gv_confirmations t = tb"
  using assms
  by (auto simp: useConfirmation_def serialized_Inr comp_ok Let_def requireConfirmation_def require_in_Inr put_in_Inr not_le split: if_splits)

lemma life_ask:
  assumes "names_fit cfg" "life_inv cfg k l s"
  shows "life_inv cfg k (l @ facts cfg (Ask_confirmation a txt e now) s) (run_op cfg (Ask_confirmation a txt e now) s)"
proof (cases "fst (createConfirmation cfg a txt e now s)")
  case (Inl err)
  then have "facts cfg (Ask_confirmation a txt e now) s = []" "gv_confirmations (run_op cfg (Ask_confirmation a txt e now) s) = gv_confirmations s"
    "gv_uuids s \<le> gv_uuids (run_op cfg (Ask_confirmation a txt e now) s)"
    by (auto simp: created_confirmation Let_def split: sum.splits)
  then show ?thesis using life_inv_quiet [OF assms(2)] by simp
next
  case (Inr d)
  let ?n = "gc_uuid cfg (gv_uuids s)" and ?t = "run_op cfg (Ask_confirmation a txt e now) s"
  define c where c_def: "c = \<lparr>cf_id = ?n, cf_action = a, cf_summary = txt, cf_status = Pending, cf_expires = e, cf_decided = None, cf_created = now\<rparr>"
  obtain tb where tb: "sql_register (evicting 50000) ?n c now (gv_confirmations s) = Inr tb"
      "?t = s\<lparr>gv_uuids := Suc (gv_uuids s), gv_confirmations := tb\<rparr>" "d = c"
    using Inr by (auto simp: created_confirmation Let_def c_def split: sum.splits)
  have c: "cf_id c = ?n" "cf_action c = a" "cf_status c = Pending" "cf_expires c = e" by (simp_all add: c_def)
  have f: "facts cfg (Ask_confirmation a txt e now) s = [Asked ?n a e]" using Inr c tb(3) by simp
  show ?thesis
  proof (cases "k = ?n")
    case True
    then have "filter (about k) l = []" using assms not_gov_drawn by (simp add: life_inv_def)
    then show ?thesis using True c f tb(2) sql_register_same [OF tb(1)] by (simp add: life_inv_def life_of_def Let_def gov_drawn_now)
  next
    case False
    then show ?thesis using f tb(2) sql_register_other [OF tb(1) False] by (intro life_inv_same [OF assms(2)]) auto
  qed
qed

lemma sent_elsewhere:
  assumes "life_inv cfg k l s" "sql_register opts x c now (gv_confirmations s) = Inr tb" "gv_confirmations t = tb" "gv_uuids s \<le> gv_uuids t"
    "k \<noteq> x" "about k f = False"
  shows "life_inv cfg k (l @ [f]) t"
  using sql_register_other [OF assms(2,5)] assms(3-6) by (intro life_inv_same [OF assms(1)]) auto

lemma decided_here:
  assumes "life_inv cfg k l s" "mem_lookup k (gv_confirmations s) = Some c" "ca_requester (cf_action c) = who" "cf_status c = Pending" "now < cf_expires c"
    "mem_lookup k (gv_confirmations t) = Some (c\<lparr>cf_status := (if b then Approved else Denied), cf_decided := Some now\<rparr>)" "gv_uuids s \<le> gv_uuids t"
  shows "life_inv cfg k (l @ [Decided k who b now]) t"
proof -
  have l: "filter (about k) l = [Asked k (cf_action c) (cf_expires c)]" using assms(1,2,4) by (simp add: life_inv_def life_of_def Let_def)
  then have "gov_drawn cfg (gv_uuids t) k" using assms(1) gov_drawn_mono [OF _ assms(7)] by (auto simp: life_inv_def)
  then show ?thesis using l assms(3,5,6) by (simp add: life_inv_def life_of_def Let_def)
qed

lemma used_here:
  assumes "life_inv cfg k l s" "mem_lookup k (gv_confirmations s) = Some c" "cf_action c = a" "cf_status c = Approved" "now < cf_expires c"
    "mem_lookup k (gv_confirmations t) = Some (c\<lparr>cf_status := Used\<rparr>)" "gv_uuids s \<le> gv_uuids t"
  shows "life_inv cfg k (l @ [Spent k a now]) t"
proof -
  obtain u where l: "filter (about k) l = [Asked k a (cf_expires c), Decided k (ca_requester a) True u]" "u < cf_expires c"
    using assms(1-4) by (auto simp: life_inv_def life_of_def Let_def)
  then have "gov_drawn cfg (gv_uuids t) k" using assms(1) gov_drawn_mono [OF _ assms(7)] by (auto simp: life_inv_def)
  then show ?thesis using l assms(3,5,6) by (simp add: life_inv_def life_of_def Let_def)
qed

lemma names_growing: "gov_changes cfg s t \<Longrightarrow> gv_uuids s \<le> gv_uuids t"
  by (induction rule: rtranclp_induct) (auto dest: names_grow)

lemma life_decide:
  assumes "gc_transaction cfg" "life_inv cfg k l s"
  shows "life_inv cfg k (l @ facts cfg (Decide_confirmation x who b now) s) (run_op cfg (Decide_confirmation x who b now) s)"
proof -
  let ?m = "decideConfirmation cfg x who b now" and ?t = "run_op cfg (Decide_confirmation x who b now) s"
  have g: "gv_uuids s \<le> gv_uuids ?t" using names_growing [OF run_op_changes [OF assms(1), of "Decide_confirmation x who b now"]] by (simp add: op_fits_def)
  show ?thesis
  proof (cases "fst (?m s)")
    case (Inl e)
    then have "gv_confirmations ?t = gv_confirmations s" using decide_failed [OF assms(1)] by simp
    then show ?thesis using life_inv_quiet [OF assms(2)] g Inl by simp
  next
    case (Inr d)
    then have m: "?m s = (Inr d, ?t)" by (metis prod.collapse run_op.simps(14))
    obtain c tb where c: "mem_lookup x (gv_confirmations s) = Some c" "ca_requester (cf_action c) = who" "cf_status c = Pending" "now < cf_expires c"
        "sql_register (evicting 50000) x (c\<lparr>cf_status := (if b then Approved else Denied), cf_decided := Some now\<rparr>) now (gv_confirmations s) = Inr tb"
        "gv_confirmations ?t = tb"
      using decided_confirmation [OF m] by blast
    show ?thesis
      using Inr decided_here [OF assms(2)] c sql_register_same [OF c(5)] sent_elsewhere [OF assms(2) c(5,6)] g by (cases "k = x") auto
  qed
qed

lemma life_use:
  assumes "gc_transaction cfg" "life_inv cfg k l s"
  shows "life_inv cfg k (l @ facts cfg (Use_confirmation x a now) s) (run_op cfg (Use_confirmation x a now) s)"
proof -
  let ?m = "useConfirmation cfg x a now" and ?t = "run_op cfg (Use_confirmation x a now) s"
  have g: "gv_uuids s \<le> gv_uuids ?t" using names_growing [OF run_op_changes [OF assms(1), of "Use_confirmation x a now"]] by (simp add: op_fits_def)
  show ?thesis
  proof (cases "fst (?m s)")
    case (Inl e)
    then have "gv_confirmations ?t = gv_confirmations s" using use_failed [OF assms(1)] by simp
    then show ?thesis using life_inv_quiet [OF assms(2)] g Inl by simp
  next
    case (Inr d)
    then have m: "?m s = (Inr d, ?t)" by (metis prod.collapse run_op.simps(15))
    obtain c tb where c: "mem_lookup x (gv_confirmations s) = Some c" "cf_action c = a" "cf_status c = Approved" "now < cf_expires c"
        "sql_register (evicting 50000) x (c\<lparr>cf_status := Used\<rparr>) now (gv_confirmations s) = Inr tb" "gv_confirmations ?t = tb"
      using used_confirmation [OF m] by blast
    show ?thesis
      using Inr used_here [OF assms(2)] c sql_register_same [OF c(5)] sent_elsewhere [OF assms(2) c(5,6)] g by (cases "k = x") auto
  qed
qed

text \<open>Every other operation leaves the confirmations alone.\<close>

lemma quiet_put:
  assumes "\<And>f s. gv_confirmations (upd f s) = gv_confirmations s"
  shows "preserves (\<lambda>s. gv_confirmations s = x) (put_in sel upd opts k v now)"
  using assms by (auto simp: preserves_def put_in_def split: sum.splits)

lemma quiet_stores:
  "preserves (\<lambda>s. gv_confirmations s = x) (put_in gv_principals gv_principals_update opts k p now)"
  "preserves (\<lambda>s. gv_confirmations s = x) (put_in gv_personas gv_personas_update opts k q now)"
  "preserves (\<lambda>s. gv_confirmations s = x) (put_in gv_skills gv_skills_update opts k r now)"
  "preserves (\<lambda>s. gv_confirmations s = x) (put_in gv_connections gv_connections_update opts k c now)"
  "preserves (\<lambda>s. gv_confirmations s = x) (put_in gv_states gv_states_update opts k y now)"
  "preserves (\<lambda>s. gv_confirmations s = x) (put_in gv_invocations gv_invocations_update opts k i now)"
  "preserves (\<lambda>s. gv_confirmations s = x) (put_in gv_events gv_events_update opts k e now)"
  "preserves (\<lambda>s. gv_confirmations s = x) (new_uuid cfg)"
  by (intro quiet_put; simp)+ (simp add: preserves_def new_uuid_def)

lemma quiet_serialize: "preserves (\<lambda>s. gv_confirmations s = x) m \<Longrightarrow> preserves (\<lambda>s. gv_confirmations s = x) (gov_serialize cfg m)"
  by (fastforce simp: preserves_def gov_serialize_def split: prod.splits sum.splits)

lemmas quiet_named = put_principal_def put_persona_def put_skill_def put_connection_def put_state_def put_invocation_def
  requirePrincipal_def requirePersona_def requireConnection_def

lemma quiet_audit: "preserves (\<lambda>s. gv_confirmations s = x) (gov_audit cfg e c now)"
  unfolding gov_audit_def by (intro preserves_rules quiet_stores)

lemma quiet_states: "preserves (\<lambda>s. gv_confirmations s = x) (modC (\<lambda>s. s\<lparr>gv_states := f s\<rparr>))"
  by (simp add: preserves_def)

fun approves :: "gov_op \<Rightarrow> bool" where
  "approves (Ask_confirmation _ _ _ _) = True"
| "approves (Decide_confirmation _ _ _ _) = True"
| "approves (Use_confirmation _ _ _) = True"
| "approves _ = False"

lemma quiet_ops:
  assumes "\<not> approves op"
  shows "gv_confirmations (run_op cfg op s) = gv_confirmations s" "facts cfg op s = []"
proof -
  have p: "gv_confirmations (snd (m s)) = gv_confirmations s" if "\<And>x. preserves (\<lambda>s. gv_confirmations s = x) m" for m :: "'a govc"
    using that [of "gv_confirmations s"] by (simp add: preserves_def)
  show "gv_confirmations (run_op cfg op s) = gv_confirmations s"
    using assms
    by (cases op)
      (auto intro!: p quiet_serialize preserves_rules quiet_stores quiet_audit quiet_states
        simp: quiet_named ensureSystem_def createPrincipal_def ensureExternalPrincipal_def createPersona_def updatePersona_def ensurePersonaForClaw_def
          ensureOwner_def createSkill_def approveSkill_def registerConnection_def revokeConnection_def createOAuthState_def consumeOAuthState_def
          saveNewInvocation_def saveInvocation_def updateInvocation_def)
  show "facts cfg op s = []" using assms by (cases op) simp_all
qed

lemma life_op:
  assumes "gc_transaction cfg" "names_fit cfg" "op_fits op" "life_inv cfg k l s"
  shows "life_inv cfg k (l @ facts cfg op s) (run_op cfg op s)"
proof (cases "approves op")
  case True
  then show ?thesis
    using life_ask [OF assms(2,4)] life_decide [OF assms(1,4)] life_use [OF assms(1,4)] by (cases op) (simp_all del: run_op.simps facts.simps)
next
  case False
  then show ?thesis
    using quiet_ops [OF False] names_growing [OF run_op_changes [OF assms(1,3)]] life_inv_quiet [OF assms(4)] by simp
qed

lemma life_ops:
  assumes "gc_transaction cfg" "names_fit cfg" "\<forall>op\<in>set ops. op_fits op" "life_inv cfg k l s"
  shows "life_inv cfg k (l @ gov_log cfg ops s) (run_ops cfg ops s)"
  using assms(3,4)
proof (induction ops arbitrary: l s)
  case (Cons op ops)
  then show ?case using life_op [OF assms(1,2)] Cons.IH [of "l @ facts cfg op s" "run_op cfg op s"] by (simp add: run_ops_def)
qed (simp add: run_ops_def)

text \<open>
  C32. An approval is asked for, decided and spent once. What a run logs about one confirmation is, in order, at
  most: asked for an action until a time; decided once, by the requester of that action and before that time;
  and, only when it was approved, spent once, for exactly that action and before that time.
\<close>

theorem approval_is_single_use:
  assumes "gc_transaction cfg" "names_fit cfg" "\<forall>op\<in>set ops. op_fits op" "gv_confirmations s = []"
  shows "approval_life k (filter (about k) (gov_log cfg ops s))"
proof -
  have "life_inv cfg k [] s" using assms(4) by (simp add: life_inv_def life_of_def approval_life_def mem_lookup_def)
  from life_ops [OF assms(1-3) this] show ?thesis using life_of_life by (auto simp: life_inv_def)
qed

text \<open>A decision after the expiry leaves no trace: the record that \<open>put\<close> wrote with status expired is rolled back by the throw.\<close>

lemma expiry_is_not_kept:
  assumes "gc_transaction cfg" "mem_lookup k (gv_confirmations s) = Some c" "cf_expires c \<le> now" "requireKey k = Inr ()"
    "ca_requester (cf_action c) = who" "cf_status c = Pending"
  shows "\<exists>e. decideConfirmation cfg k who b now s = (Inl e, s)"
  using assms
  by (auto simp: decideConfirmation_def gov_serialize_def comp_simps run_stores requireConfirmation_def sql_lookup_def mem_lookup_def Let_def
      split: sum.splits option.splits)

subsection \<open>A run\<close>

definition demo_governance :: governance_config where
  "demo_governance = \<lparr>gc_transaction = True, gc_lib = demo_lib, gc_uuid = (\<lambda>n. replicate (Suc n) CHR ''u'')\<rparr>"

definition no_records :: gov where
  "no_records = \<lparr>gv_principals = [], gv_personas = [], gv_skills = [], gv_connections = [], gv_states = [], gv_confirmations = [],
     gv_invocations = [], gv_events = [], gv_uuids = 0\<rparr>"

definition demo_action :: confirmed_action where
  "demo_action = \<lparr>ca_requester = ''r'', ca_persona = ''p'', ca_actor = ''bot'', ca_capability = ''github.issue.comment'', ca_target = ''o/r'',
     ca_digest = ''d''\<rparr>"

text \<open>Asked, approved by somebody else in vain, approved, spent, and refused the second time.\<close>

definition demo_approvals :: "gov_op list" where
  "demo_approvals = [Ask_confirmation demo_action ''Comment'' 600 0, Decide_confirmation ''u'' ''x'' True 10, Use_confirmation ''u'' demo_action 15,
     Decide_confirmation ''u'' ''r'' True 20, Use_confirmation ''u'' demo_action 30, Use_confirmation ''u'' demo_action 40]"

lemma not_blank: "\<forall>c\<in>set s. \<not> is_space c \<Longrightarrow> trim s = s"
  by (simp add: trim_def trim_start_def dropWhile_eq_self_iff) (metis hd_in_set rev_is_Nil_conv rev_rev_ident set_rev dropWhile_eq_self_iff)

lemma demo_names: "names_fit demo_governance"
proof -
  have "replicate (Suc n) CHR ''u'' \<noteq> SYSTEM_OPERATOR_PRINCIPAL_ID" for n
  proof
    assume e: "replicate (Suc n) CHR ''u'' = SYSTEM_OPERATOR_PRINCIPAL_ID"
    have "hd SYSTEM_OPERATOR_PRINCIPAL_ID \<noteq> CHR ''u''" by code_simp
    then show False by (simp flip: e)
  qed
  moreover have "\<not> is_space CHR ''u''" by code_simp
  moreover have "inj (\<lambda>n. replicate (Suc n) CHR ''u'')" by (rule injI) (metis length_replicate nat.inject)
  ultimately show ?thesis by (simp add: names_fit_def demo_governance_def not_blank del: replicate_Suc)
qed

lemma demo_log: "gov_log demo_governance demo_approvals no_records =
    [Asked ''u'' demo_action 600, Decided ''u'' ''r'' True 20, Spent ''u'' demo_action 30]"
  by code_simp

theorem approval_is_single_use_witness:
  "approval_life ''u'' [Asked ''u'' demo_action 600, Decided ''u'' ''r'' True 20, Spent ''u'' demo_action 30]"
  using approval_is_single_use [of demo_governance demo_approvals no_records "''u''"] demo_names
  by (simp add: demo_log) (simp add: demo_governance_def demo_approvals_def op_fits_def no_records_def)

definition demo_started :: gov where
  "demo_started = snd (ensureSystem 0 no_records)"

lemma started_inv: "gov_inv cfg demo_started"
proof -
  have e: "demo_started = no_records\<lparr>gv_principals := [\<lparr>e_key = SYSTEM_OPERATOR_PRINCIPAL_ID, e_value = createSystemOperator 0, e_created = 0\<rparr>]\<rparr>"
    by code_simp
  show ?thesis
    unfolding e by (auto simp: gov_inv_def no_records_def named_table_def table_wf_def mem_lookup_def find_entry_def keys_of_def unique_member_def operator_id)
qed

definition demo_operations :: "gov_op list" where
  "demo_operations =
     [Create_principal (JObj [(''subject'', JStr ''bot''), (''label'', JStr ''Bot''), (''kind'', JStr ''service''), (''source'', JStr ''oidc'')]) ''op'' 1,
      Create_skill (JObj [(''name'', JStr ''Triage''), (''files'', JArr [JObj [(''path'', JStr ''SKILL.md''), (''content'', JStr ''x'')]])]) ''op'' 2]"

theorem governance_stays_consistent_witness:
  "gov_inv demo_governance (run_ops demo_governance demo_operations demo_started) \<and>
   length (gv_principals (run_ops demo_governance demo_operations demo_started)) = 2 \<and>
   map sk_slug (gov_values gv_skills (run_ops demo_governance demo_operations demo_started)) = [''triage'']"
proof (intro conjI)
  show "gov_inv demo_governance (run_ops demo_governance demo_operations demo_started)"
    by (rule governance_stays_consistent) (simp_all add: demo_names started_inv demo_operations_def op_fits_def, simp add: demo_governance_def)
qed code_simp+

definition demo_invocation :: invocation_record where
  "demo_invocation = \<lparr>iv_id = [], iv_claw = ''c'', iv_action = demo_action, iv_mode = Invoker, iv_fallback = False, iv_policy = 1,
     iv_confirmation = JUndef, iv_status = Issued, iv_issued = 0, iv_expires = 9, iv_completed = None\<rparr>"

definition demo_name :: "nat \<Rightarrow> string" where
  "demo_name n = gc_uuid demo_governance n"

definition demo_finished :: gov where
  \<comment> \<open>an approved skill and an invocation that succeeded\<close>
  "demo_finished = run_ops demo_governance (demo_operations @
     [Approve_skill (demo_name 3) ''op'' 3, Save_invocation demo_invocation 4, Update_invocation (demo_name 8) (Some Succeeded) (Some 5) 5]) demo_started"

definition demo_late :: "gov_op list" where
  "demo_late = [Approve_skill (demo_name 3) ''other'' 6, Update_invocation (demo_name 8) (Some Failed) (Some 7) 7]"

theorem decided_records_are_final_witness:
  "\<exists>(r :: skill_record) (i :: invocation_record).
     mem_lookup (demo_name 3) (gv_skills (run_ops demo_governance demo_late demo_finished)) = Some r \<and> sk_approver r = Some ''op'' \<and>
     mem_lookup (demo_name 8) (gv_invocations demo_finished) = Some i \<and> iv_status i = Succeeded \<and>
     mem_lookup (demo_name 8) (gv_invocations (run_ops demo_governance demo_late demo_finished)) \<in> {None, Some i}"
proof -
  let ?r = "the (mem_lookup (demo_name 3) (gv_skills demo_finished))" and ?i = "the (mem_lookup (demo_name 8) (gv_invocations demo_finished))"
  have e: "mem_lookup (demo_name 3) (gv_skills demo_finished) \<noteq> None" "sk_status ?r = Approved_skill" "sk_approver ?r = Some ''op''"
    "mem_lookup (demo_name 8) (gv_invocations demo_finished) \<noteq> None" "iv_status ?i = Succeeded"
    by code_simp+
  have f: "gc_transaction demo_governance" "\<forall>op\<in>set demo_late. op_fits op" "gov_inv demo_governance demo_finished"
    unfolding demo_finished_def
    by (rule_tac [3] run_ops_inv)
      (simp_all add: demo_names started_inv demo_operations_def demo_late_def op_fits_def, simp_all add: demo_governance_def)
  show ?thesis
    using decided_records_are_final [OF f(1) demo_names f(2,3), of "demo_name 3"] decided_records_are_final [OF f(1) demo_names f(2,3), of "demo_name 8"] e
    by (auto simp: invocation_open_def)
qed

end
