(* ===== verification/Text.thy ===== *)
theory Text
  imports Base64 Json_Parse
begin

text \<open>
  Bytes and texts: \<open>TextDecoder\<close> (WHATWG UTF-8, not fatal), hexadecimal digests,
  the comparison without early exit of worker/security.ts and worker/slack-signature.ts, and
  \<open>Number(text)\<close>. A decoded text is a list of code points; those of the model's strings are below 256.
\<close>

subsection \<open>UTF-8\<close>

definition replacement :: nat where
  "replacement = 65533"

text \<open>The bounds of the second byte, as the decoder keeps them (no overlong forms, no surrogates).\<close>

definition lower_bound :: "nat \<Rightarrow> nat" where
  "lower_bound b = (if b = 224 then 160 else if b = 240 then 144 else 128)"

definition upper_bound :: "nat \<Rightarrow> nat" where
  "upper_bound b = (if b = 237 then 159 else if b = 244 then 143 else 191)"

definition needed :: "nat \<Rightarrow> nat option" where
  \<comment> \<open>the continuation bytes after a first byte\<close>
  "needed b = (if b < 128 then Some 0 else if 194 \<le> b \<and> b \<le> 223 then Some 1 else if 224 \<le> b \<and> b \<le> 239 then Some 2
     else if 240 \<le> b \<and> b \<le> 244 then Some 3 else None)"

definition first_bits :: "nat \<Rightarrow> nat" where
  "first_bits b = (if b < 128 then b else if b < 224 then b mod 32 else if b < 240 then b mod 16 else b mod 8)"

text \<open>\<open>continue_utf8 n lo hi code bs\<close> reads \<open>n\<close> more bytes of a sequence; a byte out of bounds ends it and is read again.\<close>

fun continue_utf8 :: "nat \<Rightarrow> nat \<Rightarrow> nat \<Rightarrow> nat \<Rightarrow> nat list \<Rightarrow> nat \<times> nat list" where
  "continue_utf8 0 lo hi code bs = (code, bs)"
| "continue_utf8 (Suc n) lo hi code bs =
     (case bs of [] \<Rightarrow> (replacement, [])
      | b # r \<Rightarrow> if lo \<le> b \<and> b \<le> hi then continue_utf8 n 128 191 (code * 64 + b mod 64) r else (replacement, b # r))"

lemma continue_utf8_length: "length (snd (continue_utf8 n lo hi code bs)) \<le> length bs"
  by (induction n lo hi code bs rule: continue_utf8.induct) (auto split: list.splits)

lemma continue_utf8_rest: "(code, rest) = continue_utf8 n lo hi c bs \<Longrightarrow> length rest \<le> length bs"
  using continue_utf8_length [of n lo hi c bs] by (cases "continue_utf8 n lo hi c bs") auto

function decode_utf8 :: "nat list \<Rightarrow> nat list" where
  "decode_utf8 [] = []"
| "decode_utf8 (b # bs) =
     (case needed b of
        None \<Rightarrow> replacement # decode_utf8 bs
      | Some n \<Rightarrow> (case continue_utf8 n (lower_bound b) (upper_bound b) (first_bits b) bs of
          (code, rest) \<Rightarrow> code # decode_utf8 rest))"
  by pat_completeness auto
termination by (relation "measure length") (auto dest: continue_utf8_rest)

definition text_decode :: "nat list \<Rightarrow> nat list" where
  \<comment> \<open>\<open>new TextDecoder().decode(bytes)\<close>: a byte order mark at the start is dropped\<close>
  "text_decode bs = decode_utf8 (if take 3 bs = [239, 187, 191] then drop 3 bs else bs)"

definition latin_text :: "nat list \<Rightarrow> string option" where
  \<comment> \<open>a text of the model; the texts beyond it are not represented\<close>
  "latin_text codes = (if \<forall>c\<in>set codes. c < 256 then Some (map char_of codes) else None)"

definition encode_codes :: "nat list \<Rightarrow> nat list" where
  \<comment> \<open>\<open>new TextEncoder().encode\<close> of a text given by its code points\<close>
  "encode_codes codes = concat (map (\<lambda>c.
     if c < 128 then [c]
     else if c < 2048 then [192 + c div 64, 128 + c mod 64]
     else if c < 65536 then [224 + c div 4096, 128 + c div 64 mod 64, 128 + c mod 64]
     else [240 + c div 262144, 128 + c div 4096 mod 64, 128 + c div 64 mod 64, 128 + c mod 64]) codes)"

lemma decode_utf8_bytes: "decode_utf8 (utf8_bytes s) = map code_unit s"
proof (induction s)
  case (Cons c s)
  have l: "code_unit c < 256" by (rule code_unit_less)
  show ?case
  proof (cases "code_unit c < 128")
    case True
    then show ?thesis using Cons by (simp add: utf8_bytes_def needed_def first_bits_def)
  next
    case False
    then have d: "2 \<le> code_unit c div 64" "code_unit c div 64 < 4" using less_mult_imp_div_less [of "code_unit c" 4 64] l by auto
    let ?b = "192 + code_unit c div 64"
    have b: "194 \<le> ?b" "?b \<le> 195" using d by auto
    have f: "needed ?b = Some 1" "lower_bound ?b = 128" "upper_bound ?b = 191" "first_bits ?b = code_unit c div 64"
      using b d mod_mult_self1 [of "code_unit c div 64" 6 32] by (auto simp: add.commute needed_def lower_bound_def upper_bound_def first_bits_def)
    have m: "code_unit c mod 64 < 64" by simp
    then have "128 \<le> 128 + code_unit c mod 64 \<and> 128 + code_unit c mod 64 \<le> 191" by linarith
    moreover have "(128 + code_unit c mod 64) mod 64 = code_unit c mod 64"
      using mod_mult_self1 [of "code_unit c mod 64" 2 64] by (simp add: add.commute)
    ultimately have "continue_utf8 (Suc 0) 128 191 (code_unit c div 64) ((128 + code_unit c mod 64) # x) = (code_unit c, x)" for x
      by simp
    then show ?thesis using False f Cons by (simp add: utf8_bytes_def)
  qed
qed (simp add: utf8_bytes_def)

lemma utf8_no_mark: "take 3 (utf8_bytes s) \<noteq> [239, 187, 191]"
proof (cases s)
  case (Cons c r)
  have "code_unit c div 64 < 4" by (rule less_mult_imp_div_less) (use code_unit_less [of c] in simp)
  then have "hd (utf8_bytes s) \<noteq> 239 \<and> utf8_bytes s \<noteq> []" using Cons by (auto simp: utf8_bytes_def)
  then show ?thesis by (cases "utf8_bytes s") auto
qed (simp add: utf8_bytes_def)

lemma text_round_trip: "latin_text (text_decode (utf8_bytes s)) = Some s"
proof -
  have "map (char_of \<circ> code_unit) s = s" by (simp add: map_idI)
  then show ?thesis using utf8_no_mark [of s] code_unit_less by (auto simp: text_decode_def decode_utf8_bytes latin_text_def)
qed

lemma utf8_bytes_inj: "utf8_bytes s = utf8_bytes t \<longleftrightarrow> s = t"
  using text_round_trip by (metis option.inject)

lemma encode_codes_latin: "encode_codes (map code_unit s) = utf8_bytes s"
proof -
  have "code_unit c < 2048" for c using code_unit_less [of c] by linarith
  then show ?thesis by (induction s) (auto simp: encode_codes_def utf8_bytes_def)
qed

subsection \<open>Comparison without early exit\<close>

unbundle bit_operations_syntax

definition byte_at :: "nat list \<Rightarrow> nat \<Rightarrow> nat" where
  \<comment> \<open>\<open>bytes[i % bytes.length] ?? 0\<close>\<close>
  "byte_at bs i = (if bs = [] then 0 else bs ! (i mod length bs))"

definition constantTimeText :: "string \<Rightarrow> string \<Rightarrow> bool" where
  "constantTimeText a b =
     (let aa = utf8_bytes a; bb = utf8_bytes b in
      fold (\<lambda>i mismatch. mismatch OR (byte_at aa i XOR byte_at bb i)) [0..<max (length aa) (length bb)] (length aa XOR length bb) = 0)"

definition constantTime :: "string \<Rightarrow> string \<Rightarrow> bool" where
  "constantTime a b =
     (let left = utf8_bytes a; right = utf8_bytes b; n = max (max (length left) (length right)) 1 in
      fold (\<lambda>i mismatch. mismatch OR (byte_at left i XOR byte_at right i)) [0..<n] (length left XOR length right) = 0)"

lemma xor_zero: "(a :: nat) XOR b = 0 \<longleftrightarrow> a = b"
  by (auto simp: bit_eq_iff bit_xor_iff)

lemma fold_or_zero: "fold (\<lambda>i m. m OR f i) is m = (0 :: nat) \<longleftrightarrow> m = 0 \<and> (\<forall>i\<in>set is. f i = 0)"
  by (induction "is" arbitrary: m) (auto simp: or_eq_0_iff)

lemma byte_at_nth: "i < length bs \<Longrightarrow> byte_at bs i = bs ! i"
  by (auto simp: byte_at_def)

lemma bytes_equal:
  assumes "max (length aa) (length bb) \<le> n"
  shows "fold (\<lambda>i m. m OR (byte_at aa i XOR byte_at bb i)) [0..<n] (length aa XOR length bb) = 0 \<longleftrightarrow> aa = bb"
proof -
  have "fold (\<lambda>i m. m OR (byte_at aa i XOR byte_at bb i)) [0..<n] (length aa XOR length bb) = 0 \<longleftrightarrow>
      length aa = length bb \<and> (\<forall>i<n. byte_at aa i = byte_at bb i)"
    by (auto simp: fold_or_zero xor_zero)
  also have "\<dots> \<longleftrightarrow> aa = bb"
  proof
    assume h: "length aa = length bb \<and> (\<forall>i<n. byte_at aa i = byte_at bb i)"
    show "aa = bb"
    proof (rule nth_equalityI)
      fix i assume "i < length aa"
      then show "aa ! i = bb ! i" using h assms byte_at_nth [of i aa] byte_at_nth [of i bb] by auto
    qed (use h in simp)
  qed simp
  finally show ?thesis .
qed

lemma constantTimeText_eq: "constantTimeText a b \<longleftrightarrow> a = b"
  by (simp add: constantTimeText_def Let_def bytes_equal utf8_bytes_inj)

lemma constantTime_eq: "constantTime a b \<longleftrightarrow> a = b"
  by (simp add: constantTime_def Let_def bytes_equal utf8_bytes_inj)

subsection \<open>Hexadecimal digests\<close>

definition hex_digit :: "nat \<Rightarrow> char" where
  "hex_digit n = (if n < 10 then char_of (48 + n) else char_of (87 + n))"

definition hex_string :: "nat list \<Rightarrow> string" where
  "hex_string bs = concat (map (\<lambda>b. [hex_digit (b div 16), hex_digit (b mod 16)]) bs)"

lemma hex_digit_is_hex: "n < 16 \<Longrightarrow> is_hex (hex_digit n)"
  by (auto simp: hex_digit_def is_hex_def is_digit_def of_char_of)

lemma hex_string_hex: "\<forall>b\<in>set bs. b < 256 \<Longrightarrow> c \<in> set (hex_string bs) \<Longrightarrow> is_hex c"
  by (auto simp: hex_string_def intro!: hex_digit_is_hex less_mult_imp_div_less)

lemma length_hex_string: "length (hex_string bs) = 2 * length bs"
  by (induction bs) (simp_all add: hex_string_def)

subsection \<open>\<open>Number(text)\<close>\<close>

text \<open>\<open>Number\<close> on strings, exact: the rounding to a double is not modelled.\<close>

definition digit_value_in :: "nat \<Rightarrow> char \<Rightarrow> nat option" where
  "digit_value_in base c =
     (let d = lower_char c; v = (if is_digit d then code_unit d - 48 else if is_lower d then code_unit d - 87 else 36)
      in if v < base then Some v else None)"

definition radix_number :: "nat \<Rightarrow> string \<Rightarrow> jsnum" where
  "radix_number base ds =
     (if ds = [] \<or> (\<exists>c\<in>set ds. digit_value_in base c = None) then NaN
      else Fin (of_nat (foldl (\<lambda>n c. n * base + the (digit_value_in base c)) 0 ds)))"

definition decimal_number :: "string \<Rightarrow> jsnum" where
  "decimal_number t =
     (let (ds, r) = read_digits t; dot = (r \<noteq> [] \<and> hd r = CHR ''.''); (fs, u) = (if dot then read_digits (tl r) else ([], r)) in
      if ds = [] \<and> fs = [] then NaN
      else (case read_exponent u of
          Some (e, []) \<Rightarrow> Fin ((of_nat (digits_value ds) + fraction_value fs) * e)
        | _ \<Rightarrow> NaN))"

definition negated :: "jsnum \<Rightarrow> jsnum" where
  "negated n = (case n of Fin r \<Rightarrow> Fin (- r) | PosInf \<Rightarrow> NegInf | NegInf \<Rightarrow> PosInf | NaN \<Rightarrow> NaN)"

definition unsigned_number :: "string \<Rightarrow> jsnum" where
  "unsigned_number t = (if t = ''Infinity'' then PosInf else decimal_number t)"

definition js_number :: "string \<Rightarrow> jsnum" where
  "js_number s =
     (let t = trim s; kind = lower_char (hd (tl t)) in
      if t = [] then Fin 0
      else if hd t = CHR ''0'' \<and> tl t \<noteq> [] \<and> kind \<in> {CHR ''x'', CHR ''o'', CHR ''b''}
      then radix_number (if kind = CHR ''x'' then 16 else if kind = CHR ''o'' then 8 else 2) (drop 2 t)
      else if hd t = CHR ''-'' then negated (unsigned_number (tl t))
      else if hd t = CHR ''+'' then unsigned_number (tl t)
      else unsigned_number t)"

end
