(* ===== verification/Tokens.thy ===== *)
theory Tokens
  imports Text Governance_Rules
begin

text \<open>
  worker/security.ts (\<open>signClaims\<close>, \<open>verifyClaims\<close>) and worker/slack-signature.ts
  (\<open>verifySlackRequest\<close>). HMAC-SHA-256 is a parameter: a function of the key's and the message's bytes.
  A token whose payload is a text beyond the model's strings counts as malformed.
\<close>

type_synonym hmac = "nat list \<Rightarrow> nat list \<Rightarrow> nat list"

subsection \<open>worker/security.ts\<close>

definition requireSecret :: "string \<Rightarrow> unit result" where
  "requireSecret secret = refuse_if (utf8_length secret < 32) (PlainError ''signing secret must contain at least 32 bytes'')"

definition signature :: "hmac \<Rightarrow> string \<Rightarrow> string \<Rightarrow> string" where
  "signature hm secret payload = base64url (hm (utf8_bytes secret) (utf8_bytes payload))"

definition fromBase64url :: "string \<Rightarrow> nat list result" where
  "fromBase64url s =
     bindR (refuse_if (s = [] \<or> \<not> list_all is_base64url s) (PlainError ''invalid base64url'')) (\<lambda>_. Inr (from_base64url s))"

definition seconds_of :: "int \<Rightarrow> int" where
  \<comment> \<open>\<open>Math.floor(Date.now() / 1000)\<close>\<close>
  "seconds_of now = now div 1000"

definition token_payload :: "jsval \<Rightarrow> int \<Rightarrow> string \<Rightarrow> int \<Rightarrow> jsval" where
  "token_payload claims ttl jti now = spread claims (JObj
     [(''iss'', JStr ''crabhelm''), (''jti'', JStr jti), (''iat'', jint (seconds_of now)), (''exp'', jint (seconds_of now + ttl))])"

definition signClaims :: "hmac \<Rightarrow> string \<Rightarrow> jsval \<Rightarrow> int \<Rightarrow> string \<Rightarrow> int \<Rightarrow> string result" where
  "signClaims hm secret claims ttl jti now =
     bindR (requireSecret secret) (\<lambda>_.
     bindR (refuse_if (ttl < 30 \<or> 86400 < ttl) (PlainError ''token TTL is invalid'')) (\<lambda>_.
     let encoded = base64url (utf8_bytes (print_json (token_payload claims ttl jti now)))
     in Inr (encoded @ ''.'' @ signature hm secret encoded)))"

definition read_claims :: "string \<Rightarrow> jsval option" where
  \<comment> \<open>\<open>JSON.parse(new TextDecoder().decode(fromBase64url(part)))\<close>; \<open>None\<close>: it throws\<close>
  "read_claims part =
     (case fromBase64url part of Inl e \<Rightarrow> None
      | Inr bs \<Rightarrow> (case latin_text (text_decode bs) of None \<Rightarrow> None | Some t \<Rightarrow> json_parse t))"

definition claims_named :: "string \<Rightarrow> string \<Rightarrow> jsval \<Rightarrow> bool" where
  "claims_named typ aud claims \<longleftrightarrow> get claims ''iss'' = JStr ''crabhelm'' \<and> get claims ''typ'' = JStr typ \<and> get claims ''aud'' = JStr aud \<and>
     truthy (get claims ''jti'') \<and> js_integer (get claims ''iat'') \<noteq> None \<and> js_integer (get claims ''exp'') \<noteq> None"

definition claims_timely :: "int \<Rightarrow> jsval \<Rightarrow> bool" where
  "claims_timely now claims \<longleftrightarrow>
     (let iat = the (js_integer (get claims ''iat'')); exp = the (js_integer (get claims ''exp''))
      in \<not> (exp \<le> now \<or> now + 30 < iat \<or> 86400 < exp - iat))"

definition verifyClaims :: "hmac \<Rightarrow> string \<Rightarrow> string \<Rightarrow> string \<Rightarrow> string \<Rightarrow> int \<Rightarrow> jsval result" where
  "verifyClaims hm secret token typ aud now =
     bindR (requireSecret secret) (\<lambda>_.
     case split_on (CHR ''.'') token of
       [payload, given] \<Rightarrow>
         if payload = [] \<or> given = [] then Inl (PlainError ''token is malformed'')
         else if \<not> constantTimeText (signature hm secret payload) given then Inl (PlainError ''token signature is invalid'')
         else (case read_claims payload of
             None \<Rightarrow> Inl (PlainError ''token payload is invalid'')
           | Some claims \<Rightarrow>
               if claims = JNull then Inl type_error
               else if \<not> claims_named typ aud claims then Inl (PlainError ''token claims are invalid'')
               else if \<not> claims_timely (seconds_of now) claims then Inl (PlainError ''token expired or has an invalid lifetime'')
               else Inr claims)
     | _ \<Rightarrow> Inl (PlainError ''token is malformed''))"

definition sessionPayload :: "string \<Rightarrow> string list \<Rightarrow> jsval" where
  "sessionPayload who roles = JObj
     [(''typ'', JStr ''session''), (''aud'', JStr ''crabhelm-control-plane''), (''principalId'', JStr who), (''roles'', js_strings roles)]"

subsection \<open>What is accepted\<close>

lemma split_on_Nil [simp]: "split_on d s \<noteq> []"
  by (induction s) (auto split: list.splits)

lemma split_on_none: "d \<notin> set s \<Longrightarrow> split_on d s = [s]"
  by (induction s) auto

lemma split_on_join: "d \<notin> set a \<Longrightarrow> split_on d (a @ d # s) = a # split_on d s"
  by (induction a) auto

lemma split_on_split: "d \<in> set s \<Longrightarrow> \<exists>a r. s = a @ d # r \<and> d \<notin> set a"
  by (rule split_list_first)

lemma split_on_one: "split_on d s = [a] \<longleftrightarrow> s = a \<and> d \<notin> set a"
  using split_on_none [of d s] split_on_split [of d s] by (cases "d \<in> set s") (auto simp: split_on_join)

lemma split_on_two: "split_on d s = [a, b] \<longleftrightarrow> s = a @ [d] @ b \<and> d \<notin> set a \<and> d \<notin> set b"
proof
  assume e: "split_on d s = [a, b]"
  have "d \<in> set s"
  proof (rule ccontr)
    assume "d \<notin> set s"
    from split_on_none [OF this] e show False by simp
  qed
  from split_list_first [OF this] obtain x r where s: "s = x @ d # r" "d \<notin> set x" by (elim exE conjE)
  have "x # split_on d r = [a, b]" using e split_on_join [OF s(2), of r] s(1) by metis
  then have "x = a" "r = b \<and> d \<notin> set b" using split_on_one [of d r b] by auto
  then show "s = a @ [d] @ b \<and> d \<notin> set a \<and> d \<notin> set b" using s by simp
next
  assume "s = a @ [d] @ b \<and> d \<notin> set a \<and> d \<notin> set b"
  then show "split_on d s = [a, b]" by (simp add: split_on_join split_on_none)
qed

lemma dot_not_base64url: "\<not> is_base64url CHR ''.''"
  by (simp add: is_base64url_def char_class_defs)

lemma signature_chars: "CHR ''.'' \<notin> set (signature hm secret p)"
  using base64url_chars dot_not_base64url unfolding signature_def by blast

lemma verifyClaims_Inr:
  "verifyClaims hm secret token typ aud now = Inr c \<longleftrightarrow>
     32 \<le> utf8_length secret \<and>
     (\<exists>p. token = p @ ''.'' @ signature hm secret p \<and> p \<noteq> [] \<and> signature hm secret p \<noteq> [] \<and> CHR ''.'' \<notin> set p \<and>
        read_claims p = Some c \<and> c \<noteq> JNull \<and> claims_named typ aud c \<and> claims_timely (seconds_of now) c)"
  (is "?l \<longleftrightarrow> ?r")
proof
  assume ?l
  then obtain p g where s: "split_on (CHR ''.'') token = [p, g]" and secret: "32 \<le> utf8_length secret"
    by (auto simp: verifyClaims_def requireSecret_def not_less split: list.splits)
  then have g: "g = signature hm secret p" "p \<noteq> []" "g \<noteq> []" "read_claims p = Some c" "c \<noteq> JNull" "claims_named typ aud c"
      "claims_timely (seconds_of now) c"
    using \<open>?l\<close> by (auto simp: verifyClaims_def constantTimeText_eq split: if_splits option.splits)
  with s secret show ?r unfolding split_on_two by auto
next
  assume ?r
  then obtain p where p: "token = p @ ''.'' @ signature hm secret p" "p \<noteq> []" "signature hm secret p \<noteq> []" "CHR ''.'' \<notin> set p"
      "read_claims p = Some c" "c \<noteq> JNull" "claims_named typ aud c" "claims_timely (seconds_of now) c" "32 \<le> utf8_length secret" by blast
  then have s: "split_on (CHR ''.'') token = [p, signature hm secret p]" using signature_chars by (simp add: split_on_two)
  show ?l using p(2-) by (simp add: verifyClaims_def requireSecret_def refuse_if_def s constantTimeText_eq)
qed

lemma named_once: "claims_named typ aud c \<Longrightarrow> claims_named typ' aud' c \<longleftrightarrow> typ' = typ \<and> aud' = aud"
  by (auto simp: claims_named_def)

text \<open>
  C33. An accepted token is authentic: it carries the signature, under the secret, of its own payload; it was issued by
  Crabhelm for the purpose it is accepted for, and is accepted for no other; it has not expired and lives at most
  a day. Under a collision-free HMAC the payload of an accepted token cannot be replaced.
\<close>

theorem accepted_token_is_authentic:
  assumes "verifyClaims hm secret token typ aud now = Inr c"
  shows "(\<exists>p. token = p @ ''.'' @ signature hm secret p \<and> read_claims p = Some c) \<and>
    get c ''iss'' = JStr ''crabhelm'' \<and> get c ''typ'' = JStr typ \<and> get c ''aud'' = JStr aud \<and>
    (\<exists>iat exp. js_integer (get c ''iat'') = Some iat \<and> js_integer (get c ''exp'') = Some exp \<and>
       seconds_of now < exp \<and> iat \<le> seconds_of now + 30 \<and> exp - iat \<le> 86400) \<and>
    (\<forall>typ' aud' now' c'. verifyClaims hm secret token typ' aud' now' = Inr c' \<longrightarrow> typ' = typ \<and> aud' = aud \<and> c' = c)"
proof -
  obtain p where p: "token = p @ ''.'' @ signature hm secret p" "CHR ''.'' \<notin> set p" "read_claims p = Some c" "claims_named typ aud c"
      "claims_timely (seconds_of now) c" using assms by (auto simp: verifyClaims_Inr)
  have split: "split_on (CHR ''.'') token = [q, signature hm secret q]" if "token = q @ ''.'' @ signature hm secret q" "CHR ''.'' \<notin> set q" for q
    using that signature_chars by (simp add: split_on_two)
  have "p' = p" if "token = p' @ ''.'' @ signature hm secret p'" "CHR ''.'' \<notin> set p'" for p'
    using split [OF that] split [OF p(1,2)] by simp
  then have other: "typ' = typ \<and> aud' = aud \<and> c' = c" if "verifyClaims hm secret token typ' aud' now' = Inr c'" for typ' aud' now' c'
    using that p(3,4) named_once [OF p(4)] unfolding verifyClaims_Inr by fastforce
  show ?thesis
    using p other by (auto simp: claims_named_def claims_timely_def Let_def)
qed

subsection \<open>What was signed is accepted\<close>

lemma set_key_fst: "map fst (set_key k v l) = (if k \<in> fst ` set l then map fst l else map fst l @ [k])"
proof (induction l)
  case (Cons p l)
  then show ?case by (cases p) simp
qed simp

lemma set_key_distinct: "distinct (map fst l) \<Longrightarrow> distinct (map fst (set_key k v l))"
  by (simp add: set_key_fst)

lemma set_key_member: "p \<in> set (set_key k v l) \<Longrightarrow> p = (k, v) \<or> p \<in> set l"
  by (induction l) (auto split: if_splits)

lemma set_key_data: "json_data (JObj kvs) \<Longrightarrow> json_data v \<Longrightarrow> json_data (JObj (set_key k v kvs))"
  using set_key_distinct [of kvs k v] set_key_member [of _ k v kvs] by fastforce

lemma fold_set_key_data: "json_data (JObj a) \<Longrightarrow> \<forall>p\<in>set b. json_data (snd p) \<Longrightarrow> json_data (JObj (foldl (\<lambda>acc (k, v). set_key k v acc) a b))"
proof (induction b arbitrary: a)
  case (Cons p b)
  have "json_data (JObj (set_key (fst p) (snd p) a))" using Cons.prems by (intro set_key_data) simp_all
  then show ?case using Cons.IH Cons.prems(2) by (simp add: case_prod_beta del: json_data.simps)
qed simp

lemma json_data_jint: "json_data (jint i)"
  by (simp add: jint_def)

lemma token_payload_data:
  assumes "json_data (JObj kvs)"
  shows "json_data (token_payload (JObj kvs) ttl jti now)"
  unfolding token_payload_def spread_def Json.fields_def jsval.case
  by (rule fold_set_key_data [OF assms]) (simp add: json_data_jint)

lemma get_token_payload:
  "get (token_payload claims ttl jti now) ''iss'' = JStr ''crabhelm''" "get (token_payload claims ttl jti now) ''jti'' = JStr jti"
  "get (token_payload claims ttl jti now) ''iat'' = jint (seconds_of now)" "get (token_payload claims ttl jti now) ''exp'' = jint (seconds_of now + ttl)"
  "get (token_payload claims ttl jti now) ''typ'' = get claims ''typ''" "get (token_payload claims ttl jti now) ''aud'' = get claims ''aud''"
  by (simp_all add: token_payload_def get_spread Json.fields_def [of "JObj _"])

lemma print_json_not_Nil: "json_data v \<Longrightarrow> print_json v \<noteq> []"
  using json_round_trip [of v] by (auto simp: json_parse_def skip_space_def)

lemma base64url_Nil: "base64url bs = [] \<longleftrightarrow> bs = []"
  by (cases bs rule: base64url.cases) simp_all

lemma utf8_bytes_Nil: "utf8_bytes s = [] \<longleftrightarrow> s = []"
  by (cases s) (simp_all add: utf8_bytes_def)

lemma read_claims_encoded:
  assumes "json_data v"
  shows "read_claims (base64url (utf8_bytes (print_json v))) = Some v"
proof -
  let ?bs = "utf8_bytes (print_json v)"
  have "base64url ?bs \<noteq> []" using print_json_not_Nil [OF assms] by (simp add: base64url_Nil utf8_bytes_Nil)
  moreover have "list_all is_base64url (base64url ?bs)" using base64url_chars by (auto simp: list_all_iff)
  moreover have "from_base64url (base64url ?bs) = ?bs" using utf8_bytes_less by (intro base64_round_trip) blast
  ultimately show ?thesis
    by (simp add: read_claims_def fromBase64url_def refuse_if_def text_round_trip json_round_trip [OF assms])
qed

lemma signed_accepted:
  assumes "signClaims hm secret (JObj kvs) ttl jti issued = Inr token" "json_data (JObj kvs)" "jti \<noteq> []"
    and "get (JObj kvs) ''typ'' = JStr typ" "get (JObj kvs) ''aud'' = JStr aud" "\<And>k m. hm k m \<noteq> []"
    and "seconds_of issued \<le> seconds_of now + 30" "seconds_of now < seconds_of issued + ttl"
  shows "verifyClaims hm secret token typ aud now = Inr (token_payload (JObj kvs) ttl jti issued)"
proof -
  let ?c = "token_payload (JObj kvs) ttl jti issued" and ?p = "base64url (utf8_bytes (print_json (token_payload (JObj kvs) ttl jti issued)))"
  note data = token_payload_data [OF assms(2), of ttl jti issued]
  have t: "token = ?p @ ''.'' @ signature hm secret ?p" "32 \<le> utf8_length secret" "ttl \<le> 86400"
    using assms(1) by (auto simp: signClaims_def requireSecret_def Let_def not_less)
  have "CHR ''.'' \<notin> set ?p" using base64url_chars dot_not_base64url by blast
  moreover have "?p \<noteq> []" using print_json_not_Nil [OF data] by (simp add: base64url_Nil utf8_bytes_Nil)
  moreover have "signature hm secret ?p \<noteq> []" using assms(6) by (simp add: signature_def base64url_Nil)
  moreover have "claims_named typ aud ?c" using assms(3-5) by (simp add: claims_named_def get_token_payload)
  moreover have "claims_timely (seconds_of now) ?c" using assms(7,8) t(3) by (simp add: claims_timely_def get_token_payload Let_def)
  moreover have "?c \<noteq> JNull" by (simp add: token_payload_def spread_def)
  ultimately show ?thesis using t(1,2) read_claims_encoded [OF data] by (auto simp: verifyClaims_Inr)
qed

text \<open>
  C34. Sign and verify. A token that was signed for a purpose is accepted for that purpose, with its claims and the
  standard members, from half a minute before it was issued until it expires.
\<close>

theorem signed_token_verifies:
  assumes "signClaims hm secret (JObj kvs) ttl jti issued = Inr token" "json_data (JObj kvs)" "jti \<noteq> []"
    and "get (JObj kvs) ''typ'' = JStr typ" "get (JObj kvs) ''aud'' = JStr aud" "\<And>k m. hm k m \<noteq> []"
    and "seconds_of issued \<le> seconds_of now + 30" "seconds_of now < seconds_of issued + ttl"
  shows "verifyClaims hm secret token typ aud now = Inr (token_payload (JObj kvs) ttl jti issued)"
  using assms by (rule signed_accepted)

definition demo_hmac :: hmac where
  \<comment> \<open>a checksum in place of HMAC-SHA-256\<close>
  "demo_hmac k m = replicate 31 (length k mod 256) @ [length m mod 256]"

definition demo_secret :: string where
  "demo_secret = replicate 32 CHR ''s''"

definition demo_session :: "(string \<times> jsval) list" where
  "demo_session = Json.fields (sessionPayload ''p-1'' [''operator''])"

definition demo_token :: string where
  "demo_token = projr (signClaims demo_hmac demo_secret (JObj demo_session) 60 ''t-1'' 5000)"

lemma demo_token: "signClaims demo_hmac demo_secret (JObj demo_session) 60 ''t-1'' 5000 = Inr demo_token"
proof -
  have "case signClaims demo_hmac demo_secret (JObj demo_session) 60 ''t-1'' 5000 of Inl _ \<Rightarrow> False | Inr _ \<Rightarrow> True" by code_simp
  from evaluated_Inr [OF this] show ?thesis unfolding demo_token_def by blast
qed

theorem signed_token_verifies_witness:
  "verifyClaims demo_hmac demo_secret demo_token ''session'' ''crabhelm-control-plane'' 9000 =
     Inr (token_payload (JObj demo_session) 60 ''t-1'' 5000)"
proof -
  have "json_data (JObj demo_session)" "get (JObj demo_session) ''typ'' = JStr ''session''"
    "get (JObj demo_session) ''aud'' = JStr ''crabhelm-control-plane''" by code_simp+
  from signed_token_verifies [OF demo_token this(1) _ this(2,3), of 9000] show ?thesis by (simp add: demo_hmac_def seconds_of_def)
qed

lemma demo_accepted: "\<exists>c. verifyClaims demo_hmac demo_secret demo_token ''session'' ''crabhelm-control-plane'' 9000 = Inr c"
proof -
  have "case verifyClaims demo_hmac demo_secret demo_token ''session'' ''crabhelm-control-plane'' 9000 of Inl _ \<Rightarrow> False | Inr _ \<Rightarrow> True"
    by code_simp
  from evaluated_Inr [OF this] show ?thesis by blast
qed

theorem accepted_token_is_authentic_witness:
  "\<exists>c p. verifyClaims demo_hmac demo_secret demo_token ''session'' ''crabhelm-control-plane'' 9000 = Inr c \<and>
     demo_token = p @ ''.'' @ signature demo_hmac demo_secret p \<and>
     (\<forall>now' c'. verifyClaims demo_hmac demo_secret demo_token ''turn'' ''crabhelm-runtime-turn'' now' \<noteq> Inr c')"
proof -
  obtain c where c: "verifyClaims demo_hmac demo_secret demo_token ''session'' ''crabhelm-control-plane'' 9000 = Inr c"
    using demo_accepted by blast
  note a = accepted_token_is_authentic [OF c]
  from a obtain p where p: "demo_token = p @ ''.'' @ signature demo_hmac demo_secret p" by blast
  have "verifyClaims demo_hmac demo_secret demo_token ''turn'' ''crabhelm-runtime-turn'' now' \<noteq> Inr c'" for now' c'
  proof
    assume "verifyClaims demo_hmac demo_secret demo_token ''turn'' ''crabhelm-runtime-turn'' now' = Inr c'"
    with a have "''turn'' = ''session''" by blast
    then show False by simp
  qed
  with c p show ?thesis by blast
qed

subsection \<open>worker/slack-signature.ts\<close>

definition maxSlackBodyBytes :: nat where
  "maxSlackBodyBytes = 128 * 1024"

definition slack_signature_form :: "string \<Rightarrow> bool" where
  \<comment> \<open>\<open>/^v0=[0-9a-f]{64}$/u\<close>\<close>
  "slack_signature_form s \<longleftrightarrow> prefix_of ''v0='' s \<and> length s = 67 \<and> list_all is_hex (drop 3 s)"

definition slack_payload :: "string \<Rightarrow> nat list \<Rightarrow> nat list" where
  "slack_payload timestamp raw = utf8_bytes (''v0:'' @ timestamp @ '':'') @ encode_codes (text_decode raw)"

definition slack_fresh :: "int \<Rightarrow> jsnum \<Rightarrow> bool" where
  "slack_fresh now seconds \<longleftrightarrow>
     (case seconds of Fin r \<Rightarrow> is_integer r \<and> \<not> 300 < \<bar>of_int now / 1000 - r\<bar> | _ \<Rightarrow> False)"

definition verifySlackRequest :: "hmac \<Rightarrow> (string \<Rightarrow> string option) \<Rightarrow> nat list \<Rightarrow> string \<Rightarrow> int \<Rightarrow> bool" where
  "verifySlackRequest hm headers raw secret now =
     (if secret = [] \<or> maxSlackBodyBytes < length raw then False
      else
        let timestamp = (case headers ''x-slack-request-timestamp'' of Some t \<Rightarrow> t | None \<Rightarrow> []);
            given = (case headers ''x-slack-signature'' of Some t \<Rightarrow> t | None \<Rightarrow> []) in
        if \<not> slack_fresh now (js_number timestamp) \<or> \<not> slack_signature_form given then False
        else constantTime (''v0='' @ hex_string (hm (utf8_bytes secret) (slack_payload timestamp raw))) given)"

lemma slack_payload_text: "slack_payload timestamp (utf8_bytes body) = utf8_bytes (''v0:'' @ timestamp @ '':'' @ body)"
proof -
  have "text_decode (utf8_bytes body) = map code_unit body" using utf8_no_mark by (simp add: text_decode_def decode_utf8_bytes)
  then show ?thesis by (simp add: slack_payload_def encode_codes_latin) (simp add: utf8_bytes_def)
qed

lemma slack_digest_form:
  assumes "\<forall>b\<in>set d. b < 256" "length d = 32"
  shows "slack_signature_form (''v0='' @ hex_string d)"
  using hex_string_hex [OF assms(1)] assms(2) by (auto simp: slack_signature_form_def prefix_of_def length_hex_string list_all_iff)

text \<open>
  A Slack request is accepted exactly when a secret is set, the body has at most 128 KiB, its time stamp is a
  whole number of seconds within five minutes of now, and its signature is the keyed hash of the version, the time
  stamp and the body: for a body that is UTF-8 text, of these bytes themselves.
\<close>

theorem slack_request_is_signed:
  assumes "\<And>k m. length (hm k m) = 32 \<and> (\<forall>b\<in>set (hm k m). b < 256)"
  shows "verifySlackRequest hm headers raw secret now \<longleftrightarrow>
    secret \<noteq> [] \<and> length raw \<le> 131072 \<and>
    (\<exists>ts seconds. (headers ''x-slack-request-timestamp'' = Some ts \<or> headers ''x-slack-request-timestamp'' = None \<and> ts = []) \<and>
       js_number ts = Fin (of_int seconds) \<and> \<bar>now - 1000 * seconds\<bar> \<le> 300000 \<and>
       headers ''x-slack-signature'' = Some (''v0='' @ hex_string (hm (utf8_bytes secret) (slack_payload ts raw)))) \<and>
    (\<forall>body ts. raw = utf8_bytes body \<longrightarrow> slack_payload ts raw = utf8_bytes (''v0:'' @ ts @ '':'' @ body))"
proof -
  have int: "slack_fresh now n \<longleftrightarrow> (\<exists>seconds. n = Fin (of_int seconds) \<and> \<bar>now - 1000 * seconds\<bar> \<le> 300000)" for n
  proof
    assume "slack_fresh now n"
    then obtain r where r: "n = Fin r" "is_integer r" "\<bar>of_int now / 1000 - r\<bar> \<le> 300" by (auto simp: slack_fresh_def split: jsnum.splits)
    then have i: "r = of_int \<lfloor>r\<rfloor>" by (metis Json.is_integer_def floor_of_int)
    have "\<bar>of_int now - 1000 * r\<bar> \<le> 300000" using r(3) by (simp add: abs_le_iff)
    then have "\<bar>of_int (now - 1000 * \<lfloor>r\<rfloor>)\<bar> \<le> (300000 :: rat)" using i by simp
    then have "\<bar>now - 1000 * \<lfloor>r\<rfloor>\<bar> \<le> 300000" by linarith
    then show "\<exists>seconds. n = Fin (of_int seconds) \<and> \<bar>now - 1000 * seconds\<bar> \<le> 300000" using r(1) i by metis
  next
    assume "\<exists>seconds. n = Fin (of_int seconds) \<and> \<bar>now - 1000 * seconds\<bar> \<le> 300000"
    then obtain k where k: "n = Fin (of_int k)" "\<bar>now - 1000 * k\<bar> \<le> 300000" by blast
    then have "\<bar>of_int (now - 1000 * k)\<bar> \<le> (300000 :: rat)" by linarith
    then have "of_int now - 1000 * of_int k \<le> (300000 :: rat)" "1000 * of_int k - of_int now \<le> (300000 :: rat)" by (simp_all add: abs_le_iff)
    then have "\<bar>of_int now / 1000 - of_int k\<bar> \<le> (300 :: rat)" unfolding abs_le_iff by linarith
    then show "slack_fresh now n" using k(1) by (simp add: slack_fresh_def)
  qed
  have form: "slack_signature_form (''v0='' @ hex_string (hm a b))" for a b using assms slack_digest_form by blast
  show ?thesis
    using form slack_payload_text
    by (auto simp: verifySlackRequest_def Let_def maxSlackBodyBytes_def int constantTime_eq not_less split: option.splits)
qed

definition demo_slack_hmac :: hmac where
  "demo_slack_hmac k m = replicate 32 (length m mod 256)"

definition demo_slack_headers :: "string \<Rightarrow> string option" where
  "demo_slack_headers h = (if h = ''x-slack-request-timestamp'' then Some ''1000''
     else if h = ''x-slack-signature'' then Some (''v0='' @ hex_string (replicate 32 9)) else None)"

theorem slack_request_is_signed_witness:
  "verifySlackRequest demo_slack_hmac demo_slack_headers (utf8_bytes ''x'') ''s'' 1200500"
proof -
  have h: "\<And>k m. length (demo_slack_hmac k m) = 32 \<and> (\<forall>b\<in>set (demo_slack_hmac k m). b < 256)"
    by (simp add: demo_slack_hmac_def)
  have n: "js_number ''1000'' = Fin (of_int 1000)" by code_simp
  have l: "length (slack_payload ''1000'' (utf8_bytes ''x'')) = 9" "length (utf8_bytes ''x'') \<le> 131072" by code_simp+
  show ?thesis
    unfolding slack_request_is_signed [of demo_slack_hmac, OF h]
    using n l slack_payload_text by (auto simp: demo_slack_headers_def demo_slack_hmac_def intro!: exI [of _ "''1000''"] exI [of _ 1000])
qed

end
