(* ===== verification/Envelope.thy ===== *)
theory Envelope
  imports Tokens StateStore "HOL-Library.Countable"
begin

text \<open>
  worker/turn-envelope.ts and worker/vault.ts: secrets under AES-GCM. The cipher is a parameter, a pair of
  functions of key, nonce, additional data and text; what is relied on is \<open>aead_ok\<close>: decryption undoes
  encryption, and gives a text only for what was encrypted with the same key, nonce and additional data.
\<close>

type_synonym cipher = "nat list \<Rightarrow> nat list \<Rightarrow> nat list \<Rightarrow> nat list \<Rightarrow> nat list"
type_synonym decipher = "nat list \<Rightarrow> nat list \<Rightarrow> nat list \<Rightarrow> nat list \<Rightarrow> nat list option"

definition aead_ok :: "cipher \<Rightarrow> decipher \<Rightarrow> bool" where
  "aead_ok enc dec \<longleftrightarrow>
     (\<forall>k n a p. enc k n a p \<noteq> [] \<and> (\<forall>b\<in>set (enc k n a p). b < 256) \<and> dec k n a (enc k n a p) = Some p) \<and>
     (\<forall>k n a p a'. a' \<noteq> a \<longrightarrow> dec k n a' (enc k n a p) = None)"

subsection \<open>worker/turn-envelope.ts\<close>

definition turn_key :: "string \<Rightarrow> nat list result" where
  "turn_key value =
     bindR (fromBase64url value) (\<lambda>raw.
     bindR (refuse_if (length raw \<noteq> 32) (PlainError ''turn envelope key must be 32-byte base64url'')) (\<lambda>_. Inr raw))"

definition turn_aad :: "string \<Rightarrow> nat list" where
  "turn_aad job = utf8_bytes (print_json (JObj [(''purpose'', JStr ''runtime-turn''), (''jobId'', JStr job), (''v'', jint 1)]))"

definition encryptTurnPayload :: "cipher \<Rightarrow> string \<Rightarrow> string \<Rightarrow> jsval \<Rightarrow> nat list \<Rightarrow> string result" where
  \<comment> \<open>\<open>iv\<close>: the twelve random bytes\<close>
  "encryptTurnPayload enc master job payload iv =
     (let plain = utf8_bytes (print_json payload) in
      bindR (refuse_if (64 * 1024 < length plain) (PlainError ''turn payload exceeds 64 KiB'')) (\<lambda>_.
      bindR (turn_key master) (\<lambda>k.
      Inr (print_json (JObj [(''v'', jint 1), (''iv'', JStr (base64url iv)), (''ciphertext'', JStr (base64url (enc k iv (turn_aad job) plain)))])))))"

definition decode_member :: "jsval \<Rightarrow> nat list option" where
  \<comment> \<open>\<open>decode(value)\<close>; \<open>None\<close>: it throws, for what is not a string in \<open>Buffer.from\<close>\<close>
  "decode_member v = (case v of JStr s \<Rightarrow> (case fromBase64url s of Inl _ \<Rightarrow> None | Inr bs \<Rightarrow> Some bs) | _ \<Rightarrow> None)"

definition open_envelope :: "decipher \<Rightarrow> nat list result \<Rightarrow> nat list \<Rightarrow> jsval \<Rightarrow> nat list option" where
  \<comment> \<open>the decryption of an envelope's \<open>ciphertext\<close>; \<open>None\<close>: something in it throws\<close>
  "open_envelope dec key_of aad envelope =
     (case (decode_member (get envelope ''iv''), key_of, decode_member (get envelope ''ciphertext'')) of
        (Some iv, Inr k, Some text) \<Rightarrow> dec k iv aad text | _ \<Rightarrow> None)"

definition decryptTurnPayload :: "decipher \<Rightarrow> string \<Rightarrow> string \<Rightarrow> string \<Rightarrow> jsval result" where
  "decryptTurnPayload dec master job value =
     (case json_parse value of
        None \<Rightarrow> Inl (SyntaxErr ''JSON'')
      | Some envelope \<Rightarrow>
          if envelope = JNull then Inl type_error
          else if get envelope ''v'' \<noteq> jint 1 then Inl (PlainError ''turn envelope is unsupported'')
          else (case open_envelope dec (turn_key master) (turn_aad job) envelope of
              None \<Rightarrow> Inl (PlainError ''turn payload could not be decrypted'')
            | Some plain \<Rightarrow>
                (case latin_text (text_decode plain) of
                   None \<Rightarrow> Inl (PlainError ''turn payload could not be decrypted'')
                 | Some t \<Rightarrow> (case json_parse t of None \<Rightarrow> Inl (PlainError ''turn payload could not be decrypted'') | Some v \<Rightarrow> Inr v))))"

lemma fromBase64url_encoded: "bs \<noteq> [] \<Longrightarrow> \<forall>b\<in>set bs. b < 256 \<Longrightarrow> fromBase64url (base64url bs) = Inr bs"
  using base64url_chars [of _ bs]
  by (auto simp: fromBase64url_def refuse_if_def base64url_Nil base64_round_trip list_all_iff)

lemma decode_member_encoded: "bs \<noteq> [] \<Longrightarrow> \<forall>b\<in>set bs. b < 256 \<Longrightarrow> decode_member (JStr (base64url bs)) = Some bs"
  by (simp add: decode_member_def fromBase64url_encoded)

lemma aad_inj: "turn_aad job = turn_aad job' \<longleftrightarrow> job = job'"
proof
  let ?v = "\<lambda>j. JObj [(''purpose'', JStr ''runtime-turn''), (''jobId'', JStr j), (''v'', jint 1)]"
  assume "turn_aad job = turn_aad job'"
  then have "print_json (?v job) = print_json (?v job')" by (simp add: turn_aad_def utf8_bytes_inj del: print_json.simps)
  moreover have "json_data (?v j)" for j by (simp add: json_data_jint)
  ultimately have "?v job = ?v job'" using json_round_trip by (metis option.inject)
  then show "job = job'" by simp
qed simp

text \<open>
  C35. What a turn's job was given is read back for that job and for no other: under the same key decryption returns
  the payload for the job it was encrypted for, and an error for every other job; payloads above 64 KiB are refused.
\<close>

theorem turn_payload_round_trip:
  assumes "aead_ok enc dec" "json_data payload" "length iv = 12" "\<forall>b\<in>set iv. b < 256" "turn_key master = Inr k"
  shows "if utf8_length (print_json payload) \<le> 65536
    then \<exists>sealed. encryptTurnPayload enc master job payload iv = Inr sealed \<and>
      (\<forall>job'. decryptTurnPayload dec master job' sealed =
         (if job' = job then Inr payload else Inl (PlainError ''turn payload could not be decrypted'')))
    else encryptTurnPayload enc master job payload iv = Inl (PlainError ''turn payload exceeds 64 KiB'')"
proof (cases "utf8_length (print_json payload) \<le> 65536")
  case True
  let ?plain = "utf8_bytes (print_json payload)"
  let ?ct = "enc k iv (turn_aad job) ?plain"
  let ?e = "JObj [(''v'', jint 1), (''iv'', JStr (base64url iv)), (''ciphertext'', JStr (base64url ?ct))]"
  have ok: "?ct \<noteq> []" "\<forall>b\<in>set ?ct. b < 256" "dec k iv (turn_aad job) ?ct = Some ?plain"
    "\<And>a. a \<noteq> turn_aad job \<Longrightarrow> dec k iv a ?ct = None" using assms(1) by (simp_all add: aead_ok_def)
  have d: "json_data ?e" by (simp add: json_data_jint)
  have g: "get ?e ''v'' = jint 1" "get ?e ''iv'' = JStr (base64url iv)" "get ?e ''ciphertext'' = JStr (base64url ?ct)" by (simp_all add: get_JObj)
  have iv: "decode_member (JStr (base64url iv)) = Some iv" using assms(3,4) by (intro decode_member_encoded) auto
  have o: "open_envelope dec (turn_key master) a ?e = dec k iv a ?ct" for a
    using iv decode_member_encoded [OF ok(1,2)] by (simp add: open_envelope_def g assms(5))
  have "encryptTurnPayload enc master job payload iv = Inr (print_json ?e)"
    using True assms(5) by (simp add: encryptTurnPayload_def Let_def refuse_if_def length_utf8_bytes)
  moreover have "decryptTurnPayload dec master job' (print_json ?e) =
      (if job' = job then Inr payload else Inl (PlainError ''turn payload could not be decrypted''))" for job'
    using ok(3,4) aad_inj
    by (simp add: decryptTurnPayload_def json_round_trip [OF d] g o text_round_trip json_round_trip [OF assms(2)] del: print_json.simps)
  ultimately show ?thesis using True by auto
next
  case False
  then show ?thesis by (simp add: encryptTurnPayload_def Let_def refuse_if_def length_utf8_bytes)
qed

text \<open>A cipher for the examples: a numbering of pairs of byte lists, written in unary.\<close>

definition demo_enc :: cipher where
  "demo_enc k n a p = replicate (Suc (prod_encode (list_encode a, list_encode p))) 0"

definition demo_dec :: decipher where
  "demo_dec k n a c = (case prod_decode (length c - 1) of (x, y) \<Rightarrow> if list_decode x = a then Some (list_decode y) else None)"

lemma demo_aead: "aead_ok demo_enc demo_dec"
  by (auto simp: aead_ok_def demo_enc_def demo_dec_def simp del: replicate_Suc)

definition demo_master :: string where
  "demo_master = base64url (replicate 32 7)"

lemma demo_master_key: "turn_key demo_master = Inr (replicate 32 7)"
  by code_simp

theorem turn_payload_round_trip_witness:
  "\<exists>sealed. encryptTurnPayload demo_enc demo_master ''j-1'' (JObj [(''text'', JStr ''hi'')]) (replicate 12 5) = Inr sealed \<and>
     decryptTurnPayload demo_dec demo_master ''j-1'' sealed = Inr (JObj [(''text'', JStr ''hi'')]) \<and>
     decryptTurnPayload demo_dec demo_master ''j-2'' sealed = Inl (PlainError ''turn payload could not be decrypted'')"
proof -
  have l: "utf8_length (print_json (JObj [(''text'', JStr ''hi'')])) \<le> 65536" by code_simp
  have d: "json_data (JObj [(''text'', JStr ''hi'')])" by simp
  have iv: "length (replicate 12 (5 :: nat)) = 12" "\<forall>b\<in>set (replicate 12 (5 :: nat)). b < 256" by simp_all
  show ?thesis using turn_payload_round_trip [OF demo_aead d iv demo_master_key, of "''j-1''"] l by (auto simp del: print_json.simps)
qed

subsection \<open>worker/vault.ts\<close>

text \<open>
  The bucket holds one text per key. An object may come with a stream of chunks (\<open>stream\<close> gives it) or only with
  its text.
\<close>

type_synonym bucket = "string \<Rightarrow> string option"
type_synonym streaming = "string \<Rightarrow> nat list list option"

definition maxSecretBytes :: nat where
  "maxSecretBytes = 16 * 1024"

definition maxEnvelopeBytes :: nat where
  "maxEnvelopeBytes = 32 * 1024"

definition vaultKey :: "string \<Rightarrow> string" where
  "vaultKey cid = ''oauth/'' @ encodeURIComponent cid @ ''.json''"

definition vault_aad :: "string \<Rightarrow> string \<Rightarrow> string \<Rightarrow> nat list" where
  "vault_aad cid who provider =
     utf8_bytes (print_json (JObj [(''id'', JStr cid), (''principal'', JStr who), (''provider'', JStr provider), (''v'', jint 1)]))"

definition vault_master :: "string \<Rightarrow> nat list result" where
  "vault_master value =
     bindR (fromBase64url value) (\<lambda>raw.
     bindR (refuse_if (length raw \<noteq> 32) (PlainError ''vault master key must be 32-byte base64url'')) (\<lambda>_. Inr raw))"

definition too_large :: js_error where
  "too_large = PlainError ''OAuth credential envelope is too large''"

text \<open>The loop over the stream: \<open>seen\<close> counts what was read.\<close>

fun readCappedBytes :: "nat \<Rightarrow> nat \<Rightarrow> nat list list \<Rightarrow> nat list result" where
  "readCappedBytes limit seen [] = Inr []"
| "readCappedBytes limit seen (chunk # rest) =
     (if limit < seen + length chunk then Inl too_large
      else bindR (readCappedBytes limit (seen + length chunk) rest) (\<lambda>bs. Inr (chunk @ bs)))"

definition readCappedText :: "streaming \<Rightarrow> string \<Rightarrow> nat \<Rightarrow> string option result" where
  \<comment> \<open>\<open>Inr None\<close>: a text beyond the model's strings\<close>
  "readCappedText stream content limit =
     (case stream content of
        Some cs \<Rightarrow> bindR (readCappedBytes limit 0 cs) (\<lambda>bs. Inr (latin_text (text_decode bs)))
      | None \<Rightarrow> if limit < utf8_length content then Inl too_large else Inr (Some content))"

definition vault_put :: "cipher \<Rightarrow> string \<Rightarrow> string \<Rightarrow> string \<Rightarrow> string \<Rightarrow> string \<Rightarrow> nat list \<Rightarrow> string \<Rightarrow> bucket \<Rightarrow> string result \<times> bucket" where
  "vault_put enc master cid who provider secret iv created b =
     (if secret = [] \<or> maxSecretBytes < utf8_length secret then (Inl (PlainError ''OAuth secret is invalid''), b)
      else case vault_master master of
        Inl e \<Rightarrow> (Inl e, b)
      | Inr k \<Rightarrow>
          let text = enc k iv (vault_aad cid who provider) (utf8_bytes secret);
              envelope = JObj [(''v'', jint 1), (''iv'', JStr (base64url iv)), (''ciphertext'', JStr (base64url text)), (''createdAt'', JStr created)]
          in (Inr (vaultKey cid), b(vaultKey cid := Some (print_json envelope))))"

definition vault_get :: "decipher \<Rightarrow> streaming \<Rightarrow> string \<Rightarrow> string \<Rightarrow> string \<Rightarrow> string \<Rightarrow> string \<Rightarrow> bucket \<Rightarrow> string result" where
  "vault_get dec stream master key cid who provider b =
     bindR (refuse_if (key \<noteq> vaultKey cid) (PlainError ''vault key does not match connection'')) (\<lambda>_.
     case b key of
       None \<Rightarrow> Inl (PlainError ''OAuth credential is unavailable'')
     | Some content \<Rightarrow>
         bindR (refuse_if (maxEnvelopeBytes < utf8_length content) too_large) (\<lambda>_.
         bindR (readCappedText stream content maxEnvelopeBytes) (\<lambda>txt.
         case Option.bind txt json_parse of
           None \<Rightarrow> Inl (SyntaxErr ''JSON'')
         | Some envelope \<Rightarrow>
             if envelope = JNull then Inl type_error
             else if get envelope ''v'' \<noteq> jint 1 then Inl (PlainError ''OAuth credential envelope is unsupported'')
             else (case open_envelope dec (vault_master master) (vault_aad cid who provider) envelope of
                 None \<Rightarrow> Inl (PlainError ''OAuth credential could not be decrypted'')
               | Some plain \<Rightarrow> (case latin_text (text_decode plain) of
                   None \<Rightarrow> Inl (PlainError ''OAuth credential could not be decrypted'') | Some t \<Rightarrow> Inr t)))))"

definition vault_delete :: "string \<Rightarrow> bucket \<Rightarrow> bucket" where
  "vault_delete key b = b(key := None)"

lemma capped_bytes: "seen + length (concat cs) \<le> limit \<Longrightarrow> readCappedBytes limit seen cs = Inr (concat cs)"
  by (induction cs arbitrary: seen) auto

lemma capped_bytes_bounded: "readCappedBytes limit seen cs = Inr bs \<Longrightarrow> bs = concat cs \<and> (bs \<noteq> [] \<longrightarrow> seen + length bs \<le> limit)"
proof (induction cs arbitrary: seen bs)
  case (Cons c cs)
  then obtain r where r: "seen + length c \<le> limit" "readCappedBytes limit (seen + length c) cs = Inr r" "bs = c @ r"
    by (auto split: if_splits)
  from Cons.IH [OF r(2)] r show ?case by auto
qed simp

lemma vaultKey_inj: "vaultKey c = vaultKey d \<longleftrightarrow> c = d"
  by (auto simp: vaultKey_def dest: encodeURIComponent_inj)

lemma vault_aad_inj: "vault_aad c w p = vault_aad c' w' p' \<longleftrightarrow> c = c' \<and> w = w' \<and> p = p'"
proof
  let ?v = "\<lambda>c w p. JObj [(''id'', JStr c), (''principal'', JStr w), (''provider'', JStr p), (''v'', jint 1)]"
  assume "vault_aad c w p = vault_aad c' w' p'"
  then have "print_json (?v c w p) = print_json (?v c' w' p')" by (simp add: vault_aad_def utf8_bytes_inj del: print_json.simps)
  moreover have "json_data (?v c w p)" for c w p by (simp add: json_data_jint)
  ultimately have "?v c w p = ?v c' w' p'" using json_round_trip by (metis option.inject)
  then show "c = c' \<and> w = w' \<and> p = p'" by simp
qed simp

subsection \<open>The envelope fits its limit\<close>

lemma utf8_length_append [simp]: "utf8_length (a @ b) = utf8_length a + utf8_length b"
  by (simp add: utf8_length_def)

lemma length_base64url: "3 * length (base64url bs) \<le> 4 * length bs + 4"
  by (induction bs rule: base64url.induct) auto

lemma base64url_plain: "is_base64url c \<Longrightarrow> escape_char c = [c] \<and> code_unit c < 128"
  by (auto simp: is_base64url_def char_class_defs escape_char_def Let_def)

lemma quoted_name: "\<forall>c\<in>set n. escape_char c = [c] \<Longrightarrow> json_quote n = [CHR 0x22] @ n @ [CHR 0x22]"
  by (induction n) (auto simp: json_quote_def)

lemma quoted_base64url: "utf8_length (json_quote (base64url bs)) = length (base64url bs) + 2"
proof -
  have p: "\<forall>c\<in>set (base64url bs). escape_char c = [c]" "\<forall>c\<in>set (base64url bs). code_unit c < 128"
    using base64url_chars base64url_plain by blast+
  show ?thesis by (simp add: quoted_name [OF p(1)] utf8_length_ascii [OF p(2)])
qed

definition envelope_text :: "nat list \<Rightarrow> nat list \<Rightarrow> string \<Rightarrow> jsval" where
  "envelope_text iv text created =
     JObj [(''v'', jint 1), (''iv'', JStr (base64url iv)), (''ciphertext'', JStr (base64url text)), (''createdAt'', JStr created)]"

lemma envelope_size:
  "utf8_length (print_json (envelope_text iv text created)) =
     length (base64url iv) + length (base64url text) + utf8_length (json_quote created) + 44"
proof -
  have n: "json_quote ''v'' = CHR 0x22 # ''v'' @ [CHR 0x22]" "json_quote ''iv'' = CHR 0x22 # ''iv'' @ [CHR 0x22]"
    "json_quote ''ciphertext'' = CHR 0x22 # ''ciphertext'' @ [CHR 0x22]" "json_quote ''createdAt'' = CHR 0x22 # ''createdAt'' @ [CHR 0x22]"
    by code_simp+
  have one: "jsnum_str (Fin (of_int 1)) = ''1''" by code_simp
  show ?thesis
    by (simp add: envelope_text_def jint_def n one quoted_base64url del: of_int_1)
qed

text \<open>Reading an envelope that was stored under a key.\<close>

lemma vault_get_stored:
  assumes fits: "utf8_length (print_json (envelope_text iv ct created)) \<le> maxEnvelopeBytes"
    and stored: "b (vaultKey cid) = Some (print_json (envelope_text iv ct created))"
    and bytes: "iv \<noteq> []" "\<forall>x\<in>set iv. x < 256" "ct \<noteq> []" "\<forall>x\<in>set ct. x < 256" "vault_master master = Inr k"
    and stream: "\<And>t cs. stream t = Some cs \<Longrightarrow> concat cs = utf8_bytes t"
  shows "vault_get dec stream master (vaultKey cid) c w p b =
      (if c \<noteq> cid then Inl (PlainError ''vault key does not match connection'')
       else case dec k iv (vault_aad c w p) ct of None \<Rightarrow> Inl (PlainError ''OAuth credential could not be decrypted'')
         | Some plain \<Rightarrow> (case latin_text (text_decode plain) of
             None \<Rightarrow> Inl (PlainError ''OAuth credential could not be decrypted'') | Some t \<Rightarrow> Inr t))"
proof -
  let ?e = "envelope_text iv ct created"
  have d: "json_data ?e" by (simp add: envelope_text_def json_data_jint)
  have read: "readCappedText stream (print_json ?e) maxEnvelopeBytes = Inr (Some (print_json ?e))"
  proof (cases "stream (print_json ?e)")
    case (Some cs)
    then have "concat cs = utf8_bytes (print_json ?e)" by (rule stream)
    then have "readCappedBytes maxEnvelopeBytes 0 cs = Inr (utf8_bytes (print_json ?e))"
      using fits capped_bytes [of 0 cs maxEnvelopeBytes] by (simp add: length_utf8_bytes)
    then show ?thesis by (simp add: readCappedText_def Some text_round_trip)
  qed (use fits in \<open>simp add: readCappedText_def\<close>)
  have g: "get ?e ''v'' = jint 1" "get ?e ''iv'' = JStr (base64url iv)" "get ?e ''ciphertext'' = JStr (base64url ct)" "?e \<noteq> JNull"
    by (simp_all add: envelope_text_def get_JObj)
  have o: "open_envelope dec (vault_master master) a ?e = dec k iv a ct" for a
    using decode_member_encoded [OF bytes(1,2)] decode_member_encoded [OF bytes(3,4)] by (simp add: open_envelope_def g bytes(5))
  show ?thesis
    using fits by (simp add: vault_get_def refuse_if_def vaultKey_inj stored read json_round_trip [OF d] g o del: print_json.simps)
qed

text \<open>
  C36. The vault gives a credential back to whom it belongs. A secret of one to 16384 bytes can be stored, its envelope
  is within the limit that reading has, and reading returns it for the same connection, principal and provider;
  under the same key for any other of the three reading fails, and storing changes no other connection's object.
  (The cipher adds a tag of 16 bytes; a stream gives the bytes of the stored text; the time stamp is short.)
\<close>

theorem vault_round_trip:
  assumes "aead_ok enc dec" "vault_master master = Inr k" "length iv = 12" "\<forall>b\<in>set iv. b < 256"
    and "length (enc k iv (vault_aad cid who provider) (utf8_bytes secret)) = utf8_length secret + 16"
    and "secret \<noteq> []" "utf8_length secret \<le> 16384" "utf8_length (json_quote created) \<le> 100"
    and "\<And>t cs. stream t = Some cs \<Longrightarrow> concat cs = utf8_bytes t"
  shows "\<exists>b'. vault_put enc master cid who provider secret iv created b = (Inr (vaultKey cid), b') \<and>
    vault_get dec stream master (vaultKey cid) cid who provider b' = Inr secret \<and>
    (\<forall>cid' who' provider' t. vault_get dec stream master (vaultKey cid) cid' who' provider' b' = Inr t \<longrightarrow>
       cid' = cid \<and> who' = who \<and> provider' = provider \<and> t = secret) \<and>
    (\<forall>other. other \<noteq> cid \<longrightarrow> b' (vaultKey other) = b (vaultKey other))"
proof -
  let ?ct = "enc k iv (vault_aad cid who provider) (utf8_bytes secret)"
  let ?e = "envelope_text iv ?ct created"
  define b' where "b' = b(vaultKey cid := Some (print_json ?e))"
  have ok: "?ct \<noteq> []" "\<forall>x\<in>set ?ct. x < 256" "dec k iv (vault_aad cid who provider) ?ct = Some (utf8_bytes secret)"
    "\<And>a. a \<noteq> vault_aad cid who provider \<Longrightarrow> dec k iv a ?ct = None" using assms(1) by (simp_all add: aead_ok_def)
  have put: "vault_put enc master cid who provider secret iv created b = (Inr (vaultKey cid), b')"
    using assms(2,6,7) by (simp add: vault_put_def maxSecretBytes_def b'_def envelope_text_def Let_def del: print_json.simps)
  have fits: "utf8_length (print_json ?e) \<le> maxEnvelopeBytes"
    using length_base64url [of iv] length_base64url [of ?ct] assms(3,5,7,8) by (simp add: envelope_size maxEnvelopeBytes_def)
  have "iv \<noteq> []" "b' (vaultKey cid) = Some (print_json ?e)" using assms(3) by (auto simp: b'_def)
  note got = vault_get_stored [where b = b' and cid = cid and iv = iv and ct = ?ct and stream = stream and dec = dec, OF fits this(2,1) assms(4) ok(1,2) assms(2,9)]
  have mine: "vault_get dec stream master (vaultKey cid) cid who provider b' = Inr secret" by (simp add: got ok(3) text_round_trip)
  moreover have "c = cid \<and> w = who \<and> p = provider \<and> t = secret"
    if "vault_get dec stream master (vaultKey cid) c w p b' = Inr t" for c w p t
  proof -
    have "vault_aad c w p = vault_aad cid who provider"
    proof (rule ccontr)
      assume "vault_aad c w p \<noteq> vault_aad cid who provider"
      from ok(4) [OF this] that show False by (simp add: got split: if_splits)
    qed
    then show ?thesis using that mine by (simp add: vault_aad_inj)
  qed
  moreover have "\<forall>other. other \<noteq> cid \<longrightarrow> b' (vaultKey other) = b (vaultKey other)" by (simp add: b'_def vaultKey_inj)
  ultimately show ?thesis using put by blast
qed

text \<open>A cipher that adds 16 bytes to one text with its additional data.\<close>

definition tagging_enc :: "nat list \<Rightarrow> nat list \<Rightarrow> cipher" where
  "tagging_enc aad plain k n a p = (if a = aad \<and> p = plain then replicate (length plain + 16) 1 else demo_enc k n a p)"

definition tagging_dec :: "nat list \<Rightarrow> nat list \<Rightarrow> decipher" where
  "tagging_dec aad plain k n a c = (if hd c = 1 then (if a = aad then Some plain else None) else demo_dec k n a c)"

lemma tagging_aead: "aead_ok (tagging_enc aad plain) (tagging_dec aad plain)"
proof -
  have z: "hd (demo_enc k n a p) = 0" "demo_enc k n a p \<noteq> []" "\<forall>b\<in>set (demo_enc k n a p). b < 256" for k n a p by (simp_all add: demo_enc_def)
  have d: "demo_dec k n a (demo_enc k n a p) = Some p" "a' \<noteq> a \<Longrightarrow> demo_dec k n a' (demo_enc k n a p) = None" for k n a p a'
    using demo_aead by (simp_all add: aead_ok_def)
  show ?thesis using z d by (simp add: aead_ok_def tagging_enc_def tagging_dec_def)
qed

definition vault_enc :: cipher where
  "vault_enc = tagging_enc (vault_aad ''c'' ''p'' ''github'') (utf8_bytes ''gho'')"

definition vault_dec :: decipher where
  "vault_dec = tagging_dec (vault_aad ''c'' ''p'' ''github'') (utf8_bytes ''gho'')"

theorem vault_round_trip_witness:
  "\<exists>b'. vault_put vault_enc demo_master ''c'' ''p'' ''github'' ''gho'' (replicate 12 5) ''2026-01-01T00:00:00.000Z'' (\<lambda>_. None) = (Inr (vaultKey ''c''), b') \<and>
     vault_get vault_dec (\<lambda>t. Some (chunks 4 (utf8_bytes t))) demo_master (vaultKey ''c'') ''c'' ''p'' ''github'' b' = Inr ''gho''"
proof -
  have m: "vault_master demo_master = Inr (replicate 32 7)" by code_simp
  have iv: "length (replicate 12 (5 :: nat)) = 12" "\<forall>b\<in>set (replicate 12 (5 :: nat)). b < 256" by simp_all
  have l: "length (vault_enc (replicate 32 7) (replicate 12 5) (vault_aad ''c'' ''p'' ''github'') (utf8_bytes ''gho'')) = utf8_length ''gho'' + 16"
    by (simp add: vault_enc_def tagging_enc_def length_utf8_bytes)
  have c: "utf8_length (json_quote ''2026-01-01T00:00:00.000Z'') \<le> 100" by code_simp
  have ok: "aead_ok vault_enc vault_dec" unfolding vault_enc_def vault_dec_def by (rule tagging_aead)
  show ?thesis
    using vault_round_trip [where enc = vault_enc and dec = vault_dec and stream = "\<lambda>t. Some (chunks 4 (utf8_bytes t))" and cid = "''c''"
        and who = "''p''" and provider = "''github''" and secret = "''gho''" and b = "\<lambda>_. None", OF ok m iv l _ _ c]
    by (auto simp: concat_chunks)
qed

end
