(* ===== verification/Handlers.thy ===== *)
theory Handlers
  imports Prelude
begin

text \<open>
  Handlers that wait: an \<open>async\<close> function is \<open>Done\<close>, or it goes on with the world that it finds when its next
  \<open>await\<close> is answered. Between two such steps anything else may happen to the world. A handler can be run alone
  (\<open>alone\<close>), one of many (\<open>made\<close>: the steps it made, each in the world it found), and reasoned about by what its steps
  lead to (\<open>ensures\<close>) and by what they may do with a credit that the handler holds (\<open>permits\<close>).
\<close>

datatype ('s, 'a) proc = Done "'a result" | Await "'s \<Rightarrow> 's \<times> ('s, 'a) proc"

lemma proc_induct [case_names Done Await]:
  assumes "\<And>r. P (Done r)" "\<And>g. (\<And>w. P (snd (g w))) \<Longrightarrow> P (Await g)"
  shows "P p"
proof (induction p)
  case (Await g)
  show ?case
  proof (rule assms(2))
    fix w
    have "snd (g w) \<in> Basic_BNFs.snds (g w)" by (cases "g w") (simp add: snds.simps)
    then show "P (snd (g w))" by (rule Await.IH [OF rangeI])
  qed
qed (rule assms(1))

primrec bindP :: "('s, 'a) proc \<Rightarrow> ('a \<Rightarrow> ('s, 'b) proc) \<Rightarrow> ('s, 'b) proc" where
  "bindP (Done r) f = (case r of Inl e \<Rightarrow> Done (Inl e) | Inr a \<Rightarrow> f a)"
| "bindP (Await g) f = Await (map_prod id (\<lambda>p. bindP p f) \<circ> g)"

definition thenP :: "('s, 'a) proc \<Rightarrow> ('s, 'b) proc \<Rightarrow> ('s, 'b) proc" where
  "thenP p q = bindP p (\<lambda>_. q)"

definition retP :: "'a \<Rightarrow> ('s, 'a) proc" where
  "retP a = Done (Inr a)"

definition throwP :: "js_error \<Rightarrow> ('s, 'a) proc" where
  "throwP e = Done (Inl e)"

definition liftP :: "'a result \<Rightarrow> ('s, 'a) proc" where
  "liftP r = Done r"

definition refuseP :: "bool \<Rightarrow> js_error \<Rightarrow> ('s, unit) proc" where
  "refuseP bad e = Done (refuse_if bad e)"

text \<open>\<open>await\<close> of something that happens at one moment\<close>

definition atomic :: "('s, 'a) comp \<Rightarrow> ('s, 'a) proc" where
  "atomic m = Await (\<lambda>w. (snd (m w), Done (fst (m w))))"

text \<open>\<open>try { .. } catch\<close>, with what happened\<close>

primrec attempt :: "('s, 'a) proc \<Rightarrow> ('s, 'a result) proc" where
  "attempt (Done r) = Done (Inr r)"
| "attempt (Await g) = Await (map_prod id attempt \<circ> g)"

subsection \<open>A handler that nothing disturbs\<close>

primrec alone :: "('s, 'a) proc \<Rightarrow> ('s, 'a) comp" where
  "alone (Done r) = liftR r"
| "alone (Await g) = (\<lambda>w. case map_prod id alone (g w) of (v, m) \<Rightarrow> m v)"

lemma alone_await: "alone (Await g) w = alone (snd (g w)) (fst (g w))"
  by (simp add: split_def)

lemma alone_bindP [simp]: "alone (bindP p f) = bindC (alone p) (\<lambda>a. alone (f a))"
proof (induction p rule: proc_induct)
  case (Done r)
  show ?case by (cases r) (simp_all add: bindC_def liftR_def)
next
  case (Await g)
  show ?case by (rule ext) (simp add: alone_await Await.IH bindC_def del: alone.simps(2))
qed

lemma alone_basic [simp]:
  "alone (retP a) = retC a" "alone (throwP e) = throwC e" "alone (liftP r) = liftR r" "alone (refuseP b e) = refuseC b e"
  "alone (atomic m) = m" "alone (thenP p q) = thenC (alone p) (alone q)"
  by (auto simp: retP_def throwP_def liftP_def refuseP_def atomic_def thenP_def thenC_def refuseC_def refuse_if_def liftR_def retC_def throwC_def)

lemma alone_attempt [simp]: "alone (attempt p) w = (Inr (fst (alone p w)), snd (alone p w))"
proof (induction p arbitrary: w rule: proc_induct)
  case (Await g)
  show ?case by (simp add: alone_await Await.IH del: alone.simps(2))
qed simp

lemma alone_choice [simp]:
  "alone (if b then p else q) = (if b then alone p else alone q)"
  "alone (case x of None \<Rightarrow> p | Some a \<Rightarrow> f a) = (case x of None \<Rightarrow> alone p | Some a \<Rightarrow> alone (f a))"
  "alone (case y of Inl e \<Rightarrow> h e | Inr b \<Rightarrow> k b) = (case y of Inl e \<Rightarrow> alone (h e) | Inr b \<Rightarrow> alone (k b))"
  by (auto split: option.splits sum.splits)

subsection \<open>The steps of a handler among others\<close>

text \<open>\<open>made p ss q\<close>: \<open>p\<close> has made the steps \<open>ss\<close> and has become \<open>q\<close>, whatever happened to the world between them.\<close>

inductive made :: "('s, 'a) proc \<Rightarrow> ('s \<times> 's) list \<Rightarrow> ('s, 'a) proc \<Rightarrow> bool" where
  made_none: "made p [] p"
| made_step: "g w = (v, p) \<Longrightarrow> made p ss q \<Longrightarrow> made (Await g) ((w, v) # ss) q"

lemma made_stepI: "made (snd (g w)) ss q \<Longrightarrow> made (Await g) ((w, fst (g w)) # ss) q"
  by (rule made_step [OF surjective_pairing])

inductive_cases made_from_done: "made (Done r) ss q"
inductive_cases made_from_await: "made (Await g) ss q"
inductive_simps made_nil: "made p [] q"
inductive_simps made_cons: "made (Await g) ((w, v) # ss) q"

lemma made_done: "made (Done r) ss q \<longleftrightarrow> ss = [] \<and> q = Done r"
  by (auto elim: made_from_done intro: made_none)

lemma made_more: "made p ss (Await g) \<Longrightarrow> g w = (v, q) \<Longrightarrow> made p (ss @ [(w, v)]) q"
  by (induction p ss "Await g" rule: made.induct) (auto intro: made.intros)

definition ensures :: "('s, 'a) proc \<Rightarrow> (('s \<times> 's) list \<Rightarrow> 'a result \<Rightarrow> bool) \<Rightarrow> bool" where
  "ensures p Q \<longleftrightarrow> (\<forall>ss r. made p ss (Done r) \<longrightarrow> Q ss r)"

lemma ensures_done: "ensures (Done r) Q \<longleftrightarrow> Q [] r"
  by (auto simp: ensures_def made_done)

lemma ensures_await: "ensures (Await g) Q \<longleftrightarrow> (\<forall>w. ensures (snd (g w)) (\<lambda>ss. Q ((w, fst (g w)) # ss)))"
proof
  show "ensures (Await g) Q" if h: "\<forall>w. ensures (snd (g w)) (\<lambda>ss. Q ((w, fst (g w)) # ss))"
    unfolding ensures_def
  proof (intro allI impI)
    fix ss r assume "made (Await g) ss (Done r)"
    then obtain w v p ts where "ss = (w, v) # ts" "g w = (v, p)" "made p ts (Done r)" by (auto elim: made_from_await)
    then show "Q ss r" using h [rule_format, of w] by (simp add: ensures_def)
  qed
qed (auto simp: ensures_def dest: made_stepI)

lemma ensures_atomic: "ensures (atomic m) Q \<longleftrightarrow> (\<forall>w. Q [(w, snd (m w))] (fst (m w)))"
  by (auto simp: atomic_def ensures_await ensures_done)

lemma ensures_atomicI: "(\<And>w r v. m w = (r, v) \<Longrightarrow> Q [(w, v)] r) \<Longrightarrow> ensures (atomic m) Q"
  by (simp add: ensures_atomic)

lemma ensures_mono: "ensures p Q \<Longrightarrow> (\<And>ss r. Q ss r \<Longrightarrow> R ss r) \<Longrightarrow> ensures p R"
  by (auto simp: ensures_def)

lemma ensures_bind:
  "ensures (bindP p f) Q \<longleftrightarrow>
     ensures p (\<lambda>ss r. case r of Inl e \<Rightarrow> Q ss (Inl e) | Inr a \<Rightarrow> ensures (f a) (\<lambda>ts. Q (ss @ ts)))"
proof (induction p arbitrary: Q rule: proc_induct)
  case (Done r)
  show ?case by (cases r) (simp_all add: ensures_done)
next
  case (Await g)
  show ?case by (simp add: ensures_await Await.IH)
qed

lemma ensures_attempt: "ensures (attempt p) Q \<longleftrightarrow> ensures p (\<lambda>ss r. Q ss (Inr r))"
  by (induction p arbitrary: Q rule: proc_induct) (simp_all add: ensures_done ensures_await)

lemma ensures_bind_rule:
  assumes "ensures p R" "\<And>ss e. R ss (Inl e) \<Longrightarrow> Q ss (Inl e)" "\<And>ss a. R ss (Inr a) \<Longrightarrow> ensures (f a) (\<lambda>ts. Q (ss @ ts))"
  shows "ensures (bindP p f) Q"
  unfolding ensures_bind by (rule ensures_mono [OF assms(1)]) (use assms(2,3) in \<open>auto split: sum.splits\<close>)

text \<open>Run alone, a handler makes its steps one after the other.\<close>

fun in_turn :: "'s \<Rightarrow> ('s \<times> 's) list \<Rightarrow> 's \<Rightarrow> bool" where
  "in_turn w [] v \<longleftrightarrow> w = v"
| "in_turn w ((a, b) # ss) v \<longleftrightarrow> a = w \<and> in_turn b ss v"

lemma alone_made: "\<exists>ss. made p ss (Done (fst (alone p w))) \<and> in_turn w ss (snd (alone p w))"
proof (induction p arbitrary: w rule: proc_induct)
  case (Done r)
  show ?case by (intro exI [of _ "[]"]) (simp add: made_none)
next
  case (Await g)
  obtain ss where "made (snd (g w)) ss (Done (fst (alone (snd (g w)) (fst (g w)))))" "in_turn (fst (g w)) ss (snd (alone (snd (g w)) (fst (g w))))"
    using Await.IH by blast
  then show ?case
    by (intro exI [of _ "(w, fst (g w)) # ss"]) (auto simp: alone_await simp del: alone.simps(2) intro: made_stepI)
qed

lemma in_turn_change: "in_turn w ss v \<Longrightarrow> f w \<noteq> f v \<Longrightarrow> \<exists>(a, b)\<in>set ss. f a \<noteq> f b"
  by (induction w ss v rule: in_turn.induct) fastforce+

subsection \<open>Handlers whose steps are all of one kind\<close>

inductive steps_in :: "('s \<Rightarrow> 's \<Rightarrow> bool) \<Rightarrow> ('s, 'a) proc \<Rightarrow> bool" for R where
  steps_done: "steps_in R (Done r)"
| steps_await: "(\<And>w. R w (fst (g w)) \<and> steps_in R (snd (g w))) \<Longrightarrow> steps_in R (Await g)"

named_theorems steps_rules \<open>handlers that make only steps of a kind\<close>

lemma steps_atomic: "(\<And>w. R w (snd (m w))) \<Longrightarrow> steps_in R (atomic m)"
  unfolding atomic_def by (rule steps_await) (simp add: steps_done)

lemma steps_basic [steps_rules]:
  "steps_in R (retP a)" "steps_in R (throwP e)" "steps_in R (liftP r)" "steps_in R (refuseP b e)"
  by (simp_all add: retP_def throwP_def liftP_def refuseP_def steps_done)

lemma steps_bind [steps_rules]: "steps_in R p \<Longrightarrow> (\<And>a. steps_in R (f a)) \<Longrightarrow> steps_in R (bindP p f)"
proof (induction rule: steps_in.induct)
  case (steps_done r)
  then show ?case by (cases r) (auto intro: steps_in.steps_done)
qed (auto intro!: steps_in.steps_await)

lemma steps_then [steps_rules]: "steps_in R p \<Longrightarrow> steps_in R q \<Longrightarrow> steps_in R (thenP p q)"
  unfolding thenP_def by (rule steps_bind)

lemma steps_attempt [steps_rules]: "steps_in R p \<Longrightarrow> steps_in R (attempt p)"
  by (induction rule: steps_in.induct) (auto intro!: steps_in.intros)

lemma steps_choice [steps_rules]:
  "(b \<Longrightarrow> steps_in R p) \<Longrightarrow> (\<not> b \<Longrightarrow> steps_in R q) \<Longrightarrow> steps_in R (if b then p else q)"
  "(x = None \<Longrightarrow> steps_in R p) \<Longrightarrow> (\<And>a. x = Some a \<Longrightarrow> steps_in R (h a)) \<Longrightarrow> steps_in R (case x of None \<Rightarrow> p | Some a \<Rightarrow> h a)"
  "(\<And>e. steps_in R (k e)) \<Longrightarrow> (\<And>a. steps_in R (l a)) \<Longrightarrow> steps_in R (case y of Inl e \<Rightarrow> k e | Inr a \<Rightarrow> l a)"
  "(\<And>a b. steps_in R (u a b)) \<Longrightarrow> steps_in R (case z of (a, b) \<Rightarrow> u a b)"
  by (auto split: option.splits sum.splits prod.splits)

lemma steps_ensured: "steps_in R p \<Longrightarrow> ensures p (\<lambda>ss r. \<forall>(a, b)\<in>set ss. R a b)"
  by (induction rule: steps_in.induct) (simp_all add: ensures_done ensures_await)

subsection \<open>Credits\<close>

text \<open>
  \<open>permits M c p Q\<close>: holding the credit \<open>c\<close>, the handler makes only steps that \<open>M\<close> allows, each turning the credit it
  holds into another, in any world; when it is done, \<open>Q\<close> holds of the credit left and the result.
\<close>

inductive permits :: "('c \<Rightarrow> 'c \<Rightarrow> 's \<Rightarrow> 's \<Rightarrow> bool) \<Rightarrow> 'c \<Rightarrow> ('s, 'a) proc \<Rightarrow> ('c \<Rightarrow> 'a result \<Rightarrow> bool) \<Rightarrow> bool" for M where
  permits_done: "Q c r \<Longrightarrow> permits M c (Done r) Q"
| permits_await: "(\<And>w. \<exists>d. M c d w (fst (g w)) \<and> permits M d (snd (g w)) Q) \<Longrightarrow> permits M c (Await g) Q"

inductive_cases permits_awaits: "permits M c (Await g) Q"

lemma permits_atomic: "(\<And>w. \<exists>d. M c d w (snd (m w)) \<and> Q d (fst (m w))) \<Longrightarrow> permits M c (atomic m) Q"
  unfolding atomic_def by (rule permits_await) (auto intro: permits_done)

lemma permits_mono: "permits M c p Q \<Longrightarrow> (\<And>d r. Q d r \<Longrightarrow> R d r) \<Longrightarrow> permits M c p R"
proof (induction rule: permits.induct)
  case (permits_await c g Q)
  then show ?case by (intro permits.permits_await) metis
qed (auto intro: permits_done)

lemma permits_bind:
  assumes "permits M c p Q" "\<And>d e. Q d (Inl e) \<Longrightarrow> R d (Inl e)" "\<And>d a. Q d (Inr a) \<Longrightarrow> permits M d (f a) R"
  shows "permits M c (bindP p f) R"
  using assms
proof (induction rule: permits.induct)
  case (permits_done Q c r)
  then show ?case by (cases r) (auto intro: permits.permits_done)
next
  case (permits_await c g Q)
  show ?case unfolding bindP.simps
  proof (rule permits.permits_await)
    fix w
    obtain d where "M c d w (fst (g w))" "permits M d (bindP (snd (g w)) f) R" using permits_await by metis
    then show "\<exists>d. M c d w (fst ((map_prod id (\<lambda>p. bindP p f) \<circ> g) w)) \<and> permits M d (snd ((map_prod id (\<lambda>p. bindP p f) \<circ> g) w)) R"
      by (auto simp: map_prod_def split_def)
  qed
qed

text \<open>A handler whose steps need no credit keeps the one it holds.\<close>

lemma permits_steps:
  assumes "\<And>w v. R w v \<Longrightarrow> M c c w v"
  shows "steps_in R p \<Longrightarrow> permits M c p (\<lambda>d _. d = c)"
  by (induction rule: steps_in.induct) (auto intro!: permits_done permits_await assms)

lemma permits_attempt: "permits M c p (\<lambda>d r. Q d (Inr r)) \<Longrightarrow> permits M c (attempt p) Q"
proof (induction c p "\<lambda>d r. Q d (Inr r)" rule: permits.induct)
  case (permits_await c g)
  show ?case unfolding attempt.simps
  proof (rule permits.permits_await)
    fix w
    obtain d where "M c d w (fst (g w))" "permits M d (attempt (snd (g w))) Q" using permits_await by metis
    then show "\<exists>d. M c d w (fst ((map_prod id attempt \<circ> g) w)) \<and> permits M d (snd ((map_prod id attempt \<circ> g) w)) Q"
      by (auto simp: map_prod_def split_def)
  qed
qed (auto intro: permits_done)

end
