(* ===== verification/Governance_Controller.thy ===== *)
theory Governance_Controller
  imports Governance_Life Envelope Coordinator Handlers
begin

text \<open>
  worker/governance-controller.ts: invocations from the request to the call of GitHub. The controller works over
  the governance registry, one coordinator per claw, the vault and the audit queue (\<open>world\<close>, with its clock); each
  call of them may fail before or after it took effect (\<open>ce_faults\<close>, read in the order of the calls). Handlers are
  written as in the source: every \<open>await\<close> of a call, and every reading of the clock and drawing of a UUID, is a step of
  its own (theory \<open>Handlers\<close>), so that other handlers, the registry, the coordinators and the clock may move between
  any two of them. GitHub's answers, HMAC and the cipher are parameters. Claims are read as the types of
  src/governance-types.ts say: the secret signs only what \<open>issueInvocation\<close> and the runtime build. (An issue number of
  \<open>10^21\<close> or more is printed with all its digits, JavaScript would use an exponent; an answer of GitHub with text
  beyond Latin-1 counts as invalid JSON.)
\<close>

subsection \<open>The world of the controller\<close>

record github_call =
  gh_method :: string
  gh_url :: string
  gh_body :: "string option"
  gh_credential :: string

datatype github_answer = Unreachable | Github_answer nat "string option" "nat list"   \<comment> \<open>status, content-length, body\<close>

text \<open>A call of GitHub with the claw, the invocation and the token it was made for.\<close>

record logged_call =
  lc_claw :: string
  lc_invocation :: string
  lc_jti :: string
  lc_request :: github_call

record world =
  w_gov :: gov
  w_coord :: "string \<Rightarrow> coord"
  w_bucket :: bucket
  w_queue :: "governance_event list"
  w_github :: "logged_call list"
  w_calls :: nat
  w_now :: int

datatype fault = Works | Fails_before | Fails_after

record controller_env =
  ce_gov :: governance_config
  ce_hmac :: hmac
  ce_secret :: string              \<comment> \<open>\<open>INVOCATION_SIGNING_SECRET\<close>\<close>
  ce_turn_secret :: string         \<comment> \<open>\<open>RUNTIME_SIGNING_SECRET\<close>\<close>
  ce_decipher :: decipher
  ce_stream :: streaming
  ce_master :: string              \<comment> \<open>\<open>VAULT_MASTER_KEY\<close>\<close>
  ce_faults :: "nat \<Rightarrow> fault"
  ce_github :: "nat \<Rightarrow> github_call \<Rightarrow> github_answer"

type_synonym 'a ctl = "(world, 'a) comp"

type_synonym 'a handler = "(world, 'a) proc"

text \<open>A call that leaves the process.\<close>

definition unavailable :: js_error where
  "unavailable = PlainError ''unavailable''"

definition remote :: "controller_env \<Rightarrow> 'a ctl \<Rightarrow> 'a ctl" where
  "remote env m = (\<lambda>w.
     let v = w\<lparr>w_calls := Suc (w_calls w)\<rparr> in
     case ce_faults env (w_calls w) of
       Works \<Rightarrow> m v
     | Fails_before \<Rightarrow> (Inl unavailable, v)
     | Fails_after \<Rightarrow> (Inl unavailable, snd (m v)))"

definition on_gov :: "'a govc \<Rightarrow> 'a ctl" where
  "on_gov m = (\<lambda>w. case m (w_gov w) of (r, g) \<Rightarrow> (r, w\<lparr>w_gov := g\<rparr>))"

definition on_coord :: "string \<Rightarrow> (coord \<Rightarrow> 'a result \<times> coord) \<Rightarrow> 'a ctl" where
  "on_coord claw m = (\<lambda>w. case m (w_coord w claw) of (r, c) \<Rightarrow> (r, w\<lparr>w_coord := (w_coord w)(claw := c)\<rparr>))"

text \<open>The calls that a handler waits for; the callee reads the clock itself.\<close>

definition governance :: "controller_env \<Rightarrow> (int \<Rightarrow> 'a govc) \<Rightarrow> 'a handler" where
  "governance env m = atomic (remote env (\<lambda>w. on_gov (m (w_now w)) w))"

definition coordinator :: "controller_env \<Rightarrow> string \<Rightarrow> (int \<Rightarrow> coord \<Rightarrow> 'a result \<times> coord) \<Rightarrow> 'a handler" where
  "coordinator env claw m = atomic (remote env (\<lambda>w. on_coord claw (m (w_now w)) w))"

definition emit :: "controller_env \<Rightarrow> governance_event \<Rightarrow> unit handler" where
  "emit env e = atomic (remote env (modC (\<lambda>w. w\<lparr>w_queue := w_queue w @ [e]\<rparr>)))"

text \<open>\<open>Date.now()\<close> and \<open>randomUUID()\<close>\<close>

definition clock :: "int handler" where
  "clock = atomic (getC w_now)"

definition draw :: "controller_env \<Rightarrow> string handler" where
  "draw env = atomic (on_gov (new_uuid (ce_gov env)))"

subsection \<open>Small functions\<close>

definition checked_text :: "jsval \<Rightarrow> string \<Rightarrow> nat \<Rightarrow> string result" where
  \<comment> \<open>the function \<open>text\<close> of the file\<close>
  "checked_text v label limit =
     (case v of
        JStr t \<Rightarrow> if trim t = [] \<or> limit < utf8_length (trim t) then Inl (PlainError (label @ '' is invalid'')) else Inr (trim t)
      | _ \<Rightarrow> Inl (PlainError (label @ '' is invalid'')))"

definition claim_text :: "jsval \<Rightarrow> string \<Rightarrow> string" where
  "claim_text claims k = (case get claims k of JStr t \<Rightarrow> t | _ \<Rightarrow> [])"

definition bearer :: "string option \<Rightarrow> string option" where
  \<comment> \<open>\<open>/^Bearer ([^\s]+)$/u\<close> on the header \<open>authorization\<close>\<close>
  "bearer header =
     (case header of None \<Rightarrow> None
      | Some h \<Rightarrow> if prefix_of ''Bearer '' h \<and> drop 7 h \<noteq> [] \<and> \<not> list_ex is_space (drop 7 h) then Some (drop 7 h) else None)"

definition pick :: "jsval \<Rightarrow> string list \<Rightarrow> jsval result" where
  "pick v ks =
     (case v of
        JObj kvs \<Rightarrow> Inr (JObj (List.map_filter (\<lambda>k. map_option (Pair k) (map_of kvs k)) ks))
      | JArr _ \<Rightarrow> Inr (JObj [])
      | _ \<Rightarrow> Inl type_error)"

definition argument_text :: "(string \<times> jsval) list \<Rightarrow> string \<Rightarrow> string" where
  \<comment> \<open>\<open>String(args[k] ?? "?")\<close> on a scalar\<close>
  "argument_text args k =
     (case map_of args k of None \<Rightarrow> ''?''
      | Some v \<Rightarrow> (case v of JStr t \<Rightarrow> t | JNull \<Rightarrow> ''?'' | _ \<Rightarrow> print_json v))"

definition confirmationSummary :: "string \<Rightarrow> string \<Rightarrow> (string \<times> jsval) list \<Rightarrow> string" where
  "confirmationSummary cap target args =
     (if cap = ''github.issue.comment'' then ''Post a comment to '' @ target @ ''#'' @ argument_text args ''issueNumber''
      else ''Execute '' @ cap @ '' against '' @ target)"

subsection \<open>GitHub\<close>

definition number_of :: "jsval \<Rightarrow> jsnum" where
  \<comment> \<open>\<open>Number(v)\<close> on a scalar\<close>
  "number_of v = (case v of JNum n \<Rightarrow> n | JStr t \<Rightarrow> js_number t | JBool b \<Rightarrow> Fin (if b then 1 else 0) | JNull \<Rightarrow> Fin 0 | _ \<Rightarrow> NaN)"

definition boundedProviderJson :: "nat \<Rightarrow> string option \<Rightarrow> nat list \<Rightarrow> jsval result" where
  "boundedProviderJson status declared bytes =
     (let len = (case declared of None \<Rightarrow> Fin 0 | Some h \<Rightarrow> js_number h);
          above = (case len of Fin r \<Rightarrow> 131072 < r | PosInf \<Rightarrow> True | _ \<Rightarrow> False) in
      if above \<or> 131072 < length bytes then Inl (PlainError ''provider response is too large'')
      else case Option.bind (latin_text (text_decode bytes)) json_parse of
        None \<Rightarrow> Inl (PlainError (''provider returned invalid JSON ('' @ nat_str status @ '')''))
      | Some v \<Rightarrow> Inr v)"

definition github_base :: "string \<Rightarrow> string" where
  \<comment> \<open>the characters of a target are their own \<open>encodeURIComponent\<close>\<close>
  "github_base target = ''https://api.github.com/repos/'' @ join_with ''/'' (map encodeURIComponent (split_on CHR ''/'' target))"

definition issue_number :: "(string \<times> jsval) list \<Rightarrow> nat result" where
  "issue_number args =
     (case number_of (case map_of args ''issueNumber'' of None \<Rightarrow> JUndef | Some v \<Rightarrow> v) of
        Fin r \<Rightarrow> if is_integer r \<and> 1 \<le> r then Inr (nat \<lfloor>r\<rfloor>) else Inl (PlainError ''issueNumber must be a positive integer'')
      | _ \<Rightarrow> Inl (PlainError ''issueNumber must be a positive integer''))"

definition githubCall :: "string \<Rightarrow> jsval \<Rightarrow> (string \<times> jsval) list \<Rightarrow> string \<Rightarrow> github_call result" where
  \<comment> \<open>\<open>githubRequest\<close> up to \<open>fetch\<close>\<close>
  "githubCall cap target_claim args credential =
     bindR (normalizeGithubTarget target_claim) (\<lambda>target.
     bindR (if cap = ''github.issue.read'' \<or> cap = ''github.issue.comment''
       then bindR (issue_number args) (\<lambda>n. Inr (github_base target @ ''/issues/'' @ nat_str n)) else Inr (github_base target)) (\<lambda>url.
     if cap = ''github.issue.comment'' then
       let comment = (case map_of args ''body'' of Some (JStr t) \<Rightarrow> trim t | _ \<Rightarrow> []) in
       if comment = [] \<or> 10 * 1024 < utf8_length comment then Inl (PlainError ''comment body must be between 1 and 10240 bytes'')
       else Inr \<lparr>gh_method = ''POST'', gh_url = url @ ''/comments'', gh_body = Some (print_json (JObj [(''body'', JStr comment)])), gh_credential = credential\<rparr>
     else if cap \<noteq> ''github.repository.read'' \<and> cap \<noteq> ''github.issue.read'' then Inl (PlainError ''GitHub capability is unsupported'')
     else Inr \<lparr>gh_method = ''GET'', gh_url = url, gh_body = None, gh_credential = credential\<rparr>))"

definition repository_members :: "string list" where
  "repository_members = [''id'', ''name'', ''full_name'', ''private'', ''html_url'', ''description'', ''default_branch'', ''archived'']"

definition issue_members :: "string list" where
  "issue_members = [''id'', ''number'', ''title'', ''state'', ''html_url'', ''body'', ''created_at'', ''updated_at'']"

definition githubResult :: "string \<Rightarrow> github_answer \<Rightarrow> jsval result" where
  \<comment> \<open>\<open>githubRequest\<close> after \<open>fetch\<close>\<close>
  "githubResult cap answer =
     (case answer of
        Unreachable \<Rightarrow> Inl type_error
      | Github_answer status declared bytes \<Rightarrow>
          bindR (boundedProviderJson status declared bytes) (\<lambda>data.
          if \<not> (200 \<le> status \<and> status < 300) then
            (if data = JNull then Inl type_error
             else Inl (PlainError (''GitHub request failed ('' @ nat_str status @ ''): '' @
               (case get data ''message'' of JStr m \<Rightarrow> take 200 m | _ \<Rightarrow> ''provider error''))))
          else pick data (if cap = ''github.repository.read'' then repository_members else issue_members)))"

subsection \<open>Issuing an invocation\<close>

datatype reply =
    Confirmation_required confirmation_record                          \<comment> \<open>202\<close>
  | Issued_grant invocation_record string "(string \<times> jsval) list"       \<comment> \<open>201\<close>
  | Grant_required                                                     \<comment> \<open>401\<close>
  | Grant_refused                                                      \<comment> \<open>409\<close>
  | Executed string jsval "string list"                                \<comment> \<open>200, with the codes of the warnings\<close>
  | Execution_failed nat string "string list"                          \<comment> \<open>400 or 422\<close>

definition grant_claims :: "persona_record \<Rightarrow> confirmed_action \<Rightarrow> resolved_actor \<Rightarrow> jsval \<Rightarrow> jsval" where
  "grant_claims persona action resolved confirmation = JObj
     ([(''typ'', JStr ''invocation''), (''aud'', JStr ''crabhelm-tool-wrapper''), (''clawId'', JStr (pe_claw persona)),
       (''requesterId'', JStr (ca_requester action)), (''personaId'', JStr (pe_id persona)), (''actorId'', JStr (gp_id (ra_actor resolved))),
       (''actorMode'', JStr (mode_name (ra_mode resolved))), (''fallbackUsed'', JBool (ra_fallback resolved)),
       (''capabilityId'', JStr (ca_capability action)), (''target'', JStr (ca_target action)), (''argumentsDigest'', JStr (ca_digest action)),
       (''policyRevision'', jint (pe_revision persona)), (''connectionId'', JStr (oc_id (ra_connection resolved)))] @
      (if truthy confirmation then [(''confirmationId'', confirmation)] else []))"

definition invocation_event :: "persona_record \<Rightarrow> confirmed_action \<Rightarrow> resolved_actor \<Rightarrow> governance_event \<Rightarrow> governance_event" where
  "invocation_event persona action resolved e =
     e\<lparr>ge_claw := Some (pe_claw persona), ge_persona := Some (pe_id persona), ge_actor := Some (gp_id (ra_actor resolved)),
       ge_mode := Some (ra_mode resolved), ge_fallback := Some (ra_fallback resolved), ge_capability := Some (ca_capability action),
       ge_target := Some (ca_target action)\<rparr>"

definition ask_confirmation :: "controller_env \<Rightarrow> persona_record \<Rightarrow> confirmed_action \<Rightarrow> resolved_actor \<Rightarrow> (string \<times> jsval) list \<Rightarrow> reply handler" where
  "ask_confirmation env persona action resolved args =
     bindP clock (\<lambda>now.
     bindP (governance env (createConfirmation (ce_gov env) action (confirmationSummary (ca_capability action) (ca_target action) args) (now + 600000))) (\<lambda>c.
     bindP (governance env (gov_audit (ce_gov env) ((invocation_event persona action resolved
         (gov_note (ca_requester action) ''invocation.confirmation.request'' ''requested'' (cf_summary c)))\<lparr>ge_confirmation := JStr (cf_id c)\<rparr>) None)) (\<lambda>e.
     thenP (emit env e) (retP (Confirmation_required c)))))"

definition new_invocation :: "persona_record \<Rightarrow> confirmed_action \<Rightarrow> resolved_actor \<Rightarrow> jsval \<Rightarrow> string \<Rightarrow> int \<Rightarrow> invocation_record" where
  "new_invocation persona action resolved confirmation iid now =
     \<lparr>iv_id = iid, iv_claw = pe_claw persona, iv_action = action, iv_mode = ra_mode resolved, iv_fallback = ra_fallback resolved,
      iv_policy = pe_revision persona, iv_confirmation = (if truthy confirmation then confirmation else JUndef), iv_status = Issued,
      iv_issued = now, iv_expires = now + 300000, iv_completed = None\<rparr>"

definition sign_grant :: "controller_env \<Rightarrow> jsval \<Rightarrow> (string \<times> jsval) handler" where
  \<comment> \<open>\<open>signClaims\<close> draws the token's id; the claims are read back with \<open>verifyClaims\<close>\<close>
  "sign_grant env claims_base =
     bindP clock (\<lambda>now. bindP (draw env) (\<lambda>jti.
     bindP (liftP (signClaims (ce_hmac env) (ce_secret env) claims_base 300 jti now)) (\<lambda>grant.
     bindP clock (\<lambda>later.
     bindP (liftP (verifyClaims (ce_hmac env) (ce_secret env) grant ''invocation'' ''crabhelm-tool-wrapper'' later)) (\<lambda>claims.
     retP (grant, claims))))))"

definition register_grant :: "controller_env \<Rightarrow> invocation_record \<Rightarrow> jsval \<Rightarrow> governance_event \<Rightarrow> unit handler" where
  "register_grant env i claims event =
     thenP (governance env (saveInvocation i))
    (thenP (coordinator env (iv_claw i) (registerGrant (iv_id i) (claim_text claims ''jti'') (ca_digest (iv_action i)) (iv_expires i)))
    (bindP (governance env (gov_audit (ce_gov env) event (Some (iv_id i)))) (\<lambda>e. emit env e)))"

definition issue_grant :: "controller_env \<Rightarrow> persona_record \<Rightarrow> confirmed_action \<Rightarrow> resolved_actor \<Rightarrow> string \<Rightarrow> jsval \<Rightarrow> (string \<times> jsval) list \<Rightarrow> reply handler" where
  "issue_grant env persona action resolved label confirmation args =
     bindP clock (\<lambda>now. bindP (draw env) (\<lambda>iid.
     bindP (sign_grant env (grant_claims persona action resolved confirmation)) (\<lambda>(grant, claims).
     let i = new_invocation persona action resolved confirmation iid now in
     thenP (register_grant env i claims ((invocation_event persona action resolved
         (gov_note (ca_requester action) ''invocation.issue'' ''succeeded'' (''Issued one-time grant for '' @ label)))
         \<lparr>ge_policy := Some (pe_revision persona), ge_confirmation := confirmation\<rparr>))
     (retP (Issued_grant i grant args)))))"

text \<open>The checks of a request, and what is then done with the action it asks for.\<close>

record checked_request =
  cq_persona :: persona_record
  cq_capability :: capability
  cq_resolved :: resolved_actor
  cq_action :: confirmed_action
  cq_arguments :: "(string \<times> jsval) list"

definition check_request :: "controller_env \<Rightarrow> string \<Rightarrow> bool \<Rightarrow> jsval \<Rightarrow> bool \<Rightarrow> checked_request handler" where
  "check_request env requester_id is_admin raw trusted =
     bindP (governance env (\<lambda>_. requirePrincipal requester_id)) (\<lambda>requester.
     thenP (refuseP (nullish raw) type_error)
    (bindP (liftP (checked_text (get raw ''personaId'') ''personaId'' 200)) (\<lambda>pid.
     bindP (governance env (\<lambda>_. requirePersona pid)) (\<lambda>persona.
     thenP (refuseP (\<not> trusted \<and> \<not> mayInvokePersona persona requester_id is_admin) (PlainError ''requester is not permitted to invoke this persona''))
    (bindP (liftP (checked_text (get raw ''capabilityId'') ''capabilityId'' 120)) (\<lambda>cap_text.
     bindP (liftP (capabilityById cap_text)) (\<lambda>cap.
     bindP (liftP (normalizeGithubTarget (get raw ''target''))) (\<lambda>target.
     bindP (liftP (normalizeInvocationArguments (get raw ''arguments''))) (\<lambda>args.
     bindP (liftP (invocationArgumentsDigest (gc_lib (ce_gov env)) (JStr (cap_id cap)) (JStr target) (JObj args))) (\<lambda>digest.
     bindP (governance env (\<lambda>_. getC (gov_values gv_principals))) (\<lambda>principals.
     bindP (governance env (\<lambda>_. getC (gov_values gv_connections))) (\<lambda>connections.
     bindP (liftP (resolveInvocationActor requester persona cap principals connections)) (\<lambda>resolved.
     retP \<lparr>cq_persona = persona, cq_capability = cap, cq_resolved = resolved,
       cq_action = \<lparr>ca_requester = requester_id, ca_persona = pe_id persona, ca_actor = gp_id (ra_actor resolved),
                    ca_capability = cap_id cap, ca_target = target, ca_digest = digest\<rparr>, cq_arguments = args\<rparr>)))))))))))))"

definition answer_request :: "controller_env \<Rightarrow> jsval \<Rightarrow> checked_request \<Rightarrow> reply handler" where
  "answer_request env confirmation q =
     (if cap_always_confirm (cq_capability q) \<and> \<not> truthy confirmation
      then ask_confirmation env (cq_persona q) (cq_action q) (cq_resolved q) (cq_arguments q)
      else thenP (if cap_always_confirm (cq_capability q)
         then bindP (liftP (checked_text confirmation ''confirmationId'' 200)) (\<lambda>k.
           thenP (governance env (useConfirmation (ce_gov env) k (cq_action q))) (retP ()))
         else retP ())
       (issue_grant env (cq_persona q) (cq_action q) (cq_resolved q) (cap_label (cq_capability q)) confirmation (cq_arguments q)))"

definition issueInvocation :: "controller_env \<Rightarrow> string \<Rightarrow> bool \<Rightarrow> jsval \<Rightarrow> bool \<Rightarrow> reply handler" where
  "issueInvocation env requester_id is_admin raw trusted =
     bindP (check_request env requester_id is_admin raw trusted) (answer_request env (get raw ''confirmationId''))"

subsection \<open>Executing an invocation\<close>

definition runtimeTurn :: "controller_env \<Rightarrow> string option \<Rightarrow> jsval handler" where
  "runtimeTurn env header =
     (case bearer header of
        None \<Rightarrow> throwP (PlainError ''turn authentication is required'')
      | Some token \<Rightarrow>
          bindP clock (\<lambda>now.
          bindP (liftP (verifyClaims (ce_hmac env) (ce_turn_secret env) token ''turn'' ''crabhelm-runtime-turn'' now)) (\<lambda>turn.
          bindP (governance env (\<lambda>_. requirePersona (claim_text turn ''personaId''))) (\<lambda>persona.
          thenP (refuseP (pe_claw persona \<noteq> claim_text turn ''clawId'') (PlainError ''persona does not belong to this turn''))
            (retP turn)))))"

text \<open>The provider request of an execution: the credential, the call and its answer.\<close>

definition ask_github :: "controller_env \<Rightarrow> string \<Rightarrow> string \<Rightarrow> string \<Rightarrow> github_call \<Rightarrow> github_answer handler" where
  "ask_github env claw iid jti call = atomic (\<lambda>w.
     (Inr (ce_github env (length (w_github w)) call),
      w\<lparr>w_github := w_github w @ [\<lparr>lc_claw = claw, lc_invocation = iid, lc_jti = jti, lc_request = call\<rparr>]\<rparr>))"

definition read_vault :: "controller_env \<Rightarrow> oauth_connection \<Rightarrow> string handler" where
  "read_vault env c = atomic (remote env (\<lambda>w.
     (vault_get (ce_decipher env) (ce_stream env) (ce_master env) (oc_vault c) (oc_id c) (oc_principal c) (oc_provider c) (w_bucket w), w)))"

definition provider_request :: "controller_env \<Rightarrow> jsval \<Rightarrow> (string \<times> jsval) list \<Rightarrow> string \<Rightarrow> jsval handler" where
  "provider_request env claims args iid =
     bindP (governance env (\<lambda>_. requireConnection (claim_text claims ''connectionId''))) (\<lambda>c.
     thenP (refuseP (\<not> oc_active c \<or> oc_principal c \<noteq> claim_text claims ''actorId'') (PlainError ''actor connection is unavailable''))
    (bindP (read_vault env c) (\<lambda>credential.
     bindP (liftP (githubCall (claim_text claims ''capabilityId'') (get claims ''target'') args credential)) (\<lambda>call.
     bindP (ask_github env (claim_text claims ''clawId'') iid (claim_text claims ''jti'') call) (\<lambda>answer.
     liftP (githubResult (claim_text claims ''capabilityId'') answer))))))"

definition warned :: "string \<Rightarrow> 'a handler \<Rightarrow> string list handler" where
  \<comment> \<open>\<open>try { .. } catch { warn(code) }\<close>\<close>
  "warned code p = bindP (attempt p) (\<lambda>r. retP (case r of Inl _ \<Rightarrow> [code] | Inr _ \<Rightarrow> []))"

definition failure_text :: "js_error \<Rightarrow> string" where
  "failure_text e = (case e of PlainError m \<Rightarrow> m | RequestError m \<Rightarrow> m | SyntaxErr m \<Rightarrow> m | OperationalError c m \<Rightarrow> m | WriteConflict \<Rightarrow> ''conflict'')"

definition is_failure :: "'a result \<Rightarrow> bool" where
  "is_failure r \<longleftrightarrow> (case r of Inl _ \<Rightarrow> True | Inr _ \<Rightarrow> False)"

definition is_syntax_error :: "js_error \<Rightarrow> bool" where
  "is_syntax_error e \<longleftrightarrow> (case e of SyntaxErr _ \<Rightarrow> True | _ \<Rightarrow> False)"

definition execution_event :: "jsval \<Rightarrow> bool \<Rightarrow> string \<Rightarrow> governance_event" where
  "execution_event claims ok message =
     (gov_note (claim_text claims ''requesterId'') ''tool.github.execute'' (if ok then ''succeeded'' else ''failed'')
        (if ok then ''Executed '' @ claim_text claims ''capabilityId'' else take 240 message))
     \<lparr>ge_claw := Some (claim_text claims ''clawId''), ge_persona := Some (claim_text claims ''personaId''),
      ge_actor := Some (claim_text claims ''actorId''), ge_mode := mode_of (get claims ''actorMode''),
      ge_fallback := (case get claims ''fallbackUsed'' of JBool b \<Rightarrow> Some b | _ \<Rightarrow> None),
      ge_capability := Some (claim_text claims ''capabilityId''), ge_target := Some (claim_text claims ''target''),
      ge_policy := js_integer (get claims ''policyRevision''), ge_confirmation := get claims ''confirmationId''\<rparr>"

definition record_outcome :: "controller_env \<Rightarrow> jsval \<Rightarrow> string \<Rightarrow> bool \<Rightarrow> string \<Rightarrow> string list handler" where
  \<comment> \<open>the bookkeeping after the request, with the codes of the warnings\<close>
  "record_outcome env claims iid ok message =
     bindP (warned ''coordinator_outcome_not_recorded''
       (coordinator env (claim_text claims ''clawId'') (\<lambda>now c. (Inr (), finishRun iid ok (if ok then None else Some message) now c)))) (\<lambda>w1.
     bindP clock (\<lambda>completed.
     bindP (warned ''invocation_outcome_not_recorded''
       (governance env (updateInvocation (ce_gov env) iid (Some (if ok then invocation_status.Succeeded else invocation_status.Failed)) (Some completed)))) (\<lambda>w2.
     bindP (attempt (governance env (gov_audit (ce_gov env) (execution_event claims ok message) (Some iid)))) (\<lambda>event.
     case event of
       Inl _ \<Rightarrow> retP (w1 @ w2 @ [''audit_not_recorded''])
     | Inr e \<Rightarrow> bindP (warned ''audit_not_queued'' (emit env e)) (\<lambda>w3. retP (w1 @ w2 @ w3))))))"

definition execution_reply :: "string \<Rightarrow> jsval result \<Rightarrow> string list \<Rightarrow> reply" where
  "execution_reply iid outcome warnings =
     (case outcome of
        Inr result \<Rightarrow> Executed iid result warnings
      | Inl e \<Rightarrow> Execution_failed (if is_syntax_error e then 400 else 422) (failure_text e) warnings)"

definition finish_execution :: "controller_env \<Rightarrow> jsval \<Rightarrow> string \<Rightarrow> jsval result \<Rightarrow> reply handler" where
  "finish_execution env claims iid outcome =
     bindP (record_outcome env claims iid (\<not> is_failure outcome) (case outcome of Inl e \<Rightarrow> failure_text e | Inr _ \<Rightarrow> []))
       (\<lambda>warnings. retP (execution_reply iid outcome warnings))"

definition run_granted :: "controller_env \<Rightarrow> jsval \<Rightarrow> (string \<times> jsval) list \<Rightarrow> string \<Rightarrow> reply handler" where
  "run_granted env claims args iid =
     thenP (coordinator env (claim_text claims ''clawId'') (startRun iid))
    (thenP (governance env (updateInvocation (ce_gov env) iid (Some invocation_status.Running) None))
    (bindP (attempt (provider_request env claims args iid)) (finish_execution env claims iid)))"

definition consume_grant :: "controller_env \<Rightarrow> jsval \<Rightarrow> string \<Rightarrow> string \<Rightarrow> bool handler" where
  "consume_grant env claims iid digest = coordinator env (claim_text claims ''clawId'') (\<lambda>now c.
     case consumeGrant iid (claim_text claims ''jti'') digest now c of (b, c') \<Rightarrow> (Inr b, c'))"

definition executeGithub :: "controller_env \<Rightarrow> string option \<Rightarrow> jsval \<Rightarrow> reply handler" where
  "executeGithub env header sent =
     (case bearer header of
        None \<Rightarrow> retP Grant_required
      | Some token \<Rightarrow>
          bindP clock (\<lambda>now.
          bindP (liftP (verifyClaims (ce_hmac env) (ce_secret env) token ''invocation'' ''crabhelm-tool-wrapper'' now)) (\<lambda>claims.
          let body = (case sent of JObj kvs \<Rightarrow> sent | _ \<Rightarrow> JObj []) in
          bindP (liftP (checked_text (get body ''invocationId'') ''invocationId'' 200)) (\<lambda>iid.
          bindP (liftP (normalizeInvocationArguments (get body ''arguments''))) (\<lambda>args.
          bindP (liftP (invocationArgumentsDigest (gc_lib (ce_gov env)) (get claims ''capabilityId'') (get claims ''target'') (JObj args))) (\<lambda>digest.
          thenP (refuseP (JStr digest \<noteq> get claims ''argumentsDigest'') (PlainError ''tool arguments differ from the signed grant''))
         (bindP (consume_grant env claims iid digest) (\<lambda>consumed.
          if \<not> consumed then retP Grant_refused else run_granted env claims args iid))))))))"

end
