(* ===== verification/Controller_Safety.thy ===== *)
theory Controller_Safety
  imports Coordinator_Tokens Governance_Controller
begin

text \<open>
  The handlers of worker/governance-controller.ts among each other: any number of them under way, one step at a time in
  any order, with the registry, the coordinators and the clock moving between. A call of GitHub spends a credit that
  only the consumption of a grant gives; so GitHub is called at most once for an invocation.
\<close>

subsection \<open>Steps that issue and consume nothing\<close>

text \<open>\<open>uses w c i\<close>: the calls made for an invocation on a claw and the grants that still allow one.\<close>

definition open_row :: "string \<Rightarrow> grant_row \<Rightarrow> bool" where
  "open_row i g \<longleftrightarrow> g_invocation g = i \<and> g_consumed g = None"

definition calls_for :: "string \<Rightarrow> string \<Rightarrow> world \<Rightarrow> logged_call list" where
  "calls_for c i w = filter (\<lambda>l. lc_claw l = c \<and> lc_invocation l = i) (w_github w)"

definition uses :: "world \<Rightarrow> string \<Rightarrow> string \<Rightarrow> nat" where
  "uses w c i = length (calls_for c i w) + length (filter (open_row i) (grants (w_coord w c)))"

definition calm :: "world \<Rightarrow> world \<Rightarrow> bool" where
  "calm w v \<longleftrightarrow> (\<forall>c. filters (grants (w_coord w c)) (grants (w_coord v c))) \<and> w_github v = w_github w \<and>
     gv_uuids (w_gov w) \<le> gv_uuids (w_gov v)"

lemma calm_self [simp]: "calm w w"
  by (simp add: calm_def)

lemma calm_calm: "calm a b \<Longrightarrow> calm b c \<Longrightarrow> calm a c"
  unfolding calm_def by (metis filters_trans order_trans)

lemma calm_uses: "calm w v \<Longrightarrow> uses v c i \<le> uses w c i"
  by (simp add: calm_def uses_def calls_for_def filters_count)

named_theorems calm_rules \<open>computations that are calm\<close>

abbreviation calms :: "'a ctl \<Rightarrow> bool" where
  "calms m \<equiv> (\<forall>w. preserves (calm w) m)"

lemma calmsI: "(\<And>w. calm w (snd (m w))) \<Longrightarrow> calms m"
  using calm_calm by (auto simp: preserves_def)

lemma calmsD: "calms m \<Longrightarrow> m w = (r, v) \<Longrightarrow> calm w v"
  using preservesD [of "calm w" m w] by simp

lemma calm_remote: "calms m \<Longrightarrow> calms (remote env m)"
proof (rule calmsI)
  fix w :: world assume m: "calms m"
  let ?v = "w\<lparr>w_calls := Suc (w_calls w)\<rparr>"
  have "calm ?v (snd (m ?v))" using calmsD [OF m, of ?v] by (cases "m ?v") simp
  then show "calm w (snd (remote env m w))" by (cases "ce_faults env (w_calls w)") (simp_all add: remote_def calm_def)
qed

lemma calm_on_gov: "(\<And>n. preserves (\<lambda>s. n \<le> gv_uuids s) m) \<Longrightarrow> calms (on_gov m)"
proof (rule calmsI)
  fix w :: world assume m: "\<And>n. preserves (\<lambda>s. n \<le> gv_uuids s) m"
  have "gv_uuids (w_gov w) \<le> gv_uuids (snd (m (w_gov w)))" using m [of "gv_uuids (w_gov w)"] by (simp add: preserves_def)
  then show "calm w (snd (on_gov m w))" by (simp add: on_gov_def calm_def case_prod_unfold)
qed

lemma calm_governance:
  assumes "\<And>n t. preserves (\<lambda>s. n \<le> gv_uuids s) (m t)"
  shows "calms (remote env (\<lambda>w. on_gov (m (w_now w)) w))"
proof (intro calm_remote calmsI)
  fix w :: world
  have "calms (on_gov (m (w_now w)))" using assms by (rule calm_on_gov)
  then show "calm w (snd (on_gov (m (w_now w)) w))" using calmsD by (cases "on_gov (m (w_now w)) w") fastforce
qed

lemma calm_coordinator:
  assumes "\<And>t c. filters (grants c) (grants (snd (m t c)))"
  shows "calms (remote env (\<lambda>w. on_coord claw (m (w_now w)) w))"
  using assms by (intro calm_remote calmsI) (simp add: on_coord_def calm_def case_prod_unfold)

lemma calm_queue: "calms (remote env (modC (\<lambda>w. w\<lparr>w_queue := f w\<rparr>)))"
  by (intro calm_remote calmsI) (simp add: calm_def)

lemma calm_bucket: "calms (remote env (\<lambda>w. (f (w_bucket w), w)))"
  by (intro calm_remote calmsI) simp

lemma calm_clock: "calms (getC w_now)"
  by (intro calmsI) simp

lemma grows_serialize:
  assumes "preserves (\<lambda>s. n \<le> gv_uuids s) m"
  shows "preserves (\<lambda>s. n \<le> gv_uuids s) (gov_serialize cfg m)"
  using assms by (fastforce simp: preserves_def gov_serialize_def split: prod.splits sum.splits)

lemma grows_controller:
  "preserves (\<lambda>s. n \<le> gv_uuids s) (updateInvocation cfg k st fin now)"
  "preserves (\<lambda>s. n \<le> gv_uuids s) (saveInvocation i now)"
  "preserves (\<lambda>s. n \<le> gv_uuids s) (useConfirmation cfg k a now)"
  "preserves (\<lambda>s. n \<le> gv_uuids s) (createConfirmation cfg a t e now)"
  unfolding updateInvocation_def saveInvocation_def useConfirmation_def createConfirmation_def put_invocation_def put_confirmation_def
  by (intro grows_serialize preserves_rules)+

lemma grants_runs: "grants (snd (startRun i now c)) = grants c" "grants (finishRun i ok err now c) = grants c"
  by (simp_all add: startRun_def finishRun_def)

subsection \<open>Credits\<close>

text \<open>
  A handler that consumed a grant may call GitHub once for it, and one that drew a name for an invocation may register
  one grant for it. The name of what it may still do is its credit; a step uses up at least what it adds to the
  calls and the open grants, or draws a new name.
\<close>

type_synonym credit = "(string \<times> string) option"

definition credits :: "credit \<Rightarrow> string \<Rightarrow> string \<Rightarrow> nat" where
  "credits c claw i = (if c = Some (claw, i) then 1 else 0)"

definition spends :: "controller_env \<Rightarrow> credit \<Rightarrow> credit \<Rightarrow> world \<Rightarrow> world \<Rightarrow> bool" where
  "spends env c d w v \<longleftrightarrow> gv_uuids (w_gov w) \<le> gv_uuids (w_gov v) \<and>
     ((\<forall>k i. uses v k i + credits d k i \<le> uses w k i + credits c k i) \<or>
      (\<exists>claw x. d = Some (claw, x) \<and> \<not> gov_drawn (ce_gov env) (gv_uuids (w_gov w)) x \<and> gov_drawn (ce_gov env) (gv_uuids (w_gov v)) x \<and>
         (\<forall>k i. uses v k i \<le> uses w k i)))"

abbreviation fair :: "controller_env \<Rightarrow> credit \<Rightarrow> 'a handler \<Rightarrow> bool" where
  "fair env c p \<equiv> permits (spends env) c p (\<lambda>_ _. True)"

abbreviation quiet :: "'a handler \<Rightarrow> bool" where
  "quiet p \<equiv> steps_in calm p"

lemma calm_uuids: "calm w v \<Longrightarrow> gv_uuids (w_gov w) \<le> gv_uuids (w_gov v)"
  by (simp add: calm_def)

lemma spendsI:
  "gv_uuids (w_gov w) \<le> gv_uuids (w_gov v) \<Longrightarrow> (\<And>k i. uses v k i + credits d k i \<le> uses w k i + credits c k i) \<Longrightarrow> spends env c d w v"
  by (simp add: spends_def)

lemma calm_spends: "calm w v \<Longrightarrow> spends env c c w v"
  by (simp add: spends_def calm_uuids calm_uses)

lemma quiet_atomic: "calms m \<Longrightarrow> quiet (atomic m)"
proof (rule steps_atomic)
  fix w assume m: "calms m"
  show "calm w (snd (m w))" using calmsD [OF m, of w] by (cases "m w") simp
qed

lemma quiet_governance: "(\<And>n t. preserves (\<lambda>s. n \<le> gv_uuids s) (m t)) \<Longrightarrow> quiet (governance env m)"
  unfolding governance_def by (intro quiet_atomic calm_governance)

lemma quiet_coordinator: "(\<And>t c. filters (grants c) (grants (snd (m t c)))) \<Longrightarrow> quiet (coordinator env claw m)"
  unfolding coordinator_def by (intro quiet_atomic calm_coordinator)

lemma quiet_calls [steps_rules]:
  "quiet (emit env e)" "quiet clock" "quiet (read_vault env c)" "quiet (draw env)"
  unfolding emit_def clock_def read_vault_def draw_def
  by (intro quiet_atomic calm_queue calm_clock calm_bucket calm_on_gov preserves_rules)+

lemma quiet_warned [steps_rules]: "quiet p \<Longrightarrow> quiet (warned code p)"
  unfolding warned_def by (intro steps_rules)

lemma quiet_permits: "quiet p \<Longrightarrow> permits (spends env) c p (\<lambda>d _. d = c)"
  by (rule permits_steps [where R = calm]) (erule calm_spends)

lemma quiet_fair: "quiet p \<Longrightarrow> fair env c p"
  by (erule permits_mono [OF quiet_permits]) (rule TrueI)

lemma fair_bind: "quiet p \<Longrightarrow> (\<And>a. fair env c (f a)) \<Longrightarrow> fair env c (bindP p f)"
  by (rule permits_bind [OF quiet_permits]) auto

lemma fair_then: "quiet p \<Longrightarrow> fair env c q \<Longrightarrow> fair env c (thenP p q)"
  unfolding thenP_def by (rule fair_bind)

lemma fair_last: "fair env c p \<Longrightarrow> (\<And>a. quiet (f a)) \<Longrightarrow> fair env c (bindP p f)"
  by (rule permits_bind [where Q = "\<lambda>_ _. True"]) (auto intro: quiet_fair)

lemma fair_last_then: "fair env c p \<Longrightarrow> quiet q \<Longrightarrow> fair env c (thenP p q)"
  unfolding thenP_def by (rule fair_last)

lemma fair_if: "(b \<Longrightarrow> fair env c p) \<Longrightarrow> (\<not> b \<Longrightarrow> fair env c q) \<Longrightarrow> fair env c (if b then p else q)"
  by simp

lemma fair_pair: "(\<And>a b. fair env c (u a b)) \<Longrightarrow> fair env c (case z of (a, b) \<Rightarrow> u a b)"
  by (simp split: prod.splits)

lemmas quiet_steps = steps_rules quiet_governance quiet_coordinator preserves_rules grows_controller

subsection \<open>Issuing and executing\<close>

lemma draw_credit:
  assumes "names_fit (ce_gov env)"
  shows "permits (spends env) None (draw env) (\<lambda>d r. \<exists>x. r = Inr x \<and> d = Some (claw, x))"
  unfolding draw_def
proof (intro permits_atomic)
  fix w :: world
  let ?m = "on_gov (new_uuid (ce_gov env))" and ?n = "gv_uuids (w_gov w)" and ?x = "gc_uuid (ce_gov env) (gv_uuids (w_gov w))"
  have m: "?m w = (Inr ?x, w\<lparr>w_gov := (w_gov w)\<lparr>gv_uuids := Suc ?n\<rparr>\<rparr>)" by (simp add: on_gov_def new_uuid_def)
  have "spends env None (Some (claw, ?x)) w (snd (?m w))"
    using not_gov_drawn [OF assms, of ?n] gov_drawn_now [of "ce_gov env" ?n]
    by (auto simp: spends_def m uses_def calls_for_def)
  then show "\<exists>d. spends env None d w (snd (?m w)) \<and> (\<exists>x. fst (?m w) = Inr x \<and> d = Some (claw, x))" by (auto simp: m)
qed

lemma remote_spends:
  assumes "\<And>w. spends env c d w (snd (m w))" "\<And>w v. calm w v \<Longrightarrow> spends env c d w v"
  shows "spends env c d w (snd (remote env m w))"
proof -
  let ?v = "w\<lparr>w_calls := Suc (w_calls w)\<rparr>"
  have same: "uses ?v k i = uses w k i" for k i by (simp add: uses_def calls_for_def)
  have "spends env c d ?v u \<Longrightarrow> spends env c d w u" for u by (simp add: spends_def same)
  then have "spends env c d w (snd (m ?v))" using assms(1) by blast
  moreover have "spends env c d w ?v" by (rule assms(2)) (simp add: calm_def)
  ultimately show ?thesis by (cases "ce_faults env (w_calls w)") (simp_all add: remote_def)
qed

lemma dropped: "calm w v \<Longrightarrow> spends env c None w v"
  using calm_uses [of w v] by (simp add: spends_def calm_uuids credits_def trans_le_add1)

lemma register_credit: "fair env (Some (claw, k)) (coordinator env claw (registerGrant k jti digest e))"
  unfolding coordinator_def
proof (intro permits_atomic exI conjI TrueI)
  fix w
  show "spends env (Some (claw, k)) None w (snd (remote env (\<lambda>w. on_coord claw (registerGrant k jti digest e (w_now w)) w) w))"
  proof (rule remote_spends)
    show "spends env (Some (claw, k)) None w (snd (on_coord claw (registerGrant k jti digest e (w_now w)) w))" for w :: world
      by (auto simp: spends_def credits_def on_coord_def registerGrant_def frame_simps uses_def calls_for_def open_row_def split: prod.splits if_splits)
  qed (rule dropped)
qed

lemma consumed_row:
  assumes "consumeGrant k jti digest now s = (b, s')"
  shows "length (filter (open_row i) (grants s')) + (if b \<and> i = k then 1 else 0) \<le> length (filter (open_row i) (grants s))"
proof -
  let ?p = "grant_matches k jti digest now"
  have "length (filter (open_row i) (grants s')) + length (filter (\<lambda>g. ?p g \<and> open_row i g) (grants s)) = length (filter (open_row i) (grants s))"
    using assms length_filter_update [of ?p "open_row i" "\<lambda>g. g\<lparr>g_consumed := Some now\<rparr>" "grants s"]
    by (auto simp: consumeGrant_def Let_def open_row_def)
  moreover have "b \<Longrightarrow> i = k \<Longrightarrow> length (filter (\<lambda>g. ?p g \<and> open_row i g) (grants s)) = 1"
  proof -
    assume "b" "i = k"
    moreover from \<open>i = k\<close> have "(\<lambda>g. ?p g \<and> open_row i g) = ?p" by (auto simp: grant_matches_def open_row_def)
    ultimately show ?thesis using assms by (simp add: consumeGrant_def Let_def sql_matches_def)
  qed
  ultimately show ?thesis by auto
qed

lemma consume_credit:
  "permits (spends env) None (consume_grant env claims iid digest) (\<lambda>d r. r = Inr True \<longrightarrow> d = Some (claim_text claims ''clawId'', iid))"
  unfolding consume_grant_def coordinator_def
proof (rule permits_atomic)
  fix w :: world
  let ?c = "claim_text claims ''clawId''" and ?j = "claim_text claims ''jti''"
  let ?m = "\<lambda>w. on_coord ?c (\<lambda>c. case consumeGrant iid ?j digest (w_now w) c of (b, c') \<Rightarrow> (Inr b, c')) w"
  have step: "spends env None (if fst (?m u) = Inr True then Some (?c, iid) else None) u (snd (?m u))" for u :: world
  proof -
    obtain b s' where e: "consumeGrant iid ?j digest (w_now u) (w_coord u ?c) = (b, s')" by (cases "consumeGrant iid ?j digest (w_now u) (w_coord u ?c)")
    have row: "length (filter (open_row i) (grants s')) + credits (if b then Some (?c, iid) else None) ?c i \<le>
        length (filter (open_row i) (grants (w_coord u ?c)))" for i
      using consumed_row [OF e, of i] by (auto simp: credits_def split: if_splits)
    have m: "?m u = (Inr b, u\<lparr>w_coord := (w_coord u)(?c := s')\<rparr>)" by (simp add: on_coord_def e)
    show ?thesis
    proof (rule spendsI)
      fix k i
      show "uses (snd (?m u)) k i + credits (if fst (?m u) = Inr True then Some (?c, iid) else None) k i \<le> uses u k i + credits None k i"
        using row [of i] unfolding m by (cases "k = ?c") (auto simp: credits_def uses_def calls_for_def)
    qed (simp add: m)
  qed
  let ?v = "w\<lparr>w_calls := Suc (w_calls w)\<rparr>" and ?r = "remote env ?m w"
  have same: "uses ?v k i = uses w k i" for k i by (simp add: uses_def calls_for_def)
  have up: "spends env None d ?v u \<Longrightarrow> spends env None d w u" for d u by (simp add: spends_def same)
  have lost: "spends env None d w u \<Longrightarrow> spends env None None w u" for d u
    unfolding spends_def credits_def by (fastforce elim: add_leD1)
  show "\<exists>d. spends env None d w (snd ?r) \<and> (fst ?r = Inr True \<longrightarrow> d = Some (?c, iid))"
  proof (cases "ce_faults env (w_calls w)")
    case Works
    then have "?r = ?m ?v" by (simp add: remote_def)
    then show ?thesis using up [OF step [of ?v]] by auto
  next
    case Fails_before
    then have "?r = (Inl unavailable, ?v)" by (simp add: remote_def)
    then show ?thesis using up [OF calm_spends [of ?v ?v]] by auto
  next
    case Fails_after
    then have "?r = (Inl unavailable, snd (?m ?v))" by (simp add: remote_def)
    then show ?thesis using lost [OF up [OF step [of ?v]]] by auto
  qed
qed

lemma ask_credit: "fair env (Some (claw, iid)) (ask_github env claw iid jti call)"
  unfolding ask_github_def by (intro permits_atomic exI [of _ None]) (auto simp: spends_def credits_def uses_def calls_for_def)

lemma record_outcome_quiet: "quiet (record_outcome env claims iid ok message)"
  unfolding record_outcome_def by (intro quiet_steps) (simp_all add: grants_runs)

lemma finish_quiet: "quiet (finish_execution env claims iid outcome)"
  unfolding finish_execution_def by (intro steps_rules record_outcome_quiet)

lemma ask_confirmation_quiet: "quiet (ask_confirmation env persona action resolved args)"
  unfolding ask_confirmation_def by (intro quiet_steps)

lemma sign_grant_quiet: "quiet (sign_grant env claims)"
  unfolding sign_grant_def by (intro quiet_steps)

lemma check_request_quiet: "quiet (check_request env who admin raw trusted)"
  unfolding check_request_def requirePrincipal_def requirePersona_def by (intro quiet_steps)

lemma register_fair: "fair env (Some (iv_claw i, iv_id i)) (register_grant env i claims event)"
  unfolding register_grant_def by (intro fair_then fair_last_then register_credit; intro quiet_steps)

lemma issue_grant_fair:
  assumes "names_fit (ce_gov env)"
  shows "fair env None (issue_grant env persona action resolved label conf args)"
proof -
  have "fair env (Some (pe_claw persona, iid)) (thenP (register_grant env (new_invocation persona action resolved conf iid now) claims event) q)"
    if "quiet q" for iid now claims event and q :: "reply handler"
    using register_fair [of env "new_invocation persona action resolved conf iid now"] that by (intro fair_last_then) (simp_all add: new_invocation_def)
  note register = this
  show ?thesis
    unfolding issue_grant_def Let_def
  proof (rule fair_bind [OF quiet_calls(2)], rule permits_bind [OF draw_credit [OF assms, of "pe_claw persona"] TrueI], elim exE conjE)
    fix now iid x and d :: credit
    assume "Inr iid = Inr x" "d = Some (pe_claw persona, x)"
    then have d: "d = Some (pe_claw persona, iid)" by simp
    show "fair env d (bindP (sign_grant env (grant_claims persona action resolved conf)) (\<lambda>(grant, claims).
        thenP (register_grant env (new_invocation persona action resolved conf iid now) claims
          ((invocation_event persona action resolved (gov_note (ca_requester action) ''invocation.issue'' ''succeeded'' (''Issued one-time grant for '' @ label)))
            \<lparr>ge_policy := Some (pe_revision persona), ge_confirmation := conf\<rparr>))
        (retP (Issued_grant (new_invocation persona action resolved conf iid now) grant args))))"
      unfolding d by (intro fair_bind sign_grant_quiet fair_pair register steps_rules)
  qed
qed

lemma issue_fair:
  assumes "names_fit (ce_gov env)"
  shows "fair env None (issueInvocation env who admin raw trusted)"
  unfolding issueInvocation_def answer_request_def
  by (intro fair_bind fair_if fair_then issue_grant_fair assms check_request_quiet quiet_fair ask_confirmation_quiet; intro quiet_steps)

lemma provider_fair: "fair env (Some (claim_text claims ''clawId'', iid)) (provider_request env claims args iid)"
  unfolding provider_request_def requireConnection_def by (intro fair_bind fair_then fair_last ask_credit; intro quiet_steps)

lemma run_granted_fair: "fair env (Some (claim_text claims ''clawId'', iid)) (run_granted env claims args iid)"
  unfolding run_granted_def
  by (intro fair_then fair_last permits_attempt provider_fair finish_quiet; intro quiet_steps) (simp_all add: grants_runs)

lemma execute_fair: "fair env None (executeGithub env header sent)"
proof -
  have "fair env None (bindP (consume_grant env claims iid digest) (\<lambda>consumed. if \<not> consumed then retP Grant_refused else run_granted env claims args iid))"
    for claims iid digest args
    by (rule permits_bind [OF consume_credit]) (auto intro: quiet_fair steps_rules run_granted_fair)
  note consumed = this
  show ?thesis unfolding executeGithub_def Let_def
    by (cases "bearer header"; simp only: option.case)
      (rule quiet_fair, rule steps_basic, (rule consumed | rule fair_bind | rule fair_then | rule steps_rules)+)
qed

subsection \<open>Many handlers\<close>

text \<open>
  Everything that happens around the controller: handlers that issue and execute invocations are started by anyone with
  any request, and each of them makes its steps when it is its turn; the other operations of the governance registry
  and the other events of the coordinators come between, and the clock is set, in any order. (Only the controller
  registers and consumes grants.) A task remembers the steps its handler made, each with the worlds before and after.
\<close>

datatype controller_event =
    Issue_invocation string bool jsval bool
  | Execute_github "string option" jsval
  | Proceed nat
  | Clock int
  | Governance_op gov_op
  | Coordinator_event string event

record task =
  tk_event :: controller_event
  tk_steps :: "(world \<times> world) list"
  tk_now :: "reply handler"

record system =
  sy_world :: world
  sy_tasks :: "task list"

definition handler_of :: "controller_env \<Rightarrow> controller_event \<Rightarrow> reply handler" where
  "handler_of env e =
     (case e of
        Issue_invocation who admin raw trusted \<Rightarrow> issueInvocation env who admin raw trusted
      | Execute_github header sent \<Rightarrow> executeGithub env header sent
      | _ \<Rightarrow> retP Grant_required)"

definition start_task :: "controller_env \<Rightarrow> controller_event \<Rightarrow> system \<Rightarrow> system" where
  "start_task env e s = s\<lparr>sy_tasks := sy_tasks s @ [\<lparr>tk_event = e, tk_steps = [], tk_now = handler_of env e\<rparr>]\<rparr>"

definition proceed :: "nat \<Rightarrow> system \<Rightarrow> system" where
  "proceed i s =
     (if i < length (sy_tasks s) then
        let t = sy_tasks s ! i; w = sy_world s in
        case tk_now t of
          Done _ \<Rightarrow> s
        | Await g \<Rightarrow> (case g w of (v, p) \<Rightarrow>
            \<lparr>sy_world = v, sy_tasks = (sy_tasks s)[i := t\<lparr>tk_steps := tk_steps t @ [(w, v)], tk_now := p\<rparr>]\<rparr>)
      else s)"

fun controller_step :: "controller_env \<Rightarrow> coord_env \<Rightarrow> controller_event \<Rightarrow> system \<Rightarrow> system" where
  "controller_step env cenv (Issue_invocation who admin raw trusted) s = start_task env (Issue_invocation who admin raw trusted) s"
| "controller_step env cenv (Execute_github header sent) s = start_task env (Execute_github header sent) s"
| "controller_step env cenv (Proceed i) s = proceed i s"
| "controller_step env cenv (Clock t) s = s\<lparr>sy_world := (sy_world s)\<lparr>w_now := t\<rparr>\<rparr>"
| "controller_step env cenv (Governance_op op) s =
     s\<lparr>sy_world := (sy_world s)\<lparr>w_gov := run_op (ce_gov env) op (w_gov (sy_world s))\<rparr>\<rparr>"
| "controller_step env cenv (Coordinator_event claw ev) s =
     (let w = sy_world s in
      s\<lparr>sy_world := w\<lparr>w_coord := (w_coord w)(claw := snd (coord_step cenv (w_now w) ev (w_coord w claw)))\<rparr>\<rparr>)"

definition controller_run :: "controller_env \<Rightarrow> coord_env \<Rightarrow> controller_event list \<Rightarrow> world \<Rightarrow> system" where
  "controller_run env cenv evs w = fold (controller_step env cenv) evs \<lparr>sy_world = w, sy_tasks = []\<rparr>"

definition outside_grants :: "controller_event \<Rightarrow> bool" where
  "outside_grants e \<longleftrightarrow> (case e of Coordinator_event claw ev \<Rightarrow>
     (case ev of Register_grant _ _ _ _ \<Rightarrow> False | Consume_grant _ _ _ \<Rightarrow> False | _ \<Rightarrow> True) | Governance_op op \<Rightarrow> op_fits op | _ \<Rightarrow> True)"

text \<open>What a task remembers is what its handler did.\<close>

definition remembers :: "controller_env \<Rightarrow> system \<Rightarrow> bool" where
  "remembers env s \<longleftrightarrow> list_all (\<lambda>t. made (handler_of env (tk_event t)) (tk_steps t) (tk_now t)) (sy_tasks s)"

lemma start_remembers: "remembers env s \<Longrightarrow> remembers env (start_task env e s)"
  by (simp add: remembers_def start_task_def made_none)

lemma remembers_world: "remembers env (s\<lparr>sy_world := w\<rparr>) = remembers env s"
  by (simp add: remembers_def)

lemma proceed_remembers:
  assumes "remembers env s"
  shows "remembers env (proceed i s)"
proof (cases "i < length (sy_tasks s)")
  case True
  let ?t = "sy_tasks s ! i"
  have m: "made (handler_of env (tk_event ?t)) (tk_steps ?t) (tk_now ?t)"
    using assms True by (auto simp: remembers_def list_all_iff)
  show ?thesis
  proof (cases "tk_now ?t")
    case (Await g)
    obtain v p where g: "g (sy_world s) = (v, p)" by (cases "g (sy_world s)")
    have "made (handler_of env (tk_event ?t)) (tk_steps ?t @ [(sy_world s, v)]) p"
      using made_more [where g = g, OF _ g] m unfolding Await by blast
    then show ?thesis using assms True Await g
      by (simp add: proceed_def Let_def remembers_def list_all_length nth_list_update)
  qed (use assms in \<open>simp add: proceed_def\<close>)
qed (use assms in \<open>simp add: proceed_def\<close>)

lemma step_remembers: "remembers env s \<Longrightarrow> remembers env (controller_step env cenv e s)"
  by (cases e) (simp_all only: controller_step.simps start_remembers proceed_remembers remembers_world Let_def)

lemma run_made:
  assumes "t \<in> set (sy_tasks (controller_run env cenv evs w))"
  shows "made (handler_of env (tk_event t)) (tk_steps t) (tk_now t)"
proof -
  have "remembers env s \<Longrightarrow> remembers env (fold (controller_step env cenv) evs s)" for s
    by (induction evs arbitrary: s) (simp_all add: step_remembers)
  then have "remembers env (controller_run env cenv evs w)" unfolding controller_run_def by (simp add: remembers_def)
  then show ?thesis using assms by (auto simp: remembers_def list_all_iff)
qed

lemma change_uuids: "gov_change cfg s t \<Longrightarrow> gv_uuids s \<le> gv_uuids t"
  by (induction rule: gov_change.induct) simp_all

lemma gov_changes_uuids: "gov_changes cfg s t \<Longrightarrow> gv_uuids s \<le> gv_uuids t"
  by (induction rule: rtranclp_induct) (auto dest: change_uuids intro: order_trans)

lemma event_grants:
  assumes "case ev of Register_grant _ _ _ _ \<Rightarrow> False | Consume_grant _ _ _ \<Rightarrow> False | _ \<Rightarrow> True"
  shows "filters (grants s) (grants (snd (coord_step cenv now ev s)))"
proof (cases "touches_tokens ev")
  case False
  then show ?thesis using step_tokens(1) by (simp add: tokens_kept_def)
next
  case True
  then have "grants (snd (coord_step cenv now ev s)) = grants s"
    using assms
    by (cases ev) (auto simp: touches_tokens_def coord_step_def lift_reply_def registerRuntimeRefresh_def registerRuntimeTicket_def
        consumeRuntimeTicket_def frame_simps Let_def)
  then show ?thesis by simp
qed

subsection \<open>One call for a grant\<close>

text \<open>The uses of a name with the credits for it: at most one, on one claw, and none of names that are not drawn yet.\<close>

definition allotted :: "controller_env \<Rightarrow> nat \<Rightarrow> (string \<Rightarrow> string \<Rightarrow> nat) \<Rightarrow> bool" where
  "allotted env n T \<longleftrightarrow> (\<forall>c k. T c k \<le> 1) \<and> (\<forall>c c' k. 0 < T c k \<longrightarrow> 0 < T c' k \<longrightarrow> c = c') \<and>
     (\<forall>c k. 0 < T c k \<longrightarrow> gov_drawn (ce_gov env) n k)"

lemma allotted_less:
  assumes "allotted env n T" "\<And>c k. U c k \<le> T c k" "n \<le> m"
  shows "allotted env m U"
proof -
  have "0 < U c k \<Longrightarrow> 0 < T c k" for c k using assms(2) by (meson order_less_le_trans)
  then show ?thesis using assms gov_drawn_mono unfolding allotted_def by (meson order_trans)
qed

lemma allotted_new:
  assumes "allotted env n T" "\<not> gov_drawn (ce_gov env) n x" "gov_drawn (ce_gov env) m x" "n \<le> m"
    and le: "\<And>c k. U c k \<le> T c k + credits (Some (claw, x)) c k"
  shows "allotted env m U"
proof -
  have none: "T c x = 0" for c using assms(1,2) unfolding allotted_def by (metis neq0_conv)
  have other: "U c k \<le> T c k" if "k \<noteq> x" for c k using le [of c k] that by (simp add: credits_def)
  have pos: "0 < T c k" if "0 < U c k" "k \<noteq> x" for c k using other [OF that(2)] that(1) by (meson order_less_le_trans)
  have here: "U c x \<le> 1" "0 < U c x \<Longrightarrow> c = claw" for c using le [of c x] none [of c] by (auto simp: credits_def split: if_splits)
  have one: "T c k \<le> 1" and single: "0 < T c k \<Longrightarrow> 0 < T c' k \<Longrightarrow> c = c'"
    and dr: "0 < T c k \<Longrightarrow> gov_drawn (ce_gov env) n k" for c c' k
    using assms(1) unfolding allotted_def by blast+
  show ?thesis unfolding allotted_def
  proof (intro conjI allI impI)
    show "U c k \<le> 1" for c k using here(1) other one order_trans by (cases "k = x") blast+
    show "c = c'" if "0 < U c k" "0 < U c' k" for c c' k
      using that here(2) single pos by (cases "k = x") blast+
    show "gov_drawn (ce_gov env) m k" if "0 < U c k" for c k
      using that assms(3) gov_drawn_mono [OF dr assms(4)] pos by (cases "k = x") blast+
  qed
qed

definition total :: "world \<Rightarrow> credit list \<Rightarrow> string \<Rightarrow> string \<Rightarrow> nat" where
  "total w cs c k = uses w c k + count_list cs (Some (c, k))"

definition system_ok :: "controller_env \<Rightarrow> system \<Rightarrow> bool" where
  "system_ok env s \<longleftrightarrow>
     (\<exists>cs. list_all2 (\<lambda>c t. fair env c (tk_now t)) cs (sy_tasks s) \<and>
        allotted env (gv_uuids (w_gov (sy_world s))) (total (sy_world s) cs))"

lemma count_list_change:
  "i < length cs \<Longrightarrow> count_list (cs[i := d]) (Some (k, j)) + credits (cs ! i) k j = count_list cs (Some (k, j)) + credits d k j"
proof (induction cs arbitrary: i)
  case (Cons c cs)
  then show ?case
  proof (cases i)
    case (Suc n)
    with Cons.prems Cons.IH [of n] show ?thesis by (auto simp: credits_def split: if_splits)
  qed (simp add: credits_def)
qed simp

lemma spent:
  assumes "allotted env (gv_uuids (w_gov w)) (total w cs)" "spends env (cs ! i) d w v" "i < length cs"
  shows "allotted env (gv_uuids (w_gov v)) (total v (cs[i := d]))"
proof -
  have n: "gv_uuids (w_gov w) \<le> gv_uuids (w_gov v)" using assms(2) by (simp add: spends_def)
  note count = count_list_change [OF assms(3), of d]
  consider "\<forall>k i'. uses v k i' + credits d k i' \<le> uses w k i' + credits (cs ! i) k i'"
    | claw x where "d = Some (claw, x)" "\<not> gov_drawn (ce_gov env) (gv_uuids (w_gov w)) x" "gov_drawn (ce_gov env) (gv_uuids (w_gov v)) x"
        "\<forall>k i'. uses v k i' \<le> uses w k i'"
    using assms(2) unfolding spends_def by blast
  then show ?thesis
  proof cases
    case 1
    have "total v (cs[i := d]) k j \<le> total w cs k j" for k j using 1 [rule_format, of k j] count [of k j] by (simp add: total_def)
    then show ?thesis using allotted_less [OF assms(1) _ n] by blast
  next
    case 2
    have "total v (cs[i := d]) k j \<le> total w cs k j + credits (Some (claw, x)) k j" for k j
      using 2(4) [rule_format, of k j] count [of k j] by (simp add: total_def 2(1))
    then show ?thesis using allotted_new [OF assms(1) 2(2,3) n] by blast
  qed
qed

lemma calm_ok: "system_ok env s \<Longrightarrow> calm (sy_world s) v \<Longrightarrow> system_ok env (s\<lparr>sy_world := v\<rparr>)"
proof -
  assume ok: "system_ok env s" and c: "calm (sy_world s) v"
  obtain cs where cs: "list_all2 (\<lambda>c t. fair env c (tk_now t)) cs (sy_tasks s)" "allotted env (gv_uuids (w_gov (sy_world s))) (total (sy_world s) cs)"
    using ok by (auto simp: system_ok_def)
  have "allotted env (gv_uuids (w_gov v)) (total v cs)"
    by (rule allotted_less [OF cs(2) _ calm_uuids [OF c]]) (simp add: total_def calm_uses [OF c])
  then show ?thesis using cs(1) by (auto simp: system_ok_def)
qed

lemma started_ok:
  assumes "names_fit (ce_gov env)" "system_ok env s"
  shows "system_ok env (start_task env e s)"
proof -
  have f: "fair env None (handler_of env e)"
    by (cases e; simp only: handler_of_def controller_event.case; rule issue_fair [OF assms(1)] execute_fair quiet_fair steps_basic)
      (rule steps_basic)+
  obtain cs where cs: "list_all2 (\<lambda>c t. fair env c (tk_now t)) cs (sy_tasks s)" "allotted env (gv_uuids (w_gov (sy_world s))) (total (sy_world s) cs)"
    using assms(2) by (auto simp: system_ok_def)
  have "total (sy_world s) (cs @ [None]) = total (sy_world s) cs" by (intro ext) (simp add: total_def)
  then show ?thesis unfolding system_ok_def start_task_def
    using cs f by (intro exI [of _ "cs @ [None]"]) (simp add: list_all2_appendI)
qed

lemma proceed_ok:
  assumes "system_ok env s"
  shows "system_ok env (proceed i s)"
proof (cases "i < length (sy_tasks s) \<and> (\<exists>g. tk_now (sy_tasks s ! i) = Await g)")
  case True
  then obtain g where i: "i < length (sy_tasks s)" "tk_now (sy_tasks s ! i) = Await g" by blast
  obtain cs where cs: "list_all2 (\<lambda>c t. fair env c (tk_now t)) cs (sy_tasks s)" "allotted env (gv_uuids (w_gov (sy_world s))) (total (sy_world s) cs)"
    using assms by (auto simp: system_ok_def)
  have l: "i < length cs" using cs(1) i(1) by (simp add: list_all2_lengthD)
  have "fair env (cs ! i) (Await g)" using list_all2_nthD2 [OF cs(1) i(1)] i(2) by simp
  then obtain d where d: "spends env (cs ! i) d (sy_world s) (fst (g (sy_world s)))" "fair env d (snd (g (sy_world s)))"
    by (auto elim: permits_awaits)
  then show ?thesis
    using spent [OF cs(2) d(1) l] i list_all2_update_cong [OF cs(1)]
    by (auto simp: system_ok_def proceed_def Let_def split_def intro!: exI [of _ "cs[i := d]"])
next
  case False
  then have "proceed i s = s" by (cases "tk_now (sy_tasks s ! i)") (auto simp: proceed_def)
  with assms show ?thesis by simp
qed

lemma step_ok:
  assumes "names_fit (ce_gov env)" "gc_transaction (ce_gov env)" "outside_grants e" "system_ok env s"
  shows "system_ok env (controller_step env cenv e s)"
proof (cases e)
  case (Governance_op op)
  then have "gov_changes (ce_gov env) (w_gov (sy_world s)) (run_op (ce_gov env) op (w_gov (sy_world s)))"
    using run_op_changes [OF assms(2)] assms(3) by (simp add: outside_grants_def)
  then show ?thesis using Governance_op gov_changes_uuids calm_ok [OF assms(4)] by (simp add: calm_def)
next
  case (Coordinator_event claw ev)
  then show ?thesis using assms(3) event_grants [of ev] calm_ok [OF assms(4)] by (simp add: calm_def outside_grants_def Let_def)
next
  case (Clock t)
  then show ?thesis using calm_ok [OF assms(4)] by (simp add: calm_def)
qed (use started_ok [OF assms(1,4)] proceed_ok [OF assms(4)] in simp_all)

definition fresh_world :: "world \<Rightarrow> bool" where
  "fresh_world w \<longleftrightarrow> w_github w = [] \<and> (\<forall>c. grants (w_coord w c) = [])"

lemma run_ok:
  assumes "names_fit (ce_gov env)" "gc_transaction (ce_gov env)" "fresh_world w" "\<forall>e\<in>set evs. outside_grants e"
  shows "system_ok env (controller_run env cenv evs w)"
proof -
  have "total w [] c k = 0" for c k using assms(3) by (simp add: total_def fresh_world_def uses_def calls_for_def)
  then have "system_ok env \<lparr>sy_world = w, sy_tasks = []\<rparr>" by (simp add: system_ok_def allotted_def)
  moreover have "system_ok env s \<Longrightarrow> system_ok env (fold (controller_step env cenv) evs s)" for s
    using assms(4) by (induction evs arbitrary: s) (simp_all add: step_ok [OF assms(1,2)])
  ultimately show ?thesis unfolding controller_run_def by blast
qed

lemma distinct_by_count: "(\<And>k. length (filter (\<lambda>x. f x = k) xs) \<le> 1) \<Longrightarrow> distinct (map f xs)"
proof (induction xs)
  case (Cons x xs)
  have "length (filter (\<lambda>y. f y = k) xs) \<le> 1" for k using Cons.prems [of k] by (simp split: if_splits)
  moreover have "filter (\<lambda>y. f y = f x) xs = []" using Cons.prems [of "f x"] by simp
  ultimately show ?case using Cons.IH by (auto simp: filter_empty_conv)
qed simp

lemma ok_calls:
  assumes "system_ok env s"
  shows "distinct (map lc_invocation (w_github (sy_world s)))"
proof (rule distinct_by_count)
  let ?w = "sy_world s"
  fix k
  obtain cs where cs: "allotted env (gv_uuids (w_gov ?w)) (total ?w cs)" using assms by (auto simp: system_ok_def)
  have a: "allotted env (gv_uuids (w_gov ?w)) (uses ?w)" by (rule allotted_less [OF cs]) (simp_all add: total_def)
  let ?all = "filter (\<lambda>l. lc_invocation l = k) (w_github ?w)"
  show "length ?all \<le> 1"
  proof (cases ?all)
    case (Cons l ls)
    let ?c = "lc_claw l"
    have some: "0 < uses ?w (lc_claw m) k" if "m \<in> set ?all" for m
      using that by (auto simp: uses_def calls_for_def filter_empty_conv)
    have "lc_claw m = ?c" if "m \<in> set ?all" for m
      using some [OF that] some [of l] Cons a unfolding allotted_def by (metis list.set_intros(1))
    then have "?all = calls_for ?c k ?w" unfolding calls_for_def by (intro filter_cong) auto
    moreover have "length (calls_for ?c k ?w) \<le> 1"
      using a unfolding allotted_def uses_def by (meson le_add1 order_trans)
    ultimately show ?thesis by simp
  qed simp
qed

text \<open>
  C37. GitHub is called at most once for an invocation. Over every run of the controller, with any number of handlers for
  any requests and tokens under way at once, interleaved at every \<open>await\<close> with each other, with the operations of the
  registry and the events of the coordinators, at any clock readings, and with any calls failing before or after
  they took effect, no two calls of GitHub were made for the same invocation.
\<close>

theorem github_is_called_once:
  assumes "names_fit (ce_gov env)" "gc_transaction (ce_gov env)" "fresh_world w" "\<forall>e\<in>set evs. outside_grants e"
  shows "distinct (map lc_invocation (w_github (sy_world (controller_run env cenv evs w))))"
  by (rule ok_calls [OF run_ok [OF assms]])

end
