(* ===== verification/Controller_Calls.thy ===== *)
theory Controller_Calls
  imports Controller_Safety
begin

text \<open>
  The contracts of the two handlers of worker/governance-controller.ts, each told by the steps it makes, whatever
  happens between them: a grant is issued only for a permitted and confirmed action, an execution calls GitHub
  only for what its grant binds and with the credential the grant names, and always reports the outcome; and the call
  addresses the repository of the target.
\<close>

subsection \<open>What the steps of a handler show\<close>

text \<open>\<open>yields p Q\<close>: when \<open>p\<close> succeeds, its steps and its result satisfy \<open>Q\<close>.\<close>

definition yields :: "'a handler \<Rightarrow> ((world \<times> world) list \<Rightarrow> 'a \<Rightarrow> bool) \<Rightarrow> bool" where
  "yields p Q \<longleftrightarrow> ensures p (\<lambda>ss r. \<forall>a. r = Inr a \<longrightarrow> Q ss a)"

named_theorems yields_simps \<open>what a handler that succeeds has done\<close>

lemma yields_basic [yields_simps]:
  "yields (retP a) Q \<longleftrightarrow> Q [] a"
  "yields (throwP e) Q"
  "yields (liftP r) Q \<longleftrightarrow> (\<forall>a. r = Inr a \<longrightarrow> Q [] a)"
  "yields (refuseP b e) Q' \<longleftrightarrow> (\<not> b \<longrightarrow> Q' [] ())"
  by (auto simp: yields_def retP_def throwP_def liftP_def refuseP_def refuse_if_def ensures_done)

lemma yields_bind [yields_simps]: "yields (bindP p f) Q \<longleftrightarrow> yields p (\<lambda>ss a. yields (f a) (\<lambda>ts. Q (ss @ ts)))"
  unfolding yields_def ensures_bind
  by (rule arg_cong [where f = "ensures p"], intro ext) (simp split: sum.split)

lemma yields_then [yields_simps]: "yields (thenP p q) Q \<longleftrightarrow> yields p (\<lambda>ss a. yields q (\<lambda>ts. Q (ss @ ts)))"
  unfolding thenP_def by (rule yields_bind)

lemma yields_mono: "yields p Q \<Longrightarrow> (\<And>ss a. Q ss a \<Longrightarrow> R ss a) \<Longrightarrow> yields p R"
  unfolding yields_def by (erule ensures_mono) blast

lemma yieldsD: "yields p Q \<Longrightarrow> made p ss (Done (Inr a)) \<Longrightarrow> Q ss a"
  by (simp add: yields_def ensures_def)

lemma yields_any: "yields p (\<lambda>ss a. True)"
  by (simp add: yields_def ensures_def)

lemma yields_atomic: "yields (atomic m) Q \<longleftrightarrow> (\<forall>w. after m w (\<lambda>a v. Q [(w, v)] a))"
  by (auto simp: yields_def ensures_atomic after_def) (metis fst_conv snd_conv, metis prod.collapse)

lemma after_works: "after (remote env m) w Q \<longleftrightarrow> (ce_faults env (w_calls w) = Works \<longrightarrow> after m (w\<lparr>w_calls := Suc (w_calls w)\<rparr>) Q)"
  by (cases "ce_faults env (w_calls w)") (auto simp: after_def remote_def)

lemma yields_governance [yields_simps]:
  "yields (governance env m) Q \<longleftrightarrow> (\<forall>w. ce_faults env (w_calls w) = Works \<longrightarrow>
     after (m (w_now w)) (w_gov w) (\<lambda>x g. Q [(w, w\<lparr>w_calls := Suc (w_calls w), w_gov := g\<rparr>)] x))"
  by (auto simp: governance_def yields_atomic after_works) (auto simp: after_def on_gov_def split: prod.splits)

lemma yields_coordinator [yields_simps]:
  "yields (coordinator env claw m) Q \<longleftrightarrow> (\<forall>w. ce_faults env (w_calls w) = Works \<longrightarrow>
     after (m (w_now w)) (w_coord w claw) (\<lambda>x c. Q [(w, w\<lparr>w_calls := Suc (w_calls w), w_coord := (w_coord w)(claw := c)\<rparr>)] x))"
  by (auto simp: coordinator_def yields_atomic after_works) (auto simp: after_def on_coord_def split: prod.splits)

lemma yields_calls [yields_simps]:
  "yields (emit env e) Q \<longleftrightarrow> (\<forall>w. ce_faults env (w_calls w) = Works \<longrightarrow> Q [(w, w\<lparr>w_calls := Suc (w_calls w), w_queue := w_queue w @ [e]\<rparr>)] ())"
  "yields clock R \<longleftrightarrow> (\<forall>w. R [(w, w)] (w_now w))"
  "yields (draw env) S \<longleftrightarrow> (\<forall>w. S [(w, w\<lparr>w_gov := (w_gov w)\<lparr>gv_uuids := Suc (gv_uuids (w_gov w))\<rparr>\<rparr>)] (gc_uuid (ce_gov env) (gv_uuids (w_gov w))))"
  by (simp_all add: emit_def clock_def draw_def yields_atomic after_works after_basic after_unit) (simp add: after_def on_gov_def new_uuid_def)

subsection \<open>What a grant is issued for\<close>

lemma after_serialized: "after (gov_serialize cfg m) s Q \<longleftrightarrow> after m s Q"
  by (auto simp: after_def serialized_Inr)

lemma after_registered:
  "after (registerGrant k jti digest e now) c Q \<longleftrightarrow>
     (k \<noteq> [] \<and> jti \<noteq> [] \<and> digest_shape digest \<and> now < e \<and> \<not> (\<exists>g\<in>set (grants c). g_invocation g = k \<or> g_jti g = jti) \<longrightarrow>
      Q () (scheduleCleanup now (c\<lparr>grants := grants c @
        [\<lparr>g_invocation = k, g_jti = jti, g_digest = digest, g_expires = e, g_consumed = None\<rparr>]\<rparr>)))"
  by (auto simp: after_def registerGrant_def not_le)

lemma capability_found: "capabilityById k = Inr cap \<Longrightarrow> cap \<in> set DEFAULT_CAPABILITIES"
  by (auto simp: capabilityById_def find_Some_iff split: option.splits)

lemma after_use:
  assumes "\<And>c tb. mem_lookup k (gv_confirmations s) = Some c \<Longrightarrow> cf_status c = Approved \<Longrightarrow> now < cf_expires c \<Longrightarrow> cf_action c = action \<Longrightarrow>
      mem_lookup k tb = Some (c\<lparr>cf_status := Used\<rparr>) \<Longrightarrow> Q (c\<lparr>cf_status := Used\<rparr>) (s\<lparr>gv_confirmations := tb\<rparr>)"
  shows "after (useConfirmation cfg k action now) s Q"
  unfolding useConfirmation_def after_serialized
  using assms sql_register_same by (fastforce simp: after_simps Let_def)

text \<open>The four steps of the checks: the requester, the persona, and the principals and connections the actor is found in.\<close>

definition request_checked :: "controller_env \<Rightarrow> string \<Rightarrow> bool \<Rightarrow> jsval \<Rightarrow> bool \<Rightarrow> (world \<times> world) list \<Rightarrow> checked_request \<Rightarrow> bool" where
  "request_checked env who admin raw trusted ss q \<longleftrightarrow>
     (\<exists>w1 v1 w2 v2 w3 v3 w4 v4 requester k. ss = [(w1, v1), (w2, v2), (w3, v3), (w4, v4)] \<and>
        mem_lookup who (gv_principals (w_gov w1)) = Some requester \<and>
        checked_text (get raw ''personaId'') ''personaId'' 200 = Inr k \<and> mem_lookup k (gv_personas (w_gov w2)) = Some (cq_persona q) \<and>
        (trusted \<or> mayInvokePersona (cq_persona q) who admin) \<and> cq_capability q \<in> set DEFAULT_CAPABILITIES \<and>
        checked_text (get raw ''capabilityId'') ''capabilityId'' 120 = Inr (cap_id (cq_capability q)) \<and>
        normalizeGithubTarget (get raw ''target'') = Inr (ca_target (cq_action q)) \<and>
        normalizeInvocationArguments (get raw ''arguments'') = Inr (cq_arguments q) \<and>
        invocationArgumentsDigest (gc_lib (ce_gov env)) (JStr (cap_id (cq_capability q))) (JStr (ca_target (cq_action q))) (JObj (cq_arguments q)) =
          Inr (ca_digest (cq_action q)) \<and>
        resolveInvocationActor requester (cq_persona q) (cq_capability q) (gov_values gv_principals (w_gov w3))
          (gov_values gv_connections (w_gov w4)) = Inr (cq_resolved q) \<and>
        ca_requester (cq_action q) = who \<and> ca_persona (cq_action q) = pe_id (cq_persona q) \<and>
        ca_actor (cq_action q) = gp_id (ra_actor (cq_resolved q)) \<and> ca_capability (cq_action q) = cap_id (cq_capability q))"

lemma capability_named: "capabilityById k = Inr cap \<Longrightarrow> cap_id cap = k"
  by (auto simp: capabilityById_def find_Some_iff split: option.splits)

lemma check_request_yields: "yields (check_request env who admin raw trusted) (request_checked env who admin raw trusted)"
  unfolding check_request_def
  by (auto simp: yields_simps after_simps request_checked_def capability_found dest: capability_named)

text \<open>The step that spends the confirmation, where the capability asks for one.\<close>

definition confirmation_spent :: "jsval \<Rightarrow> checked_request \<Rightarrow> (world \<times> world) list \<Rightarrow> bool" where
  "confirmation_spent confirmation q ss \<longleftrightarrow>
     (if cap_always_confirm (cq_capability q) then
        (\<exists>w v k c. ss = [(w, v)] \<and> checked_text confirmation ''confirmationId'' 200 = Inr k \<and>
           mem_lookup k (gv_confirmations (w_gov w)) = Some c \<and> cf_status c = Approved \<and> w_now w < cf_expires c \<and> cf_action c = cq_action q \<and>
           mem_lookup k (gv_confirmations (w_gov v)) = Some (c\<lparr>cf_status := Used\<rparr>))
      else ss = [])"

text \<open>What the token of a grant says, and the steps that sign it, save the invocation and register the grant.\<close>

definition binds :: "jsval \<Rightarrow> checked_request \<Rightarrow> bool" where
  "binds base q \<longleftrightarrow>
     get base ''typ'' = JStr ''invocation'' \<and> get base ''aud'' = JStr ''crabhelm-tool-wrapper'' \<and>
     get base ''clawId'' = JStr (pe_claw (cq_persona q)) \<and> get base ''requesterId'' = JStr (ca_requester (cq_action q)) \<and>
     get base ''personaId'' = JStr (pe_id (cq_persona q)) \<and> get base ''actorId'' = JStr (gp_id (ra_actor (cq_resolved q))) \<and>
     get base ''capabilityId'' = JStr (ca_capability (cq_action q)) \<and> get base ''target'' = JStr (ca_target (cq_action q)) \<and>
     get base ''argumentsDigest'' = JStr (ca_digest (cq_action q)) \<and> get base ''connectionId'' = JStr (oc_id (ra_connection (cq_resolved q)))"

definition grant_registered :: "controller_env \<Rightarrow> checked_request \<Rightarrow> invocation_record \<Rightarrow> string \<Rightarrow> (world \<times> world) list \<Rightarrow> bool" where
  "grant_registered env q i grant ss \<longleftrightarrow>
     (\<exists>w1 v1 w2 v2 w3 v3 w4 v4 w5 v5 saving saved a b w8 v8 w9 v9 base claims.
        ss = [(w1, v1), (w2, v2), (w3, v3), (w4, v4), (w5, v5), (saving, saved), (a, b), (w8, v8), (w9, v9)] \<and>
        iv_action i = cq_action q \<and> iv_claw i = pe_claw (cq_persona q) \<and> iv_mode i = ra_mode (cq_resolved q) \<and> iv_status i = Issued \<and>
        iv_issued i = w_now w1 \<and> iv_expires i = w_now w1 + 300000 \<and> iv_id i = gc_uuid (ce_gov env) (gv_uuids (w_gov w2)) \<and>
        binds base q \<and> signClaims (ce_hmac env) (ce_secret env) base 300 (gc_uuid (ce_gov env) (gv_uuids (w_gov w4))) (w_now w3) = Inr grant \<and>
        verifyClaims (ce_hmac env) (ce_secret env) grant ''invocation'' ''crabhelm-tool-wrapper'' (w_now w5) = Inr claims \<and>
        mem_lookup (iv_id i) (gv_invocations (w_gov saved)) = Some i \<and>
        grants (w_coord b (iv_claw i)) = grants (w_coord a (iv_claw i)) @
          [\<lparr>g_invocation = iv_id i, g_jti = claim_text claims ''jti'', g_digest = ca_digest (cq_action q), g_expires = iv_expires i, g_consumed = None\<rparr>])"

lemma claims_bind:
  "ca_actor (cq_action q) = gp_id (ra_actor (cq_resolved q)) \<Longrightarrow>
     binds (grant_claims (cq_persona q) (cq_action q) (cq_resolved q) confirmation) q"
  by (simp add: binds_def grant_claims_def get_JObj)

lemma saved_invocation: "after (saveInvocation i now) s Q \<longleftrightarrow> (\<forall>tb. sql_register (evicting 50000) (iv_id i) i now (gv_invocations s) = Inr tb \<longrightarrow> Q () (s\<lparr>gv_invocations := tb\<rparr>))"
  by (simp add: saveInvocation_def after_simps)

lemma register_yields:
  "yields (register_grant env i claims event) (\<lambda>ss _. \<exists>saving saved a b w8 v8 w9 v9. ss = [(saving, saved), (a, b), (w8, v8), (w9, v9)] \<and>
     mem_lookup (iv_id i) (gv_invocations (w_gov saved)) = Some i \<and>
     grants (w_coord b (iv_claw i)) = grants (w_coord a (iv_claw i)) @
       [\<lparr>g_invocation = iv_id i, g_jti = claim_text claims ''jti'', g_digest = ca_digest (iv_action i), g_expires = iv_expires i, g_consumed = None\<rparr>])"
  unfolding register_grant_def
  by (auto simp: yields_simps saved_invocation after_registered gov_audit_def after_simps Let_def frame_simps dest: sql_register_same)

lemma sign_yields:
  "yields (sign_grant env base) (\<lambda>ss x. \<exists>w3 v3 w4 v4 w5 v5. ss = [(w3, v3), (w4, v4), (w5, v5)] \<and>
     signClaims (ce_hmac env) (ce_secret env) base 300 (gc_uuid (ce_gov env) (gv_uuids (w_gov w4))) (w_now w3) = Inr (fst x) \<and>
     verifyClaims (ce_hmac env) (ce_secret env) (fst x) ''invocation'' ''crabhelm-tool-wrapper'' (w_now w5) = Inr (snd x))"
  unfolding sign_grant_def by (auto simp: yields_simps)

lemma issue_grant_yields:
  assumes "ca_actor (cq_action q) = gp_id (ra_actor (cq_resolved q))"
  shows "yields (issue_grant env (cq_persona q) (cq_action q) (cq_resolved q) label confirmation args)
    (\<lambda>ss r. \<exists>i grant. r = Issued_grant i grant args \<and> grant_registered env q i grant ss)"
proof -
  let ?i = "\<lambda>iid now. new_invocation (cq_persona q) (cq_action q) (cq_resolved q) confirmation iid now"
  let ?base = "grant_claims (cq_persona q) (cq_action q) (cq_resolved q) confirmation"
  have step: "yields (thenP (register_grant env (?i (gc_uuid (ce_gov env) (gv_uuids (w_gov w2))) (w_now w1)) claims event)
        (retP (Issued_grant (?i (gc_uuid (ce_gov env) (gv_uuids (w_gov w2))) (w_now w1)) grant args)))
      (\<lambda>ts r. \<exists>i grant. r = Issued_grant i grant args \<and> grant_registered env q i grant ([(w1, v1), (w2, v2), (w3, v3), (w4, v4), (w5, v5)] @ ts))"
    if "signClaims (ce_hmac env) (ce_secret env) ?base 300 (gc_uuid (ce_gov env) (gv_uuids (w_gov w4))) (w_now w3) = Inr grant"
      "verifyClaims (ce_hmac env) (ce_secret env) grant ''invocation'' ''crabhelm-tool-wrapper'' (w_now w5) = Inr claims"
    for w1 v1 w2 v2 w3 v3 w4 v4 w5 v5 grant claims event
    unfolding yields_then yields_basic(1)
    by (rule yields_mono [OF register_yields], elim exE conjE)
      (use that claims_bind [OF assms, of confirmation] in \<open>auto simp: grant_registered_def new_invocation_def intro!: exI [of _ ?base]\<close>)
  show ?thesis
    unfolding issue_grant_def Let_def yields_bind yields_calls(2,3)
    by (intro allI, rule yields_mono [OF sign_yields], elim exE conjE) (use step in \<open>simp add: split_def\<close>)
qed

lemma spent_yields:
  "yields (if cap_always_confirm (cq_capability q)
       then bindP (liftP (checked_text confirmation ''confirmationId'' 200)) (\<lambda>k.
         thenP (governance env (useConfirmation (ce_gov env) k (cq_action q))) (retP ()))
       else retP ()) (\<lambda>ss _. confirmation_spent confirmation q ss)"
  unfolding confirmation_spent_def
  by (auto simp: yields_simps useConfirmation_def after_serialized after_simps Let_def dest: sql_register_same)

text \<open>
  C39. A grant is issued only for a permitted action, and where the capability asks for it only for an approved one. The steps
  of a handler that issues one, in the worlds it found them in, are: four that find the requester, the persona (which
  the requester may invoke, unless the request came from a runtime's turn) and the actor with its connection as the
  persona's policy resolves it; one that spends the confirmation the request names -- approved, not expired, for
  exactly this action -- when the capability always needs one; and nine that sign a token for exactly this action,
  actor and connection and a fresh id, save the invocation, and register one grant in the claw's coordinator with
  the invocation's fresh name, the id read back from the token, the digest of the arguments, for five minutes.
\<close>

theorem grant_is_authorised:
  assumes "t \<in> set (sy_tasks (controller_run env cenv evs w))" "tk_event t = Issue_invocation who admin raw trusted"
    and "tk_now t = Done (Inr (Issued_grant i grant args))"
  shows "\<exists>q checks spending issuing. tk_steps t = checks @ spending @ issuing \<and> cq_arguments q = args \<and>
    request_checked env who admin raw trusted checks q \<and> confirmation_spent (get raw ''confirmationId'') q spending \<and>
    grant_registered env q i grant issuing"
proof -
  let ?c = "get raw ''confirmationId''"
  have asked: "yields (ask_confirmation env persona action resolved bs) (\<lambda>ss r. \<forall>i grant args. r \<noteq> Issued_grant i grant args)" for persona action resolved bs
    unfolding ask_confirmation_def by (simp add: yields_simps) (simp add: after_def)
  let ?P = "\<lambda>q checks ss i grant args. \<exists>spending issuing. ss = checks @ spending @ issuing \<and> cq_arguments q = args \<and>
    request_checked env who admin raw trusted checks q \<and> confirmation_spent ?c q spending \<and> grant_registered env q i grant issuing"
  have answer: "yields (answer_request env ?c q) (\<lambda>ss r. \<forall>i grant args. r = Issued_grant i grant args \<longrightarrow> ?P q checks (checks @ ss) i grant args)"
    if q: "request_checked env who admin raw trusted checks q" for q checks
  proof (cases "cap_always_confirm (cq_capability q) \<and> \<not> truthy ?c")
    case True
    then show ?thesis unfolding answer_request_def by (simp only: if_True simp_thms) (rule yields_mono [OF asked], blast)
  next
    case False
    have a: "ca_actor (cq_action q) = gp_id (ra_actor (cq_resolved q))" using q by (auto simp: request_checked_def)
    show ?thesis unfolding answer_request_def if_not_P [OF False] yields_then
      by (rule yields_mono [OF spent_yields], rule yields_mono [OF issue_grant_yields [OF a]]) (use q in auto)
  qed
  have y: "yields (issueInvocation env who admin raw trusted) (\<lambda>ss r. \<forall>i grant args. r = Issued_grant i grant args \<longrightarrow> (\<exists>q checks. ?P q checks ss i grant args))"
    unfolding issueInvocation_def yields_bind
    by (rule yields_mono [OF check_request_yields], rule yields_mono [OF answer]) blast+
  have m: "made (issueInvocation env who admin raw trusted) (tk_steps t) (Done (Inr (Issued_grant i grant args)))"
    using run_made [OF assms(1)] assms(2,3) by (simp add: handler_of_def)
  from yieldsD [OF y m] have "\<exists>q checks. ?P q checks (tk_steps t) i grant args" by simp
  then show ?thesis by blast
qed

subsection \<open>The outcome of an execution\<close>

definition warning_codes :: "string set" where
  "warning_codes = {''coordinator_outcome_not_recorded'', ''invocation_outcome_not_recorded'', ''audit_not_recorded'', ''audit_not_queued''}"

definition no_calls :: "(world \<times> world) list \<Rightarrow> bool" where
  \<comment> \<open>no step of these calls GitHub\<close>
  "no_calls ss \<longleftrightarrow> (\<forall>(a, b)\<in>set ss. w_github b = w_github a)"

abbreviation silent :: "'a handler \<Rightarrow> bool" where
  "silent p \<equiv> steps_in (\<lambda>a b. w_github b = w_github a) p"

lemma no_calls_append [simp]: "no_calls [] = True" "no_calls (ss @ ts) = (no_calls ss \<and> no_calls ts)"
  "no_calls ((a, b) # ss) = (w_github b = w_github a \<and> no_calls ss)"
  by (auto simp: no_calls_def)

lemma silent_remote: "(\<And>w. w_github (snd (m w)) = w_github w) \<Longrightarrow> silent (atomic (remote env m))"
proof (rule steps_atomic)
  fix w assume m: "\<And>w. w_github (snd (m w)) = w_github w"
  show "w_github (snd (remote env m w)) = w_github w" using m by (cases "ce_faults env (w_calls w)") (simp_all add: remote_def)
qed

lemma silent_calls [steps_rules]:
  "silent (governance env g)" "silent (coordinator env claw c)" "silent (emit env e)" "silent (read_vault env o')" "silent clock"
proof -
  show "silent clock" unfolding clock_def by (rule steps_atomic) simp
  show "silent (governance env g)" unfolding governance_def by (rule silent_remote) (simp add: on_gov_def split_def)
  show "silent (coordinator env claw c)" unfolding coordinator_def by (rule silent_remote) (simp add: on_coord_def split_def)
  show "silent (emit env e)" unfolding emit_def by (rule silent_remote) simp
  show "silent (read_vault env o')" unfolding read_vault_def by (rule silent_remote) simp
qed

lemma silent_warned [steps_rules]: "silent p \<Longrightarrow> silent (warned code p)"
  unfolding warned_def by (intro steps_rules)

lemma silent_ensures: "silent p \<Longrightarrow> ensures p (\<lambda>ss r. no_calls ss)"
  using steps_ensured by (fastforce simp: no_calls_def elim: ensures_mono)

lemma ensures_both: "ensures p A \<Longrightarrow> ensures p B \<Longrightarrow> ensures p (\<lambda>ss r. A ss r \<and> B ss r)"
  by (simp add: ensures_def)

lemma silent_first:
  assumes "silent p" "yields p R"
    and "\<And>ss a. no_calls ss \<Longrightarrow> R ss a \<Longrightarrow> ensures (f a) (\<lambda>ts r. no_calls ts \<or> P (ss @ ts) r)"
  shows "ensures (bindP p f) (\<lambda>ss r. no_calls ss \<or> P ss r)"
proof (rule ensures_bind_rule [where R = "\<lambda>ss r. no_calls ss \<and> (\<forall>a. r = Inr a \<longrightarrow> R ss a)"])
  show "ensures p (\<lambda>ss r. no_calls ss \<and> (\<forall>a. r = Inr a \<longrightarrow> R ss a))"
    using silent_ensures [OF assms(1)] assms(2) by (simp add: ensures_def yields_def)
  fix ss a assume "no_calls ss \<and> (\<forall>b. Inr a = Inr b \<longrightarrow> R ss b)"
  then show "ensures (f a) (\<lambda>ts. (\<lambda>r. no_calls (ss @ ts) \<or> P (ss @ ts) r))"
    using ensures_mono [OF assms(3) [of ss a]] by simp
qed simp

lemma silent_then:
  assumes "silent p" "yields p R" "\<And>ss a. no_calls ss \<Longrightarrow> R ss a \<Longrightarrow> ensures q (\<lambda>ts r. no_calls ts \<or> P (ss @ ts) r)"
  shows "ensures (thenP p q) (\<lambda>ss r. no_calls ss \<or> P ss r)"
  unfolding thenP_def by (rule silent_first [OF assms(1,2)]) (use assms(3) in auto)

lemma ensures_pure:
  "(\<And>a. x = Inr a \<Longrightarrow> ensures (f a) (\<lambda>ss r. no_calls ss \<or> P ss r)) \<Longrightarrow> ensures (bindP (liftP x) f) (\<lambda>ss r. no_calls ss \<or> P ss r)"
  "(\<not> b \<Longrightarrow> ensures q (\<lambda>ss r. no_calls ss \<or> P ss r)) \<Longrightarrow> ensures (thenP (refuseP b e) q) (\<lambda>ss r. no_calls ss \<or> P ss r)"
  by (cases x; simp add: liftP_def ensures_done) (simp add: thenP_def refuseP_def refuse_if_def ensures_done)

text \<open>The three steps of a provider request that calls GitHub: the connection that the claims name, its credential, the call.\<close>

definition called_as :: "controller_env \<Rightarrow> jsval \<Rightarrow> (string \<times> jsval) list \<Rightarrow> string \<Rightarrow> (world \<times> world) list \<Rightarrow> jsval result \<Rightarrow> bool" where
  "called_as env claims args iid ss outcome \<longleftrightarrow>
     (\<exists>w1 v1 w2 v2 a b c credential call. ss = [(w1, v1), (w2, v2), (a, b)] \<and>
        mem_lookup (claim_text claims ''connectionId'') (gv_connections (w_gov w1)) = Some c \<and>
        oc_active c \<and> oc_principal c = claim_text claims ''actorId'' \<and>
        vault_get (ce_decipher env) (ce_stream env) (ce_master env) (oc_vault c) (oc_id c) (oc_principal c) (oc_provider c) (w_bucket w2) = Inr credential \<and>
        githubCall (claim_text claims ''capabilityId'') (get claims ''target'') args credential = Inr call \<and>
        w_github b = w_github a @ [\<lparr>lc_claw = claim_text claims ''clawId'', lc_invocation = iid, lc_jti = claim_text claims ''jti'', lc_request = call\<rparr>] \<and>
        outcome = githubResult (claim_text claims ''capabilityId'') (ce_github env (length (w_github a)) call))"

lemma connection_yields: "yields (governance env (\<lambda>_. requireConnection k)) (\<lambda>ss c. \<exists>w v. ss = [(w, v)] \<and> mem_lookup k (gv_connections (w_gov w)) = Some c)"
  by (simp add: yields_simps after_simps)

lemma vault_yields: "yields (read_vault env c) (\<lambda>ss x. \<exists>w v. ss = [(w, v)] \<and>
    vault_get (ce_decipher env) (ce_stream env) (ce_master env) (oc_vault c) (oc_id c) (oc_principal c) (oc_provider c) (w_bucket w) = Inr x)"
  unfolding read_vault_def yields_atomic after_works by (simp add: after_def)

lemma provider_called: "ensures (provider_request env claims args iid) (\<lambda>ss r. no_calls ss \<or> called_as env claims args iid ss r)"
  unfolding provider_request_def
proof (rule silent_first [OF silent_calls(1) connection_yields], rule ensures_pure, rule silent_first [OF silent_calls(4) vault_yields], rule ensures_pure)
  fix ss ts :: "(world \<times> world) list" and c credential call
  assume "\<exists>w v. ss = [(w, v)] \<and> mem_lookup (claim_text claims ''connectionId'') (gv_connections (w_gov w)) = Some c"
    "\<not> (\<not> oc_active c \<or> oc_principal c \<noteq> claim_text claims ''actorId'')"
    "\<exists>w v. ts = [(w, v)] \<and> vault_get (ce_decipher env) (ce_stream env) (ce_master env) (oc_vault c) (oc_id c) (oc_principal c) (oc_provider c) (w_bucket w) = Inr credential"
    "githubCall (claim_text claims ''capabilityId'') (get claims ''target'') args credential = Inr call"
  then show "ensures (bindP (ask_github env (claim_text claims ''clawId'') iid (claim_text claims ''jti'') call)
      (\<lambda>answer. liftP (githubResult (claim_text claims ''capabilityId'') answer)))
    (\<lambda>us r. no_calls us \<or> called_as env claims args iid (ss @ ts @ us) r)"
    by (auto simp: ensures_bind ensures_atomic ask_github_def liftP_def ensures_done called_as_def)
qed

lemma warned_yields: "ensures (warned code p) (\<lambda>ss r. \<exists>ws. r = Inr ws \<and> set ws \<subseteq> {code})"
  unfolding warned_def ensures_bind ensures_attempt sum.case retP_def ensures_done
  by (auto simp: ensures_def split: sum.split)

lemma warned_first:
  assumes "\<And>ws. set ws \<subseteq> {code} \<Longrightarrow> ensures (f ws) (\<lambda>ts r. Q r)"
  shows "ensures (bindP (warned code p) f) (\<lambda>ss r. Q r)"
  by (rule ensures_bind_rule [OF warned_yields]) (use assms in auto)

lemma attempt_first:
  assumes "\<And>x. ensures (f x) (\<lambda>ts r. Q r)"
  shows "ensures (bindP (attempt p) f) (\<lambda>ss r. Q r)"
  unfolding ensures_bind ensures_attempt using assms by (simp add: ensures_def)

lemma clock_first: "(\<And>t. ensures (f t) (\<lambda>ts r. Q r)) \<Longrightarrow> ensures (bindP clock f) (\<lambda>ss r. Q r)"
  by (simp add: ensures_bind clock_def ensures_atomic)

lemma recorded: "ensures (record_outcome env claims iid ok message) (\<lambda>ss r. \<exists>ws. r = Inr ws \<and> set ws \<subseteq> warning_codes)"
  unfolding record_outcome_def
proof (intro warned_first clock_first attempt_first)
  fix w1 w2 and event :: "governance_event result"
  assume s: "set w1 \<subseteq> {''coordinator_outcome_not_recorded''}" "set w2 \<subseteq> {''invocation_outcome_not_recorded''}"
  have w: "set w1 \<subseteq> warning_codes" "set w2 \<subseteq> warning_codes" by (rule order_trans [OF s(1)] order_trans [OF s(2)], simp add: warning_codes_def)+
  show "ensures (case event of Inl _ \<Rightarrow> retP (w1 @ w2 @ [''audit_not_recorded''])
     | Inr e \<Rightarrow> bindP (warned ''audit_not_queued'' (emit env e)) (\<lambda>w3. retP (w1 @ w2 @ w3))) (\<lambda>ts r. \<exists>ws. r = Inr ws \<and> set ws \<subseteq> warning_codes)"
  proof (cases event)
    case (Inl e)
    show ?thesis unfolding Inl sum.case retP_def ensures_done using w by (simp add: warning_codes_def)
  next
    case (Inr e)
    have "ensures (retP (w1 @ w2 @ w3)) (\<lambda>ts r. \<exists>ws. r = Inr ws \<and> set ws \<subseteq> warning_codes)" if "set w3 \<subseteq> {''audit_not_queued''}" for w3
    proof -
      have "set w3 \<subseteq> warning_codes" by (rule order_trans [OF that]) (simp add: warning_codes_def)
      then show ?thesis unfolding retP_def ensures_done using w by simp
    qed
    then show ?thesis unfolding Inr sum.case by (rule warned_first)
  qed
qed

lemma finished:
  "ensures (finish_execution env claims iid outcome)
     (\<lambda>ss r. no_calls ss \<and> (\<exists>ws. r = Inr (execution_reply iid outcome ws) \<and> set ws \<subseteq> warning_codes))"
proof -
  have "silent (finish_execution env claims iid outcome)"
    unfolding finish_execution_def record_outcome_def by (intro steps_rules)
  moreover have "ensures (finish_execution env claims iid outcome) (\<lambda>ss r. \<exists>ws. r = Inr (execution_reply iid outcome ws) \<and> set ws \<subseteq> warning_codes)"
    unfolding finish_execution_def by (rule ensures_bind_rule [OF recorded]) (auto simp: retP_def ensures_done)
  ultimately show ?thesis by (intro ensures_both silent_ensures)
qed

definition granted_run :: "controller_env \<Rightarrow> jsval \<Rightarrow> (string \<times> jsval) list \<Rightarrow> string \<Rightarrow> (world \<times> world) list \<Rightarrow> reply result \<Rightarrow> bool" where
  "granted_run env claims args iid ss r \<longleftrightarrow>
     (\<exists>before calling rest outcome ws. ss = before @ calling @ rest \<and> no_calls before \<and> no_calls rest \<and>
        called_as env claims args iid calling outcome \<and> r = Inr (execution_reply iid outcome ws) \<and> set ws \<subseteq> warning_codes)"

lemma run_granted_called: "ensures (run_granted env claims args iid) (\<lambda>ss r. no_calls ss \<or> granted_run env claims args iid ss r)"
proof -
  have last: "ensures (bindP (attempt (provider_request env claims args iid)) (finish_execution env claims iid))
      (\<lambda>ts r. no_calls ts \<or> granted_run env claims args iid (before @ ts) r)" if "no_calls before" for before
    unfolding ensures_bind ensures_attempt sum.case
  proof (rule ensures_mono [OF provider_called])
    fix ss outcome assume c: "no_calls ss \<or> called_as env claims args iid ss outcome"
    show "ensures (finish_execution env claims iid outcome) (\<lambda>ts r. no_calls (ss @ ts) \<or> granted_run env claims args iid (before @ ss @ ts) r)"
      by (rule ensures_mono [OF finished]) (use c that in \<open>auto simp: granted_run_def\<close>)
  qed
  show ?thesis unfolding run_granted_def
    by (rule silent_then [OF silent_calls(2) yields_any], rule silent_then [OF silent_calls(1) yields_any])
      (use last in \<open>simp flip: append_assoc\<close>)
qed

text \<open>The reading of the clock against which the token is verified, and the step that consumes its grant.\<close>

definition grant_consumed :: "controller_env \<Rightarrow> string \<Rightarrow> jsval \<Rightarrow> jsval \<Rightarrow> string \<Rightarrow> (string \<times> jsval) list \<Rightarrow> (world \<times> world) list \<Rightarrow> bool" where
  "grant_consumed env token sent claims iid args ss \<longleftrightarrow>
     (\<exists>w0 a b digest. ss = [(w0, w0), (a, b)] \<and>
        verifyClaims (ce_hmac env) (ce_secret env) token ''invocation'' ''crabhelm-tool-wrapper'' (w_now w0) = Inr claims \<and>
        (let body = (case sent of JObj kvs \<Rightarrow> sent | _ \<Rightarrow> JObj []) in
           checked_text (get body ''invocationId'') ''invocationId'' 200 = Inr iid \<and> normalizeInvocationArguments (get body ''arguments'') = Inr args) \<and>
        invocationArgumentsDigest (gc_lib (ce_gov env)) (get claims ''capabilityId'') (get claims ''target'') (JObj args) = Inr digest \<and>
        get claims ''argumentsDigest'' = JStr digest \<and>
        consumeGrant iid (claim_text claims ''jti'') digest (w_now a) (w_coord a (claim_text claims ''clawId'')) = (True, w_coord b (claim_text claims ''clawId'')))"

definition executed :: "controller_env \<Rightarrow> string option \<Rightarrow> jsval \<Rightarrow> (world \<times> world) list \<Rightarrow> reply result \<Rightarrow> bool" where
  "executed env header sent ss r \<longleftrightarrow>
     (\<exists>token claims iid args consuming running. bearer header = Some token \<and> ss = consuming @ running \<and>
        grant_consumed env token sent claims iid args consuming \<and> no_calls consuming \<and> granted_run env claims args iid running r)"

lemma consume_yields:
  "yields (consume_grant env claims iid digest) (\<lambda>ss consumed. \<exists>a b. ss = [(a, b)] \<and> consumeGrant iid (claim_text claims ''jti'') digest
     (w_now a) (w_coord a (claim_text claims ''clawId'')) = (consumed, w_coord b (claim_text claims ''clawId'')))"
  unfolding consume_grant_def yields_coordinator by (auto simp: after_def split: prod.splits)

lemma execute_ensures: "ensures (executeGithub env header sent) (\<lambda>ss r. no_calls ss \<or> executed env header sent ss r)"
proof (cases "bearer header")
  case None
  then show ?thesis by (simp add: executeGithub_def retP_def ensures_done)
next
  case (Some token)
  have time: "yields clock (\<lambda>ss now. \<exists>w. ss = [(w, w)] \<and> now = w_now w)" by (simp add: yields_calls)
  show ?thesis unfolding executeGithub_def Some option.case Let_def
  proof (rule silent_first [OF silent_calls(5) time], intro ensures_pure, rule silent_first [OF _ consume_yields],
      unfold consume_grant_def, rule silent_calls(2), elim exE conjE)
    fix ss ts now claims iid args digest consumed w0 a b
    assume f: "ss = [(w0, w0)]" "now = w_now w0" "no_calls ss" "no_calls ts" "ts = [(a, b)]"
      "verifyClaims (ce_hmac env) (ce_secret env) token ''invocation'' ''crabhelm-tool-wrapper'' now = Inr claims"
      "checked_text (get (case sent of JObj kvs \<Rightarrow> sent | _ \<Rightarrow> JObj []) ''invocationId'') ''invocationId'' 200 = Inr iid"
      "normalizeInvocationArguments (get (case sent of JObj kvs \<Rightarrow> sent | _ \<Rightarrow> JObj []) ''arguments'') = Inr args"
      "invocationArgumentsDigest (gc_lib (ce_gov env)) (get claims ''capabilityId'') (get claims ''target'') (JObj args) = Inr digest"
      "\<not> JStr digest \<noteq> get claims ''argumentsDigest''"
      "consumeGrant iid (claim_text claims ''jti'') digest (w_now a) (w_coord a (claim_text claims ''clawId'')) = (consumed, w_coord b (claim_text claims ''clawId''))"
    have run: "executed env header sent (ss @ ts @ us) r" if "granted_run env claims args iid us r" consumed for us r
    proof -
      have "grant_consumed env token sent claims iid args (ss @ ts)"
        unfolding grant_consumed_def Let_def using f that(2) by (intro exI [of _ w0] exI [of _ a] exI [of _ b] exI [of _ digest]) simp
      then show ?thesis unfolding executed_def using Some f(3,4) that(1)
        by (intro exI [of _ token] exI [of _ claims] exI [of _ iid] exI [of _ args] exI [of _ "ss @ ts"] exI [of _ us]) simp
    qed
    show "ensures (if \<not> consumed then retP Grant_refused else run_granted env claims args iid)
       (\<lambda>us r. no_calls us \<or> executed env header sent (ss @ ts @ us) r)"
    proof (cases consumed)
      case True
      have "ensures (run_granted env claims args iid) (\<lambda>us r. no_calls us \<or> executed env header sent (ss @ ts @ us) r)"
        by (rule ensures_mono [OF run_granted_called]) (use run True in blast)
      with True show ?thesis by simp
    qed (simp add: retP_def ensures_done)
  qed
qed

text \<open>
  C38. An executed call is what its grant binds, made with the credential that the grant names, and its outcome is always
  reported. When a handler that is done called GitHub, its steps were: one that read the clock, at which the token was
  signed and in time; one that consumed the grant with the token's id, the digest of the arguments sent (which is the
  one in the token) and the invocation's name, open and not expired in the world it found; then steps without a call;
  then three: the connection that the token names was active and belonged to the token's actor, its credential
  was read from the vault, and GitHub was called once, for the token's capability and target with these arguments
  and that credential; and after that none that calls again. Whatever failed in the bookkeeping, the reply is the
  result when GitHub's answer is one and GitHub's failure otherwise, with warnings of the four kinds.
\<close>

theorem execution_outcome_is_reported:
  assumes "t \<in> set (sy_tasks (controller_run env cenv evs w))" "tk_event t = Execute_github header sent"
    and "tk_now t = Done r" "(a, b) \<in> set (tk_steps t)" "w_github b \<noteq> w_github a"
  shows "\<exists>token claims iid args consuming before calling rest outcome warnings.
    bearer header = Some token \<and> tk_steps t = consuming @ before @ calling @ rest \<and>
    grant_consumed env token sent claims iid args consuming \<and> called_as env claims args iid calling outcome \<and>
    no_calls (consuming @ before @ rest) \<and> r = Inr (execution_reply iid outcome warnings) \<and> set warnings \<subseteq> warning_codes"
proof -
  have "made (executeGithub env header sent) (tk_steps t) (Done r)" using run_made [OF assms(1)] assms(2,3) by (simp add: handler_of_def)
  then have "no_calls (tk_steps t) \<or> executed env header sent (tk_steps t) r" using execute_ensures unfolding ensures_def by blast
  moreover have "\<not> no_calls (tk_steps t)" using assms(4,5) by (auto simp: no_calls_def)
  ultimately obtain token claims iid args consuming running where e: "bearer header = Some token" "tk_steps t = consuming @ running"
      "grant_consumed env token sent claims iid args consuming" "no_calls consuming" "granted_run env claims args iid running r"
    unfolding executed_def by blast
  from e(5) obtain before calling rest outcome ws where "running = before @ calling @ rest" "no_calls before" "no_calls rest"
      "called_as env claims args iid calling outcome" "r = Inr (execution_reply iid outcome ws)" "set ws \<subseteq> warning_codes"
    unfolding granted_run_def by blast
  with e show ?thesis
    by (intro exI [of _ token] exI [of _ claims] exI [of _ iid] exI [of _ args] exI [of _ consuming] exI [of _ before] exI [of _ calling]
        exI [of _ rest] exI [of _ outcome] exI [of _ ws]) simp
qed

subsection \<open>Where a call goes\<close>

text \<open>
  \<open>fetch\<close> parses a URL as the URL standard says: a path segment \<open>.\<close> is dropped and \<open>..\<close> drops the segment before it
  (\<open>encodeURIComponent\<close> leaves dots alone).
\<close>

fun walk_path :: "string list \<Rightarrow> string list \<Rightarrow> string list" where
  "walk_path acc [] = rev acc"
| "walk_path acc (x # xs) =
     (if x = ''..'' then walk_path (if xs = [] then [] # tl acc else tl acc) xs
      else if x = ''.'' then walk_path (if xs = [] then [] # acc else acc) xs
      else walk_path (x # acc) xs)"

definition fetched_path :: "string \<Rightarrow> string list" where
  "fetched_path url = walk_path [] (split_on CHR ''/'' (drop (length ''https://api.github.com/'') url))"

abbreviation dot_segment :: "string \<Rightarrow> bool" where
  "dot_segment x \<equiv> x = ''.'' \<or> x = ''..''"

lemma walk_plain: "\<forall>x\<in>set xs. \<not> dot_segment x \<Longrightarrow> walk_path acc xs = rev acc @ xs"
  by (induction xs arbitrary: acc) auto

lemma walk_no_dots: "\<forall>x\<in>set acc. \<not> dot_segment x \<Longrightarrow> x \<in> set (walk_path acc xs) \<Longrightarrow> \<not> dot_segment x"
proof (induction acc xs rule: walk_path.induct)
  case (2 acc y ys)
  have "\<forall>x\<in>set (tl acc). \<not> dot_segment x" using 2(4) by (cases acc) auto
  then show ?case using 2 by (auto split: if_splits)
qed simp

lemma safe_encoded: "list_all safe_name_char s \<Longrightarrow> encodeURIComponent s = s"
  by (induction s) (auto simp: encodeURIComponent_def encode_char_def uri_unreserved_def safe_name_char_def)

lemma target_parts:
  assumes "normalizeGithubTarget v = Inr target"
  shows "\<exists>owner name. target = owner @ ''/'' @ name \<and> split_on CHR ''/'' target = [owner, name] \<and>
    list_all safe_name_char owner \<and> list_all safe_name_char name"
proof -
  have "githubTargetPattern target" using assms by (auto simp: normalizeGithubTarget_def split: if_splits)
  then obtain a b where s: "split_on CHR ''/'' target = [a, b]" "class_range safe_name_char 1 100 a" "class_range safe_name_char 1 100 b"
    by (auto simp: githubTargetPattern_def split: list.splits)
  then show ?thesis using split_on_two [of "CHR ''/''" target a b] by (auto simp: class_range_def)
qed

lemma githubCall_cases:
  assumes "githubCall cap v args credential = Inr call"
  obtains (comment) target n body where "cap = ''github.issue.comment''" "normalizeGithubTarget v = Inr target" "issue_number args = Inr n"
      "call = \<lparr>gh_method = ''POST'', gh_url = github_base target @ ''/issues/'' @ nat_str n @ ''/comments'', gh_body = Some body, gh_credential = credential\<rparr>"
    | (issue) target n where "cap = ''github.issue.read''" "normalizeGithubTarget v = Inr target" "issue_number args = Inr n"
      "call = \<lparr>gh_method = ''GET'', gh_url = github_base target @ ''/issues/'' @ nat_str n, gh_body = None, gh_credential = credential\<rparr>"
    | (repository) target where "cap = ''github.repository.read''" "normalizeGithubTarget v = Inr target"
      "call = \<lparr>gh_method = ''GET'', gh_url = github_base target, gh_body = None, gh_credential = credential\<rparr>"
proof -
  obtain target where t: "normalizeGithubTarget v = Inr target" using assms by (auto simp: githubCall_def simp del: print_json.simps)
  consider "cap = ''github.issue.comment''" | "cap = ''github.issue.read''" | "cap \<noteq> ''github.issue.comment''" "cap \<noteq> ''github.issue.read''" by blast
  then show thesis
  proof cases
    case 1
    then obtain n where n: "issue_number args = Inr n" using assms t by (cases "issue_number args") (simp_all add: githubCall_def)
    have "\<exists>body. call = \<lparr>gh_method = ''POST'', gh_url = github_base target @ ''/issues/'' @ nat_str n @ ''/comments'', gh_body = Some body, gh_credential = credential\<rparr>"
      using assms t n 1 by (simp add: githubCall_def Let_def split: if_splits del: print_json.simps) blast
    then show thesis using comment [OF 1 t n] by blast
  next
    case 2
    then obtain n where n: "issue_number args = Inr n" using assms t by (cases "issue_number args") (simp_all add: githubCall_def)
    show thesis using assms t n 2 issue by (simp add: githubCall_def)
  next
    case 3
    then have "cap = ''github.repository.read''" using assms t by (simp add: githubCall_def split: if_splits)
    then show thesis using assms t repository by (simp add: githubCall_def)
  qed
qed

lemma digit_facts: "is_digit c \<Longrightarrow> c \<noteq> CHR ''/'' \<and> c \<noteq> CHR ''.''"
  by (auto simp: char_class_defs)

lemma number_segment: "CHR ''/'' \<notin> set (nat_str n)" "\<not> dot_segment (nat_str n)"
proof -
  have d: "\<forall>c\<in>set (nat_str n). c \<noteq> CHR ''/'' \<and> c \<noteq> CHR ''.''" using nat_str_digits digit_facts by blast
  then show "CHR ''/'' \<notin> set (nat_str n)" by blast
  show "\<not> dot_segment (nat_str n)" using d by (metis list.set_intros(1))
qed

text \<open>The segments after the repository.\<close>

definition call_tail :: "string \<Rightarrow> (string \<times> jsval) list \<Rightarrow> string list" where
  "call_tail cap args =
     (if cap = ''github.repository.read'' then []
      else [''issues'', (case issue_number args of Inr n \<Rightarrow> nat_str n | Inl _ \<Rightarrow> [])] @ (if cap = ''github.issue.comment'' then [''comments''] else []))"

lemma call_url:
  assumes "githubCall cap v args credential = Inr call"
  shows "\<exists>owner name. normalizeGithubTarget v = Inr (owner @ ''/'' @ name) \<and> list_all safe_name_char owner \<and> list_all safe_name_char name \<and>
    gh_url call = ''https://api.github.com/'' @ join_with ''/'' ([''repos'', owner, name] @ call_tail cap args) \<and>
    (cap = ''github.repository.read'' \<or> (\<exists>n. issue_number args = Inr n))"
proof -
  have "\<exists>target. normalizeGithubTarget v = Inr target" using assms by (rule githubCall_cases) blast+
  then obtain target where t: "normalizeGithubTarget v = Inr target" by blast
  from target_parts [OF t] obtain owner name where o: "target = owner @ ''/'' @ name" "split_on CHR ''/'' target = [owner, name]"
      "list_all safe_name_char owner" "list_all safe_name_char name" by blast
  have b: "github_base target = ''https://api.github.com/repos/'' @ target"
    using o(2) unfolding o(1) by (simp add: github_base_def safe_encoded [OF o(3)] safe_encoded [OF o(4)])
  have "gh_url call = ''https://api.github.com/'' @ join_with ''/'' ([''repos'', owner, name] @ call_tail cap args)"
    by (rule githubCall_cases [OF assms]; use t b in \<open>simp add: call_tail_def o(1)\<close>)
  moreover have "cap = ''github.repository.read'' \<or> (\<exists>n. issue_number args = Inr n)"
    using assms by (rule githubCall_cases) blast+
  ultimately show ?thesis using t o by (intro exI [of _ owner] exI [of _ name]) simp
qed

lemma split_join: "\<forall>x\<in>set xs. CHR ''/'' \<notin> set x \<Longrightarrow> xs \<noteq> [] \<Longrightarrow> split_on CHR ''/'' (join_with ''/'' xs) = xs"
  by (induction xs rule: induct_list012) (simp_all add: split_on_none split_on_join)

lemma safe_no_slash: "list_all safe_name_char s \<Longrightarrow> CHR ''/'' \<notin> set s"
  by (auto simp: list_all_iff safe_name_char_def char_class_defs)

lemma tail_segments: "cap = ''github.repository.read'' \<or> (\<exists>n. issue_number args = Inr n) \<Longrightarrow> x \<in> set (call_tail cap args) \<Longrightarrow> CHR ''/'' \<notin> set x \<and> \<not> dot_segment x"
  using number_segment by (auto simp: call_tail_def split: if_splits)

text \<open>
  C40. A call stays within the repository of its target exactly when neither the owner nor the name is a dot segment: then it
  addresses the repository, the issue or the comments of the issue; otherwise \<open>fetch\<close> resolves the segment and the
  call leaves the repository. The credential is the one that was asked for, and only a comment is a \<open>POST\<close>.
\<close>

theorem call_stays_in_repository:
  assumes "githubCall cap v args credential = Inr call"
  shows "\<exists>owner name. normalizeGithubTarget v = Inr (owner @ ''/'' @ name) \<and>
    (if dot_segment owner \<or> dot_segment name then take 3 (fetched_path (gh_url call)) \<noteq> [''repos'', owner, name]
     else fetched_path (gh_url call) = [''repos'', owner, name] @ call_tail cap args) \<and>
    gh_credential call = credential \<and> (gh_method call = ''POST'' \<longleftrightarrow> cap = ''github.issue.comment'')"
proof -
  from call_url [OF assms] obtain owner name where o: "normalizeGithubTarget v = Inr (owner @ ''/'' @ name)" "list_all safe_name_char owner"
      "list_all safe_name_char name" "gh_url call = ''https://api.github.com/'' @ join_with ''/'' ([''repos'', owner, name] @ call_tail cap args)"
      "cap = ''github.repository.read'' \<or> (\<exists>n. issue_number args = Inr n)" by blast
  let ?p = "[''repos'', owner, name] @ call_tail cap args"
  have "\<forall>x\<in>set ?p. CHR ''/'' \<notin> set x" using safe_no_slash [OF o(2)] safe_no_slash [OF o(3)] tail_segments [OF o(5)] by auto
  then have f: "fetched_path (gh_url call) = walk_path [] ?p" unfolding fetched_path_def o(4) by (simp add: split_join del: join_with.simps)
  have plain: "fetched_path (gh_url call) = ?p" if "\<not> (dot_segment owner \<or> dot_segment name)"
    unfolding f using that tail_segments [OF o(5)] by (subst walk_plain) auto
  have left: "take 3 (fetched_path (gh_url call)) \<noteq> [''repos'', owner, name]" if "dot_segment owner \<or> dot_segment name"
  proof
    assume t: "take 3 (fetched_path (gh_url call)) = [''repos'', owner, name]"
    have "x \<in> set (walk_path [] ?p)" if "x \<in> {owner, name}" for x
      using in_set_takeD [of x 3 "walk_path [] ?p"] t that unfolding f by (metis insert_iff list.simps(15) singletonD)
    then have "\<not> dot_segment owner" "\<not> dot_segment name" using walk_no_dots [of "[]" _ ?p] by (metis empty_iff empty_set insertCI)+
    with that show False by blast
  qed
  have "gh_credential call = credential" by (rule githubCall_cases [OF assms]) simp_all
  moreover have "gh_method call = ''POST'' \<longleftrightarrow> cap = ''github.issue.comment''" by (rule githubCall_cases [OF assms]) simp_all
  moreover note plain left o(1)
  ultimately show ?thesis by (intro exI [of _ owner] exI [of _ name] conjI) simp_all
qed

end
