(* ===== verification/Controller_Demo.thy ===== *)
theory Controller_Demo
  imports Controller_Calls
begin

text \<open>
  A small world for the witnesses of the controller: one requester with a persona and a GitHub connection, an approved
  comment, and a network that fails for all the bookkeeping of the first execution.
\<close>

definition demo_controller :: controller_env where
  "demo_controller =
     \<lparr>ce_gov = demo_governance\<lparr>gc_lib := demo_lib\<lparr>lib_sha256 := (\<lambda>_. replicate 64 CHR ''a'')\<rparr>\<rparr>,
      ce_hmac = demo_hmac, ce_secret = demo_secret, ce_turn_secret = demo_secret, ce_decipher = (\<lambda>k n a c. Some (utf8_bytes ''gho'')),
      ce_stream = (\<lambda>_. None), ce_master = demo_master,
      ce_faults = (\<lambda>n. if n < 14 then Works else Fails_before),
      ce_github = (\<lambda>_ _. Github_answer 201 None (utf8_bytes (print_json (JObj [(''id'', jint 7), (''token'', JStr ''x'')]))))\<rparr>"

definition demo_requester :: principal_record where
  "demo_requester = \<lparr>gp_id = ''r'', gp_revision = 1, gp_subject = ''r'', gp_label = ''R'', gp_kind = Human, gp_source = ''oidc'', gp_roles = [],
     gp_departments = [], gp_created = 0, gp_updated = 0\<rparr>"

definition demo_persona :: persona_record where
  "demo_persona = \<lparr>pe_id = ''p'', pe_revision = 1, pe_name = ''P'', pe_slug = ''p'', pe_kind = Personal, pe_owner = ''r'', pe_claw = ''c'',
     pe_policy = \<lparr>am_mode = Invoker, am_service = None\<rparr>, pe_bindings = [], pe_capabilities = [''github.issue.comment''], pe_skills = [],
     pe_instructions = \<lparr>pi_identity = [], pi_soul = [], pi_agents = []\<rparr>, pe_context = [], pe_enabled = JBool True, pe_created = 0, pe_updated = 0\<rparr>"

definition demo_connection :: oauth_connection where
  "demo_connection = \<lparr>oc_id = ''o'', oc_revision = 1, oc_principal = ''r'', oc_provider = ''github'', oc_label = ''GitHub'',
     oc_scopes = [''repo:read'', ''repo:write''], oc_vault = vaultKey ''o'', oc_active = True, oc_created = 0, oc_updated = 0\<rparr>"

definition demo_comment :: confirmed_action where
  "demo_comment = \<lparr>ca_requester = ''r'', ca_persona = ''p'', ca_actor = ''r'', ca_capability = ''github.issue.comment'', ca_target = ''o/n'',
     ca_digest = replicate 64 CHR ''a''\<rparr>"

definition demo_confirmation :: confirmation_record where
  "demo_confirmation = \<lparr>cf_id = ''k'', cf_action = demo_comment, cf_summary = ''Comment'', cf_status = Approved, cf_expires = 600000,
     cf_decided = Some 1, cf_created = 0\<rparr>"

definition demo_world :: world where
  "demo_world =
     \<lparr>w_gov = no_records\<lparr>gv_principals := [\<lparr>e_key = ''r'', e_value = demo_requester, e_created = 0\<rparr>],
        gv_personas := [\<lparr>e_key = ''p'', e_value = demo_persona, e_created = 0\<rparr>],
        gv_connections := [\<lparr>e_key = ''o'', e_value = demo_connection, e_created = 0\<rparr>],
        gv_confirmations := [\<lparr>e_key = ''k'', e_value = demo_confirmation, e_created = 0\<rparr>]\<rparr>,
      w_coord = (\<lambda>_. coord_init),
      w_bucket = (\<lambda>key. if key = vaultKey ''o'' then Some (print_json (envelope_text [1] [2] ''now'')) else None),
      w_queue = [], w_github = [], w_calls = 0, w_now = 1000\<rparr>"

definition demo_arguments :: jsval where
  "demo_arguments = JObj [(''issueNumber'', jint 3), (''body'', JStr ''hello'')]"

definition demo_request :: jsval where
  "demo_request = JObj [(''personaId'', JStr ''p''), (''capabilityId'', JStr ''github.issue.comment''), (''target'', JStr ''o/n''),
     (''arguments'', demo_arguments), (''confirmationId'', JStr ''k'')]"

text \<open>Issuing, part by part.\<close>

lemma alone_works:
  "ce_faults env (w_calls w) = Works \<Longrightarrow>
     alone (governance env m) w = (case m (w_now w) (w_gov w) of (r, g) \<Rightarrow> (r, w\<lparr>w_calls := Suc (w_calls w), w_gov := g\<rparr>))"
  "ce_faults env (w_calls w) = Works \<Longrightarrow>
     alone (coordinator env claw n) w =
       (case n (w_now w) (w_coord w claw) of (r, c) \<Rightarrow> (r, w\<lparr>w_calls := Suc (w_calls w), w_coord := (w_coord w)(claw := c)\<rparr>))"
  "ce_faults env (w_calls w) = Works \<Longrightarrow> alone (emit env e) w = (Inr (), w\<lparr>w_calls := Suc (w_calls w), w_queue := w_queue w @ [e]\<rparr>)"
  "ce_faults env (w_calls w) = Works \<Longrightarrow> alone (read_vault env c) w =
     (vault_get (ce_decipher env) (ce_stream env) (ce_master env) (oc_vault c) (oc_id c) (oc_principal c) (oc_provider c) (w_bucket w), w\<lparr>w_calls := Suc (w_calls w)\<rparr>)"
  "alone (draw env) w = (case new_uuid (ce_gov env) (w_gov w) of (r, g) \<Rightarrow> (r, w\<lparr>w_gov := g\<rparr>))"
  "alone clock w = (Inr (w_now w), w)"
  by (simp_all add: governance_def coordinator_def emit_def read_vault_def draw_def clock_def remote_def on_gov_def on_coord_def Let_def split: prod.splits)

lemma alone_fails:
  "ce_faults env (w_calls w) = Fails_before \<Longrightarrow> alone (governance env m) w = (Inl unavailable, w\<lparr>w_calls := Suc (w_calls w)\<rparr>)"
  "ce_faults env (w_calls w) = Fails_before \<Longrightarrow> alone (coordinator env claw n) w = (Inl unavailable, w\<lparr>w_calls := Suc (w_calls w)\<rparr>)"
  by (simp_all add: governance_def coordinator_def remote_def)

lemma demo_faults: "ce_faults demo_controller n = (if n < 14 then Works else Fails_before)"
  by (simp add: demo_controller_def)

definition demo_resolved :: resolved_actor where
  "demo_resolved = \<lparr>ra_actor = demo_requester, ra_connection = demo_connection, ra_mode = Invoker, ra_fallback = False\<rparr>"

definition demo_capability :: capability where
  "demo_capability = DEFAULT_CAPABILITIES ! 2"

definition demo_digest :: string where
  "demo_digest = replicate 64 CHR ''a''"

lemma demo_checks:
  "requirePrincipal ''r'' (w_gov demo_world) = (Inr demo_requester, w_gov demo_world)"
  "requirePersona ''p'' (w_gov demo_world) = (Inr demo_persona, w_gov demo_world)"
  "gov_values gv_principals (w_gov demo_world) = [demo_requester]" "gov_values gv_connections (w_gov demo_world) = [demo_connection]"
  "checked_text (get demo_request ''personaId'') ''personaId'' 200 = Inr ''p''"
  "checked_text (get demo_request ''capabilityId'') ''capabilityId'' 120 = Inr ''github.issue.comment''"
  "normalizeGithubTarget (get demo_request ''target'') = Inr ''o/n''"
  "normalizeInvocationArguments (get demo_request ''arguments'') = Inr (Json.fields demo_arguments)"
  "get demo_request ''confirmationId'' = JStr ''k''" "nullish demo_request = False" "truthy (JStr ''k'')"
  "checked_text (JStr ''k'') ''confirmationId'' 200 = Inr ''k''"
  "invocationArgumentsDigest (gc_lib (ce_gov demo_controller)) (JStr ''github.issue.comment'') (JStr ''o/n'') (JObj (Json.fields demo_arguments)) = Inr demo_digest"
  "capabilityById ''github.issue.comment'' = Inr demo_capability" "cap_id demo_capability = ''github.issue.comment''"
  "cap_always_confirm demo_capability" "pe_id demo_persona = ''p''" "gp_id (ra_actor demo_resolved) = ''r''"
  "resolveInvocationActor demo_requester demo_persona demo_capability [demo_requester] [demo_connection] = Inr demo_resolved"
  "mayInvokePersona demo_persona ''r'' False" "w_calls demo_world = 0"
  by code_simp+

definition demo_spent :: gov where
  "demo_spent = snd (useConfirmation (ce_gov demo_controller) ''k'' demo_comment 1000 (w_gov demo_world))"

lemma demo_action_eq:
  "\<lparr>ca_requester = ''r'', ca_persona = ''p'', ca_actor = ''r'', ca_capability = ''github.issue.comment'', ca_target = ''o/n'', ca_digest = demo_digest\<rparr> = demo_comment"
  by (simp add: demo_comment_def demo_digest_def)

lemma evaluated_snd: "fst p = x \<Longrightarrow> p = (x, snd p)"
  by (cases p) simp

lemma demo_uses:
  "useConfirmation (ce_gov demo_controller) ''k'' demo_comment 1000 (w_gov demo_world) = (Inr (demo_confirmation\<lparr>cf_status := Used\<rparr>), demo_spent)"
  unfolding demo_spent_def by (rule evaluated_snd) code_simp

definition demo_checked :: checked_request where
  "demo_checked = \<lparr>cq_persona = demo_persona, cq_capability = demo_capability, cq_resolved = demo_resolved, cq_action = demo_comment,
     cq_arguments = Json.fields demo_arguments\<rparr>"

lemma demo_request_checked:
  "alone (check_request demo_controller ''r'' False demo_request False) demo_world =
     (Inr demo_checked, demo_world\<lparr>w_calls := Suc (Suc (Suc (Suc 0)))\<rparr>)"
  unfolding check_request_def
  by (simp add: comp_simps alone_works demo_faults demo_checks demo_action_eq demo_checked_def)

lemma demo_confirmed:
  "alone (issueInvocation demo_controller ''r'' False demo_request False) demo_world =
     alone (issue_grant demo_controller demo_persona demo_comment demo_resolved (cap_label demo_capability) (JStr ''k'') (Json.fields demo_arguments))
       (demo_world\<lparr>w_calls := Suc (Suc (Suc (Suc (Suc 0)))), w_gov := demo_spent\<rparr>)"
proof -
  have n: "w_now demo_world = 1000" by (simp add: demo_world_def)
  show ?thesis unfolding issueInvocation_def answer_request_def
    by (simp add: comp_simps demo_request_checked alone_works demo_faults demo_checks demo_uses demo_checked_def n)
qed

definition demo_token_of_grant :: string where
  "demo_token_of_grant = projr (signClaims demo_hmac demo_secret (grant_claims demo_persona demo_comment demo_resolved (JStr ''k'')) 300 ''uu'' 1000)"

definition demo_claims :: jsval where
  "demo_claims = token_payload (grant_claims demo_persona demo_comment demo_resolved (JStr ''k'')) 300 ''uu'' 1000"

lemma demo_signed:
  "signClaims demo_hmac demo_secret (grant_claims demo_persona demo_comment demo_resolved (JStr ''k'')) 300 ''uu'' 1000 = Inr demo_token_of_grant"
proof -
  have "requireSecret demo_secret = Inr ()" by code_simp
  then show ?thesis by (simp add: demo_token_of_grant_def signClaims_def refuse_if_def Let_def)
qed


lemma demo_verified:
  "seconds_of now \<le> 300 \<Longrightarrow> 1 \<le> seconds_of now \<Longrightarrow>
   verifyClaims demo_hmac demo_secret demo_token_of_grant ''invocation'' ''crabhelm-tool-wrapper'' now = Inr demo_claims"
proof -
  assume t: "seconds_of now \<le> 300" "1 \<le> seconds_of now"
  let ?g = "grant_claims demo_persona demo_comment demo_resolved (JStr ''k'')"
  obtain kvs where k: "?g = JObj kvs" by (simp add: grant_claims_def)
  have d: "json_data ?g" "get ?g ''typ'' = JStr ''invocation''" "get ?g ''aud'' = JStr ''crabhelm-tool-wrapper''" by code_simp+
  have s: "seconds_of 1000 = 1" by (simp add: seconds_of_def)
  show ?thesis
    using signed_accepted [OF demo_signed [unfolded k] d(1) [unfolded k] _ d(2,3) [unfolded k], of now] t unfolding demo_claims_def k
    by (simp add: s demo_hmac_def)
qed

definition demo_invocation_record :: invocation_record where
  "demo_invocation_record = \<lparr>iv_id = ''u'', iv_claw = ''c'', iv_action = demo_comment, iv_mode = Invoker, iv_fallback = False, iv_policy = 1,
     iv_confirmation = JStr ''k'', iv_status = Issued, iv_issued = 1000, iv_expires = 301000, iv_completed = None\<rparr>"

definition demo_saved :: gov where
  "demo_saved = snd (saveInvocation demo_invocation_record 1000 (demo_spent\<lparr>gv_uuids := 2\<rparr>))"

definition demo_registered :: coord where
  "demo_registered = snd (registerGrant ''u'' ''uu'' demo_digest 301000 1000 coord_init)"

lemma demo_issue_steps:
  "saveInvocation demo_invocation_record 1000 (demo_spent\<lparr>gv_uuids := 2\<rparr>) = (Inr (), demo_saved)"
  "registerGrant ''u'' ''uu'' demo_digest 301000 1000 coord_init = (Inr (), demo_registered)"
  unfolding demo_saved_def demo_registered_def by (rule evaluated_snd, code_simp)+

lemma demo_names_drawn:
  "new_uuid (ce_gov demo_controller) demo_spent = (Inr ''u'', demo_spent\<lparr>gv_uuids := 1\<rparr>)"
  "new_uuid (ce_gov demo_controller) (demo_spent\<lparr>gv_uuids := Suc 0\<rparr>) = (Inr ''uu'', demo_spent\<lparr>gv_uuids := 2\<rparr>)"
  by code_simp+


definition demo_note :: governance_event where
  "demo_note = (invocation_event demo_persona demo_comment demo_resolved
     (gov_note (ca_requester demo_comment) ''invocation.issue'' ''succeeded'' (''Issued one-time grant for '' @ cap_label demo_capability)))
       \<lparr>ge_policy := Some (pe_revision demo_persona), ge_confirmation := JStr ''k''\<rparr>"

definition demo_audit :: "governance_event result \<times> gov" where
  "demo_audit = gov_audit (ce_gov demo_controller) demo_note (Some ''u'') 1000 demo_saved"

lemma demo_audit_works: "gov_audit (ce_gov demo_controller) demo_note (Some ''u'') 1000 demo_saved = (Inr (projr (fst demo_audit)), snd demo_audit)"
proof -
  have "case fst demo_audit of Inl _ \<Rightarrow> False | Inr _ \<Rightarrow> True" by code_simp
  then have "fst demo_audit = Inr (projr (fst demo_audit))" by (cases "fst demo_audit") simp_all
  then show ?thesis by (metis demo_audit_def prod.collapse)
qed

definition demo_issued :: world where
  "demo_issued = demo_world\<lparr>w_calls := Suc (Suc (Suc (Suc (Suc (Suc (Suc (Suc (Suc 0)))))))), w_gov := snd demo_audit,
     w_coord := (\<lambda>_. coord_init)(''c'' := demo_registered), w_queue := [projr (fst demo_audit)]\<rparr>"

lemma demo_grant_values:
  "ce_hmac demo_controller = demo_hmac" "ce_secret demo_controller = demo_secret" "ra_mode demo_resolved = Invoker" "ra_fallback demo_resolved = False"
  "pe_claw demo_persona = ''c''" "pe_revision demo_persona = 1" "claim_text demo_claims ''jti'' = ''uu''" "ca_digest demo_comment = demo_digest"
  "w_coord demo_world = (\<lambda>_. coord_init)" "w_queue demo_world = []" "w_now demo_world = 1000"
proof -
  show "claim_text demo_claims ''jti'' = ''uu''" by code_simp
qed (simp_all add: demo_controller_def demo_resolved_def demo_persona_def demo_comment_def demo_digest_def demo_world_def)

lemma demo_issue_result:
  "alone (issueInvocation demo_controller ''r'' False demo_request False) demo_world =
     (Inr (Issued_grant demo_invocation_record demo_token_of_grant (Json.fields demo_arguments)), demo_issued)"
proof -
  have one: "seconds_of 1000 = 1" by (simp add: seconds_of_def)
  have i: "new_invocation demo_persona demo_comment demo_resolved (JStr ''k'') ''u'' 1000 = demo_invocation_record"
    by (simp add: demo_invocation_record_def new_invocation_def demo_grant_values demo_checks)
  have v: "iv_id demo_invocation_record = ''u''" "iv_claw demo_invocation_record = ''c''" "iv_action demo_invocation_record = demo_comment"
    "iv_expires demo_invocation_record = 301000" by (simp_all add: demo_invocation_record_def)
  note audit = demo_audit_works [unfolded demo_note_def demo_grant_values]
  show ?thesis
    unfolding demo_confirmed issue_grant_def sign_grant_def register_grant_def Let_def
    by (simp add: comp_simps alone_works demo_faults demo_checks demo_names_drawn demo_signed demo_verified one demo_grant_values i v demo_issue_steps audit
        demo_issued_def del: append_Cons)
qed

text \<open>Executing, part by part.\<close>

definition demo_bearer :: "string option" where
  "demo_bearer = Some (''Bearer '' @ demo_token_of_grant)"

definition demo_body :: jsval where
  "demo_body = JObj [(''invocationId'', JStr ''u''), (''arguments'', demo_arguments)]"

lemma demo_body_checks:
  "get demo_body ''invocationId'' = JStr ''u''" "checked_text (JStr ''u'') ''invocationId'' 200 = Inr ''u''"
  "get demo_body ''arguments'' = demo_arguments" "normalizeInvocationArguments demo_arguments = Inr (Json.fields demo_arguments)"
  "bearer demo_bearer = Some demo_token_of_grant"
  "get demo_claims ''capabilityId'' = JStr ''github.issue.comment''" "get demo_claims ''target'' = JStr ''o/n''"
  "get demo_claims ''argumentsDigest'' = JStr demo_digest" "claim_text demo_claims ''clawId'' = ''c''"
  "claim_text demo_claims ''connectionId'' = ''o''" "claim_text demo_claims ''actorId'' = ''r''"
  "claim_text demo_claims ''capabilityId'' = ''github.issue.comment''"
  by code_simp+


definition demo_consumed :: coord where
  "demo_consumed = snd (consumeGrant ''u'' ''uu'' demo_digest 2000 demo_registered)"

definition demo_running :: coord where
  "demo_running = snd (startRun ''u'' 2000 demo_consumed)"

definition demo_marked :: gov where
  "demo_marked = snd (updateInvocation (ce_gov demo_controller) ''u'' (Some invocation_status.Running) None 2000 (snd demo_audit))"

definition demo_call :: github_call where
  "demo_call = \<lparr>gh_method = ''POST'', gh_url = ''https://api.github.com/repos/o/n/issues/3/comments'',
     gh_body = Some (print_json (JObj [(''body'', JStr ''hello'')])), gh_credential = ''gho''\<rparr>"

lemma demo_execution_steps:
  "consumeGrant ''u'' ''uu'' demo_digest 2000 demo_registered = (True, demo_consumed)"
  "startRun ''u'' 2000 demo_consumed = (Inr (), demo_running)"
  "updateInvocation (ce_gov demo_controller) ''u'' (Some invocation_status.Running) None 2000 (snd demo_audit) =
     (Inr (demo_invocation_record\<lparr>iv_status := invocation_status.Running\<rparr>), demo_marked)"
  "requireConnection ''o'' demo_marked = (Inr demo_connection, demo_marked)"
  "vault_get (ce_decipher demo_controller) (ce_stream demo_controller) (ce_master demo_controller) (oc_vault demo_connection) (oc_id demo_connection)
     (oc_principal demo_connection) (oc_provider demo_connection) (w_bucket demo_world) = Inr ''gho''"
  "githubCall ''github.issue.comment'' (JStr ''o/n'') (Json.fields demo_arguments) ''gho'' = Inr demo_call"
  "githubResult ''github.issue.comment'' (ce_github demo_controller 0 demo_call) = Inr (JObj [(''id'', jint 7)])"
  unfolding demo_consumed_def demo_running_def demo_marked_def
  by (rule evaluated_snd, code_simp)+ code_simp+


definition demo_executed :: world where
  "demo_executed = demo_issued\<lparr>w_now := 2000, w_calls := Suc (Suc (Suc (Suc (Suc (Suc (Suc (Suc (w_calls demo_issued)))))))), w_gov := demo_marked,
     w_coord := (\<lambda>_. coord_init)(''c'' := demo_running),
     w_github := [\<lparr>lc_claw = ''c'', lc_invocation = ''u'', lc_jti = ''uu'', lc_request = demo_call\<rparr>]\<rparr>"

definition demo_warnings :: "string list" where
  "demo_warnings = [''coordinator_outcome_not_recorded'', ''invocation_outcome_not_recorded'', ''audit_not_recorded'']"

lemma demo_record_outcome:
  "14 \<le> w_calls w \<Longrightarrow> alone (record_outcome demo_controller claims iid ok message) w = (Inr demo_warnings, w\<lparr>w_calls := Suc (Suc (Suc (w_calls w)))\<rparr>)"
  by (simp add: record_outcome_def comp_simps warned_def alone_fails alone_works(6) demo_faults demo_warnings_def)

lemma demo_execution_result:
  "alone (executeGithub demo_controller demo_bearer demo_body) (demo_issued\<lparr>w_now := 2000\<rparr>) =
     (Inr (Executed ''u'' (JObj [(''id'', jint 7)]) demo_warnings), demo_executed)"
proof -
  have two: "seconds_of 2000 = 2" by (simp add: seconds_of_def)
  have body: "(case demo_body of JObj kvs \<Rightarrow> demo_body | _ \<Rightarrow> JObj []) = demo_body" by (simp add: demo_body_def)
  have w: "w_calls demo_issued = 9" "w_gov demo_issued = snd demo_audit" "w_coord demo_issued = (\<lambda>_. coord_init)(''c'' := demo_registered)"
    "w_github demo_issued = []" "w_bucket demo_issued = w_bucket demo_world" by (simp_all add: demo_issued_def demo_world_def)
  have c: "oc_active demo_connection" "oc_principal demo_connection = ''r''" by (simp_all add: demo_connection_def)
  note p = demo_checks(13) [unfolded demo_body_checks(6,7)]
  show ?thesis
    unfolding executeGithub_def Let_def body
    by (simp add: demo_body_checks demo_grant_values comp_simps demo_verified two p alone_works demo_faults w demo_execution_steps [unfolded c]
        consume_grant_def run_granted_def provider_request_def c ask_github_def finish_execution_def demo_record_outcome execution_reply_def demo_executed_def
        is_failure_def)
qed

subsection \<open>Handlers in turn\<close>

text \<open>A task that proceeds while nothing else happens ends as its handler run alone.\<close>

lemma proceed_alone:
  assumes "i < length (sy_tasks s)" "tk_now (sy_tasks s ! i) = p"
  shows "\<exists>n ss. fold (controller_step env cenv) (replicate n (Proceed i)) s =
      \<lparr>sy_world = snd (alone p (sy_world s)), sy_tasks = (sy_tasks s)[i := (sy_tasks s ! i)\<lparr>tk_steps := tk_steps (sy_tasks s ! i) @ ss,
         tk_now := Done (fst (alone p (sy_world s)))\<rparr>]\<rparr> \<and>
    in_turn (sy_world s) ss (snd (alone p (sy_world s)))"
  using assms
proof (induction p arbitrary: s rule: proc_induct)
  case (Done r)
  then have "(sy_tasks s ! i)\<lparr>tk_steps := tk_steps (sy_tasks s ! i) @ [], tk_now := Done r\<rparr> = sy_tasks s ! i" by simp
  then show ?case by (intro exI [of _ 0] exI [of _ "[]"]) simp
next
  case (Await g)
  let ?t = "sy_tasks s ! i" and ?w = "sy_world s"
  let ?s = "proceed i s"
  have s: "?s = \<lparr>sy_world = fst (g ?w), sy_tasks = (sy_tasks s)[i := ?t\<lparr>tk_steps := tk_steps ?t @ [(?w, fst (g ?w))], tk_now := snd (g ?w)\<rparr>]\<rparr>"
    using Await.prems by (simp add: proceed_def Let_def split_def)
  have "\<exists>n ss. fold (controller_step env cenv) (replicate n (Proceed i)) ?s =
      \<lparr>sy_world = snd (alone (snd (g ?w)) (sy_world ?s)), sy_tasks = (sy_tasks ?s)[i := (sy_tasks ?s ! i)\<lparr>tk_steps := tk_steps (sy_tasks ?s ! i) @ ss,
         tk_now := Done (fst (alone (snd (g ?w)) (sy_world ?s)))\<rparr>]\<rparr> \<and>
    in_turn (sy_world ?s) ss (snd (alone (snd (g ?w)) (sy_world ?s)))"
    by (rule Await.IH) (use Await.prems in \<open>simp_all add: s\<close>)
  then obtain n ss where "fold (controller_step env cenv) (replicate n (Proceed i)) ?s =
      \<lparr>sy_world = snd (alone (Await g) ?w), sy_tasks = (sy_tasks s)[i := ?t\<lparr>tk_steps := tk_steps ?t @ (?w, fst (g ?w)) # ss,
         tk_now := Done (fst (alone (Await g) ?w))\<rparr>]\<rparr>" "in_turn (fst (g ?w)) ss (snd (alone (Await g) ?w))"
    using Await.prems(1) by (auto simp: s alone_await simp del: alone.simps)
  then show ?case by (intro exI [of _ "Suc n"] exI [of _ "(?w, fst (g ?w)) # ss"]) (simp del: alone.simps)
qed

subsection \<open>The properties of the controller in this world\<close>

lemma demo_controller_fits: "names_fit (ce_gov demo_controller)" "gc_transaction (ce_gov demo_controller)" "fresh_world demo_world"
  using demo_names by (simp_all add: names_fit_def demo_controller_def demo_governance_def fresh_world_def demo_world_def coord_init_def)

text \<open>An invocation is issued; then two executions with its token are under way at once, and the first makes \<open>m\<close> of its steps.\<close>

definition demo_events :: "nat \<Rightarrow> nat \<Rightarrow> controller_event list" where
  "demo_events n m = Issue_invocation ''r'' False demo_request False # replicate n (Proceed 0) @
     [Clock 2000, Execute_github demo_bearer demo_body, Execute_github demo_bearer demo_body] @ replicate m (Proceed 1)"

lemma demo_events_outside: "\<forall>e\<in>set (demo_events n m @ replicate k (Proceed 2)). outside_grants e"
  by (auto simp: demo_events_def outside_grants_def)

lemma demo_issue_runs:
  "\<exists>n ss. controller_run demo_controller demo_env (Issue_invocation ''r'' False demo_request False # replicate n (Proceed 0)) demo_world =
     \<lparr>sy_world = demo_issued, sy_tasks = [\<lparr>tk_event = Issue_invocation ''r'' False demo_request False, tk_steps = ss,
        tk_now = Done (Inr (Issued_grant demo_invocation_record demo_token_of_grant (Json.fields demo_arguments)))\<rparr>]\<rparr>"
  using proceed_alone [of 0 "start_task demo_controller (Issue_invocation ''r'' False demo_request False) \<lparr>sy_world = demo_world, sy_tasks = []\<rparr>" _
      demo_controller demo_env]
  by (simp add: controller_run_def start_task_def handler_of_def demo_issue_result del: fold_replicate) blast

lemma demo_execution_runs:
  "\<exists>n m t. sy_world (controller_run demo_controller demo_env (demo_events n m) demo_world) = demo_executed \<and>
     t \<in> set (sy_tasks (controller_run demo_controller demo_env (demo_events n m) demo_world)) \<and>
     tk_event t = Execute_github demo_bearer demo_body \<and> tk_now t = Done (Inr (Executed ''u'' (JObj [(''id'', jint 7)]) demo_warnings)) \<and>
     in_turn (demo_issued\<lparr>w_now := 2000\<rparr>) (tk_steps t) demo_executed"
proof -
  let ?e = "Execute_github demo_bearer demo_body"
  obtain n os where n: "controller_run demo_controller demo_env (Issue_invocation ''r'' False demo_request False # replicate n (Proceed 0)) demo_world =
     \<lparr>sy_world = demo_issued, sy_tasks = [\<lparr>tk_event = Issue_invocation ''r'' False demo_request False, tk_steps = os,
        tk_now = Done (Inr (Issued_grant demo_invocation_record demo_token_of_grant (Json.fields demo_arguments)))\<rparr>]\<rparr>"
    using demo_issue_runs by blast
  let ?first = "\<lparr>tk_event = Issue_invocation ''r'' False demo_request False, tk_steps = os,
        tk_now = Done (Inr (Issued_grant demo_invocation_record demo_token_of_grant (Json.fields demo_arguments)))\<rparr>"
  let ?t = "\<lparr>tk_event = ?e, tk_steps = [], tk_now = executeGithub demo_controller demo_bearer demo_body\<rparr>"
  let ?s = "\<lparr>sy_world = demo_issued\<lparr>w_now := 2000\<rparr>, sy_tasks = [?first, ?t, ?t]\<rparr>"
  have r: "controller_run demo_controller demo_env (demo_events n m) demo_world =
      fold (controller_step demo_controller demo_env) (replicate m (Proceed 1)) ?s" for m
    using n by (simp add: controller_run_def demo_events_def start_task_def handler_of_def del: fold_replicate)
  obtain m ss where m: "fold (controller_step demo_controller demo_env) (replicate m (Proceed 1)) ?s =
      \<lparr>sy_world = demo_executed, sy_tasks = [?first, ?t\<lparr>tk_steps := ss, tk_now := Done (Inr (Executed ''u'' (JObj [(''id'', jint 7)]) demo_warnings))\<rparr>, ?t]\<rparr>"
      "in_turn (demo_issued\<lparr>w_now := 2000\<rparr>) ss demo_executed"
    using proceed_alone [of 1 ?s _ demo_controller demo_env] by (auto simp: demo_execution_result simp del: fold_replicate)
  show ?thesis
    by (intro exI [of _ n] exI [of _ m] exI [of _ "?t\<lparr>tk_steps := ss, tk_now := Done (Inr (Executed ''u'' (JObj [(''id'', jint 7)]) demo_warnings))\<rparr>"])
      (simp add: r m [unfolded One_nat_def] del: fold_replicate)
qed

theorem github_is_called_once_witness:
  "\<exists>n m. length (w_github (sy_world (controller_run demo_controller demo_env (demo_events n m) demo_world))) = 1 \<and>
     (\<forall>k. distinct (map lc_invocation (w_github (sy_world (controller_run demo_controller demo_env (demo_events n m @ replicate k (Proceed 2)) demo_world)))))"
proof -
  obtain n m where "sy_world (controller_run demo_controller demo_env (demo_events n m) demo_world) = demo_executed" using demo_execution_runs by blast
  then have "length (w_github (sy_world (controller_run demo_controller demo_env (demo_events n m) demo_world))) = 1" by (simp add: demo_executed_def)
  moreover have "distinct (map lc_invocation (w_github (sy_world (controller_run demo_controller demo_env (demo_events n m @ replicate k (Proceed 2)) demo_world))))" for k
    by (rule github_is_called_once [OF demo_controller_fits demo_events_outside])
  ultimately show ?thesis by blast
qed

theorem execution_outcome_is_reported_witness:
  "\<exists>claims args iid calling outcome warnings.
     called_as demo_controller claims args iid calling outcome \<and>
     Executed ''u'' (JObj [(''id'', jint 7)]) demo_warnings = execution_reply iid outcome warnings"
proof -
  obtain n m t where t: "t \<in> set (sy_tasks (controller_run demo_controller demo_env (demo_events n m) demo_world))"
      "tk_event t = Execute_github demo_bearer demo_body" "tk_now t = Done (Inr (Executed ''u'' (JObj [(''id'', jint 7)]) demo_warnings))"
      "in_turn (demo_issued\<lparr>w_now := 2000\<rparr>) (tk_steps t) demo_executed"
    using demo_execution_runs by blast
  have "w_github (demo_issued\<lparr>w_now := 2000\<rparr>) \<noteq> w_github demo_executed"
    by (simp add: demo_executed_def demo_issued_def demo_world_def)
  from in_turn_change [OF t(4) this] obtain a b where "(a, b) \<in> set (tk_steps t)" "w_github b \<noteq> w_github a" by fastforce
  from execution_outcome_is_reported [OF t(1-3) this] show ?thesis by (elim exE conjE) blast
qed

theorem grant_is_authorised_witness:
  "\<exists>q checks spending issuing. request_checked demo_controller ''r'' False demo_request False checks q \<and>
     confirmation_spent (JStr ''k'') q spending \<and> grant_registered demo_controller q demo_invocation_record demo_token_of_grant issuing \<and>
     length issuing = 9"
proof -
  obtain n os where n: "controller_run demo_controller demo_env (Issue_invocation ''r'' False demo_request False # replicate n (Proceed 0)) demo_world =
     \<lparr>sy_world = demo_issued, sy_tasks = [\<lparr>tk_event = Issue_invocation ''r'' False demo_request False, tk_steps = os,
        tk_now = Done (Inr (Issued_grant demo_invocation_record demo_token_of_grant (Json.fields demo_arguments)))\<rparr>]\<rparr>"
    using demo_issue_runs by blast
  let ?t = "\<lparr>tk_event = Issue_invocation ''r'' False demo_request False, tk_steps = os,
        tk_now = Done (Inr (Issued_grant demo_invocation_record demo_token_of_grant (Json.fields demo_arguments)))\<rparr>"
  have t: "?t \<in> set (sy_tasks (controller_run demo_controller demo_env (Issue_invocation ''r'' False demo_request False # replicate n (Proceed 0)) demo_world))"
    unfolding n by simp
  from grant_is_authorised [OF t task.select_convs(1) task.select_convs(3)] obtain q checks spending issuing where
    "request_checked demo_controller ''r'' False demo_request False checks q" "confirmation_spent (JStr ''k'') q spending"
    "grant_registered demo_controller q demo_invocation_record demo_token_of_grant issuing"
    unfolding demo_checks(9) by blast
  moreover from this(3) have "length issuing = 9" by (auto simp: grant_registered_def)
  ultimately show ?thesis by blast
qed

text \<open>A target that leaves the repository: the credential's own account is read in place of a repository.\<close>

definition demo_escape :: github_call where
  "demo_escape = \<lparr>gh_method = ''GET'', gh_url = ''https://api.github.com/repos/../user'', gh_body = None, gh_credential = ''gho''\<rparr>"

theorem call_stays_in_repository_witness:
  "githubCall ''github.repository.read'' (JStr ''../user'') [] ''gho'' = Inr demo_escape \<and> fetched_path (gh_url demo_escape) = [''user''] \<and>
   take 3 (fetched_path (gh_url demo_escape)) \<noteq> [''repos'', ''..'', ''user''] \<and> gh_credential demo_escape = ''gho''"
proof -
  have c: "githubCall ''github.repository.read'' (JStr ''../user'') [] ''gho'' = Inr demo_escape" by code_simp
  have p: "fetched_path (gh_url demo_escape) = [''user'']" by code_simp
  from call_stays_in_repository [OF c] have "gh_credential demo_escape = ''gho''" by blast
  with c p show ?thesis by simp
qed

end
