(* ===== verification/ClawRouter.thy ===== *)
theory ClawRouter
  imports Domain_Rules Tokens StateStore
begin

text \<open>
  src/clawrouter.ts: the client of the inference router. The configuration is read from the environment; \<open>reconcile\<close>
  writes the policy and the credential of a claw, checks what the router then reports, and caches the observation.
  Parameters: the URL parser, HMAC-SHA-256, SHA-256 and the router's answers. A reconciliation is given its
  readings of the clock (\<open>router_clock\<close>): at the cache test, at \<open>checkedAt\<close>, and when the observation is stored. The
  four reads of an enabled claw are all sent before one is awaited, and of several failures the first in their order
  is reported.
\<close>

subsection \<open>Configuration\<close>

record full_url =
  fu_parts :: url_parts
  fu_path :: string
  fu_origin :: string

record router_config =
  cr_fleet :: fleet_policy
  cr_admin :: string
  cr_secret :: string
  cr_access :: "(string \<times> string) option"   \<comment> \<open>\<open>accessClientId\<close> and \<open>accessClientSecret\<close>\<close>

type_synonym environment = "string \<Rightarrow> string option"

definition clawRouterEnabled :: "environment \<Rightarrow> bool result" where
  "clawRouterEnabled env =
     (case env ''CRABHELM_CLAWROUTER'' of
        None \<Rightarrow> Inr False
      | Some mode \<Rightarrow> if mode = ''on'' then Inr True else if mode = ''off'' then Inr False
          else Inl (PlainError ''CRABHELM_CLAWROUTER must be on or off''))"

definition line_break :: "char \<Rightarrow> bool" where
  "line_break c \<longleftrightarrow> c \<in> {CHR 0x0D, CHR 0x0A, CHR 0x00}"

definition env_required :: "string option \<Rightarrow> string \<Rightarrow> string result" where
  \<comment> \<open>\<open>required\<close>\<close>
  "env_required v name =
     (case v of None \<Rightarrow> Inl (PlainError (name @ '' is required''))
      | Some t \<Rightarrow> if trim t = [] \<or> list_ex line_break (trim t) then Inl (PlainError (name @ '' is required'')) else Inr (trim t))"

definition env_optional :: "string option \<Rightarrow> string option result" where
  \<comment> \<open>\<open>optional\<close>\<close>
  "env_optional v =
     (case v of None \<Rightarrow> Inr None
      | Some t \<Rightarrow> if trim t = [] then Inr None
          else if list_ex line_break (trim t) then Inl (PlainError ''ClawRouter access service credential is invalid'') else Inr (Some (trim t)))"

definition routerModelPattern :: "string \<Rightarrow> bool" where
  \<comment> \<open>\<open>/^clawrouter\/[a-z0-9][a-z0-9-]{0,63}\/[A-Za-z0-9][A-Za-z0-9_.:\-/]{0,199}$/u\<close>\<close>
  "routerModelPattern s \<longleftrightarrow> prefix_of ''clawrouter/'' s \<and>
     (let rest = drop 11 s; p = takeWhile (\<lambda>c. c \<noteq> CHR ''/'') rest; q = drop (length p) rest in
      head_tail is_lower_alnum slug_char 63 p \<and> q \<noteq> [] \<and> head_tail is_alnum (\<lambda>c. is_alnum c \<or> c \<in> set ''_.:-/'') 199 (tl q))"

definition cut_last :: "char \<Rightarrow> string \<Rightarrow> string \<times> string" where
  \<comment> \<open>the texts before and after \<open>lastIndexOf\<close>; two empty texts when that is not positive\<close>
  "cut_last d s =
     (let after = rev (takeWhile (\<lambda>c. c \<noteq> d) (rev s)); n = length s - length after in
      if n \<le> 1 then ([], []) else (take (n - 1) s, after))"

definition model_entry :: "string list \<Rightarrow> string \<Rightarrow> (string \<times> string) list \<Rightarrow> (string \<times> string) list result" where
  \<comment> \<open>the body of the loop of \<open>parseModelProviderMap\<close>\<close>
  "model_entry allowed entry known =
     (case cut_last (CHR ''='') entry of (l, r) \<Rightarrow>
      let model = trim l; provider = trim r in
      if \<not> routerModelPattern model then Inl (PlainError ''CLAWROUTER_MODEL_PROVIDER_MAP contains an invalid ClawRouter model'')
      else if provider \<notin> set allowed then Inl (PlainError ''CLAWROUTER_MODEL_PROVIDER_MAP contains a provider outside the fleet allowlist'')
      else if model \<in> fst ` set known then Inl (PlainError ''CLAWROUTER_MODEL_PROVIDER_MAP contains a duplicate model'')
      else Inr (known @ [(model, provider)]))"

fun model_entries :: "string list \<Rightarrow> string list \<Rightarrow> (string \<times> string) list \<Rightarrow> (string \<times> string) list result" where
  "model_entries allowed [] known = Inr known"
| "model_entries allowed (e # es) known = bindR (model_entry allowed e known) (model_entries allowed es)"

definition parseModelProviderMap :: "string option \<Rightarrow> string list \<Rightarrow> (string \<times> string) list result" where
  "parseModelProviderMap v allowed =
     bindR (env_required v ''CLAWROUTER_MODEL_PROVIDER_MAP'') (\<lambda>t.
     let entries = map trim (split_on CHR '','' t) in
     bindR (refuse_if (128 < length entries \<or> [] \<in> set entries) (PlainError ''CLAWROUTER_MODEL_PROVIDER_MAP must contain 1 to 128 mappings'')) (\<lambda>_.
     bindR (model_entries allowed entries []) (\<lambda>m. Inr (sort_entries m))))"

definition tenantPattern :: "string \<Rightarrow> bool" where
  "tenantPattern s = head_tail is_alnum (\<lambda>c. is_alnum c \<or> c \<in> set ''_.-'') 119 s"

definition providerPattern :: "string \<Rightarrow> bool" where
  "providerPattern s = head_tail is_lower_alnum slug_char 63 s"

definition exact_origin :: "full_url \<Rightarrow> bool" where
  "exact_origin u \<longleftrightarrow> url_protocol (fu_parts u) = ''https:'' \<and> url_username (fu_parts u) = [] \<and> url_password (fu_parts u) = [] \<and>
     fu_path u = ''/'' \<and> url_search (fu_parts u) = [] \<and> url_hash (fu_parts u) = []"

definition listed_providers :: "string \<Rightarrow> string list" where
  "listed_providers t = sort (js_set (filter (\<lambda>v. v \<noteq> []) (map trim (split_on CHR '','' t))))"

definition access_pair :: "environment \<Rightarrow> (string \<times> string) option result" where
  "access_pair env =
     bindR (env_optional (env ''CLAWROUTER_ACCESS_CLIENT_ID'')) (\<lambda>i.
     bindR (env_optional (env ''CLAWROUTER_ACCESS_CLIENT_SECRET'')) (\<lambda>s.
     case (i, s) of
       (Some a, Some b) \<Rightarrow> Inr (Some (a, b))
     | (None, None) \<Rightarrow> Inr None
     | _ \<Rightarrow> Inl (PlainError ''CLAWROUTER_ACCESS_CLIENT_ID and CLAWROUTER_ACCESS_CLIENT_SECRET must be configured together'')))"

definition resolveClawRouterConfig :: "(string \<Rightarrow> full_url option) \<Rightarrow> environment \<Rightarrow> router_config option result" where
  "resolveClawRouterConfig new_url env =
     bindR (clawRouterEnabled env) (\<lambda>enabled.
     if \<not> enabled then Inr None else
     bindR (env_required (env ''CLAWROUTER_BASE_URL'') ''CLAWROUTER_BASE_URL'') (\<lambda>base.
     case new_url base of None \<Rightarrow> Inl type_error
     | Some u \<Rightarrow>
     bindR (refuse_if (\<not> exact_origin u) (PlainError ''CLAWROUTER_BASE_URL must be an exact HTTPS origin'')) (\<lambda>_.
     bindR (env_required (env ''CLAWROUTER_TENANT_ID'') ''CLAWROUTER_TENANT_ID'') (\<lambda>tenant.
     bindR (refuse_if (\<not> tenantPattern tenant) (PlainError ''CLAWROUTER_TENANT_ID is invalid'')) (\<lambda>_.
     bindR (env_required (env ''CLAWROUTER_ALLOWED_PROVIDERS'') ''CLAWROUTER_ALLOWED_PROVIDERS'') (\<lambda>listed.
     let allowed = listed_providers listed in
     bindR (refuse_if (allowed = [] \<or> 32 < length allowed \<or> \<not> list_all providerPattern allowed)
              (PlainError ''CLAWROUTER_ALLOWED_PROVIDERS must contain 1 to 32 provider ids'')) (\<lambda>_.
     bindR (parseModelProviderMap (env ''CLAWROUTER_MODEL_PROVIDER_MAP'') allowed) (\<lambda>models.
     bindR (env_required (env ''CLAWROUTER_DEFAULT_MODEL'') ''CLAWROUTER_DEFAULT_MODEL'') (\<lambda>default.
     bindR (refuse_if (\<not> routerModelPattern default \<or> map_of models default = None)
              (PlainError ''CLAWROUTER_DEFAULT_MODEL must have an explicit model-to-provider mapping'')) (\<lambda>_.
     bindR (env_required (env ''CLAWROUTER_CREDENTIAL_SECRET'') ''CLAWROUTER_CREDENTIAL_SECRET'') (\<lambda>secret.
     bindR (refuse_if (utf8_length secret < 32) (PlainError ''CLAWROUTER_CREDENTIAL_SECRET must contain at least 32 bytes'')) (\<lambda>_.
     bindR (access_pair env) (\<lambda>access.
     bindR (env_required (env ''CLAWROUTER_ADMIN_TOKEN'') ''CLAWROUTER_ADMIN_TOKEN'') (\<lambda>admin.
     Inr (Some \<lparr>cr_fleet = \<lparr>fp_base = fu_origin u, fp_tenant = tenant, fp_allowed = allowed, fp_models = models, fp_default = default\<rparr>,
       cr_admin = admin, cr_secret = secret, cr_access = access\<rparr>)))))))))))))))"

subsection \<open>Requests\<close>

record router_request =
  rr_method :: string
  rr_path :: string
  rr_headers :: "(string \<times> string) list"
  rr_body :: "string option"

text \<open>No answer, or a status and the chunks of the body, if there is one.\<close>

datatype router_answer = Router_down | Router_answer nat "nat list list option"

record cached_observation =
  co_fingerprint :: string
  co_at :: int
  co_value :: inference_observation

record router_state =
  rs_cache :: "string \<Rightarrow> cached_observation option"
  rs_sent :: "router_request list"

record router_env =
  re_config :: router_config
  re_answer :: "nat \<Rightarrow> router_request \<Rightarrow> router_answer"
  re_hmac :: hmac
  re_sha :: "nat list \<Rightarrow> nat list"

type_synonym 'a routerc = "(router_state, 'a) comp"

definition invalid_status :: "string \<Rightarrow> js_error" where
  "invalid_status m = OperationalError CLAWROUTER_STATUS_INVALID m"

definition maxResponseBytes :: nat where
  "maxResponseBytes = 512 * 1024"

fun read_response :: "nat \<Rightarrow> nat list list \<Rightarrow> nat list result" where
  "read_response seen [] = Inr []"
| "read_response seen (c # cs) =
     (if maxResponseBytes < seen + length c then Inl (invalid_status ''ClawRouter metadata response exceeded the size limit'')
      else bindR (read_response (seen + length c) cs) (\<lambda>bs. Inr (c @ bs)))"

definition readBoundedJson :: "nat list list option \<Rightarrow> jsval result" where
  "readBoundedJson body =
     (case body of None \<Rightarrow> Inr (JObj [])
      | Some cs \<Rightarrow> bindR (read_response 0 cs) (\<lambda>bs.
          if bs = [] then Inr (JObj [])
          else (case Option.bind (latin_text (text_decode bs)) json_parse of
              None \<Rightarrow> Inl (invalid_status ''ClawRouter returned invalid metadata'') | Some v \<Rightarrow> Inr v)))"

definition router_headers :: "router_config \<Rightarrow> string \<Rightarrow> bool \<Rightarrow> (string \<times> string) list" where
  \<comment> \<open>\<open>#headers\<close>\<close>
  "router_headers cfg token admin =
     [(''accept'', ''application/json''), (''authorization'', ''Bearer '' @ token), (''content-type'', ''application/json'')] @
     (if admin then (case cr_access cfg of None \<Rightarrow> [] | Some (i, s) \<Rightarrow> [(''cf-access-client-id'', i), (''cf-access-client-secret'', s)]) else [])"

definition send_request :: "router_env \<Rightarrow> router_request \<Rightarrow> jsval routerc" where
  \<comment> \<open>\<open>#request\<close>\<close>
  "send_request env rq = (\<lambda>s.
     ((case re_answer env (length (rs_sent s)) rq of
         Router_down \<Rightarrow> Inl (OperationalError CLAWROUTER_UNREACHABLE ''ClawRouter is unreachable'')
       | Router_answer status body \<Rightarrow>
           if \<not> (200 \<le> status \<and> status < 300)
           then Inl (OperationalError CLAWROUTER_REJECTED (''ClawRouter rejected a control-plane request (HTTP '' @ nat_str status @ '')''))
           else readBoundedJson body),
      s\<lparr>rs_sent := rs_sent s @ [rq]\<rparr>))"

definition admin_request :: "router_env \<Rightarrow> string \<Rightarrow> jsval \<Rightarrow> jsval routerc" where
  "admin_request env path body = send_request env
     \<lparr>rr_method = ''PUT'', rr_path = path, rr_headers = router_headers (re_config env) (cr_admin (re_config env)) True,
      rr_body = Some (print_json body)\<rparr>"

definition client_request :: "router_env \<Rightarrow> string \<Rightarrow> string option \<Rightarrow> jsval routerc" where
  "client_request env path token = send_request env
     \<lparr>rr_method = ''GET'', rr_path = path,
      rr_headers = (case token of None \<Rightarrow> [(''accept'', ''application/json'')] | Some t \<Rightarrow> router_headers (re_config env) t False),
      rr_body = None\<rparr>"

subsection \<open>Credentials\<close>

definition router_credential :: "router_env \<Rightarrow> string \<Rightarrow> string \<Rightarrow> int \<Rightarrow> string \<times> string" where
  \<comment> \<open>\<open>#credential\<close>: the token and the digest of its secret\<close>
  "router_credential env credential_id claw_id generation =
     (let secret = base64url (re_hmac env (utf8_bytes (cr_secret (re_config env)))
                     (utf8_bytes (''crabhelm-clawrouter:v1:'' @ claw_id @ '':'' @ int_str generation)))
      in (''clawrouter-live-'' @ credential_id @ ''-'' @ secret, hex_string (re_sha env (utf8_bytes secret))))"

definition sameStrings :: "string list \<Rightarrow> string list \<Rightarrow> bool" where
  "sameStrings a b \<longleftrightarrow> a = sort b"

definition sameStringRecord :: "(string \<times> string) list \<Rightarrow> (string \<times> string) list \<Rightarrow> bool" where
  "sameStringRecord a b \<longleftrightarrow> sort_entries a = sort_entries b"

definition claw_models :: "claw_record \<Rightarrow> string list" where
  "claw_models claw = inf_model (d_inference (c_desired claw)) # inf_fallback (d_inference (c_desired claw))"

definition assertDesiredRouter :: "router_config \<Rightarrow> claw_record \<Rightarrow> routed_inference \<Rightarrow> unit result" where
  "assertDesiredRouter cfg claw r =
     (let expected_id = ''crabhelm_'' @ to_lower (filter (\<lambda>c. c \<noteq> CHR ''-'') (c_id claw));
          expected = map (map_of (fp_models (cr_fleet cfg))) (claw_models claw) in
      refuse_if (rt_base r \<noteq> fp_base (cr_fleet cfg) \<or> rt_tenant r \<noteq> fp_tenant (cr_fleet cfg) \<or> rt_policy r \<noteq> expected_id \<or>
        rt_credential r \<noteq> expected_id \<or> rt_project r \<noteq> c_id claw \<or> \<not> sameStrings (rt_allowed r) (fp_allowed (cr_fleet cfg)) \<or>
        \<not> sameStringRecord (rt_models r) (fp_models (cr_fleet cfg)) \<or> (\<exists>p\<in>set expected. p = None \<or> p = Some []) \<or>
        \<not> sameStrings (rt_providers r) (js_set (List.map_filter id expected)))
        (invalid_status ''ClawRouter desired state does not match fleet configuration''))"

definition router_credentials :: "router_env \<Rightarrow> claw_record \<Rightarrow> int \<Rightarrow> (string \<times> string) list result" where
  \<comment> \<open>\<open>credentials\<close>\<close>
  "router_credentials env claw expected =
     (case inf_router (d_inference (c_desired claw)) of
        Direct \<Rightarrow> Inl (invalid_status ''ClawRouter credential request does not match desired state'')
      | Routed r \<Rightarrow>
          bindR (refuse_if (expected \<noteq> clawCredentialsGeneration claw) (invalid_status ''ClawRouter credential request does not match desired state'')) (\<lambda>_.
          bindR (assertDesiredRouter (re_config env) claw r) (\<lambda>_.
          Inr [(''CLAWROUTER_API_KEY'', fst (router_credential env (rt_credential r) (c_id claw) (clawCredentialsGeneration claw))),
               (''CRABHELM_ROUTER_BASE_URL'', rt_base r)])))"

subsection \<open>What the router reports\<close>

definition safe_count :: "jsval \<Rightarrow> int option" where
  \<comment> \<open>\<open>safeInteger\<close>\<close>
  "safe_count v = (case js_integer v of Some i \<Rightarrow> if safe_int i \<and> 0 \<le> i then Some i else None | None \<Rightarrow> None)"

definition count_or_zero :: "jsval \<Rightarrow> int" where
  "count_or_zero v = (case safe_count v of Some i \<Rightarrow> i | None \<Rightarrow> 0)"

definition as_record :: "jsval \<Rightarrow> jsval" where
  \<comment> \<open>\<open>asRecord\<close>\<close>
  "as_record v = (case v of JObj _ \<Rightarrow> v | _ \<Rightarrow> JObj [])"

definition stringArray :: "jsval \<Rightarrow> string list" where
  "stringArray v =
     (case v of JArr vs \<Rightarrow> if list_all is_string vs then sort (js_set (map (\<lambda>x. case x of JStr t \<Rightarrow> t | _ \<Rightarrow> []) vs)) else []
      | _ \<Rightarrow> [])"

definition catalog_matches :: "string \<Rightarrow> string \<Rightarrow> jsval \<Rightarrow> nat" where
  "catalog_matches model provider row =
     (if get (as_record row) ''id'' \<noteq> JStr provider \<or> get (as_record row) ''executable'' \<noteq> JBool True then 0
      else case get (as_record row) ''models'' of
        JArr ms \<Rightarrow> length (filter (\<lambda>m. get (as_record m) ''id'' = JStr model) ms) | _ \<Rightarrow> 0)"

definition catalogContains :: "jsval \<Rightarrow> string \<Rightarrow> string \<Rightarrow> bool" where
  "catalogContains catalog model provider \<longleftrightarrow>
     (let expected = (if prefix_of ''clawrouter/'' model then drop 11 model else []) in
      expected \<noteq> [] \<and>
      (case get (as_record catalog) ''providers'' of JArr rows \<Rightarrow> sum_list (map (catalog_matches expected provider) rows) = 1 | _ \<Rightarrow> False))"

definition budgetFrom :: "int option \<Rightarrow> budget_view" where
  "budgetFrom limit = \<lparr>bg_configured = (limit \<noteq> None), bg_limit = limit, bg_spent = None, bg_remaining = None\<rparr>"

definition budgetObservation :: "jsval \<Rightarrow> int option \<Rightarrow> budget_view result" where
  "budgetObservation v desired =
     (let b = as_record v; configured = (get b ''configured'' = JBool True); limit = safe_count (get b ''limitMicros'') in
      if configured \<noteq> (desired \<noteq> None) \<or> (desired \<noteq> None \<and> limit \<noteq> desired)
      then Inl (invalid_status ''ClawRouter budget metadata did not converge'')
      else Inr \<lparr>bg_configured = configured, bg_limit = limit, bg_spent = safe_count (get b ''spentMicros''),
                bg_remaining = safe_count (get b ''remainingMicros'')\<rparr>)"

definition usageSummary :: "jsval \<Rightarrow> usage_summary" where
  "usageSummary v =
     (let s = as_record (get (as_record v) ''summary'') in
      \<lparr>us_requests = count_or_zero (get s ''requestCount''), us_success = count_or_zero (get s ''successCount''),
       us_errors = count_or_zero (get s ''errorCount''), us_input = count_or_zero (get s ''inputTokens''),
       us_output = count_or_zero (get s ''outputTokens''), us_total = count_or_zero (get s ''totalTokens''),
       us_cost = count_or_zero (get s ''actualCostMicros'')\<rparr>)"

subsection \<open>\<open>reconcile\<close>\<close>

text \<open>The three readings of \<open>Date.now()\<close> in one call: for the age of the cached value, after the two writes, and after
  the reads, which may take ten seconds.\<close>

record router_clock =
  rk_test :: int
  rk_checked :: int   \<comment> \<open>\<open>checkedAt\<close>\<close>
  rk_stored :: int    \<comment> \<open>\<open>at\<close> of the cache\<close>


definition budget_micros :: "claw_record \<Rightarrow> int option" where
  \<comment> \<open>\<open>Math.round(usd * 1_000_000)\<close>, exact\<close>
  "budget_micros claw = map_option (\<lambda>usd. \<lfloor>usd * 1000000 + 1 / 2\<rfloor>) (inf_budget (d_inference (c_desired claw)))"

definition fingerprint_value :: "claw_record \<Rightarrow> routed_inference \<Rightarrow> jsval" where
  "fingerprint_value claw r = JObj
     [(''enabled'', JBool (d_enabled (c_desired claw))), (''model'', JStr (inf_model (d_inference (c_desired claw)))),
      (''fallbackModels'', js_strings (inf_fallback (d_inference (c_desired claw)))),
      (''monthlyBudgetUsd'', (case inf_budget (d_inference (c_desired claw)) of None \<Rightarrow> JNull | Some b \<Rightarrow> jrat b)),
      (''router'', js_router (Routed r)), (''credentialsGeneration'', jint (clawCredentialsGeneration claw))]"

definition router_fingerprint :: "claw_record \<Rightarrow> routed_inference \<Rightarrow> string" where
  "router_fingerprint claw r = print_json (fingerprint_value claw r)"

definition micros_json :: "int option \<Rightarrow> jsval" where
  "micros_json limit = (case limit of None \<Rightarrow> JNull | Some i \<Rightarrow> jint i)"

definition policy_body :: "claw_record \<Rightarrow> routed_inference \<Rightarrow> jsval" where
  "policy_body claw r = JObj
     [(''enabled'', JBool (d_enabled (c_desired claw))), (''providers'', js_strings (rt_providers r)), (''tenantId'', JStr (rt_tenant r)),
      (''tokenRole'', JStr ''service''), (''monthlyBudgetMicros'', micros_json (budget_micros claw)), (''retainRequestContent'', JBool False)]"

definition policy_converged :: "claw_record \<Rightarrow> routed_inference \<Rightarrow> jsval \<Rightarrow> bool" where
  "policy_converged claw r p \<longleftrightarrow>
     get p ''policyId'' = JStr (rt_policy r) \<and> get p ''enabled'' = JBool (d_enabled (c_desired claw)) \<and>
     get p ''tenantId'' = JStr (rt_tenant r) \<and> get p ''tokenRole'' = JStr ''service'' \<and>
     get p ''monthlyBudgetMicros'' = micros_json (budget_micros claw) \<and> get p ''retainRequestContent'' = JBool False \<and>
     sameStrings (stringArray (get p ''providers'')) (rt_providers r)"

definition credential_body :: "claw_record \<Rightarrow> routed_inference \<Rightarrow> string \<Rightarrow> jsval" where
  "credential_body claw r sha = JObj
     [(''enabled'', JBool (d_enabled (c_desired claw))), (''policyId'', JStr (rt_policy r)), (''secretSha256'', JStr sha)]"

definition credential_converged :: "claw_record \<Rightarrow> routed_inference \<Rightarrow> jsval \<Rightarrow> bool" where
  "credential_converged claw r c \<longleftrightarrow>
     get c ''credentialId'' = JStr (rt_credential r) \<and> get c ''policyId'' = JStr (rt_policy r) \<and>
     get c ''enabled'' = JBool (d_enabled (c_desired claw)) \<and> get c ''policyEnabled'' = JBool (d_enabled (c_desired claw)) \<and>
     get c ''generationMatches'' = JBool True \<and> get c ''active'' = JBool (d_enabled (c_desired claw))"

definition remember :: "string \<Rightarrow> string \<Rightarrow> int \<Rightarrow> inference_observation \<Rightarrow> inference_observation routerc" where
  \<comment> \<open>\<open>this.#cache.set(..); return value\<close>\<close>
  "remember claw_id fingerprint now v = thenC
     (modC (\<lambda>s. s\<lparr>rs_cache := (rs_cache s)(claw_id := Some \<lparr>co_fingerprint = fingerprint, co_at = now, co_value = v\<rparr>)\<rparr>)) (retC v)"

definition or_undefined :: "jsval routerc \<Rightarrow> jsval routerc" where
  \<comment> \<open>\<open>.catch(() => undefined)\<close>\<close>
  "or_undefined m = catchC m (\<lambda>e. retC JUndef)"

definition base_observation :: "claw_record \<Rightarrow> routed_inference \<Rightarrow> int \<Rightarrow> inference_observation" where
  \<comment> \<open>the members that both branches set alike\<close>
  "base_observation claw r now =
     \<lparr>io_checked = now, io_base = rt_base r, io_model = inf_model (d_inference (c_desired claw)), io_providers = rt_providers r,
      io_policy = rt_policy r, io_credential = rt_credential r, io_generation = clawCredentialsGeneration claw,
      io_policy_active = False, io_credential_active = False, io_healthy = False, io_catalog = False, io_verified = False,
      io_budget = budgetFrom (budget_micros claw), io_usage = None\<rparr>"

definition reconcile_disabled :: "router_env \<Rightarrow> claw_record \<Rightarrow> routed_inference \<Rightarrow> router_clock \<Rightarrow> inference_observation routerc" where
  "reconcile_disabled env claw r now =
     bindC (or_undefined (client_request env ''/v1/health'' None)) (\<lambda>health.
     remember (c_id claw) (router_fingerprint claw r) (rk_stored now)
       ((base_observation claw r (rk_checked now))\<lparr>io_healthy := (get (as_record health) ''ok'' = JBool True)\<rparr>))"

definition catalog_ready :: "claw_record \<Rightarrow> routed_inference \<Rightarrow> jsval \<Rightarrow> bool" where
  "catalog_ready claw r catalog \<longleftrightarrow>
     list_all (\<lambda>m. case map_of (rt_models r) m of None \<Rightarrow> False | Some p \<Rightarrow> p \<noteq> [] \<and> catalogContains catalog m p) (claw_models claw)"

definition startC :: "'a routerc \<Rightarrow> 'a result routerc" where
  \<comment> \<open>a promise that is under way: its request is sent, its outcome is awaited later\<close>
  "startC m = (\<lambda>s. (Inr (fst (m s)), snd (m s)))"

definition enabled_observation :: "claw_record \<Rightarrow> routed_inference \<Rightarrow> int \<Rightarrow> jsval \<Rightarrow> jsval \<Rightarrow> jsval \<Rightarrow> jsval \<Rightarrow> inference_observation result" where
  \<comment> \<open>the checks of what the four reads returned, and the observation\<close>
  "enabled_observation claw r now health key catalog usage =
     (let inspected = as_record key; observed = stringArray (get inspected ''providers'') in
      bindR (refuse_if (\<not> (get inspected ''verified'' = JBool True \<and> get inspected ''kid'' = JStr (rt_credential r) \<and> get inspected ''enabled'' = JBool True) \<or>
         \<not> sameStrings observed (rt_providers r)) (invalid_status ''ClawRouter credential scope did not converge'')) (\<lambda>_.
      bindR (budgetObservation (get (as_record usage) ''budget'') (budget_micros claw)) (\<lambda>budget.
      let v = (base_observation claw r now)\<lparr>io_providers := observed, io_policy_active := True, io_credential_active := True,
                io_healthy := (get (as_record health) ''ok'' = JBool True), io_catalog := catalog_ready claw r catalog, io_budget := budget,
                io_usage := (let u = get (as_record usage) ''usage'' in if truthy u then Some (usageSummary u) else None)\<rparr> in
      bindR (refuse_if (\<not> io_healthy v \<or> \<not> io_catalog v) (invalid_status ''ClawRouter health or model catalog is not ready'')) (\<lambda>_. Inr v))))"

definition reconcile_enabled :: "router_env \<Rightarrow> claw_record \<Rightarrow> routed_inference \<Rightarrow> string \<Rightarrow> router_clock \<Rightarrow> inference_observation routerc" where
  "reconcile_enabled env claw r token now =
     bindC (startC (client_request env ''/v1/health'' None)) (\<lambda>health.
     bindC (startC (client_request env ''/v1/key/inspect'' (Some token))) (\<lambda>key.
     bindC (startC (client_request env ''/v1/catalog'' (Some token))) (\<lambda>catalog.
     bindC (or_undefined (client_request env ''/v1/usage'' (Some token))) (\<lambda>usage.
     bindC (liftR (bindR health (\<lambda>h. bindR key (\<lambda>k. bindR catalog (\<lambda>c. enabled_observation claw r (rk_checked now) h k c usage))))) (\<lambda>v.
     remember (c_id claw) (router_fingerprint claw r) (rk_stored now) v)))))"

definition converge :: "router_env \<Rightarrow> claw_record \<Rightarrow> routed_inference \<Rightarrow> router_clock \<Rightarrow> inference_observation routerc" where
  \<comment> \<open>the part of \<open>reconcile\<close> after the cache\<close>
  "converge env claw r now =
     (case router_credential env (rt_credential r) (c_id claw) (clawCredentialsGeneration claw) of (token, sha) \<Rightarrow>
      bindC (admin_request env (''/v1/admin/policies/'' @ encodeURIComponent (rt_policy r)) (policy_body claw r)) (\<lambda>policy.
      thenC (refuseC (\<not> policy_converged claw r (as_record policy)) (invalid_status ''ClawRouter policy did not converge''))
     (bindC (admin_request env (''/v1/admin/credentials/'' @ encodeURIComponent (rt_credential r)) (credential_body claw r sha)) (\<lambda>credential.
      thenC (refuseC (\<not> credential_converged claw r (as_record credential)) (invalid_status ''ClawRouter returned mismatched credential metadata''))
     (if d_enabled (c_desired claw) then reconcile_enabled env claw r token now else reconcile_disabled env claw r now)))))"

definition reconcile_router :: "router_env \<Rightarrow> claw_record \<Rightarrow> router_clock \<Rightarrow> inference_observation routerc" where
  \<comment> \<open>\<open>reconcile\<close>\<close>
  "reconcile_router env claw now =
     (case inf_router (d_inference (c_desired claw)) of
        Direct \<Rightarrow> throwC (invalid_status ''Claw does not have ClawRouter desired state'')
      | Routed r \<Rightarrow>
          thenC (liftR (assertDesiredRouter (re_config env) claw r))
         (bindC (getC rs_cache) (\<lambda>cache.
          case cache (c_id claw) of
            Some c \<Rightarrow> if co_fingerprint c = router_fingerprint claw r \<and> rk_test now - co_at c < 30000 then retC (co_value c)
              else converge env claw r now
          | None \<Rightarrow> converge env claw r now)))"

end
