(* ===== verification/ClawRouter_Rules.thy ===== *)
theory ClawRouter_Rules
  imports ClawRouter
begin

text \<open>
  What src/clawrouter.ts guarantees: observations always describe the claw they are returned for, the router is told
  what the fleet wants and learns the digest of the very secret that the claw is given, and a claw that creation
  accepts matches the fleet configuration.
\<close>

subsection \<open>The fingerprint determines what an observation is about\<close>

lemma js_router_inj:
  assumes e: "js_router (Routed r) = js_router (Routed q)"
  shows "r = q"
proof -
  have "rt_models r = rt_models q" by (rule models_inj) (use e in \<open>simp add: js_router_def\<close>)
  with e show ?thesis by (simp add: js_router_def)
qed

definition fingerprint_facts :: "claw_record \<Rightarrow> routed_inference \<Rightarrow> routed_inference \<times> bool \<times> string \<times> string list \<times> rat option \<times> int" where
  "fingerprint_facts claw r = (r, d_enabled (c_desired claw), inf_model (d_inference (c_desired claw)),
     inf_fallback (d_inference (c_desired claw)), inf_budget (d_inference (c_desired claw)), clawCredentialsGeneration claw)"

lemma fingerprint_gets:
  "get (fingerprint_value a r) ''enabled'' = JBool (d_enabled (c_desired a))"
  "get (fingerprint_value a r) ''model'' = JStr (inf_model (d_inference (c_desired a)))"
  "get (fingerprint_value a r) ''fallbackModels'' = js_strings (inf_fallback (d_inference (c_desired a)))"
  "get (fingerprint_value a r) ''monthlyBudgetUsd'' = (case inf_budget (d_inference (c_desired a)) of None \<Rightarrow> JNull | Some x \<Rightarrow> jrat x)"
  "get (fingerprint_value a r) ''router'' = js_router (Routed r)"
  "get (fingerprint_value a r) ''credentialsGeneration'' = jint (clawCredentialsGeneration a)"
  by (simp_all add: fingerprint_value_def get_JObj)

lemma budget_json_inj: "(case x of None \<Rightarrow> JNull | Some i \<Rightarrow> jrat i) = (case y of None \<Rightarrow> JNull | Some i \<Rightarrow> jrat i) \<Longrightarrow> x = y"
  by (cases x; cases y) (simp_all add: jrat_def)

lemma fingerprint_inj:
  assumes "json_data (fingerprint_value a r)" "json_data (fingerprint_value b q)" "router_fingerprint a r = router_fingerprint b q"
  shows "fingerprint_facts a r = fingerprint_facts b q"
proof -
  have "Some (fingerprint_value a r) = Some (fingerprint_value b q)"
    using assms(3) unfolding router_fingerprint_def json_round_trip [OF assms(1), symmetric] json_round_trip [OF assms(2), symmetric] by (rule arg_cong)
  then have e: "get (fingerprint_value a r) k = get (fingerprint_value b q) k" for k by simp
  have "r = q" using e [of "''router''"] unfolding fingerprint_gets by (rule js_router_inj)
  moreover have "inf_fallback (d_inference (c_desired a)) = inf_fallback (d_inference (c_desired b))"
    using e [of "''fallbackModels''"] unfolding fingerprint_gets by simp
  moreover have "inf_budget (d_inference (c_desired a)) = inf_budget (d_inference (c_desired b))"
    using e [of "''monthlyBudgetUsd''"] unfolding fingerprint_gets by (rule budget_json_inj)
  moreover have "clawCredentialsGeneration a = clawCredentialsGeneration b"
    using e [of "''credentialsGeneration''"] unfolding fingerprint_gets by (simp add: jint_def)
  moreover have "d_enabled (c_desired a) = d_enabled (c_desired b)" using e [of "''enabled''"] unfolding fingerprint_gets by simp
  moreover have "inf_model (d_inference (c_desired a)) = inf_model (d_inference (c_desired b))" using e [of "''model''"] unfolding fingerprint_gets by simp
  ultimately show ?thesis by (simp only: fingerprint_facts_def)
qed

text \<open>What an observation says of the claw it is returned for.\<close>

definition observation_fits :: "claw_record \<Rightarrow> routed_inference \<Rightarrow> inference_observation \<Rightarrow> bool" where
  "observation_fits claw r v \<longleftrightarrow>
     io_base v = rt_base r \<and> io_model v = inf_model (d_inference (c_desired claw)) \<and> set (io_providers v) = set (rt_providers r) \<and>
     io_policy v = rt_policy r \<and> io_credential v = rt_credential r \<and> io_generation v = clawCredentialsGeneration claw \<and>
     io_policy_active v = d_enabled (c_desired claw) \<and> io_credential_active v = d_enabled (c_desired claw) \<and>
     (d_enabled (c_desired claw) \<longrightarrow> io_healthy v \<and> io_catalog v) \<and> \<not> io_verified v \<and>
     bg_configured (io_budget v) = (budget_micros claw \<noteq> None) \<and> (budget_micros claw \<noteq> None \<longrightarrow> bg_limit (io_budget v) = budget_micros claw)"

lemma fits_same_fingerprint:
  assumes "observation_fits a r v" "json_data (fingerprint_value a r)" "json_data (fingerprint_value b q)" "router_fingerprint a r = router_fingerprint b q"
  shows "observation_fits b q v"
  using fingerprint_inj [OF assms(2-4)] assms(1) by (simp add: fingerprint_facts_def observation_fits_def budget_micros_def)

text \<open>Every cached observation was checked and stored by one of the calls \<open>E\<close> for its claw, and describes that claw.\<close>

definition cache_ok :: "(claw_record \<times> router_clock) set \<Rightarrow> router_state \<Rightarrow> bool" where
  "cache_ok E s \<longleftrightarrow> (\<forall>k c. rs_cache s k = Some c \<longrightarrow>
     (\<exists>claw r clock. (claw, clock) \<in> E \<and> c_id claw = k \<and> io_checked (co_value c) = rk_checked clock \<and> co_at c = rk_stored clock \<and>
        json_data (fingerprint_value claw r) \<and> co_fingerprint c = router_fingerprint claw r \<and> observation_fits claw r (co_value c)))"

lemma sent_cache [simp]: "rs_cache (snd (send_request env rq s)) = rs_cache s"
  by (simp add: send_request_def)

lemma request_cache [preserves_rules]:
  "preserves (cache_ok E) (admin_request env path body)" "preserves (cache_ok E) (client_request env path token)"
  by (simp_all add: preserves_def cache_ok_def admin_request_def client_request_def)

lemma start_ok [preserves_rules]: "preserves P m \<Longrightarrow> preserves P (startC m)"
  by (simp add: preserves_def startC_def)

lemma or_undefined_ok [preserves_rules]: "preserves P m \<Longrightarrow> preserves P (or_undefined m)"
  unfolding or_undefined_def by (intro preserves_rules)

lemma remember_ok:
  assumes "json_data (fingerprint_value claw r)" "observation_fits claw r v" "io_checked v = rk_checked now" "(claw, now) \<in> E"
  shows "preserves (cache_ok E) (remember (c_id claw) (router_fingerprint claw r) (rk_stored now) v)"
  using assms unfolding remember_def by (intro preserves_rules preserves_modC) (auto simp: cache_ok_def)

lemma remember_value: "remember i f now v s = (Inr w, t) \<Longrightarrow> w = v"
  by (simp add: remember_def comp_ok)

subsection \<open>Every observation fits\<close>

lemma budget_fits:
  "budgetObservation v limit = Inr b \<Longrightarrow> bg_configured b = (limit \<noteq> None) \<and> (limit \<noteq> None \<longrightarrow> bg_limit b = limit)"
  by (auto simp: budgetObservation_def Let_def split: if_splits)

lemma enabled_fits:
  assumes "enabled_observation claw r now h k c u = Inr v" "d_enabled (c_desired claw)"
  shows "observation_fits claw r v \<and> io_checked v = now"
proof -
  obtain b where ok: "sameStrings (stringArray (get (as_record k) ''providers'')) (rt_providers r)"
    "budgetObservation (get (as_record u) ''budget'') (budget_micros claw) = Inr b"
    and v: "(base_observation claw r now)\<lparr>io_providers := stringArray (get (as_record k) ''providers''), io_policy_active := True, io_credential_active := True,
                io_healthy := True, io_catalog := True, io_budget := b,
                io_usage := (if truthy (get (as_record u) ''usage'') then Some (usageSummary (get (as_record u) ''usage'')) else None)\<rparr> = v"
    using assms(1) unfolding enabled_observation_def Let_def bindR_eq_Inr refuse_if_Inr
    by (elim exE conjE, intro that) (simp_all add: Let_def split del: if_split)
  show ?thesis using budget_fits [OF ok(2)] ok(1) assms(2)
    by (simp add: v [symmetric] observation_fits_def base_observation_def sameStrings_def)
qed

lemma disabled_fits: "\<not> d_enabled (c_desired claw) \<Longrightarrow> observation_fits claw r ((base_observation claw r now)\<lparr>io_healthy := h\<rparr>)"
  by (simp add: observation_fits_def base_observation_def budgetFrom_def)

lemma reads_checked:
  assumes "bindR h (\<lambda>h. bindR k (\<lambda>k. bindR c (\<lambda>c. enabled_observation claw r now h k c u))) = Inr v" "d_enabled (c_desired claw)"
  shows "observation_fits claw r v \<and> io_checked v = now"
  using assms enabled_fits unfolding bindR_eq_Inr by blast

lemma enabled_value:
  assumes "reconcile_enabled env claw r token now s = (Inr v, t)" "d_enabled (c_desired claw)"
  shows "observation_fits claw r v \<and> io_checked v = rk_checked now"
  using assms(1) unfolding reconcile_enabled_def bindC_ok comp_eval prod.inject
  by (elim exE conjE) (use assms(2) remember_value reads_checked in blast)

lemma disabled_value:
  assumes "reconcile_disabled env claw r now s = (Inr v, t)" "\<not> d_enabled (c_desired claw)"
  shows "observation_fits claw r v \<and> io_checked v = rk_checked now"
  using assms(1) unfolding reconcile_disabled_def bindC_ok
  by (elim exE conjE) (drule remember_value, use disabled_fits [OF assms(2)] in \<open>simp add: base_observation_def\<close>)

lemma converge_last:
  assumes "converge env claw r now s = (Inr v, t)"
  obtains u token where "(if d_enabled (c_desired claw) then reconcile_enabled env claw r token now else reconcile_disabled env claw r now) u = (Inr v, t)"
  using assms that unfolding converge_def split_def comp_ok by blast

lemma converge_fits:
  assumes "converge env claw r now s = (Inr v, t)"
  shows "observation_fits claw r v \<and> io_checked v = rk_checked now"
  using assms
proof (rule converge_last)
  fix u token
  assume "(if d_enabled (c_desired claw) then reconcile_enabled env claw r token now else reconcile_disabled env claw r now) u = (Inr v, t)"
  then show ?thesis by (cases "d_enabled (c_desired claw)") (simp_all only: if_True if_False enabled_value disabled_value simp_thms)
qed

lemma preserves_lifted: "(\<And>v. x = Inr v \<Longrightarrow> preserves P (f v)) \<Longrightarrow> preserves P (bindC (liftR x) f)"
  by (cases x) (simp_all add: preserves_def bindC_eval)

lemma enabled_cache:
  assumes "json_data (fingerprint_value claw r)" "d_enabled (c_desired claw)" "(claw, now) \<in> E"
  shows "preserves (cache_ok E) (reconcile_enabled env claw r token now)"
  unfolding reconcile_enabled_def
  by (rule preserves_bindC, (intro preserves_rules)[1], rule preserves_bindC, (intro preserves_rules)[1],
      rule preserves_bindC, (intro preserves_rules)[1], rule preserves_bindC, (intro preserves_rules)[1])
    (rule preserves_lifted, use assms remember_ok reads_checked in blast)

lemma disabled_cache:
  assumes "json_data (fingerprint_value claw r)" "\<not> d_enabled (c_desired claw)" "(claw, now) \<in> E"
  shows "preserves (cache_ok E) (reconcile_disabled env claw r now)"
  unfolding reconcile_disabled_def
  by (rule preserves_bindC, (intro preserves_rules)[1])
    (rule remember_ok [OF assms(1) disabled_fits [OF assms(2)] _ assms(3)], simp add: base_observation_def)

lemma converge_cache:
  assumes "json_data (fingerprint_value claw r)" "(claw, now) \<in> E"
  shows "preserves (cache_ok E) (converge env claw r now)"
  unfolding converge_def split_def by (intro preserves_rules enabled_cache disabled_cache assms)

lemma reconcile_cache:
  assumes "\<And>r. inf_router (d_inference (c_desired claw)) = Routed r \<Longrightarrow> json_data (fingerprint_value claw r)"
    and E: "(claw, now) \<in> E"
  shows "preserves (cache_ok E) (reconcile_router env claw now)"
proof (cases "inf_router (d_inference (c_desired claw))")
  case (Routed r)
  then have "preserves (cache_ok E) (converge env claw r now)" using assms converge_cache by blast
  then show ?thesis unfolding reconcile_router_def Routed inference_router.case by (intro preserves_rules)
qed (simp add: reconcile_router_def preserves_rules)

text \<open>The observations of a process: any claws at any times, from the empty cache. (Calls for different claws may
  overlap in time; they share nothing but the cache, in which each has its own entry, written at its end.)\<close>

fun reconcile_all :: "router_env \<Rightarrow> (claw_record \<times> router_clock) list \<Rightarrow> router_state \<Rightarrow> router_state" where
  "reconcile_all env [] s = s"
| "reconcile_all env ((claw, now) # es) s = reconcile_all env es (snd (reconcile_router env claw now s))"

definition router_start :: router_state where
  "router_start = \<lparr>rs_cache = (\<lambda>k. None), rs_sent = []\<rparr>"

definition plain_claw :: "claw_record \<Rightarrow> bool" where
  \<comment> \<open>the fingerprint of the claw reads back\<close>
  "plain_claw claw \<longleftrightarrow> (case inf_router (d_inference (c_desired claw)) of Direct \<Rightarrow> True | Routed r \<Rightarrow> json_data (fingerprint_value claw r))"

lemma all_cache_ok: "list_all (\<lambda>e. plain_claw (fst e)) es \<Longrightarrow> set es \<subseteq> E \<Longrightarrow> cache_ok E s \<Longrightarrow> cache_ok E (reconcile_all env es s)"
proof (induction es arbitrary: s)
  case (Cons e es)
  have "preserves (cache_ok E) (reconcile_router env (fst e) (snd e))"
    by (rule reconcile_cache) (use Cons.prems in \<open>simp_all add: plain_claw_def\<close>)
  then show ?case using Cons by (cases e) (simp add: preserves_def)
qed simp

definition checked_by :: "(claw_record \<times> router_clock) list \<Rightarrow> claw_record \<Rightarrow> router_clock \<Rightarrow> inference_observation \<Rightarrow> bool" where
  \<comment> \<open>the observation was made by this call, or by an earlier one for the claw that stored it less than 30 seconds ago\<close>
  "checked_by es claw now v \<longleftrightarrow> io_checked v = rk_checked now \<or>
     (\<exists>(claw', clock)\<in>set es. c_id claw' = c_id claw \<and> io_checked v = rk_checked clock \<and> rk_test now - rk_stored clock < 30000)"

lemma reconcile_fits:
  assumes "cache_ok (set es) s" "reconcile_router env claw now s = (Inr v, t)" "inf_router (d_inference (c_desired claw)) = Routed r"
    and "json_data (fingerprint_value claw r)"
  shows "observation_fits claw r v \<and> checked_by es claw now v"
proof (cases "converge env claw r now s = (Inr v, t)")
  case True
  then show ?thesis using converge_fits by (fastforce simp: checked_by_def)
next
  case False
  obtain c where "rs_cache s (c_id claw) = Some c" "co_fingerprint c = router_fingerprint claw r" "rk_test now - co_at c < 30000" "co_value c = v"
    using assms(2) False unfolding reconcile_router_def assms(3) inference_router.case
    by (auto simp: comp_ok split: option.splits if_splits)
  then show ?thesis using assms(1) fits_same_fingerprint [OF _ _ assms(4)] unfolding cache_ok_def checked_by_def by force
qed

text \<open>
  C24. \<open>reconcile\<close> never reports a foreign observation, nor one from the cache that was stored 30 seconds ago or earlier:
  after any calls for any claws, in any order and at any clock readings (also readings that go back), whether they
  failed or not, an observation it returns was checked by this call, or by an earlier call for the same claw that
  stored it less than 30 seconds before; and it describes the desired state of the very claw it is returned for -- its
  router, model, provider set, policy, credential, credential generation and budget -- even when it comes from the
  cache; for an enabled claw it reports a healthy router with a ready catalog. (The time an observation says it was
  checked at is read before the reads of that call, the time it is stored at after them: with requests of at most ten
  seconds a cached observation can be some 40 seconds old.)
\<close>

theorem observations_are_current:
  assumes "list_all (\<lambda>e. plain_claw (fst e)) es"
    and "reconcile_router env claw now (reconcile_all env es router_start) = (Inr v, t)"
    and "inf_router (d_inference (c_desired claw)) = Routed r" "json_data (fingerprint_value claw r)"
  shows "observation_fits claw r v \<and> checked_by es claw now v"
proof (rule reconcile_fits [OF _ assms(2-4)])
  show "cache_ok (set es) (reconcile_all env es router_start)"
    using assms(1) by (rule all_cache_ok) (simp_all add: router_start_def cache_ok_def)
qed

subsection \<open>What the router is told\<close>

definition policy_put :: "router_env \<Rightarrow> claw_record \<Rightarrow> routed_inference \<Rightarrow> router_request" where
  "policy_put env claw r = \<lparr>rr_method = ''PUT'', rr_path = ''/v1/admin/policies/'' @ encodeURIComponent (rt_policy r),
     rr_headers = router_headers (re_config env) (cr_admin (re_config env)) True, rr_body = Some (print_json (policy_body claw r))\<rparr>"

definition credential_put :: "router_env \<Rightarrow> claw_record \<Rightarrow> routed_inference \<Rightarrow> string \<Rightarrow> router_request" where
  "credential_put env claw r secret = \<lparr>rr_method = ''PUT'', rr_path = ''/v1/admin/credentials/'' @ encodeURIComponent (rt_credential r),
     rr_headers = router_headers (re_config env) (cr_admin (re_config env)) True,
     rr_body = Some (print_json (credential_body claw r (hex_string (re_sha env (utf8_bytes secret)))))\<rparr>"

definition router_read :: "router_env \<Rightarrow> string \<Rightarrow> string option \<Rightarrow> router_request" where
  "router_read env path token = \<lparr>rr_method = ''GET'', rr_path = path,
     rr_headers = (case token of None \<Rightarrow> [(''accept'', ''application/json'')] | Some t \<Rightarrow> router_headers (re_config env) t False), rr_body = None\<rparr>"

definition router_protocol :: "router_env \<Rightarrow> claw_record \<Rightarrow> routed_inference \<Rightarrow> string \<Rightarrow> router_request list" where
  "router_protocol env claw r secret =
     (let token = Some (''clawrouter-live-'' @ rt_credential r @ ''-'' @ secret) in
      [policy_put env claw r, credential_put env claw r secret, router_read env ''/v1/health'' None] @
      (if d_enabled (c_desired claw) then map (\<lambda>path. router_read env path token) [''/v1/key/inspect'', ''/v1/catalog'', ''/v1/usage''] else []))"

lemma sent_request [simp]: "rs_sent (snd (send_request env rq s)) = rs_sent s @ [rq]"
  by (simp add: send_request_def)

lemma requests_as_sent:
  "client_request env path token = send_request env (router_read env path token)"
  "admin_request env (''/v1/admin/policies/'' @ encodeURIComponent (rt_policy r)) (policy_body claw r) = send_request env (policy_put env claw r)"
  "admin_request env (''/v1/admin/credentials/'' @ encodeURIComponent (rt_credential r))
     (credential_body claw r (hex_string (re_sha env (utf8_bytes secret)))) = send_request env (credential_put env claw r secret)"
  by (simp_all add: client_request_def router_read_def admin_request_def policy_put_def credential_put_def)

lemma sent_by_parts [simp]:
  "rs_sent (snd (startC m s)) = rs_sent (snd (m s))" "rs_sent (snd (or_undefined m s)) = rs_sent (snd (m s))"
  "rs_sent (snd (remember i f now v s)) = rs_sent s" "fst (startC m s) = Inr (fst (m s))" "isl (fst (or_undefined m s)) = False"
  by (simp_all add: startC_def or_undefined_def catchC_def remember_def comp_simps split: prod.splits sum.splits)

lemma snd_bindC: "snd (bindC m f s) = (case fst (m s) of Inl e \<Rightarrow> snd (m s) | Inr a \<Rightarrow> snd (f a (snd (m s))))"
  by (simp add: bindC_def split: prod.splits sum.splits)

lemma enabled_sent:
  "rs_sent (snd (reconcile_enabled env claw r token now s)) = rs_sent s @ router_read env ''/v1/health'' None #
     map (\<lambda>path. router_read env path (Some token)) [''/v1/key/inspect'', ''/v1/catalog'', ''/v1/usage'']"
  by (simp add: reconcile_enabled_def requests_as_sent snd_bindC split: sum.splits)

lemma disabled_sent: "rs_sent (snd (reconcile_disabled env claw r now s)) = rs_sent s @ [router_read env ''/v1/health'' None]"
  by (simp add: reconcile_disabled_def requests_as_sent snd_bindC split: sum.splits)

definition credential_secret :: "router_env \<Rightarrow> claw_record \<Rightarrow> string" where
  "credential_secret env claw = base64url (re_hmac env (utf8_bytes (cr_secret (re_config env)))
     (utf8_bytes (''crabhelm-clawrouter:v1:'' @ c_id claw @ '':'' @ int_str (clawCredentialsGeneration claw))))"

lemma credential_parts:
  "router_credential env i (c_id claw) (clawCredentialsGeneration claw) =
     (''clawrouter-live-'' @ i @ ''-'' @ credential_secret env claw, hex_string (re_sha env (utf8_bytes (credential_secret env claw))))"
  by (simp add: router_credential_def credential_secret_def Let_def)

lemma converge_sent:
  assumes "converge env claw r now s = (out, t)" "p = router_protocol env claw r (credential_secret env claw)"
  shows "rs_sent t \<in> (\<lambda>n. rs_sent s @ take n p) ` {1, 2, length p} \<and> (\<forall>v. out = Inr v \<longrightarrow> rs_sent t = rs_sent s @ p)"
proof -
  have p: "length p \<ge> 2" "take 1 p = [policy_put env claw r]"
    "take 2 p = [policy_put env claw r, credential_put env claw r (credential_secret env claw)]"
    unfolding assms(2) router_protocol_def by (simp_all add: Let_def numeral_2_eq_2)
  obtain a s1 where 1: "send_request env (policy_put env claw r) s = (a, s1)" by fastforce
  obtain b s2 where 2: "send_request env (credential_put env claw r (credential_secret env claw)) s1 = (b, s2)" by fastforce
  have s: "rs_sent s1 = rs_sent s @ take 1 p" "rs_sent s2 = rs_sent s @ take 2 p"
    using sent_request [of env _ s] sent_request [of env _ s1] 1 2 p by (metis append.assoc append_Cons append_Nil snd_conv)+
  define last where "last = (if d_enabled (c_desired claw)
    then reconcile_enabled env claw r (''clawrouter-live-'' @ rt_credential r @ ''-'' @ credential_secret env claw) now
    else reconcile_disabled env claw r now) s2"
  have l: "rs_sent (snd last) = rs_sent s @ p"
    using s(2) p(3) unfolding last_def assms(2) by (simp add: enabled_sent disabled_sent router_protocol_def Let_def)
  have "t \<in> {s1, s2, snd last} \<and> (\<forall>v. out = Inr v \<longrightarrow> t = snd last)"
    using assms(1) unfolding converge_def credential_parts prod.case requests_as_sent last_def
    by (auto simp: bindC_eval thenC_eval 1 2 split: sum.splits if_splits)
  then show ?thesis using s l by auto
qed

text \<open>
  C25. Whatever the router answers, one call of \<open>reconcile\<close> sends a beginning of one fixed list of requests: the policy
  of the claw, then the SHA-256 digest of its secret, both with the admin token, and only then the reads, with the
  token of the claw or none; it stops after the policy or the credential when that write fails or does not converge.
  It succeeds only when it has sent the whole list or takes the observation from its cache. The claw is given, by
  \<open>credentials\<close>, the very secret whose digest the router is told.
\<close>

theorem router_is_told:
  assumes "reconcile_router env claw now s = (out, t)" "inf_router (d_inference (c_desired claw)) = Routed r"
    and "assertDesiredRouter (re_config env) claw r = Inr ()"
  shows "\<exists>secret. router_credentials env claw (clawCredentialsGeneration claw) =
      Inr [(''CLAWROUTER_API_KEY'', ''clawrouter-live-'' @ rt_credential r @ ''-'' @ secret), (''CRABHELM_ROUTER_BASE_URL'', rt_base r)] \<and>
    (\<exists>n\<in>{0, 1, 2, length (router_protocol env claw r secret)}.
      rs_sent t = rs_sent s @ take n (router_protocol env claw r secret) \<and>
      (\<forall>v. out = Inr v \<longrightarrow> n = length (router_protocol env claw r secret) \<or> (n = 0 \<and> map_option co_value (rs_cache s (c_id claw)) = Some v)))"
proof (intro exI conjI)
  show "router_credentials env claw (clawCredentialsGeneration claw) =
      Inr [(''CLAWROUTER_API_KEY'', ''clawrouter-live-'' @ rt_credential r @ ''-'' @ credential_secret env claw), (''CRABHELM_ROUTER_BASE_URL'', rt_base r)]"
    using assms(2,3) by (simp add: router_credentials_def credential_parts)
  let ?p = "router_protocol env claw r (credential_secret env claw)"
  consider (cached) c where "rs_cache s (c_id claw) = Some c" "out = Inr (co_value c)" "t = s" | (fresh) "converge env claw r now s = (out, t)"
    using assms unfolding reconcile_router_def assms(2) inference_router.case
    by (auto simp: comp_simps split: option.splits if_splits)
  then show "\<exists>n\<in>{0, 1, 2, length ?p}. rs_sent t = rs_sent s @ take n ?p \<and>
      (\<forall>v. out = Inr v \<longrightarrow> n = length ?p \<or> (n = 0 \<and> map_option co_value (rs_cache s (c_id claw)) = Some v))"
  proof cases
    case cached
    then show ?thesis by (intro bexI [of _ 0]) simp_all
  next
    case fresh
    show ?thesis
    proof (cases out)
      case (Inl e)
      then show ?thesis using converge_sent [OF fresh refl] by auto
    next
      case (Inr v)
      then show ?thesis using converge_sent [OF fresh refl] by (intro bexI [of _ "length ?p"]) simp_all
    qed
  qed
qed

subsection \<open>The configuration\<close>

lemma model_entry_ok:
  "model_entry allowed e known = Inr models \<Longrightarrow> distinct (map fst known) \<Longrightarrow> snd ` set known \<subseteq> set allowed \<Longrightarrow>
    distinct (map fst models) \<and> snd ` set models \<subseteq> set allowed"
  by (fastforce simp: model_entry_def Let_def split: prod.splits if_splits)

lemma model_entries_ok:
  "model_entries allowed es known = Inr models \<Longrightarrow> distinct (map fst known) \<Longrightarrow> snd ` set known \<subseteq> set allowed \<Longrightarrow>
    distinct (map fst models) \<and> snd ` set models \<subseteq> set allowed"
proof (induction es arbitrary: known)
  case (Cons e es)
  then obtain k where "model_entry allowed e known = Inr k" "model_entries allowed es k = Inr models" by auto
  with Cons model_entry_ok show ?case by blast
qed simp

definition config_ok :: "router_config \<Rightarrow> bool" where
  "config_ok cfg \<longleftrightarrow> fleet_ok (cr_fleet cfg) \<and> sort (fp_allowed (cr_fleet cfg)) = fp_allowed (cr_fleet cfg) \<and>
     sort_entries (fp_models (cr_fleet cfg)) = fp_models (cr_fleet cfg) \<and>
     snd ` set (fp_models (cr_fleet cfg)) \<subseteq> set (fp_allowed (cr_fleet cfg)) \<and>
     list_all providerPattern (fp_allowed (cr_fleet cfg)) \<and> fp_default (cr_fleet cfg) \<in> fst ` set (fp_models (cr_fleet cfg)) \<and>
     32 \<le> utf8_length (cr_secret cfg)"

lemma set_sort_entries [simp]: "set (sort_entries kvs) = set kvs"
  by (simp add: sort_entries_def)

lemma parsed_models_ok:
  assumes "parseModelProviderMap v allowed = Inr models"
  shows "distinct (map fst models)" "sort_entries models = models" "snd ` set models \<subseteq> set allowed"
    "(x, y) \<in> set models \<Longrightarrow> y \<in> set allowed"
proof -
  obtain es m where "model_entries allowed es [] = Inr m" "models = sort_entries m"
    using assms by (auto simp: parseModelProviderMap_def Let_def)
  then show "distinct (map fst models)" "sort_entries models = models" "snd ` set models \<subseteq> set allowed"
    using model_entries_ok [of allowed es "[]" m] by simp_all
  then show "(x, y) \<in> set models \<Longrightarrow> y \<in> set allowed" by force
qed

lemma resolved_config_ok:
  assumes "resolveClawRouterConfig new_url env = Inr (Some cfg)"
  shows "config_ok cfg"
proof -
  have some: "map_of m k = Some v \<Longrightarrow> k \<in> fst ` set m" for m :: "(string \<times> string) list" and k v
    by (rule image_eqI [OF _ map_of_SomeD]) simp
  have "sort (listed_providers t) = listed_providers t" for t
    unfolding listed_providers_def by (intro sort_key_id_if_sorted) simp
  then show ?thesis using assms unfolding resolveClawRouterConfig_def Let_def
    by (auto simp: config_ok_def fleet_ok_def some parsed_models_ok(1,2) split: if_splits option.splits)
      (erule (1) parsed_models_ok(4))
qed

subsection \<open>Created claws match the fleet\<close>

lemma all_mapped:
  "\<forall>m\<in>set ms. \<exists>p. map_of models m = Some p \<and> p \<noteq> [] \<Longrightarrow>
    List.map_filter id (map (map_of models) ms) = map (\<lambda>m. case map_of models m of Some p \<Rightarrow> p | None \<Rightarrow> []) ms"
  by (induction ms) (auto simp: map_filter_simps)

lemma routed_matches:
  assumes "config_ok cfg" "routed_for (cr_fleet cfg) (c_id claw) (claw_models claw) = Inr r"
  shows "assertDesiredRouter cfg claw r = Inr ()"
proof -
  let ?fp = "cr_fleet cfg" and ?ms = "claw_models claw"
  note r = routed_for_ok [OF assms(2)]
  have k: "fleet_ok ?fp" "sort (fp_allowed ?fp) = fp_allowed ?fp" "sort_entries (fp_models ?fp) = fp_models ?fp" using assms(1) by (auto simp: config_ok_def)
  have id: "rt_credential r = ''crabhelm_'' @ to_lower (filter (\<lambda>c. c \<noteq> CHR ''-'') (c_id claw))"
    using r [OF k(1)] by (auto simp: clawRouterCredentialId_def Let_def split: if_splits)
  have mapped: "\<forall>m\<in>set ?ms. \<exists>p. map_of (fp_models ?fp) m = Some p \<and> p \<noteq> []"
  proof
    fix m assume "m \<in> set ?ms"
    then have "(case map_of (fp_models ?fp) m of Some p \<Rightarrow> p | None \<Rightarrow> []) \<in> set (rt_providers r)"
      using r [OF k(1)] k(3) by (auto simp: providers_of_def)
    then show "\<exists>p. map_of (fp_models ?fp) m = Some p \<and> p \<noteq> []"
      using r [OF k(1)] by (cases "map_of (fp_models ?fp) m") auto
  qed
  note f = all_mapped [OF mapped]
  have "rt_providers r = sort (js_set (List.map_filter id (map (map_of (fp_models ?fp)) ?ms)))"
    using r [OF k(1)] k(3) unfolding f providers_of_def by simp
  then show ?thesis using r [OF k(1)] k id mapped
    by (auto simp: assertDesiredRouter_def Let_def sameStrings_def sameStringRecord_def refuse_if_def)
qed

lemma created_router:
  assumes "createClawRecord lib input now cid (Some fp) = Inr claw"
  obtains r where "inf_router (d_inference (c_desired claw)) = Routed r" "routed_for fp cid (claw_models claw) = Inr r"
    "c_id claw = cid" "clawCredentialsGeneration claw = 1"
proof (rule created_parts [OF assms])
  fix name slug profile appliance owner template target region inference slack access observability
  assume n: "normalizeModels (get input ''inference'') cid (Some fp) False = Inr inference"
    and c: "claw = fresh_record cid \<lparr>d_generation = 1, d_name = name, d_slug = slug, d_owner = owner, d_template = template,
         d_template_version = coalesce (get input ''templateVersion'') (jint 1),
         d_deployment = \<lparr>dp_target = target, dp_profile = profile, dp_region = region, dp_appliance = appliance\<rparr>,
         d_inference = inference, d_slack = slack, d_access = access, d_observability = observability,
         d_enabled = True, d_credentials = Some 1\<rparr> now"
  obtain r where "inf_router inference = Routed r" "routed_for fp cid (inf_model inference # inf_fallback inference) = Inr r"
    using n unfolding normalizeModels_def Let_def by auto
  then show thesis by (intro that [of r]) (simp_all add: c claw_models_def clawCredentialsGeneration_def safe_int_def)
qed

text \<open>
  C26. The fleet policy that the environment configures and the creation of claws agree: every claw that is created
  under a configuration the process accepts passes the comparison of \<open>assertDesiredRouter\<close> with that configuration, so
  the router client never refuses it as foreign, and delivers the credentials of its first generation.
\<close>

theorem created_claw_matches_fleet:
  assumes "resolveClawRouterConfig new_url vars = Inr (Some (re_config env))"
    and "createClawRecord lib input now cid (Some (cr_fleet (re_config env))) = Inr claw"
  shows "\<exists>r. inf_router (d_inference (c_desired claw)) = Routed r \<and> assertDesiredRouter (re_config env) claw r = Inr () \<and>
    (\<exists>token. router_credentials env claw 1 = Inr [(''CLAWROUTER_API_KEY'', token), (''CRABHELM_ROUTER_BASE_URL'', fp_base (cr_fleet (re_config env)))])"
proof (rule created_router [OF assms(2)])
  fix r assume r: "inf_router (d_inference (c_desired claw)) = Routed r" "routed_for (cr_fleet (re_config env)) cid (claw_models claw) = Inr r"
    "c_id claw = cid" "clawCredentialsGeneration claw = 1"
  have ok: "config_ok (re_config env)" using assms(1) by (rule resolved_config_ok)
  have m: "assertDesiredRouter (re_config env) claw r = Inr ()" using routed_matches [OF ok] r by simp
  have "fleet_ok (cr_fleet (re_config env))" using ok by (simp add: config_ok_def)
  then have "rt_base r = fp_base (cr_fleet (re_config env))" using routed_for_ok [OF r(2)] by simp
  with m r show ?thesis by (simp add: router_credentials_def)
qed

end
