(* ===== verification/ClawRouter_Demo.thy ===== *)
theory ClawRouter_Demo
  imports ClawRouter_Rules
begin

text \<open>A configured router, a claw created under it, and the witnesses of the properties of src/clawrouter.ts.\<close>

definition demo_vars :: environment where
  "demo_vars = map_of
     [(''CRABHELM_CLAWROUTER'', ''on''), (''CLAWROUTER_BASE_URL'', '' https://router.example''), (''CLAWROUTER_TENANT_ID'', ''acme''),
      (''CLAWROUTER_ALLOWED_PROVIDERS'', ''openai, anthropic,,openai''),
      (''CLAWROUTER_MODEL_PROVIDER_MAP'', ''clawrouter/b/m2=openai, clawrouter/a/m1 = anthropic''),
      (''CLAWROUTER_DEFAULT_MODEL'', ''clawrouter/a/m1''), (''CLAWROUTER_ADMIN_TOKEN'', ''root''),
      (''CLAWROUTER_CREDENTIAL_SECRET'', ''0123456789abcdef0123456789abcdef'')]"

definition demo_url :: "string \<Rightarrow> full_url option" where
  "demo_url s = Some \<lparr>fu_parts = \<lparr>url_protocol = ''https:'', url_username = [], url_password = [], url_search = [], url_hash = []\<rparr>,
     fu_path = ''/'', fu_origin = s\<rparr>"

definition router_demo_config :: router_config where
  "router_demo_config = the (projr (resolveClawRouterConfig demo_url demo_vars))"

lemma router_demo_config: "resolveClawRouterConfig demo_url demo_vars = Inr (Some router_demo_config)"
proof -
  have "case resolveClawRouterConfig demo_url demo_vars of Inr (Some _) \<Rightarrow> True | _ \<Rightarrow> False" by code_simp
  then show ?thesis by (auto simp: router_demo_config_def split: sum.splits option.splits)
qed

definition router_demo_claw :: claw_record where
  "router_demo_claw = projr (createClawRecord demo_lib (demo_input ''clawrouter/b/m2'') 5 demo_id (Some (cr_fleet router_demo_config)))"

lemma router_demo_claw:
  "createClawRecord demo_lib (demo_input ''clawrouter/b/m2'') 5 demo_id (Some (cr_fleet router_demo_config)) = Inr router_demo_claw"
proof -
  have "\<not> isl (createClawRecord demo_lib (demo_input ''clawrouter/b/m2'') 5 demo_id (Some (cr_fleet router_demo_config)))" by code_simp
  then show ?thesis by (simp add: router_demo_claw_def)
qed

definition demo_routed :: routed_inference where
  "demo_routed = (case inf_router (d_inference (c_desired router_demo_claw)) of Routed r \<Rightarrow> r | Direct \<Rightarrow> undefined)"

lemma demo_routed: "inf_router (d_inference (c_desired router_demo_claw)) = Routed demo_routed"
proof -
  have "case inf_router (d_inference (c_desired router_demo_claw)) of Routed r \<Rightarrow> True | Direct \<Rightarrow> False" by code_simp
  then show ?thesis by (simp add: demo_routed_def split: inference_router.splits)
qed

definition json_answer :: "jsval \<Rightarrow> router_answer" where
  "json_answer v = Router_answer 200 (Some [map of_char (print_json v)])"

text \<open>A router that does as it is told.\<close>

definition demo_answer :: "nat \<Rightarrow> router_request \<Rightarrow> router_answer" where
  "demo_answer n rq =
     (if n = 0 then json_answer (JObj [(''policyId'', JStr (''crabhelm_0f8fad5bd9cb469fa16570867728950e'')), (''enabled'', JBool True),
        (''tenantId'', JStr ''acme''), (''tokenRole'', JStr ''service''), (''monthlyBudgetMicros'', JNull), (''retainRequestContent'', JBool False),
        (''providers'', js_strings [''openai''])])
      else if n = 1 then json_answer (JObj [(''credentialId'', JStr ''crabhelm_0f8fad5bd9cb469fa16570867728950e''),
        (''policyId'', JStr ''crabhelm_0f8fad5bd9cb469fa16570867728950e''), (''enabled'', JBool True), (''policyEnabled'', JBool True),
        (''generationMatches'', JBool True), (''active'', JBool True)])
      else if n = 2 then json_answer (JObj [(''ok'', JBool True)])
      else if n = 3 then json_answer (JObj [(''verified'', JBool True), (''kid'', JStr ''crabhelm_0f8fad5bd9cb469fa16570867728950e''),
        (''enabled'', JBool True), (''providers'', js_strings [''openai''])])
      else if n = 4 then json_answer (JObj [(''providers'', JArr [JObj [(''id'', JStr ''openai''), (''executable'', JBool True),
        (''models'', JArr [JObj [(''id'', JStr ''b/m2'')]])]])])
      else Router_down)"

definition demo_router :: router_env where
  "demo_router = \<lparr>re_config = router_demo_config, re_answer = demo_answer, re_hmac = (\<lambda>k m. take 32 (k @ m)), re_sha = id\<rparr>"

lemma demo_router_config [simp]: "re_config demo_router = router_demo_config"
  by (simp add: demo_router_def)

theorem created_claw_matches_fleet_witness:
  "\<exists>r. inf_router (d_inference (c_desired router_demo_claw)) = Routed r \<and> assertDesiredRouter router_demo_config router_demo_claw r = Inr () \<and>
    (\<exists>token. router_credentials demo_router router_demo_claw 1 =
      Inr [(''CLAWROUTER_API_KEY'', token), (''CRABHELM_ROUTER_BASE_URL'', fp_base (cr_fleet router_demo_config))])"
  using created_claw_matches_fleet [of demo_url demo_vars demo_router demo_lib _ 5 demo_id router_demo_claw]
    router_demo_config router_demo_claw by simp

lemma demo_matches: "assertDesiredRouter router_demo_config router_demo_claw demo_routed = Inr ()"
  by code_simp

lemma demo_data: "json_data (fingerprint_value router_demo_claw demo_routed)"
  by code_simp

definition demo_times :: "int \<Rightarrow> router_clock" where
  "demo_times n = \<lparr>rk_test = n, rk_checked = n + 1, rk_stored = n + 9000\<rparr>"

lemma demo_reconciles:
  "\<not> isl (fst (reconcile_router demo_router router_demo_claw (demo_times 39999) (reconcile_all demo_router [(router_demo_claw, demo_times 1000)] router_start)))"
  by code_simp

text \<open>The second call answers from the cache.\<close>

theorem observations_are_current_witness:
  "\<exists>v t. reconcile_router demo_router router_demo_claw (demo_times 39999) (reconcile_all demo_router [(router_demo_claw, demo_times 1000)] router_start) = (Inr v, t) \<and>
     observation_fits router_demo_claw demo_routed v \<and> checked_by [(router_demo_claw, demo_times 1000)] router_demo_claw (demo_times 39999) v"
proof -
  obtain v t where r: "reconcile_router demo_router router_demo_claw (demo_times 39999) (reconcile_all demo_router [(router_demo_claw, demo_times 1000)] router_start) = (Inr v, t)"
    using demo_reconciles by (metis isl_def old.sum.exhaust prod.collapse)
  have "list_all (\<lambda>e. plain_claw (fst e)) [(router_demo_claw, demo_times 1000)]" by (simp add: plain_claw_def demo_routed demo_data)
  from observations_are_current [OF this r demo_routed demo_data] r show ?thesis by auto
qed

theorem router_is_told_witness:
  "\<exists>secret. router_credentials demo_router router_demo_claw (clawCredentialsGeneration router_demo_claw) =
      Inr [(''CLAWROUTER_API_KEY'', ''clawrouter-live-'' @ rt_credential demo_routed @ ''-'' @ secret), (''CRABHELM_ROUTER_BASE_URL'', rt_base demo_routed)] \<and>
    rs_sent (snd (reconcile_router demo_router router_demo_claw (demo_times 1000) router_start)) = router_protocol demo_router router_demo_claw demo_routed secret"
proof -
  have "\<not> isl (fst (reconcile_router demo_router router_demo_claw (demo_times 1000) router_start))" by code_simp
  then obtain v t where r: "reconcile_router demo_router router_demo_claw (demo_times 1000) router_start = (Inr v, t)"
    by (metis isl_def old.sum.exhaust prod.collapse)
  have start: "rs_sent router_start = []" "rs_cache router_start k = None" for k by (simp_all add: router_start_def)
  have "assertDesiredRouter (re_config demo_router) router_demo_claw demo_routed = Inr ()" by (simp add: demo_matches)
  from router_is_told [OF r demo_routed this] show ?thesis by (auto simp: r start)
qed

text \<open>The configuration accepts a default model that every creation refuses.\<close>

lemma default_model_is_stuck: "routerModelPattern ''clawrouter/p/m/'' \<and> \<not> clawRouterModelPattern ''clawrouter/p/m/''"
  by code_simp

end
