(* ===== verification/Node_Config.thy ===== *)
theory Node_Config
  imports ClawRouter
begin

text \<open>
  src/node-control.ts, the child: the part of its configuration that the control plane manages, and the commands with
  which the control plane reads and changes it. The configuration is a JSON object, changed in place by the code and
  rebuilt here; \<open>mutateConfigFile\<close> runs its callback on the current configuration and stores the result, or leaves it when
  the callback throws. Parameters (\<open>child_env\<close>): the URL parser, SHA-256, the secret resolver of the host, its
  environment, its HTTP probes, its command line, its clock, and the operational health probe.
\<close>

subsection \<open>Changing a record in place\<close>

definition put :: "string \<Rightarrow> jsval \<Rightarrow> jsval \<Rightarrow> jsval" where
  \<comment> \<open>\<open>v[k] = x\<close>\<close>
  "put k x v = JObj (set_key k x (Json.fields v))"

definition del :: "string \<Rightarrow> jsval \<Rightarrow> jsval" where
  \<comment> \<open>\<open>delete v[k]\<close>\<close>
  "del k v = JObj (filter (\<lambda>p. fst p \<noteq> k) (Json.fields v))"

definition on_record :: "string \<Rightarrow> (jsval \<Rightarrow> jsval) \<Rightarrow> jsval \<Rightarrow> jsval" where
  \<comment> \<open>\<open>f(ensureRecord(v, k))\<close>\<close>
  "on_record k f v = put k (f (as_record (get v k))) v"

subsection \<open>Checks of single values\<close>

definition requireString :: "jsval \<Rightarrow> string \<Rightarrow> nat \<Rightarrow> string result" where
  "requireString v label limit =
     (case v of JStr t \<Rightarrow> if trim t = [] \<or> limit < length t then Inl (PlainError (label @ '' is required'')) else Inr (trim t)
      | _ \<Rightarrow> Inl (PlainError (label @ '' is required'')))"

definition requirePositiveInteger :: "jsval \<Rightarrow> string \<Rightarrow> int result" where
  "requirePositiveInteger v label =
     (case js_integer v of Some i \<Rightarrow> if i < 1 then Inl (PlainError (label @ '' must be a positive integer'')) else Inr i
      | None \<Rightarrow> Inl (PlainError (label @ '' must be a positive integer'')))"

definition text_member :: "jsval \<Rightarrow> string option" where
  \<comment> \<open>\<open>typeof v === "string" ? v : undefined\<close>\<close>
  "text_member v = (case v of JStr t \<Rightarrow> Some t | _ \<Rightarrow> None)"

definition number_member :: "jsval \<Rightarrow> jsnum" where
  \<comment> \<open>\<open>typeof v === "number" ? v : -1\<close>\<close>
  "number_member v = (case v of JNum n \<Rightarrow> n | _ \<Rightarrow> Fin (- 1))"

definition strings_in :: "jsval \<Rightarrow> string list" where
  \<comment> \<open>\<open>Array.isArray(v) ? v.filter((item) => typeof item === "string") : []\<close>\<close>
  "strings_in v = (case v of JArr vs \<Rightarrow> List.map_filter text_member vs | _ \<Rightarrow> [])"

definition truthy_text :: "string option \<Rightarrow> bool" where
  "truthy_text t \<longleftrightarrow> t \<noteq> None \<and> t \<noteq> Some []"

definition uuidPattern :: "string \<Rightarrow> bool" where
  \<comment> \<open>\<open>/^[0-9a-f]{8}-[0-9a-f]{4}-[1-5][0-9a-f]{3}-[89ab][0-9a-f]{3}-[0-9a-f]{12}$/u\<close>\<close>
  "uuidPattern s =
     (case split_on (CHR ''-'') s of
        [a, b, c, d, e] \<Rightarrow> class_range is_hex 8 8 a \<and> class_range is_hex 4 4 b \<and> class_range is_hex 4 4 c \<and> hd c \<in> set ''12345'' \<and>
          class_range is_hex 4 4 d \<and> hd d \<in> set ''89ab'' \<and> class_range is_hex 12 12 e
      | _ \<Rightarrow> False)"

subsection \<open>\<open>ManagedDesired\<close>\<close>

record managed_otel =
  mo_enabled :: bool
  mo_endpoint :: "string option"
  mo_service :: string
  mo_traces :: bool
  mo_metrics :: bool
  mo_logs :: bool
  mo_sample :: jsnum
  mo_flush :: jsnum

record managed_desired =
  md_model :: string
  md_fallback :: "string list"
  md_router :: "string option"
  md_project :: "string option"
  md_legacy :: "string option"
  md_slack :: bool
  md_dm :: string
  md_group :: string
  md_level :: string
  md_otel :: managed_otel

definition js_managed_otel :: "managed_otel \<Rightarrow> jsval" where
  "js_managed_otel x = JObj ([(''enabled'', JBool (mo_enabled x))] @ js_opt ''endpoint'' JStr (mo_endpoint x) @
     [(''serviceName'', JStr (mo_service x)), (''traces'', JBool (mo_traces x)), (''metrics'', JBool (mo_metrics x)),
      (''logs'', JBool (mo_logs x)), (''sampleRate'', JNum (mo_sample x)), (''flushIntervalMs'', JNum (mo_flush x))])"

definition js_managed :: "managed_desired \<Rightarrow> jsval" where
  "js_managed d = JObj ([(''model'', JStr (md_model d)), (''fallbackModels'', js_strings (md_fallback d))] @
     js_opt ''routerBaseUrl'' JStr (md_router d) @ js_opt ''routerProjectId'' JStr (md_project d) @
     js_opt ''legacyOpenAiBaseUrl'' JStr (md_legacy d) @
     [(''slackEnabled'', JBool (md_slack d)), (''dmPolicy'', JStr (md_dm d)), (''groupPolicy'', JStr (md_group d)),
      (''logLevel'', JStr (md_level d)), (''otel'', js_managed_otel (md_otel d))])"

definition managedHash :: "(string \<Rightarrow> string) \<Rightarrow> managed_desired \<Rightarrow> string" where
  "managedHash sha d = sha (print_json (js_managed d))"

subsection \<open>What the control plane asks for\<close>

definition check_endpoint_url :: "(string \<Rightarrow> full_url option) \<Rightarrow> (full_url \<Rightarrow> bool) \<Rightarrow> string option \<Rightarrow> string \<Rightarrow> unit result" where
  \<comment> \<open>\<open>if (v) { new URL(v), .. }\<close>\<close>
  "check_endpoint_url new_url ok v why =
     (if \<not> truthy_text v then Inr ()
      else case new_url (the v) of None \<Rightarrow> Inl type_error | Some u \<Rightarrow> refuse_if (\<not> ok u) (PlainError why))"

definition https_endpoint :: "full_url \<Rightarrow> bool" where
  "https_endpoint u \<longleftrightarrow> url_protocol (fu_parts u) = ''https:'' \<and> url_username (fu_parts u) = [] \<and> url_password (fu_parts u) = [] \<and>
     url_search (fu_parts u) = [] \<and> url_hash (fu_parts u) = []"

definition is_bool :: "jsval \<Rightarrow> bool" where
  "is_bool v \<longleftrightarrow> v \<in> {JBool True, JBool False}"

definition filled :: "string option \<Rightarrow> string option" where
  \<comment> \<open>\<open>...(v ? { k: v } : {})\<close>\<close>
  "filled v = (if truthy_text v then v else None)"

definition parseManagedOtel :: "(string \<Rightarrow> full_url option) \<Rightarrow> jsval \<Rightarrow> managed_otel result" where
  "parseManagedOtel new_url v =
     (if v = JUndef then Inr \<lparr>mo_enabled = False, mo_endpoint = None, mo_service = ''openclaw'', mo_traces = True, mo_metrics = True,
        mo_logs = False, mo_sample = Fin (1 / 10), mo_flush = Fin 60000\<rparr>
      else
      let input = as_record v; enabled = (get input ''enabled'' = JBool True); traces = (get input ''traces'' = JBool True);
          metrics = (get input ''metrics'' = JBool True); endpoint = map_option trim (text_member (get input ''endpoint'')) in
      bindR (refuse_if (\<not> is_bool (get input ''enabled'')) (PlainError ''desired.otel.enabled is required'')) (\<lambda>_.
      bindR (refuse_if (\<not> is_bool (get input ''traces'')) (PlainError ''desired.otel.traces is required'')) (\<lambda>_.
      bindR (refuse_if (\<not> is_bool (get input ''metrics'')) (PlainError ''desired.otel.metrics is required'')) (\<lambda>_.
      bindR (refuse_if (enabled \<and> \<not> traces \<and> \<not> metrics) (PlainError ''desired.otel requires at least one signal'')) (\<lambda>_.
      bindR (refuse_if (get input ''logs'' \<noteq> JBool False) (PlainError ''desired.otel.logs must be false'')) (\<lambda>_.
      bindR (refuse_if (enabled \<and> \<not> truthy_text endpoint) (PlainError ''desired.otel.endpoint is required'')) (\<lambda>_.
      bindR (check_endpoint_url new_url https_endpoint endpoint ''desired.otel.endpoint is invalid'') (\<lambda>_.
      bindR (requireString (get input ''serviceName'') ''desired.otel.serviceName'' 120) (\<lambda>service.
      bindR (refuse_if (\<not> serviceNamePattern service) (PlainError ''desired.otel.serviceName is invalid'')) (\<lambda>_.
      bindR (refuse_if (case js_finite (get input ''sampleRate'') of None \<Rightarrow> True | Some r \<Rightarrow> r < 0 \<or> 1 < r)
               (PlainError ''desired.otel.sampleRate is invalid'')) (\<lambda>_.
      bindR (refuse_if (case js_integer (get input ''flushIntervalMs'') of None \<Rightarrow> True | Some i \<Rightarrow> i < 1000 \<or> 300000 < i)
               (PlainError ''desired.otel.flushIntervalMs is invalid'')) (\<lambda>_.
      Inr \<lparr>mo_enabled = enabled, mo_endpoint = filled endpoint, mo_service = service, mo_traces = traces, mo_metrics = metrics,
        mo_logs = False, mo_sample = number_member (get input ''sampleRate''), mo_flush = number_member (get input ''flushIntervalMs'')\<rparr>))))))))))))"

definition one_text :: "jsval \<Rightarrow> string list \<Rightarrow> string \<Rightarrow> string result" where
  "one_text v allowed why = (case v of JStr t \<Rightarrow> if t \<in> set allowed then Inr t else Inl (PlainError why) | _ \<Rightarrow> Inl (PlainError why))"

definition parseManagedDesired :: "(string \<Rightarrow> full_url option) \<Rightarrow> jsval \<Rightarrow> managed_desired result" where
  "parseManagedDesired new_url v =
     (let input = as_record v in
      bindR (requireString (get input ''model'') ''desired.model'' 220) (\<lambda>model.
      bindR (refuse_if (\<not> directModelPattern model) (PlainError ''desired.model must use provider/model form'')) (\<lambda>_.
      bindR (case get input ''fallbackModels'' of JArr vs \<Rightarrow> mapR (\<lambda>item. requireString item ''fallback model'' 220) vs | _ \<Rightarrow> Inr []) (\<lambda>fallbacks.
      bindR (one_text (get input ''dmPolicy'') [''pairing'', ''allowlist'', ''disabled''] ''desired.dmPolicy is invalid'') (\<lambda>dm.
      bindR (one_text (get input ''groupPolicy'') [''allowlist'', ''disabled''] ''desired.groupPolicy is invalid'') (\<lambda>group.
      bindR (refuse_if (\<not> is_bool (get input ''slackEnabled'')) (PlainError ''desired.slackEnabled is required'')) (\<lambda>_.
      bindR (one_text (get input ''logLevel'') [''error'', ''warn'', ''info'', ''debug''] ''desired.logLevel is invalid'') (\<lambda>level.
      let router = map_option trim (text_member (get input ''routerBaseUrl''));
          project = map_option (\<lambda>t. to_lower (trim t)) (text_member (get input ''routerProjectId'')) in
      bindR (check_endpoint_url new_url exact_origin router ''desired.routerBaseUrl must be an exact HTTPS origin'') (\<lambda>_.
      bindR (refuse_if (prefix_of ''clawrouter/'' model \<noteq> truthy_text router)
               (PlainError ''desired.model and desired.routerBaseUrl must select ClawRouter together'')) (\<lambda>_.
      bindR (refuse_if (truthy_text project \<noteq> truthy_text router)
               (PlainError ''desired.routerProjectId and desired.routerBaseUrl must select ClawRouter together'')) (\<lambda>_.
      bindR (refuse_if (truthy_text project \<and> \<not> uuidPattern (the project)) (PlainError ''desired.routerProjectId must be a UUID'')) (\<lambda>_.
      bindR (parseManagedOtel new_url (get input ''otel'')) (\<lambda>otel.
      Inr \<lparr>md_model = model, md_fallback = fallbacks, md_router = filled router, md_project = filled project, md_legacy = None,
        md_slack = (get input ''slackEnabled'' = JBool True), md_dm = dm, md_group = group, md_level = level, md_otel = otel\<rparr>)))))))))))))"

subsection \<open>Reading the managed part\<close>

definition appendOtelSignalPath :: "string \<Rightarrow> string \<Rightarrow> string" where
  "appendOtelSignalPath endpoint signal = rev (dropWhile (\<lambda>c. c = CHR ''/'') (rev endpoint)) @ ''/v1/'' @ signal"

definition clawRouterProjectHeader :: string where
  "clawRouterProjectHeader = ''X-ClawRouter-Project-Id''"

definition dynamicClawRouterHeaders :: "string list" where
  "dynamicClawRouterHeaders = [''x-clawrouter-agent-id'', ''x-clawrouter-parent-agent-id'', ''x-clawrouter-session-id'',
     ''x-clawrouter-request-id'', ''x-request-id'']"

definition array_includes :: "jsval \<Rightarrow> string \<Rightarrow> bool" where
  \<comment> \<open>\<open>Array.isArray(v) && v.includes(t)\<close>\<close>
  "array_includes v t = (case v of JArr vs \<Rightarrow> JStr t \<in> set vs | _ \<Rightarrow> False)"

definition model_providers :: "jsval \<Rightarrow> jsval" where
  "model_providers cfg = as_record (get (as_record (get cfg ''models'')) ''providers'')"

definition plugin_entry :: "jsval \<Rightarrow> string \<Rightarrow> jsval" where
  "plugin_entry cfg name = as_record (get (as_record (get (as_record (get cfg ''plugins'')) ''entries'')) name)"

definition routed_state :: "jsval \<Rightarrow> (string \<times> string) option" where
  \<comment> \<open>the base URL and the project of a router that is configured as the control plane does it\<close>
  "routed_state cfg =
     (let provider = as_record (get (model_providers cfg) ''clawrouter''); key = as_record (get provider ''apiKey'');
          headers = as_record (get provider ''headers''); names = map fst (Json.fields headers);
          project_names = filter (\<lambda>n. to_lower n = to_lower clawRouterProjectHeader) names in
      if array_includes (get (as_record (get cfg ''plugins'')) ''allow'') ''clawrouter'' \<and>
         get (plugin_entry cfg ''clawrouter'') ''enabled'' = JBool True \<and> text_member (get provider ''baseUrl'') \<noteq> None \<and>
         get key ''source'' = JStr ''env'' \<and> get key ''provider'' = JStr ''default'' \<and> get key ''id'' = JStr ''CLAWROUTER_API_KEY'' \<and>
         \<not> list_ex (\<lambda>n. to_lower n \<in> set dynamicClawRouterHeaders) names \<and> project_names = [clawRouterProjectHeader] \<and>
         text_member (get headers clawRouterProjectHeader) \<noteq> None
      then Some (the (text_member (get provider ''baseUrl'')), the (text_member (get headers clawRouterProjectHeader))) else None)"

definition read_otel :: "jsval \<Rightarrow> managed_otel" where
  "read_otel cfg =
     (let diagnostics = as_record (get cfg ''diagnostics''); otel = as_record (get diagnostics ''otel'');
          endpoint = text_member (get otel ''endpoint'') in
      \<lparr>mo_enabled = array_includes (get (as_record (get cfg ''plugins'')) ''allow'') ''diagnostics-otel'' \<and>
         get (plugin_entry cfg ''diagnostics-otel'') ''enabled'' = JBool True \<and> get diagnostics ''enabled'' = JBool True \<and>
         get otel ''enabled'' = JBool True \<and> endpoint \<noteq> None \<and>
         get otel ''tracesEndpoint'' = JStr (appendOtelSignalPath (the endpoint) ''traces'') \<and>
         get otel ''metricsEndpoint'' = JStr (appendOtelSignalPath (the endpoint) ''metrics''),
       mo_endpoint = endpoint,
       mo_service = (case get otel ''serviceName'' of JStr t \<Rightarrow> t | _ \<Rightarrow> []),
       mo_traces = (get otel ''traces'' = JBool True), mo_metrics = (get otel ''metrics'' = JBool True), mo_logs = (get otel ''logs'' = JBool True),
       mo_sample = number_member (get otel ''sampleRate''), mo_flush = number_member (get otel ''flushIntervalMs'')\<rparr>)"

definition read_model :: "jsval \<Rightarrow> string" where
  "read_model v = (case v of JStr t \<Rightarrow> t | _ \<Rightarrow> (case get (as_record v) ''primary'' of JStr t \<Rightarrow> t | _ \<Rightarrow> []))"

definition one_of_or :: "string list \<Rightarrow> string \<Rightarrow> jsval \<Rightarrow> string" where
  \<comment> \<open>\<open>v === a || v === b ? v : c\<close>\<close>
  "one_of_or allowed other v = (case v of JStr t \<Rightarrow> if t \<in> set allowed then t else other | _ \<Rightarrow> other)"

definition readManagedState :: "jsval \<Rightarrow> managed_desired" where
  "readManagedState cfg =
     (let model = get (as_record (get (as_record (get cfg ''agents'')) ''defaults'')) ''model'';
          channels = as_record (get cfg ''channels''); slack = as_record (get channels ''slack'') in
      \<lparr>md_model = read_model model, md_fallback = strings_in (get (as_record model) ''fallbacks''),
       md_router = map_option fst (routed_state cfg), md_project = map_option snd (routed_state cfg),
       md_legacy = text_member (get (as_record (get (model_providers cfg) ''openai'')) ''baseUrl''),
       md_slack = (get channels ''slack'' \<noteq> JUndef \<and> get slack ''enabled'' \<noteq> JBool False),
       md_dm = one_of_or [''allowlist'', ''disabled''] ''pairing'' (get slack ''dmPolicy''),
       md_group = one_of_or [''disabled''] ''allowlist'' (get slack ''groupPolicy''),
       md_level = one_of_or [''error'', ''warn'', ''debug''] ''info'' (get (as_record (get cfg ''logging'')) ''level''),
       md_otel = read_otel cfg\<rparr>)"

subsection \<open>Writing the managed part\<close>

definition managed_allow :: "managed_desired \<Rightarrow> jsval \<Rightarrow> jsval" where
  "managed_allow d allow =
     js_strings (js_set (filter (\<lambda>i. i \<notin> {''crabhelm'', ''slack'', ''clawrouter'', ''diagnostics-otel''}) (strings_in allow)) @
       [''crabhelm'', ''slack''] @ (if truthy_text (md_router d) then [''clawrouter''] else []) @
       (if mo_enabled (md_otel d) then [''diagnostics-otel''] else []))"

definition project_headers :: "managed_desired \<Rightarrow> jsval \<Rightarrow> jsval" where
  "project_headers d headers =
     put clawRouterProjectHeader (case md_project d of None \<Rightarrow> JUndef | Some t \<Rightarrow> JStr t)
       (JObj (filter (\<lambda>p. to_lower (fst p) \<noteq> to_lower clawRouterProjectHeader \<and> to_lower (fst p) \<notin> set dynamicClawRouterHeaders)
         (Json.fields headers)))"

definition apply_router :: "managed_desired \<Rightarrow> jsval \<Rightarrow> jsval" where
  "apply_router d providers =
     (if truthy_text (md_router d)
      then on_record ''clawrouter'' (\<lambda>p. on_record ''headers'' (project_headers d)
             (put ''apiKey'' (JObj [(''source'', JStr ''env''), (''provider'', JStr ''default''), (''id'', JStr ''CLAWROUTER_API_KEY'')])
             (put ''baseUrl'' (JStr (the (md_router d))) p))) providers
      else del ''clawrouter'' providers)"

definition drop_openai :: "jsval \<Rightarrow> jsval" where
  "drop_openai providers =
     (let openai = get providers ''openai''; rest = del ''baseUrl'' (as_record openai) in
      if openai = JUndef then providers else if Json.fields rest = [] then del ''openai'' providers else put ''openai'' rest providers)"

definition otel_config :: "managed_otel \<Rightarrow> jsval" where
  "otel_config x = JObj ([(''enabled'', JBool (mo_enabled x))] @
     (if truthy_text (mo_endpoint x) then [(''endpoint'', JStr (the (mo_endpoint x))),
        (''tracesEndpoint'', JStr (appendOtelSignalPath (the (mo_endpoint x)) ''traces'')),
        (''metricsEndpoint'', JStr (appendOtelSignalPath (the (mo_endpoint x)) ''metrics''))] else []) @
     [(''protocol'', JStr ''http/protobuf''), (''serviceName'', JStr (mo_service x)), (''traces'', JBool (mo_traces x)),
      (''metrics'', JBool (mo_metrics x)), (''logs'', JBool False),
      (''captureContent'', JObj (map (\<lambda>k. (k, JBool False)) [''enabled'', ''inputMessages'', ''outputMessages'', ''toolInputs'', ''toolOutputs'',
         ''systemPrompt'', ''toolDefinitions''])),
      (''sampleRate'', JNum (mo_sample x)), (''flushIntervalMs'', JNum (mo_flush x))])"

definition entry_enabled :: "string \<Rightarrow> bool \<Rightarrow> jsval \<Rightarrow> jsval" where
  "entry_enabled name b = on_record ''entries'' (on_record name (put ''enabled'' (JBool b)))"

definition applyManagedDesired :: "jsval \<Rightarrow> managed_desired \<Rightarrow> jsval" where
  "applyManagedDesired cfg d =
     (let cfg = on_record ''agents'' (on_record ''defaults''
            (put ''model'' (JObj [(''primary'', JStr (md_model d)), (''fallbacks'', js_strings (md_fallback d))]))) cfg;
          cfg = on_record ''channels'' (on_record ''slack'' (\<lambda>s. put ''groupPolicy'' (JStr (md_group d))
            (put ''dmPolicy'' (JStr (md_dm d)) (put ''enabled'' (JBool (md_slack d)) s)))) cfg;
          cfg = on_record ''logging'' (put ''level'' (JStr (md_level d))) cfg;
          cfg = on_record ''plugins'' (\<lambda>p. entry_enabled ''clawrouter'' (truthy_text (md_router d))
            (put ''allow'' (managed_allow d (get p ''allow'')) p)) cfg;
          cfg = on_record ''models'' (on_record ''providers'' (\<lambda>m. drop_openai (apply_router d m))) cfg;
          cfg = on_record ''plugins'' (entry_enabled ''diagnostics-otel'' (mo_enabled (md_otel d))) cfg in
      on_record ''diagnostics'' (\<lambda>x. put ''otel'' (otel_config (md_otel d)) (put ''enabled'' (JBool (mo_enabled (md_otel d))) x)) cfg)"

subsection \<open>Bookkeeping of the plugin, and the ingress switch\<close>

definition readPluginConfig :: "jsval \<Rightarrow> jsval" where
  "readPluginConfig cfg = as_record (get (plugin_entry cfg ''crabhelm'') ''config'')"

definition on_plugin_config :: "(jsval \<Rightarrow> jsval) \<Rightarrow> jsval \<Rightarrow> jsval" where
  \<comment> \<open>\<open>f(ensurePluginConfig(config))\<close>\<close>
  "on_plugin_config f = on_record ''plugins'' (on_record ''entries'' (on_record ''crabhelm'' (on_record ''config'' f)))"

definition is_record :: "jsval \<Rightarrow> bool" where
  "is_record v = (case v of JObj _ \<Rightarrow> True | _ \<Rightarrow> False)"

definition channel_states :: "jsval \<Rightarrow> jsval" where
  "channel_states channels = JObj (map (\<lambda>p. (fst p, if is_bool (get (snd p) ''enabled'') then get (snd p) ''enabled'' else JStr ''missing''))
     (filter (\<lambda>p. is_record (snd p)) (Json.fields channels)))"

definition channels_off :: "jsval \<Rightarrow> jsval" where
  "channels_off channels = JObj (map (\<lambda>p. (fst p, if is_record (snd p) then put ''enabled'' (JBool False) (snd p) else snd p)) (Json.fields channels))"

definition restore_channel :: "jsval \<Rightarrow> string \<times> jsval \<Rightarrow> jsval" where
  "restore_channel channels st =
     (let channel = get channels (fst st) in
      if \<not> is_record channel then channels
      else if snd st = JStr ''missing'' then put (fst st) (del ''enabled'' channel) channels
      else if is_bool (snd st) then put (fst st) (put ''enabled'' (snd st) channel) channels else channels)"

definition setChannelIngress :: "jsval \<Rightarrow> bool \<Rightarrow> jsval" where
  "setChannelIngress config enabled =
     (let cfg = on_plugin_config id (on_record ''channels'' id config); channels = get cfg ''channels'';
          off = (get (readPluginConfig cfg) ''ingressDisabled'' = JBool True) in
      if \<not> enabled then
        if off then cfg
        else on_plugin_config (\<lambda>p. put ''ingressDisabled'' (JBool True) (put ''disabledChannelStates'' (channel_states channels) p))
               (put ''channels'' (channels_off channels) cfg)
      else if \<not> off then cfg
      else on_plugin_config (\<lambda>p. put ''ingressDisabled'' (JBool False) (del ''disabledChannelStates'' p))
             (put ''channels'' (foldl restore_channel channels (Json.fields (as_record (get (readPluginConfig cfg) ''disabledChannelStates'')))) cfg))"

end
