(* ===== verification/Node_Child.thy ===== *)
theory Node_Child
  imports Node_Config
begin

text \<open>
  src/node-control.ts, the child: its commands. A command takes the JSON text of its parameters and the configuration, and
  gives the JSON text of its answer or throws. The operational health of the child (two command-line probes) is a
  parameter; so is what each call of its command line prints.
\<close>

record secret_resolver =
  sr_sdk :: "(jsval \<Rightarrow> jsval \<Rightarrow> string \<Rightarrow> jsval result) option"   \<comment> \<open>the SDK's resolver; none: the module is not found\<close>
  sr_env :: "string \<Rightarrow> string option"

record child_env =
  cx_id :: string
  cx_version :: string
  cx_url :: "string \<Rightarrow> full_url option"
  cx_sha :: "string \<Rightarrow> string"
  cx_secrets :: secret_resolver
  cx_reach :: "int \<Rightarrow> bool"                        \<comment> \<open>both probes of the local gateway on a port\<close>
  cx_health :: "string \<Rightarrow> jsval \<Rightarrow> jsval result"  \<comment> \<open>\<open>probeChildOperationalHealth\<close>\<close>
  cx_cli :: "string list \<Rightarrow> string result"
  cx_time :: string

definition childStatusCommand :: string where "childStatusCommand = ''crabhelm.child.status''"
definition childApplyCommand :: string where "childApplyCommand = ''crabhelm.child.apply''"
definition childIngressCommand :: string where "childIngressCommand = ''crabhelm.child.ingress''"
definition childPairingListCommand :: string where "childPairingListCommand = ''crabhelm.child.pairing.list''"
definition childPairingApproveCommand :: string where "childPairingApproveCommand = ''crabhelm.child.pairing.approve''"
definition childHealthCommand :: string where "childHealthCommand = ''crabhelm.child.health''"
definition childDrainCommand :: string where "childDrainCommand = ''crabhelm.child.drain.status''"

definition node_protocol :: int where
  \<comment> \<open>\<open>protocolVersion\<close>\<close>
  "node_protocol = 3"

subsection \<open>Small parts\<close>

definition parseRecord :: "string option \<Rightarrow> jsval result" where
  "parseRecord v =
     (if \<not> truthy_text v then Inr (JObj [])
      else case json_parse (the v) of None \<Rightarrow> Inl (SyntaxErr ''JSON'') | Some x \<Rightarrow> Inr (as_record x))"

definition requireChildId :: "jsval \<Rightarrow> string \<Rightarrow> unit result" where
  "requireChildId params i = refuse_if (get params ''clawId'' \<noteq> JStr i) (PlainError ''Crabhelm child identity mismatch'')"

definition child_answer :: "string \<Rightarrow> (string \<times> jsval) list \<Rightarrow> jsval" where
  \<comment> \<open>\<open>{ ok: true, childId, protocolVersion, ... }\<close>\<close>
  "child_answer i members = JObj ([(''ok'', JBool True), (''childId'', JStr i), (''protocolVersion'', jint node_protocol)] @ members)"

definition childCommandFailure :: "string \<Rightarrow> op_code \<Rightarrow> jsval" where
  "childCommandFailure i code = JObj [(''ok'', JBool False), (''childId'', JStr i), (''protocolVersion'', jint node_protocol),
     (''error'', JObj [(''code'', JStr (code_name code))])]"

subsection \<open>Status\<close>

definition gateway_port :: "jsval \<Rightarrow> int" where
  "gateway_port cfg = (case js_integer (get (as_record (get cfg ''gateway'')) ''port'') of Some p \<Rightarrow> p | None \<Rightarrow> 18789)"

definition childStatus :: "child_env \<Rightarrow> jsval \<Rightarrow> jsval" where
  "childStatus env cfg =
     (let plugin = readPluginConfig cfg; current = managedHash (cx_sha env) (readManagedState cfg) in
      JObj ([(''ok'', JBool True), (''childId'', JStr (cx_id env)), (''pluginMode'', JStr ''child''), (''protocolVersion'', jint node_protocol),
        (''gatewayReady'', JBool (cx_reach env (gateway_port cfg))), (''gatewayVersion'', JStr (cx_version env)),
        (''managedHash'', JStr current), (''ingressDisabled'', JBool (get plugin ''ingressDisabled'' = JBool True))] @
        (case get plugin ''appliedGeneration'' of JNum n \<Rightarrow> [(''appliedGeneration'', JNum n)] | _ \<Rightarrow> []) @
        (case get plugin ''appliedDesiredHash'' of JStr h \<Rightarrow>
           if get plugin ''appliedManagedHash'' = JStr current then [(''appliedDesiredHash'', JStr h)] else [] | _ \<Rightarrow> [])))"

subsection \<open>Slack credentials\<close>

definition envNamePattern :: "string \<Rightarrow> bool" where
  \<comment> \<open>\<open>/^[A-Z][A-Z0-9_]{0,127}$/\<close>\<close>
  "envNamePattern s = head_tail is_upper (\<lambda>c. is_upper c \<or> is_digit c \<or> c = CHR ''_'') 127 s"

definition not_blank_text :: "jsval \<Rightarrow> bool" where
  \<comment> \<open>\<open>typeof v === "string" && Boolean(v.trim())\<close>\<close>
  "not_blank_text v = (case v of JStr t \<Rightarrow> trim t \<noteq> [] | _ \<Rightarrow> False)"

definition hasResolvableSecretInput :: "secret_resolver \<Rightarrow> jsval \<Rightarrow> jsval \<Rightarrow> string \<Rightarrow> bool result" where
  "hasResolvableSecretInput sr cfg v path =
     (case sr_sdk sr of
        Some resolve \<Rightarrow> bindR (resolve cfg v path) (\<lambda>x. Inr (not_blank_text x))
      | None \<Rightarrow> (case v of
          JStr t \<Rightarrow> Inr (trim t \<noteq> [])
        | _ \<Rightarrow> let ref = as_record v in Inr (get ref ''source'' = JStr ''env'' \<and>
            (case get ref ''id'' of JStr i \<Rightarrow> envNamePattern i \<and> (case sr_env sr i of Some t \<Rightarrow> trim t \<noteq> [] | None \<Rightarrow> False) | _ \<Rightarrow> False))))"

definition account_ready :: "secret_resolver \<Rightarrow> jsval \<Rightarrow> nat \<Rightarrow> jsval \<Rightarrow> bool result" where
  "account_ready sr cfg n account =
     (let secret = (\<lambda>v name. hasResolvableSecretInput sr cfg v (''channels.slack.accounts.'' @ nat_str n @ ''.'' @ name)) in
      bindR (secret (get account ''botToken'') ''botToken'') (\<lambda>bot.
      if \<not> bot then Inr False else
      let mode = (case get account ''mode'' of JStr m \<Rightarrow> m | _ \<Rightarrow> ''socket'') in
      if mode = ''http'' then secret (get account ''signingSecret'') ''signingSecret''
      else if mode = ''relay'' then
        (let relay = as_record (get account ''relay'') in
         if \<not> not_blank_text (get relay ''url'') then Inr False
         else bindR (secret (get relay ''authToken'') ''relay.authToken'') (\<lambda>token. Inr (token \<and> not_blank_text (get relay ''gatewayId''))))
      else secret (get account ''appToken'') ''appToken''))"

fun accounts_ready :: "secret_resolver \<Rightarrow> jsval \<Rightarrow> nat \<Rightarrow> jsval list \<Rightarrow> bool result" where
  "accounts_ready sr cfg n [] = Inr False"
| "accounts_ready sr cfg n (a # as) = bindR (account_ready sr cfg n a) (\<lambda>ok. if ok then Inr True else accounts_ready sr cfg (Suc n) as)"

definition hasResolvableSlackCredentials :: "secret_resolver \<Rightarrow> jsval \<Rightarrow> bool result" where
  "hasResolvableSlackCredentials sr cfg =
     (let slack = as_record (get (as_record (get cfg ''channels'')) ''slack'') in
      accounts_ready sr cfg 0 (slack # map (\<lambda>p. as_record (snd p)) (Json.fields (as_record (get slack ''accounts'')))))"

subsection \<open>Apply and ingress\<close>

type_synonym child_command = "child_env \<Rightarrow> jsval \<Rightarrow> jsval \<Rightarrow> jsval result \<times> jsval"

definition read_only :: "jsval result \<Rightarrow> jsval \<Rightarrow> jsval result \<times> jsval" where
  "read_only r cfg = (r, cfg)"

definition applied_config :: "child_env \<Rightarrow> jsval \<Rightarrow> managed_desired \<Rightarrow> int \<Rightarrow> string \<Rightarrow> jsval" where
  \<comment> \<open>the callback of \<open>mutateConfigFile\<close> when the hash of the current state is the expected one\<close>
  "applied_config env cfg d generation desired_hash =
     (let written = on_plugin_config id (applyManagedDesired cfg d); next_hash = managedHash (cx_sha env) (readManagedState written) in
      on_plugin_config (\<lambda>p. put ''appliedManagedHash'' (JStr next_hash) (put ''appliedDesiredHash'' (JStr desired_hash)
        (put ''appliedGeneration'' (jint generation) p))) written)"

definition apply_inputs :: "child_env \<Rightarrow> jsval \<Rightarrow> (managed_desired \<times> int \<times> string \<times> string) result" where
  "apply_inputs env params =
     bindR (requireChildId params (cx_id env)) (\<lambda>_.
     bindR (parseManagedDesired (cx_url env) (get params ''desired'')) (\<lambda>d.
     bindR (refuse_if (truthy_text (md_project d) \<and> md_project d \<noteq> Some (cx_id env))
              (PlainError ''desired.routerProjectId must match the immutable child id'')) (\<lambda>_.
     bindR (requirePositiveInteger (get params ''generation'') ''generation'') (\<lambda>generation.
     bindR (requireString (get params ''desiredHash'') ''desiredHash'' 128) (\<lambda>desired_hash.
     bindR (requireString (get params ''expectedManagedHash'') ''expectedManagedHash'' 128) (\<lambda>expected.
     Inr (d, generation, desired_hash, expected)))))))"

definition apply_command :: child_command where
  "apply_command env params cfg =
     (case apply_inputs env params of Inl e \<Rightarrow> (Inl e, cfg)
      | Inr (d, generation, desired_hash, expected) \<Rightarrow>
     (case (if md_slack d then hasResolvableSlackCredentials (cx_secrets env) cfg else Inr True) of Inl e \<Rightarrow> (Inl e, cfg)
      | Inr ready \<Rightarrow>
      if \<not> ready then (Inr (childCommandFailure (cx_id env) SLACK_CREDENTIALS_UNRESOLVED), cfg)
      else if managedHash (cx_sha env) (readManagedState cfg) \<noteq> expected then (Inr (childCommandFailure (cx_id env) CHILD_POLICY_CAS_CONFLICT), cfg)
      else let written = applied_config env cfg d generation desired_hash in
        (Inr (child_answer (cx_id env) [(''generation'', jint generation), (''desiredHash'', JStr desired_hash),
           (''managedHash'', JStr (managedHash (cx_sha env) (readManagedState (on_plugin_config id (applyManagedDesired cfg d)))))]), written)))"

definition ingress_command :: child_command where
  "ingress_command env params cfg =
     (case requireChildId params (cx_id env) of Inl e \<Rightarrow> (Inl e, cfg)
      | Inr _ \<Rightarrow> (case get params ''enabled'' of
          JBool b \<Rightarrow> (Inr (child_answer (cx_id env) [(''ingressDisabled'', JBool (\<not> b))]), setChannelIngress cfg b)
        | _ \<Rightarrow> (Inl (PlainError ''enabled is required''), cfg)))"

subsection \<open>The active runs\<close>

definition sessions_args :: "nat \<Rightarrow> string list" where
  "sessions_args offset = [''gateway'', ''call'', ''sessions.list'', ''--params'',
     print_json (JObj [(''limit'', jint 200), (''offset'', jint (int offset)), (''configuredAgentsOnly'', JBool False),
       (''includeDerivedTitles'', JBool False), (''includeLastMessage'', JBool False)]), ''--json'']"

fun count_active :: "jsval list \<Rightarrow> nat \<Rightarrow> nat result" where
  "count_active [] n = Inr n"
| "count_active (s # ss) n =
     (case get (as_record s) ''hasActiveRun'' of
        JBool b \<Rightarrow> count_active ss (if b then Suc n else n)
      | _ \<Rightarrow> Inl (PlainError ''sessions.list omitted active-run evidence''))"

definition session_page :: "child_env \<Rightarrow> nat \<Rightarrow> (jsval list \<times> int option) result" where
  \<comment> \<open>one page: the sessions, and the total when it is a count\<close>
  "session_page env offset =
     bindR (cx_cli env (sessions_args offset)) (\<lambda>out.
     case json_parse out of None \<Rightarrow> Inl (SyntaxErr ''JSON'')
     | Some v \<Rightarrow> (case get (as_record v) ''sessions'' of
         JArr ss \<Rightarrow> Inr (ss, case js_integer (get (as_record v) ''total'') of Some t \<Rightarrow> if 0 \<le> t then Some t else None | None \<Rightarrow> None)
       | _ \<Rightarrow> Inl (PlainError ''sessions.list returned invalid JSON'')))"

fun scan_sessions :: "child_env \<Rightarrow> nat \<Rightarrow> nat \<Rightarrow> nat \<Rightarrow> nat result" where
  \<comment> \<open>the loop over the pages; the number of pages left bounds it\<close>
  "scan_sessions env 0 offset active = Inr active"
| "scan_sessions env (Suc pages) offset active =
     bindR (session_page env offset) (\<lambda>(ss, total).
     bindR (count_active ss active) (\<lambda>n.
     let seen = offset + length ss;
         done = (case total of Some t \<Rightarrow> t \<le> int seen | None \<Rightarrow> length ss < 200) in
     if done then Inr n
     else if total \<noteq> None \<and> ss = [] then Inl (PlainError ''sessions.list pagination did not advance'')
     else if pages = 0 then Inl (PlainError ''session drain scan exceeded 10000 sessions'')
     else scan_sessions env pages seen n))"

definition probeActiveChildRuns :: "child_env \<Rightarrow> (string \<times> jsval) list result" where
  "probeActiveChildRuns env =
     bindR (scan_sessions env 50 0 0) (\<lambda>n.
     Inr [(''drained'', JBool (n = 0)), (''activeRuns'', jint (int n)), (''checkedAt'', JStr (cx_time env))])"

subsection \<open>Pairing\<close>

definition upper_char :: "char \<Rightarrow> string" where
  \<comment> \<open>one character of \<open>toUpperCase\<close>; the two whose capital is beyond Latin-1 stay\<close>
  "upper_char c =
     (let n = code_unit c in
      if n = 223 then ''SS'' else if (97 \<le> n \<and> n \<le> 122) \<or> (224 \<le> n \<and> n \<le> 254 \<and> n \<noteq> 247) then [char_of (n - 32)] else [c])"

definition to_upper :: "string \<Rightarrow> string" where
  "to_upper s = concat (map upper_char s)"

record pairing_request =
  pq_code :: string
  pq_id :: string
  pq_created :: string
  pq_seen :: "string option"
  pq_account :: "string option"
  pq_label :: "string option"

definition first_text :: "jsval list \<Rightarrow> nat \<Rightarrow> string option" where
  \<comment> \<open>the first of the values that is a string, cut\<close>
  "first_text vs n = map_option (slice n) (case List.map_filter text_member vs of [] \<Rightarrow> None | t # _ \<Rightarrow> Some t)"

definition sanitizePairingRequest :: "jsval \<Rightarrow> pairing_request result" where
  "sanitizePairingRequest v =
     (let request = as_record v; meta = as_record (get request ''meta'') in
      bindR (requireString (get request ''code'') ''pairing request code'' 12) (\<lambda>code.
      bindR (requireString (get request ''id'') ''pairing request id'' 200) (\<lambda>i.
      bindR (requireString (get request ''createdAt'') ''pairing request time'' 80) (\<lambda>created.
      Inr \<lparr>pq_code = to_upper code, pq_id = i, pq_created = created, pq_seen = first_text [get request ''lastSeenAt''] 80,
        pq_account = first_text [get request ''accountId'', get meta ''accountId''] 80,
        pq_label = first_text [get request ''label'', get meta ''name'', get meta ''username''] 120\<rparr>))))"

definition js_pairing :: "pairing_request \<Rightarrow> jsval" where
  "js_pairing r = JObj ([(''code'', JStr (pq_code r)), (''id'', JStr (pq_id r)), (''createdAt'', JStr (pq_created r))] @
     js_opt ''lastSeenAt'' JStr (pq_seen r) @ js_opt ''accountId'' JStr (pq_account r) @ js_opt ''label'' JStr (pq_label r))"

definition requirePairingChannel :: "jsval \<Rightarrow> string result" where
  "requirePairingChannel v = (if v = JStr ''slack'' then Inr ''slack'' else Inl (PlainError ''only Slack pairing is supported in this slice''))"

definition optionalAccountId :: "jsval \<Rightarrow> string option result" where
  "optionalAccountId v =
     (if v \<in> {JUndef, JNull, JStr []} then Inr None
      else bindR (requireString v ''accountId'' 64) (\<lambda>t.
        if list_all (\<lambda>c. is_alnum c \<or> c \<in> set ''_-'') t then Inr (Some t) else Inl (PlainError ''accountId is invalid'')))"

definition account_args :: "string option \<Rightarrow> string list" where
  "account_args a = (if truthy_text a then [''--account'', the a] else [])"

definition listNativePairingRequests :: "child_env \<Rightarrow> string \<Rightarrow> string option \<Rightarrow> pairing_request list result" where
  "listNativePairingRequests env channel account =
     bindR (cx_cli env ([''pairing'', ''list'', ''--channel'', channel] @ account_args account @ [''--json''])) (\<lambda>out.
     case json_parse out of None \<Rightarrow> Inl (SyntaxErr ''JSON'')
     | Some v \<Rightarrow> (case get (as_record v) ''requests'' of
         JArr rs \<Rightarrow> mapR sanitizePairingRequest (take 20 rs) | _ \<Rightarrow> Inl (PlainError ''pairing list returned invalid JSON'')))"

definition pairing_list_command :: child_command where
  "pairing_list_command env params = read_only
     (bindR (requireChildId params (cx_id env)) (\<lambda>_.
      bindR (requirePairingChannel (get params ''channel'')) (\<lambda>channel.
      bindR (optionalAccountId (get params ''accountId'')) (\<lambda>account.
      bindR (listNativePairingRequests env channel account) (\<lambda>rs.
      Inr (child_answer (cx_id env) [(''channel'', JStr channel), (''requests'', JArr (map js_pairing rs))]))))))"

definition pairing_code :: "string \<Rightarrow> bool" where
  \<comment> \<open>\<open>/^[A-Z0-9]{6,12}$/\<close>\<close>
  "pairing_code s = class_range (\<lambda>c. is_upper c \<or> is_digit c) 6 12 s"

definition pairing_approve_command :: child_command where
  "pairing_approve_command env params = read_only
     (bindR (requireChildId params (cx_id env)) (\<lambda>_.
      bindR (requirePairingChannel (get params ''channel'')) (\<lambda>channel.
      bindR (optionalAccountId (get params ''accountId'')) (\<lambda>account.
      bindR (requireString (get params ''code'') ''pairing code'' 12) (\<lambda>given.
      let code = to_upper given in
      bindR (refuse_if (\<not> pairing_code code) (PlainError ''pairing code is invalid'')) (\<lambda>_.
      bindR (listNativePairingRequests env channel account) (\<lambda>pending.
      case find (\<lambda>r. to_upper (pq_code r) = code) pending of
        None \<Rightarrow> Inl (PlainError ''pending pairing request not found'')
      | Some request \<Rightarrow>
          bindR (cx_cli env ([''pairing'', ''approve'', ''--channel'', channel] @ account_args account @ [code])) (\<lambda>_.
          Inr (child_answer (cx_id env) [(''channel'', JStr channel), (''approved'', js_pairing request)])))))))))"

subsection \<open>Dispatch\<close>

definition status_command :: child_command where
  "status_command env params cfg = read_only (bindR (requireChildId params (cx_id env)) (\<lambda>_. Inr (childStatus env cfg))) cfg"

definition health_command :: child_command where
  "health_command env params cfg = read_only
     (bindR (requireChildId params (cx_id env)) (\<lambda>_.
      bindR (requireString (get params ''model'') ''model'' 220) (\<lambda>model.
      bindR (cx_health env model cfg) (\<lambda>probes. Inr (child_answer (cx_id env) [(''probes'', probes)]))))) cfg"

definition drain_command :: child_command where
  "drain_command env params = read_only
     (bindR (requireChildId params (cx_id env)) (\<lambda>_.
      bindR (probeActiveChildRuns env) (\<lambda>drain. Inr (child_answer (cx_id env) drain))))"

definition child_commands :: "(string \<times> child_command) list" where
  \<comment> \<open>\<open>registerChildCommands\<close>\<close>
  "child_commands = [(childStatusCommand, status_command), (childHealthCommand, health_command), (childDrainCommand, drain_command),
     (childApplyCommand, apply_command), (childIngressCommand, ingress_command), (childPairingListCommand, pairing_list_command),
     (childPairingApproveCommand, pairing_approve_command)]"

definition run_command :: "child_command \<Rightarrow> child_env \<Rightarrow> string option \<Rightarrow> jsval \<Rightarrow> string result \<times> jsval" where
  \<comment> \<open>a handler around its command: parameters from JSON, the answer to JSON\<close>
  "run_command f env paramsJSON cfg =
     (case parseRecord paramsJSON of Inl e \<Rightarrow> (Inl e, cfg)
      | Inr params \<Rightarrow> (case f env params cfg of (r, after_) \<Rightarrow> (bindR r (\<lambda>v. Inr (print_json v)), after_)))"

end
