(* ===== verification/Node_Rules.thy ===== *)
theory Node_Rules
  imports Node_Child
begin

text \<open>
  What the child of src/node-control.ts guarantees: the managed part that is written is read back, whatever the
  configuration was, the ingress switch restores what it took away, an apply changes exactly what its status then
  reports, and the drain counts every active run.
\<close>

subsection \<open>Members of changed records\<close>

lemma as_record_JObj [simp]: "as_record (JObj xs) = JObj xs" "Json.fields (JObj xs) = xs"
  by (simp_all add: as_record_def Json.fields_def)

lemma get_as_record [simp]: "get (as_record v) k = get v k"
  by (cases v) (simp_all add: as_record_def get_def)

lemma fields_as_record [simp]: "Json.fields (as_record v) = Json.fields v"
  by (cases v) (simp_all add: as_record_def Json.fields_def)

lemma as_record_twice [simp]: "as_record (as_record v) = as_record v"
  by (cases v) (simp_all add: as_record_def)

lemma get_put [simp]: "get (put k x v) j = (if j = k then x else get v j)"
proof -
  have "get (put k x v) j = (if j = k then x else get (JObj (Json.fields v)) j)" by (auto simp: put_def get_JObj)
  then show ?thesis by simp
qed

lemma as_record_put [simp]: "as_record (put k x v) = put k x v" "as_record (del k v) = del k v" "as_record (on_record k f v) = on_record k f v"
  by (simp_all add: put_def del_def on_record_def)

lemma put_is_record [simp]: "put k x v \<noteq> JUndef" "on_record k f v \<noteq> JUndef"
  by (simp_all add: put_def on_record_def)

lemma get_del [simp]: "get (del k v) j = (if j = k then JUndef else get v j)"
proof -
  have "map_of (filter (\<lambda>p. fst p \<noteq> k) xs) j = (if j = k then None else map_of xs j)" for xs :: "(string \<times> jsval) list"
    by (induction xs) auto
  then show ?thesis by (cases v) (auto simp: del_def get_JObj get_def Json.fields_def)
qed

lemma get_on_record [simp]: "get (on_record k f v) j = (if j = k then f (as_record (get v k)) else get v j)"
  by (simp add: on_record_def)

lemma text_member_simps [simp]: "text_member (JStr t) = Some t" "text_member JUndef = None"
  by (simp_all add: text_member_def)

lemma strings_in_strings [simp]: "strings_in (js_strings xs) = xs"
  by (induction xs) (simp_all add: strings_in_def js_strings_def map_filter_simps)

lemma array_includes_strings [simp]: "array_includes (js_strings xs) t \<longleftrightarrow> t \<in> set xs"
  by (auto simp: array_includes_def js_strings_def)

subsection \<open>What is written is read back\<close>

definition managed_ok :: "managed_desired \<Rightarrow> bool" where
  "managed_ok d \<longleftrightarrow> md_legacy d = None \<and> (md_router d = None \<longleftrightarrow> md_project d = None) \<and> md_router d \<noteq> Some [] \<and>
     md_dm d \<in> {''pairing'', ''allowlist'', ''disabled''} \<and> md_group d \<in> {''allowlist'', ''disabled''} \<and>
     md_level d \<in> {''error'', ''warn'', ''info'', ''debug''} \<and> \<not> mo_logs (md_otel d) \<and> mo_endpoint (md_otel d) \<noteq> Some [] \<and>
     (mo_enabled (md_otel d) \<longrightarrow> mo_endpoint (md_otel d) \<noteq> None)"

lemma filled_facts: "filled v \<noteq> Some []" "truthy_text v \<Longrightarrow> filled v = v" "\<not> truthy_text v \<Longrightarrow> filled v = None"
  by (auto simp: filled_def truthy_text_def)

lemma parsed_otel_ok:
  "parseManagedOtel new_url v = Inr x \<Longrightarrow> \<not> mo_logs x \<and> mo_endpoint x \<noteq> Some [] \<and> (mo_enabled x \<longrightarrow> mo_endpoint x \<noteq> None)"
  by (auto simp: parseManagedOtel_def Let_def filled_def truthy_text_def split: if_splits)

lemma one_text_in: "one_text v allowed why = Inr t \<Longrightarrow> t \<in> set allowed"
  by (auto simp: one_text_def split: jsval.splits if_splits)

lemma filled_together: "truthy_text a = truthy_text b \<Longrightarrow> (filled b = None \<longleftrightarrow> filled a = None) \<and> filled b \<noteq> Some []"
  by (auto simp: filled_def truthy_text_def)

lemma parsed_ok:
  assumes "parseManagedDesired new_url v = Inr d"
  shows "managed_ok d"
proof -
  have slots: "\<exists>p r w1 w2 w3 w4 w5 w6 w7. truthy_text p = truthy_text r \<and> md_legacy d = None \<and> md_router d = filled r \<and> md_project d = filled p \<and>
      one_text w1 [''pairing'', ''allowlist'', ''disabled''] w2 = Inr (md_dm d) \<and> one_text w3 [''allowlist'', ''disabled''] w4 = Inr (md_group d) \<and>
      one_text w5 [''error'', ''warn'', ''info'', ''debug''] w6 = Inr (md_level d) \<and> parseManagedOtel new_url w7 = Inr (md_otel d)"
    using assms unfolding parseManagedDesired_def Let_def bindR_eq_Inr refuse_if_Inr not_not sum.inject
    by (elim exE conjE, hypsubst) (intro exI conjI; (assumption | simp))
  then show ?thesis
    by (elim exE conjE) (drule filled_together, (drule one_text_in)+, drule parsed_otel_ok, simp add: managed_ok_def)
qed

lemma apply_members:
  "get (applyManagedDesired cfg d) ''agents'' = on_record ''defaults''
     (put ''model'' (JObj [(''primary'', JStr (md_model d)), (''fallbacks'', js_strings (md_fallback d))])) (as_record (get cfg ''agents''))"
  "get (applyManagedDesired cfg d) ''channels'' = on_record ''slack'' (\<lambda>s. put ''groupPolicy'' (JStr (md_group d))
     (put ''dmPolicy'' (JStr (md_dm d)) (put ''enabled'' (JBool (md_slack d)) s))) (as_record (get cfg ''channels''))"
  "get (applyManagedDesired cfg d) ''logging'' = put ''level'' (JStr (md_level d)) (as_record (get cfg ''logging''))"
  "get (applyManagedDesired cfg d) ''models'' = on_record ''providers'' (\<lambda>m. drop_openai (apply_router d m)) (as_record (get cfg ''models''))"
  "get (applyManagedDesired cfg d) ''diagnostics'' = put ''otel'' (otel_config (md_otel d))
     (put ''enabled'' (JBool (mo_enabled (md_otel d))) (as_record (get cfg ''diagnostics'')))"
  "get (applyManagedDesired cfg d) ''plugins'' = entry_enabled ''diagnostics-otel'' (mo_enabled (md_otel d))
     (entry_enabled ''clawrouter'' (truthy_text (md_router d))
       (put ''allow'' (managed_allow d (get (get cfg ''plugins'') ''allow'')) (as_record (get cfg ''plugins''))))"
  by (simp_all add: applyManagedDesired_def Let_def entry_enabled_def)

lemma drop_openai_gets [simp]:
  "k \<noteq> ''openai'' \<Longrightarrow> get (drop_openai m) k = get m k" "get (get (drop_openai m) ''openai'') ''baseUrl'' = JUndef"
  by (auto simp: drop_openai_def Let_def)

lemma apply_router_gets:
  "k \<noteq> ''clawrouter'' \<Longrightarrow> get (apply_router d m) k = get m k"
  by (auto simp: apply_router_def)

lemma managed_allow_in:
  "array_includes (managed_allow d a) ''clawrouter'' \<longleftrightarrow> truthy_text (md_router d)"
  "array_includes (managed_allow d a) ''diagnostics-otel'' \<longleftrightarrow> mo_enabled (md_otel d)"
  by (auto simp: managed_allow_def)

lemma otel_config_gets [simp]:
  "get (otel_config x) ''enabled'' = JBool (mo_enabled x)" "get (otel_config x) ''serviceName'' = JStr (mo_service x)"
  "get (otel_config x) ''traces'' = JBool (mo_traces x)" "get (otel_config x) ''metrics'' = JBool (mo_metrics x)"
  "get (otel_config x) ''logs'' = JBool False" "get (otel_config x) ''sampleRate'' = JNum (mo_sample x)"
  "get (otel_config x) ''flushIntervalMs'' = JNum (mo_flush x)"
  "get (otel_config x) ''endpoint'' = (if truthy_text (mo_endpoint x) then JStr (the (mo_endpoint x)) else JUndef)"
  "get (otel_config x) ''tracesEndpoint'' = (if truthy_text (mo_endpoint x) then JStr (appendOtelSignalPath (the (mo_endpoint x)) ''traces'') else JUndef)"
  "get (otel_config x) ''metricsEndpoint'' = (if truthy_text (mo_endpoint x) then JStr (appendOtelSignalPath (the (mo_endpoint x)) ''metrics'') else JUndef)"
  by (simp_all add: otel_config_def get_JObj)

lemma read_otel_applied:
  assumes "managed_ok d"
  shows "read_otel (applyManagedDesired cfg d) = md_otel d"
  using assms unfolding read_otel_def Let_def plugin_entry_def
  by (intro managed_otel.equality) (auto simp: apply_members entry_enabled_def managed_allow_in managed_ok_def number_member_def truthy_text_def)

lemma project_headers_names:
  "map fst (Json.fields (project_headers d h)) =
     filter (\<lambda>n. to_lower n \<noteq> to_lower clawRouterProjectHeader \<and> to_lower n \<notin> set dynamicClawRouterHeaders) (map fst (Json.fields h)) @
       [clawRouterProjectHeader]"
proof -
  let ?ok = "\<lambda>n. to_lower n \<noteq> to_lower clawRouterProjectHeader \<and> to_lower n \<notin> set dynamicClawRouterHeaders"
  have "set_key k x ys = ys @ [(k, x)]" if "k \<notin> fst ` set ys" for k x ys
    using that by (induction ys) auto
  moreover have "clawRouterProjectHeader \<notin> fst ` set (filter (\<lambda>p. ?ok (fst p)) (Json.fields h))" by auto
  ultimately show ?thesis by (simp add: project_headers_def put_def filter_map o_def)
qed

lemma project_headers_get: "get (project_headers d h) clawRouterProjectHeader = (case md_project d of None \<Rightarrow> JUndef | Some t \<Rightarrow> JStr t)"
  by (simp add: project_headers_def)

lemma project_header_unlisted: "to_lower clawRouterProjectHeader \<notin> set dynamicClawRouterHeaders"
  by code_simp

lemma project_headers_ok:
  "filter (\<lambda>n. to_lower n = to_lower clawRouterProjectHeader) (map fst (Json.fields (project_headers d h))) = [clawRouterProjectHeader]"
  "\<not> list_ex (\<lambda>n. to_lower n \<in> set dynamicClawRouterHeaders) (map fst (Json.fields (project_headers d h)))"
  using project_header_unlisted unfolding project_headers_names by (auto simp: list_ex_iff filter_empty_conv)

lemma routed_state_applied:
  assumes "managed_ok d"
  shows "routed_state (applyManagedDesired cfg d) = (case (md_router d, md_project d) of (Some b, Some p) \<Rightarrow> Some (b, p) | _ \<Rightarrow> None)"
proof (cases "md_router d")
  case None
  have "get (plugin_entry (applyManagedDesired cfg d) ''clawrouter'') ''enabled'' = JBool (truthy_text (md_router d))"
    by (simp add: plugin_entry_def apply_members entry_enabled_def)
  then show ?thesis using None by (simp add: routed_state_def Let_def truthy_text_def)
next
  case (Some b)
  obtain p where p: "md_project d = Some p" using assms Some by (auto simp: managed_ok_def)
  have r: "truthy_text (md_router d)" using assms Some by (auto simp: managed_ok_def truthy_text_def)
  have "get (model_providers (applyManagedDesired cfg d)) ''clawrouter'' = get (apply_router d (as_record (get (get cfg ''models'') ''providers''))) ''clawrouter''"
    by (simp add: model_providers_def apply_members)
  then show ?thesis using r project_headers_ok project_headers_get [of d]
    by (simp add: routed_state_def Let_def apply_router_def Some p plugin_entry_def apply_members entry_enabled_def managed_allow_in get_JObj)
qed

text \<open>
  Whatever the configuration of the child was -- any JSON, with any plugins, providers, headers and channels -- after
  the control plane's desired state is written into it, reading the managed part gives exactly that desired state.
\<close>

lemma managed_state_round_trip:
  assumes "parseManagedDesired new_url v = Inr d"
  shows "readManagedState (applyManagedDesired cfg d) = d"
proof -
  have ok: "managed_ok d" using assms by (rule parsed_ok)
  have legacy: "text_member (get (as_record (get (model_providers (applyManagedDesired cfg d)) ''openai'')) ''baseUrl'') = None"
    by (simp add: model_providers_def apply_members)
  have dm: "one_of_or [''allowlist'', ''disabled''] ''pairing'' (JStr (md_dm d)) = md_dm d" using ok by (auto simp: managed_ok_def one_of_or_def)
  have group: "one_of_or [''disabled''] ''allowlist'' (JStr (md_group d)) = md_group d" using ok by (auto simp: managed_ok_def one_of_or_def)
  have level: "one_of_or [''error'', ''warn'', ''debug''] ''info'' (JStr (md_level d)) = md_level d" using ok by (auto simp: managed_ok_def one_of_or_def)
  have router: "map_option fst (routed_state (applyManagedDesired cfg d)) = md_router d" "map_option snd (routed_state (applyManagedDesired cfg d)) = md_project d"
    using ok by (cases "md_router d"; cases "md_project d"; simp add: routed_state_applied managed_ok_def)+
  have none: "md_legacy d = None" using ok by (simp add: managed_ok_def)
  show ?thesis
    unfolding readManagedState_def Let_def legacy read_otel_applied [OF ok] router
    by (intro managed_desired.equality) (simp_all add: apply_members read_model_def get_JObj dm group level none)
qed

subsection \<open>The ingress switch\<close>

lemma set_key_same: "map_of xs k = Some v \<Longrightarrow> set_key k v (set_key k w xs) = xs"
  by (induction xs) auto

lemma set_key_absent: "map_of xs k = None \<Longrightarrow> set_key k v xs = xs @ [(k, v)]"
  by (induction xs) auto

text \<open>\<open>enabled\<close> of a channel is a switch or absent.\<close>

definition switchable :: "jsval \<Rightarrow> bool" where
  "switchable v \<longleftrightarrow> is_record v \<longrightarrow> get v ''enabled'' = JUndef \<and> ''enabled'' \<notin> fst ` set (Json.fields v) \<or> is_bool (get v ''enabled'')"

definition channel_off :: "jsval \<Rightarrow> jsval" where
  "channel_off v = (if is_record v then put ''enabled'' (JBool False) v else v)"

definition channel_state :: "jsval \<Rightarrow> jsval" where
  "channel_state v = (if is_bool (get v ''enabled'') then get v ''enabled'' else JStr ''missing'')"

definition channel_on :: "jsval \<Rightarrow> jsval \<Rightarrow> jsval" where
  "channel_on st v = (if st = JStr ''missing'' then del ''enabled'' v else if is_bool st then put ''enabled'' st v else v)"

lemma record_fields: "is_record v \<Longrightarrow> JObj (Json.fields v) = v"
  by (cases v) (simp_all add: is_record_def)

lemma channel_restored: "is_record v \<Longrightarrow> switchable v \<Longrightarrow> channel_on (channel_state v) (channel_off v) = v"
proof -
  assume r: "is_record v" and s: "switchable v"
  obtain xs where v: "v = JObj xs" using record_fields [OF r] by metis
  show ?thesis
  proof (cases "is_bool (get v ''enabled'')")
    case True
    then have "map_of xs ''enabled'' = Some (get v ''enabled'')" by (auto simp: v get_JObj is_bool_def split: option.splits)
    then show ?thesis using True r
      by (auto simp: channel_on_def channel_state_def channel_off_def is_bool_def v put_def set_key_same)
  next
    case False
    then have "''enabled'' \<notin> fst ` set xs" using s r by (auto simp: switchable_def v)
    then have "set_key ''enabled'' x xs = xs @ [(''enabled'', x)]" "filter (\<lambda>p. fst p \<noteq> ''enabled'') xs = xs" for x
      by (force simp: set_key_absent map_of_eq_None_iff filter_id_conv)+
    then show ?thesis using False r
      by (simp add: channel_on_def channel_state_def channel_off_def v put_def del_def)
  qed
qed

lemma restore_as_on:
  "restore_channel channels (k, st) = (if is_record (get channels k) then put k (channel_on st (get channels k)) channels else channels)
    \<or> (restore_channel channels (k, st) = channels \<and> channel_on st (get channels k) = get channels k)"
  by (auto simp: restore_channel_def channel_on_def Let_def)

lemma set_key_at: "k \<notin> fst ` set xs \<Longrightarrow> set_key k v (xs @ (k, w) # ys) = xs @ (k, v) # ys"
  by (induction xs) auto

lemma restore_all:
  assumes "distinct (map fst (xs @ ys))" "\<forall>p\<in>set ys. switchable (snd p)"
  shows "foldl restore_channel (JObj (xs @ map (\<lambda>p. (fst p, channel_off (snd p))) ys))
     (map (\<lambda>p. (fst p, channel_state (snd p))) (filter (\<lambda>p. is_record (snd p)) ys)) = JObj (xs @ ys)"
  using assms
proof (induction ys arbitrary: xs)
  case (Cons p ys)
  obtain k v where p: "p = (k, v)" by (cases p)
  have k: "k \<notin> fst ` set xs" using Cons.prems(1) by (auto simp: p)
  have next_: "foldl restore_channel (JObj ((xs @ [p]) @ map (\<lambda>p. (fst p, channel_off (snd p))) ys))
     (map (\<lambda>p. (fst p, channel_state (snd p))) (filter (\<lambda>p. is_record (snd p)) ys)) = JObj ((xs @ [p]) @ ys)"
    using Cons.prems by (intro Cons.IH) auto
  show ?case
  proof (cases "is_record v")
    case False
    then show ?thesis using next_ by (simp add: p channel_off_def)
  next
    case True
    let ?c = "JObj (xs @ (k, channel_off v) # map (\<lambda>p. (fst p, channel_off (snd p))) ys)"
    have g: "get ?c k = channel_off v" using k by (simp add: get_JObj map_add_def map_of_eq_None_iff [THEN iffD2])
    have r: "is_record (channel_off v)" using True by (simp add: channel_off_def put_def is_record_def)
    have on: "channel_on (channel_state v) (channel_off v) = v" using True Cons.prems(2) by (intro channel_restored) (auto simp: p)
    have st: "channel_state v = JStr ''missing'' \<or> is_bool (channel_state v)" by (simp add: channel_state_def)
    have "restore_channel ?c (k, channel_state v) = put k v ?c"
      using on st r unfolding restore_channel_def Let_def fst_conv snd_conv g channel_on_def by auto
    also have "\<dots> = JObj ((xs @ [p]) @ map (\<lambda>p. (fst p, channel_off (snd p))) ys)"
      using k by (simp add: put_def set_key_at p)
    finally show ?thesis using next_ True by (simp add: p)
  qed
qed simp

lemma on_plugin_config_gets [simp]:
  "k \<noteq> ''plugins'' \<Longrightarrow> get (on_plugin_config f cfg) k = get cfg k"
  "readPluginConfig (on_plugin_config f cfg) = as_record (f (readPluginConfig cfg))"
  by (simp_all add: on_plugin_config_def readPluginConfig_def plugin_entry_def)

lemma readPluginConfig_frame [simp]: "k \<noteq> ''plugins'' \<Longrightarrow> readPluginConfig (put k x cfg) = readPluginConfig cfg"
  "k \<noteq> ''plugins'' \<Longrightarrow> readPluginConfig (on_record k f cfg) = readPluginConfig cfg"
  by (simp_all add: readPluginConfig_def plugin_entry_def)

lemma as_record_plugin [simp]: "as_record (readPluginConfig cfg) = readPluginConfig cfg"
  by (simp add: readPluginConfig_def)

abbreviation ingress_off :: "jsval \<Rightarrow> bool" where
  "ingress_off cfg \<equiv> get (readPluginConfig cfg) ''ingressDisabled'' = JBool True"

lemma ingress_disabled:
  assumes "\<not> ingress_off cfg"
  shows "get (setChannelIngress cfg False) ''channels'' = channels_off (as_record (get cfg ''channels''))"
    "ingress_off (setChannelIngress cfg False)"
    "get (readPluginConfig (setChannelIngress cfg False)) ''disabledChannelStates'' = channel_states (as_record (get cfg ''channels''))"
  using assms by (simp_all add: setChannelIngress_def Let_def)

lemma ingress_enabled:
  assumes "ingress_off cfg"
  shows "get (setChannelIngress cfg True) ''channels'' = foldl restore_channel (as_record (get cfg ''channels''))
      (Json.fields (get (readPluginConfig cfg) ''disabledChannelStates''))"
    "get (readPluginConfig (setChannelIngress cfg True)) ''ingressDisabled'' = JBool False"
  using assms by (simp_all add: setChannelIngress_def Let_def)

lemma ingress_kept:
  "ingress_off cfg \<Longrightarrow> get (setChannelIngress cfg False) ''channels'' = as_record (get cfg ''channels'')"
  "k \<notin> {''channels'', ''plugins''} \<Longrightarrow> get (setChannelIngress cfg b) k = get cfg k"
  by (simp_all add: setChannelIngress_def Let_def)

lemma channels_off_off:
  assumes "get (channels_off v) k = JObj ch"
  shows "get (JObj ch) ''enabled'' = JBool False"
proof -
  have "map_of (map (\<lambda>p. (fst p, channel_off (snd p))) xs) k = Some u \<Longrightarrow> is_record u \<Longrightarrow> get u ''enabled'' = JBool False" for xs u
    by (induction xs) (auto simp: channel_off_def split: if_splits)
  moreover have "map_of (map (\<lambda>p. (fst p, channel_off (snd p))) (Json.fields v)) k = Some (JObj ch)"
    using assms by (simp add: channels_off_def channel_off_def [abs_def] get_JObj split: option.splits)
  moreover have "is_record (JObj ch)" by (simp add: is_record_def)
  ultimately show ?thesis by blast
qed

lemma channels_of_record: "as_record v = JObj (Json.fields v)"
  by (cases v) (simp_all add: as_record_def Json.fields_def)

text \<open>
  The ingress switch takes nothing away: disabling turns every channel of the child off and remembers what it was, a
  second disabling changes no channel, and enabling brings back exactly the channels that were there, with every member
  of theirs, and touches nothing else of the configuration but the bookkeeping of the plugin.
\<close>

lemma ingress_switch_restores:
  assumes "\<not> ingress_off cfg" "distinct (map fst (Json.fields (get cfg ''channels'')))"
    and "\<forall>p\<in>set (Json.fields (get cfg ''channels'')). switchable (snd p)"
    and "shut = setChannelIngress cfg False"
  shows "ingress_off shut \<and>
    (\<forall>name ch. get (get shut ''channels'') name = JObj ch \<longrightarrow> get (JObj ch) ''enabled'' = JBool False) \<and>
    get (setChannelIngress shut False) ''channels'' = get shut ''channels'' \<and>
    get (setChannelIngress shut True) ''channels'' = as_record (get cfg ''channels'') \<and> \<not> ingress_off (setChannelIngress shut True) \<and>
    (\<forall>k. k \<notin> {''channels'', ''plugins''} \<longrightarrow> get (setChannelIngress shut True) k = get cfg k)"
proof -
  note d = ingress_disabled [OF assms(1), folded assms(4)]
  define chs where "chs = Json.fields (get cfg ''channels'')"
  have "foldl restore_channel (channels_off (as_record (get cfg ''channels''))) (Json.fields (channel_states (as_record (get cfg ''channels'')))) = JObj chs"
    using restore_all [of "[]" chs] assms(2,3) by (simp add: chs_def channels_off_def channel_states_def channel_off_def channel_state_def)
  moreover have "as_record (channels_off v) = channels_off v" for v by (simp add: channels_off_def)
  ultimately have "get (setChannelIngress shut True) ''channels'' = as_record (get cfg ''channels'')"
    using ingress_enabled(1) [OF d(2)] unfolding d(1,3) channels_of_record [of "get cfg ''channels''"] chs_def by simp
  moreover have "get (setChannelIngress shut False) ''channels'' = get shut ''channels''"
    using ingress_kept(1) [OF d(2)] by (simp add: d(1) channels_off_def)
  moreover have "\<not> ingress_off (setChannelIngress shut True)" using ingress_enabled(2) [OF d(2)] by simp
  moreover have "k \<notin> {''channels'', ''plugins''} \<longrightarrow> get (setChannelIngress shut True) k = get cfg k" for k
    using ingress_kept(2) [of k shut True] ingress_kept(2) [of k cfg False] by (simp add: assms(4))
  ultimately show ?thesis using d channels_off_off by metis
qed

subsection \<open>Applying a desired state\<close>

lemma plugin_config_keeps [simp]:
  "name \<noteq> ''crabhelm'' \<Longrightarrow> plugin_entry (on_plugin_config f cfg) name = plugin_entry cfg name"
  "get (get (on_plugin_config f cfg) ''plugins'') ''allow'' = get (get cfg ''plugins'') ''allow''"
  by (simp_all add: plugin_entry_def on_plugin_config_def)

lemma plugin_config_unmanaged [simp]: "readManagedState (on_plugin_config f cfg) = readManagedState cfg"
proof -
  have "model_providers (on_plugin_config f cfg) = model_providers cfg" by (simp add: model_providers_def)
  moreover from this have "routed_state (on_plugin_config f cfg) = routed_state cfg" by (simp add: routed_state_def)
  moreover have "read_otel (on_plugin_config f cfg) = read_otel cfg" by (simp add: read_otel_def)
  ultimately show ?thesis by (simp add: readManagedState_def)
qed

lemma apply_command_cases:
  assumes "apply_command env params cfg = (r, cfg2)"
  obtains (kept) "cfg2 = cfg" "\<And>answer. r = Inr answer \<Longrightarrow> get answer ''ok'' = JBool False"
  | (written) d generation h where
      "apply_inputs env params = Inr (d, generation, h, managedHash (cx_sha env) (readManagedState cfg))"
      "cfg2 = applied_config env cfg d generation h"
      "r = Inr (child_answer (cx_id env) [(''generation'', jint generation), (''desiredHash'', JStr h),
         (''managedHash'', JStr (managedHash (cx_sha env) (readManagedState (applyManagedDesired cfg d))))])"
proof (cases "apply_inputs env params")
  case (Inl e)
  then have "cfg2 = cfg" "r = Inl e" using assms by (simp_all add: apply_command_def)
  then show thesis by (intro kept) simp_all
next
  case (Inr inputs)
  obtain d generation h expected where i: "inputs = (d, generation, h, expected)" by (cases inputs) auto
  show thesis
  proof (cases "if md_slack d then hasResolvableSlackCredentials (cx_secrets env) cfg else Inr True")
    case (Inl e)
    then have "cfg2 = cfg" "r = Inl e" using assms Inr by (simp_all add: apply_command_def i)
    then show thesis by (intro kept) simp_all
  next
    case ready: (Inr ready)
    have failed: "get (childCommandFailure (cx_id env) code) ''ok'' = JBool False" for code by (simp add: childCommandFailure_def get_JObj)
    show thesis
    proof (cases "ready \<and> managedHash (cx_sha env) (readManagedState cfg) = expected")
      case True
      then show thesis using assms Inr ready written by (simp add: apply_command_def i Let_def)
    next
      case False
      then have "cfg2 = cfg" "\<exists>code. r = Inr (childCommandFailure (cx_id env) code)"
        using assms Inr ready by (auto simp: apply_command_def i Let_def split: if_splits)
      then show thesis using failed by (intro kept) auto
    qed
  qed
qed

text \<open>
  An apply that is answered with success found the managed state the control plane had read, and after it the managed state
  of the child is the desired one and its status reports the generation and the hash of the desired state;
  any other apply leaves the configuration alone.
\<close>

lemma apply_is_reported:
  assumes "apply_command env params cfg = (Inr answer, cfg2)" "get answer ''ok'' = JBool True"
  shows "\<exists>d generation h. apply_inputs env params = Inr (d, generation, h, managedHash (cx_sha env) (readManagedState cfg)) \<and>
    readManagedState cfg2 = d \<and> get (childStatus env cfg2) ''appliedGeneration'' = jint generation \<and>
    get (childStatus env cfg2) ''appliedDesiredHash'' = JStr h \<and>
    get (childStatus env cfg2) ''managedHash'' = get answer ''managedHash''"
  using assms(1)
proof (cases rule: apply_command_cases)
  case kept
  then show ?thesis using assms(2) by simp
next
  case (written d generation h)
  from written(1) obtain v where "parseManagedDesired (cx_url env) v = Inr d" by (auto simp: apply_inputs_def)
  then have d: "readManagedState (applyManagedDesired cfg d) = d" by (rule managed_state_round_trip)
  have config: "get (readPluginConfig cfg2) ''appliedGeneration'' = jint generation" "get (readPluginConfig cfg2) ''appliedDesiredHash'' = JStr h"
    "get (readPluginConfig cfg2) ''appliedManagedHash'' = JStr (managedHash (cx_sha env) d)" "readManagedState cfg2 = d"
    by (simp_all add: written(2) applied_config_def Let_def d)
  have answer: "get answer ''managedHash'' = JStr (managedHash (cx_sha env) d)"
    using written(3) by (simp add: child_answer_def get_JObj d)
  show ?thesis using written(1) config answer by (auto simp: childStatus_def Let_def get_JObj jint_def)
qed

lemma apply_refused_keeps:
  assumes "apply_command env params cfg = (r, cfg2)" "\<And>answer. r = Inr answer \<Longrightarrow> get answer ''ok'' \<noteq> JBool True"
  shows "cfg2 = cfg"
  using assms(1) by (cases rule: apply_command_cases) (use assms(2) in \<open>auto simp: child_answer_def get_JObj\<close>)

subsection \<open>Counting the active runs\<close>

definition is_active :: "jsval \<Rightarrow> bool" where
  "is_active row \<longleftrightarrow> get (as_record row) ''hasActiveRun'' = JBool True"

lemma count_active_rows:
  "\<forall>row\<in>set rows. is_bool (get (as_record row) ''hasActiveRun'') \<Longrightarrow> count_active rows n = Inr (n + length (filter is_active rows))"
  by (induction rows arbitrary: n) (auto simp: is_active_def is_bool_def)

text \<open>Over any list of sessions that stays as it is, of at most 10000 rows, the scan counts every active row once, whatever the page is.\<close>

lemma scan_counts_all:
  assumes "\<And>k. k \<le> length rows \<Longrightarrow> session_page env k = Inr (take 200 (drop k rows), Some (int (length rows)))"
    and "\<forall>row\<in>set rows. is_bool (get (as_record row) ''hasActiveRun'')"
  shows "0 < pages \<Longrightarrow> offset \<le> length rows \<Longrightarrow> length rows \<le> offset + 200 * pages \<Longrightarrow>
    scan_sessions env pages offset n = Inr (n + length (filter is_active (drop offset rows)))"
proof (induction pages arbitrary: offset n)
  case (Suc pages)
  let ?page = "take 200 (drop offset rows)"
  have rows: "\<forall>row\<in>set ?page. is_bool (get (as_record row) ''hasActiveRun'')" using assms(2) by (meson in_set_dropD in_set_takeD)
  have rest: "length (filter is_active (drop offset rows)) = length (filter is_active ?page) + length (filter is_active (drop (offset + length ?page) rows))"
  proof -
    have "drop offset rows = ?page @ drop (offset + length ?page) rows"
      using append_take_drop_id [of 200 "drop offset rows"] by (cases "200 \<le> length rows - offset") (simp_all add: add.commute)
    then show ?thesis by (metis filter_append length_append)
  qed
  show ?case
  proof (cases "length rows \<le> offset + length ?page")
    case True
    then have page: "?page = drop offset rows" by simp
    show ?thesis using True assms(1) [OF Suc.prems(2)] rows unfolding page by (simp add: count_active_rows Let_def)
  next
    case False
    then have full: "length ?page = 200" by auto
    then have more: "0 < pages" "offset + 200 \<le> length rows" "length rows \<le> offset + 200 + 200 * pages" "\<not> length rows \<le> offset + 200" "?page \<noteq> []"
      using False Suc.prems(3) by auto
    show ?thesis using Suc.IH [OF more(1-3)] more assms(1) [OF Suc.prems(2)] rest full
      by (simp add: count_active_rows [OF rows] Let_def)
  qed
qed simp

lemma drained_means_idle:
  assumes "\<And>k. k \<le> length rows \<Longrightarrow> session_page env k = Inr (take 200 (drop k rows), Some (int (length rows)))"
    and "\<forall>row\<in>set rows. is_bool (get (as_record row) ''hasActiveRun'')" "length rows \<le> 10000"
  shows "probeActiveChildRuns env = Inr [(''drained'', JBool (\<not> list_ex is_active rows)), (''activeRuns'', jint (int (length (filter is_active rows)))),
    (''checkedAt'', JStr (cx_time env))]"
  using scan_counts_all [OF assms(1,2), of 50 0 0] assms(3)
  by (simp add: probeActiveChildRuns_def list_ex_iff filter_empty_conv)

end
