(* ===== verification/Spec2Isabelle.thy ===== *)
theory Spec2Isabelle
  imports StateStore Coordinator_Tokens Json_Parse Reconciler_Demo Governance_Life Envelope Controller_Demo ClawRouter_Demo Node_Rules
begin

text \<open>
  Crabhelm is a control plane for a fleet of hosted agents ("claws"). A client creates and changes claws in the
  registry; the reconciler brings each claw to its desired state through a provider and an inference router; the
  child on the claw's host applies the policy it is sent; the coordinator of a claw hands the turns of its
  conversations to its runtime and posts the answers; the governance registry says who may act for whom, and the
  governance controller issues one-time grants for calls of GitHub and executes them. This development models that
  core in HOL, from the source, and proves what makes it correct. Every definition computes.

  \<^bold>\<open>Theories and sources\<close>

  \<^item> \<open>Prelude\<close>: errors (the classes of src/errors.ts), results, computations with state (an \<open>async\<close> method that
    nothing interrupts) and the calculus of their invariants. \<open>Handlers\<close>: handlers that wait, one step at each
    \<open>await\<close>, run alone or among others.
  \<^item> \<open>JsString\<close>, \<open>Json\<close>, \<open>Json_Parse\<close>, \<open>Base64\<close>, \<open>Text\<close>: what the source uses of the JavaScript library (strings,
    JSON values, \<open>JSON.parse\<close> and \<open>JSON.stringify\<close>, base64url, UTF-8), and \<open>canonicalJson\<close>.
  \<^item> \<open>StateStore\<close>: src/state.ts (memory, SQLite) and worker/state.ts (Durable Object). A store is the list of its
    entries; the locales \<open>state_store\<close> and \<open>bounded_store\<close> are the interface, interpreted for all three.
  \<^item> \<open>Types\<close>, \<open>Errors\<close>, \<open>Domain\<close>, \<open>Domain_Rules\<close>: src/types.ts, src/errors.ts, src/domain.ts: records of claws,
    their creation and updates, the policy of a child and its hash.
  \<^item> \<open>Registry\<close>, \<open>Registry_Safety\<close>: src/registry.ts over three stores. Every operation moves the claws by
    \<open>claw_change\<close>; optimistic writing is the locale \<open>versioned_store\<close>, interpreted as \<open>claws\<close>.
  \<^item> \<open>Reconciler\<close>, \<open>Reconciler_Safety\<close>, \<open>Reconciler_Removal\<close>, \<open>Reconciler_Progress\<close>, \<open>Reconciler_Demo\<close>:
    src/reconciler.ts. A run computes what it has due from the claw it read and the answers it got; \<open>fleet_step\<close>
    interleaves the accesses of any number of runs with the operations of clients.
  \<^item> \<open>ClawRouter\<close>, \<open>ClawRouter_Rules\<close>, \<open>ClawRouter_Demo\<close>: src/clawrouter.ts.
  \<^item> \<open>Node_Config\<close>, \<open>Node_Child\<close>, \<open>Node_Rules\<close>: the child's commands of src/node-control.ts and the part of its
    configuration that they manage.
  \<^item> \<open>Coordinator\<close>, \<open>Coordinator_Safety\<close>, \<open>Coordinator_Runs\<close>, \<open>Coordinator_Tokens\<close>: worker/claw-coordinator.ts with
    worker/slack-delivery.ts and worker/slack-config.ts. A handler is a thread of segments, cut where it awaits
    something outside the object; \<open>reach\<close> is reachability by any events in any order.
  \<^item> \<open>Tokens\<close>, \<open>Envelope\<close>: worker/security.ts, worker/slack-signature.ts, worker/turn-envelope.ts, worker/vault.ts.
  \<^item> \<open>Governance_Types\<close>, \<open>Governance\<close>, \<open>Governance_Rules\<close>: src/governance-types.ts and src/governance.ts.
    \<open>Governance_Registry\<close>, \<open>Governance_Changes\<close>, \<open>Governance_Steps\<close>, \<open>Governance_Safety\<close>, \<open>Governance_Life\<close>:
    src/governance-registry.ts; every operation makes only the changes of \<open>gov_change\<close>, and the locales
    \<open>named_records\<close> and \<open>kept_records\<close> give the history of a record, interpreted on the tables.
  \<^item> \<open>Governance_Controller\<close>, \<open>Controller_Safety\<close>, \<open>Controller_Calls\<close>, \<open>Controller_Demo\<close>:
    worker/governance-controller.ts over the governance registry, the coordinators, the vault and the audit queue.

  \<^bold>\<open>What the lemmas show\<close>

  \<^item> Coordinator: rows stay well formed, settled jobs stay settled, an answer is posted once and by one delivery at
    a time, grants are used once.
  \<^item> Data: canonical JSON determines its value; tokens and envelopes are read back where they belong and nowhere else;
    the stores refine each other (on keys on which their orders agree).
  \<^item> Claws: what creation accepts is well formed and stays so; updates keep identity and count; the policy hash binds what
    the child enforces.
  \<^item> Fleet: removal goes through its stages on evidence, is never undone, and is completed when the provider
    answers; no write is stale; runs end; a failure touches nothing but the observed state.
  \<^item> Router and child: observations are fresh and about the claw they are returned for; the router is told exactly what
    the fleet wants; the child's managed configuration is what it was told, and its status says so.
  \<^item> Governance: who may act for whom; decided records are final; an approval is spent once. The controller, with any number of
    handlers interleaved at every \<open>await\<close> and any faults: one call of GitHub for an invocation, for what the token binds
    and with the credential it names; grants only for permitted and approved actions; outcomes always reported.

  \<^bold>\<open>Bounds and fuel\<close>

  The sequence of segments that a coordinator's event runs without waiting is at most 25 long (the alarm); \<open>run_thread\<close>
  has fuel 64, and would park the rest as a thread if it ended. \<open>json_parse\<close> has two calls for each character and
  two more, which bound the nesting. A run of the reconciler writes at most three times (\<open>runs_end\<close>), so \<open>finish_run\<close>
  has fuel 3. Revisions are exact below \<open>2^53\<close>: \<open>step_limit\<close> bounds the steps of a fleet by a number that no
  installation reaches. The scan of active runs reads 50 pages as the source does. Nothing else is bounded.

  \<^bold>\<open>Where the model departs from the program\<close>

  \<^item> Strings are lists of characters below 256. Text beyond (in a token's payload, an answer of the router or of GitHub)
    counts as malformed where the program would read it. Timestamps are milliseconds, not their ISO texts.
  \<^item> Numbers are rationals with the special values; printing has at most 20 decimals, without exponents (so an issue
    number from \<open>10^21\<close> on is printed with its digits), and \<open>budget_micros\<close> rounds the exact product.
  \<^item> \<open>localeCompare\<close> compares punctuation (by code unit), then digits, then letters, and the case of letters last; ICU's
    order of punctuation and of accented letters differs. Only the order of the members of a canonical text, of
    the lists that a client is shown, and the choice among entries of one age rest on it.
  \<^item> Values in a list of fallback models that are not strings are refused (the program converts them).
    \<open>updateInvocation\<close> takes the status and the time, which is all that its callers pass. Records written before the
    members \<open>router\<close> and \<open>otel\<close> existed are not represented.
  \<^item> An operation of a registry, a call of a coordinator's method or of the vault is one step when it is made from
    the controller: the registries serialise their operations, and the methods of a coordinator called there await
    only its own storage. The router's reads are asked in one moment.
  \<^item> Parameters, never defined here: SHA-256, HMAC, AES-GCM, \<open>randomUUID\<close> and the clock, the URL parser, the answers of the provider,
    the router, GitHub, Slack and the child's command line, and which calls fail. What is relied on is stated where it is used (no collision
    on the texts at hand, decryption undoes encryption only for its own additional data, fresh names).

  \<^bold>\<open>Not modelled\<close>

  The provider adapters of src/providers.ts and the GitHub profile client (HTTP); the parent side of src/node-control.ts
  and the child's health probe (host APIs and processes); aws/postgres-coordinator.ts and aws/postgres-state.ts, whose
  concurrency is PostgreSQL's; HTTP routes, sessions, OAuth redirects, Slack's web API, load-balancer identity; tool
  schemas; managed context texts; generated bootstrap scripts; the browser application and deployment scripts.
\<close>

end
